(* ===== verification/Prelude.thy ===== *)
theory Prelude
  imports Complex_Main "HOL-Library.AList" "HOL-Library.Char_ord" "HOL-Library.List_Lexorder"
    "HOL-Library.Sublist"
begin

text \<open>
  Shared foundations of the rs-camera development.

  \<^item> Python values: exceptions (\<open>exn\<close>), the operations the sources use on strings
    (\<open>strip\<close>, \<open>split\<close>, \<open>splitlines\<close>, \<open>join\<close>, \<open>isdigit\<close>, \<open>int\<close>, \<open>str\<close>, \<open>repr\<close>),
    JSON-like values (\<open>pyval\<close>) and insertion-ordered dictionaries.
    Strings are ASCII \<open>char\<close> lists; Python integers are \<open>int\<close> (or \<open>nat\<close> where the code
    can only produce non-negative ones); Python floats are exact rationals, so rounding of
    IEEE arithmetic is not modelled.
  \<^item> Stateful Python: a method is a function from a state to a result-or-exception and the
    state left behind (\<open>py\<close>), with the combinators \<open>py_return\<close>, \<open>py_raise\<close>, \<open>py_bind\<close>,
    \<open>py_catch\<close> and \<open>py_for\<close>, and a weakest-precondition transformer \<open>wp\<close> whose equations
    (collection \<open>wp_simps\<close>) carry the proofs about them.
\<close>

named_theorems py_simps \<open>equations of the state-and-exception combinators\<close>
named_theorems wp_simps \<open>weakest preconditions of the combinators and of the methods built on them\<close>
named_theorems str_simps \<open>facts on the Python string operations\<close>

section \<open>Exceptions\<close>

text \<open>
  \<open>Diverged\<close> is not a Python exception: it is the value a bounded loop of the model
  returns when its fuel is used up, and no \<open>except\<close> clause catches it.
\<close>

datatype exn_class =
    ValueError | RuntimeError | KeyError | IndexError | TypeError | OSError
  | AttributeError | AssertionError | ZeroDivisionError | StatisticsError | TimeoutExpired | CalledProcessError | JSONDecodeError | SystemExit | Diverged

datatype exn = Exn (exn_kind: exn_class) (exn_msg: string)

type_synonym 'a res = "exn + 'a"

abbreviation value_error :: "string \<Rightarrow> 'a res" where
  "value_error m \<equiv> Inl (Exn ValueError m)"

abbreviation runtime_error :: "string \<Rightarrow> 'a res" where
  "runtime_error m \<equiv> Inl (Exn RuntimeError m)"

text \<open>\<open>except Exception\<close> catches every modelled class but \<open>SystemExit\<close> and \<open>Diverged\<close>.\<close>

definition catchable :: "exn \<Rightarrow> bool" where
  "catchable e \<longleftrightarrow> exn_kind e \<noteq> Diverged \<and> exn_kind e \<noteq> SystemExit"

lemma catchable_class [simp]:
  "catchable (Exn RuntimeError m)" "catchable (Exn ValueError m)" "catchable (Exn OSError m)"
  "catchable (Exn KeyError m)" "catchable (Exn TimeoutExpired m)"
  by (simp_all add: catchable_def)

definition res_bind :: "'a res \<Rightarrow> ('a \<Rightarrow> 'b res) \<Rightarrow> 'b res" where
  "res_bind m f = (case m of Inl e \<Rightarrow> Inl e | Inr a \<Rightarrow> f a)"

lemma res_bind_simps [simp, py_simps]:
  "res_bind (Inl e) f = Inl e"
  "res_bind (Inr a) f = f a"
  by (simp_all add: res_bind_def)

lemma res_bind_Inr_iff: "res_bind m f = Inr b \<longleftrightarrow> (\<exists>a. m = Inr a \<and> f a = Inr b)"
  by (cases m) auto

lemma res_bind_Inl_iff:
  "res_bind m f = Inl e \<longleftrightarrow> m = Inl e \<or> (\<exists>a. m = Inr a \<and> f a = Inl e)"
  by (cases m) auto

fun res_map :: "('a \<Rightarrow> 'b res) \<Rightarrow> 'a list \<Rightarrow> 'b list res" where
  "res_map f [] = Inr []"
| "res_map f (x # xs) = res_bind (f x) (\<lambda>y. res_bind (res_map f xs) (\<lambda>ys. Inr (y # ys)))"

lemma res_map_Inr_iff:
  "res_map f xs = Inr ys \<longleftrightarrow> list_all2 (\<lambda>x y. f x = Inr y) xs ys"
proof (induction xs arbitrary: ys)
  case Nil
  then show ?case by auto
next
  case (Cons x xs)
  then show ?case by (cases ys) (auto simp: res_bind_Inr_iff)
qed

lemma res_map_pure [simp]: "res_map (\<lambda>x. Inr (g x)) xs = Inr (map g xs)"
  by (induction xs) auto

lemma res_map_mem: "res_map f xs = Inr ys \<Longrightarrow> x \<in> set xs \<Longrightarrow> \<exists>y \<in> set ys. f x = Inr y"
  by (induction xs arbitrary: ys) (auto simp: res_bind_Inr_iff)

lemma res_map_from: "res_map f xs = Inr ys \<Longrightarrow> y \<in> set ys \<Longrightarrow> \<exists>x \<in> set xs. f x = Inr y"
  by (induction xs arbitrary: ys) (auto simp: res_bind_Inr_iff)

lemma res_map_projection:
  "res_map f xs = Inr ys \<Longrightarrow> (\<And>x y. f x = Inr y \<Longrightarrow> p y = q x) \<Longrightarrow> map p ys = map q xs"
  by (induction xs arbitrary: ys) (auto simp: res_bind_Inr_iff)

section \<open>State and exceptions\<close>

type_synonym ('s, 'a) py = "'s \<Rightarrow> 'a res \<times> 's"

definition py_return :: "'a \<Rightarrow> ('s, 'a) py" where
  "py_return a = (\<lambda>s. (Inr a, s))"

definition py_raise :: "exn \<Rightarrow> ('s, 'a) py" where
  "py_raise e = (\<lambda>s. (Inl e, s))"

definition py_res :: "'a res \<Rightarrow> ('s, 'a) py" where
  "py_res r = (\<lambda>s. (r, s))"

definition py_bind :: "('s, 'a) py \<Rightarrow> ('a \<Rightarrow> ('s, 'b) py) \<Rightarrow> ('s, 'b) py" where
  "py_bind m f = (\<lambda>s. case m s of (Inl e, s') \<Rightarrow> (Inl e, s') | (Inr a, s') \<Rightarrow> f a s')"

definition py_seq :: "('s, 'a) py \<Rightarrow> ('s, 'b) py \<Rightarrow> ('s, 'b) py" where
  "py_seq m n = py_bind m (\<lambda>_. n)"

text \<open>\<open>try: m except Exception as e: h e\<close>\<close>

definition py_catch :: "('s, 'a) py \<Rightarrow> (exn \<Rightarrow> ('s, 'a) py) \<Rightarrow> ('s, 'a) py" where
  "py_catch m h = (\<lambda>s. case m s of
      (Inl e, s') \<Rightarrow> if catchable e then h e s' else (Inl e, s')
    | (Inr a, s') \<Rightarrow> (Inr a, s'))"

text \<open>\<open>try: m except (K1, K2, ...) as e: h e\<close>\<close>

definition py_except :: "exn_class list \<Rightarrow> ('s, 'a) py \<Rightarrow> (exn \<Rightarrow> ('s, 'a) py) \<Rightarrow> ('s, 'a) py" where
  "py_except ks m h = (\<lambda>s. case m s of
      (Inl e, s') \<Rightarrow> if exn_kind e \<in> set ks then h e s' else (Inl e, s')
    | (Inr a, s') \<Rightarrow> (Inr a, s'))"

abbreviation py_skip :: "('s, unit) py" where
  "py_skip \<equiv> py_return ()"

fun py_for :: "'a list \<Rightarrow> ('a \<Rightarrow> ('s, unit) py) \<Rightarrow> ('s, unit) py" where
  "py_for [] f = py_return ()"
| "py_for (x # xs) f = py_seq (f x) (py_for xs f)"

fun py_map :: "'a list \<Rightarrow> ('a \<Rightarrow> ('s, 'b) py) \<Rightarrow> ('s, 'b list) py" where
  "py_map [] f = py_return []"
| "py_map (x # xs) f = py_bind (f x) (\<lambda>y. py_bind (py_map xs f) (\<lambda>ys. py_return (y # ys)))"

definition py_when :: "bool \<Rightarrow> ('s, unit) py \<Rightarrow> ('s, unit) py" where
  "py_when b m = (if b then m else py_return ())"

lemmas py_defs = py_return_def py_raise_def py_res_def py_bind_def py_seq_def py_catch_def py_when_def

subsection \<open>Weakest preconditions\<close>

text \<open>
  \<open>wp m Q E s\<close>: run from \<open>s\<close>, \<open>m\<close> either returns a value and a state that satisfy \<open>Q\<close>
  or raises an exception that, with the state left behind, satisfies \<open>E\<close>.
\<close>

definition wp :: "('s, 'a) py \<Rightarrow> ('a \<Rightarrow> 's \<Rightarrow> bool) \<Rightarrow> (exn \<Rightarrow> 's \<Rightarrow> bool) \<Rightarrow> 's \<Rightarrow> bool" where
  "wp m Q E s = (case m s of (Inl e, s') \<Rightarrow> E e s' | (Inr a, s') \<Rightarrow> Q a s')"

lemma wp_return [wp_simps]: "wp (py_return a) Q E s = Q a s"
  by (simp add: wp_def py_defs)

lemma wp_raise [wp_simps]: "wp (py_raise e) Q E s = E e s"
  by (simp add: wp_def py_defs)

lemma wp_res [wp_simps]:
  "wp (py_res r) Q E s = (case r of Inl e \<Rightarrow> E e s | Inr a \<Rightarrow> Q a s)"
  by (simp add: wp_def py_defs)

lemma wp_bind [wp_simps]:
  "wp (py_bind m f) Q E s = wp m (\<lambda>a s'. wp (f a) Q E s') E s"
  by (auto simp: wp_def py_defs split: prod.splits sum.splits)

lemma wp_seq [wp_simps]: "wp (py_seq m n) Q E s = wp m (\<lambda>_ s'. wp n Q E s') E s"
  by (simp add: py_seq_def wp_bind)

lemma wp_catch [wp_simps]:
  "wp (py_catch m h) Q E s =
     wp m Q (\<lambda>e s'. if catchable e then wp (h e) Q E s' else E e s') s"
  by (auto simp: wp_def py_defs split: prod.splits sum.splits)

lemma wp_except [wp_simps]:
  "wp (py_except ks m h) Q E s =
     wp m Q (\<lambda>e s'. if exn_kind e \<in> set ks then wp (h e) Q E s' else E e s') s"
  by (auto simp: wp_def py_except_def split: prod.splits sum.splits)

lemma wp_when [wp_simps]:
  "wp (py_when b m) Q E s = (if b then wp m Q E s else Q () s)"
  by (auto simp: py_when_def wp_return)

lemma wp_True [simp]: "wp m (\<lambda>_ _. True) (\<lambda>_ _. True) s"
  by (simp add: wp_def split: prod.splits sum.splits)

lemma wp_mono:
  assumes "wp m Q E s" "\<And>a s'. Q a s' \<Longrightarrow> Q' a s'" "\<And>e s'. E e s' \<Longrightarrow> E' e s'"
  shows "wp m Q' E' s"
  using assms by (auto simp: wp_def split: prod.splits sum.splits)

lemma wp_step:
  assumes "wp m R E s" "\<And>a s'. R a s' \<Longrightarrow> Q a s'"
  shows "wp m Q E s"
  using assms by (rule wp_mono) auto

lemma wp_conj:
  "wp m Q E s \<Longrightarrow> wp m Q' E' s \<Longrightarrow> wp m (\<lambda>a s. Q a s \<and> Q' a s) (\<lambda>e s. E e s \<and> E' e s) s"
  by (auto simp: wp_def split: prod.splits sum.splits)

lemma wp_for:
  assumes step: "\<And>x s. x \<in> set xs \<Longrightarrow> I s \<Longrightarrow> wp (f x) (\<lambda>_. I) E s"
    and init: "I s"
  shows "wp (py_for xs f) (\<lambda>_. I) E s"
  using assms
proof (induction xs arbitrary: s)
  case Nil
  then show ?case by (simp add: wp_simps)
next
  case (Cons x xs)
  have "wp (f x) (\<lambda>_. I) E s" using Cons.prems by simp
  then have "wp (f x) (\<lambda>_ s'. wp (py_for xs f) (\<lambda>_. I) E s') E s"
    by (rule wp_mono) (use Cons in auto)
  then show ?case by (simp add: wp_simps)
qed

text \<open>
  A \<open>while True\<close> loop that is left by \<open>break\<close>, \<open>return\<close> or an exception: the body says
  \<open>Some a\<close> to leave. The fuel bounds the number of iterations.
\<close>

fun py_loop :: "nat \<Rightarrow> ('s, 'a option) py \<Rightarrow> ('s, 'a) py" where
  "py_loop 0 body = py_raise (Exn Diverged [])"
| "py_loop (Suc n) body = py_bind body (\<lambda>r. case r of None \<Rightarrow> py_loop n body | Some a \<Rightarrow> py_return a)"

text \<open>Enough fuel for a measure that every further iteration decreases: the loop ends.\<close>

lemma py_loop_wp:
  assumes body: "\<And>s. I s \<Longrightarrow> wp body (\<lambda>r s'. case r of None \<Rightarrow> I s' \<and> f s' < f s | Some a \<Rightarrow> Q a s') E s"
    and "I s" "f s < n"
  shows "wp (py_loop n body) Q E s"
  using assms(2,3)
proof (induction n arbitrary: s)
  case (Suc n)
  have "wp body (\<lambda>r s'. wp (case r of None \<Rightarrow> py_loop n body | Some a \<Rightarrow> py_return a) Q E s') E s"
    by (rule wp_step [OF body [OF Suc.prems(1)]])
      (use Suc in \<open>auto simp: wp_simps split: option.splits\<close>)
  then show ?case by (simp add: wp_simps)
qed simp

text \<open>Partial correctness of the loop needs no fuel: running out of it is the exception \<open>Diverged\<close>.\<close>

lemma py_loop_partial:
  assumes body: "\<And>s. I s \<Longrightarrow> wp body (\<lambda>r s'. case r of None \<Rightarrow> I s' | Some a \<Rightarrow> Q a s') E s"
    and stop: "\<And>s. I s \<Longrightarrow> E (Exn Diverged []) s" and "I s"
  shows "wp (py_loop n body) Q E s"
  using assms(3)
proof (induction n arbitrary: s)
  case (Suc n)
  have "wp body (\<lambda>r s'. wp (case r of None \<Rightarrow> py_loop n body | Some a \<Rightarrow> py_return a) Q E s') E s"
    by (rule wp_step [OF body [OF Suc.prems(1)]])
      (use Suc in \<open>auto simp: wp_simps split: option.splits\<close>)
  then show ?case by (simp add: wp_simps)
qed (simp add: wp_simps stop)

text \<open>Reading a run back from \<open>wp\<close>.\<close>

lemma wp_returns:
  assumes "m s = (Inr a, s')" "wp m Q E s"
  shows "Q a s'"
  using assms by (simp add: wp_def)

lemma wp_raises:
  assumes "m s = (Inl e, s')" "wp m Q E s"
  shows "E e s'"
  using assms by (simp add: wp_def)

section \<open>Python strings\<close>

definition char_code :: "char \<Rightarrow> nat" where
  "char_code c = of_char c"

definition is_ws :: "char \<Rightarrow> bool" where
  "is_ws c = (9 \<le> char_code c \<and> char_code c \<le> 13 \<or> 28 \<le> char_code c \<and> char_code c \<le> 32)"

definition is_digit :: "char \<Rightarrow> bool" where
  "is_digit c = (48 \<le> char_code c \<and> char_code c \<le> 57)"

definition py_isdigit :: "string \<Rightarrow> bool" where
  "py_isdigit s = (s \<noteq> [] \<and> list_all is_digit s)"

definition lstrip :: "string \<Rightarrow> string" where
  "lstrip s = dropWhile is_ws s"

definition strip :: "string \<Rightarrow> string" where
  "strip s = rev (lstrip (rev (lstrip s)))"

definition lower_char :: "char \<Rightarrow> char" where
  "lower_char c = (if 65 \<le> char_code c \<and> char_code c \<le> 90 then char_of (char_code c + 32) else c)"

definition upper_char :: "char \<Rightarrow> char" where
  "upper_char c = (if 97 \<le> char_code c \<and> char_code c \<le> 122 then char_of (char_code c - 32) else c)"

definition py_lower :: "string \<Rightarrow> string" where
  "py_lower s = map lower_char s"

definition py_upper :: "string \<Rightarrow> string" where
  "py_upper s = map upper_char s"

text \<open>\<open>s.split(c)\<close> for a one-character separator.\<close>

fun split_on :: "char \<Rightarrow> string \<Rightarrow> string list" where
  "split_on c [] = [[]]"
| "split_on c (x # xs) =
     (if x = c then [] # split_on c xs
      else (case split_on c xs of [] \<Rightarrow> [[x]] | t # ts \<Rightarrow> (x # t) # ts))"

text \<open>\<open>s.split(c, 1)\<close> when \<open>c\<close> occurs in \<open>s\<close>: the text before and after the first \<open>c\<close>.\<close>

definition split_once :: "char \<Rightarrow> string \<Rightarrow> string \<times> string" where
  "split_once c s = (takeWhile (\<lambda>x. x \<noteq> c) s, tl (dropWhile (\<lambda>x. x \<noteq> c) s))"

text \<open>\<open>s.split(c, n)\<close>: at most \<open>n\<close> splits, from the left.\<close>

fun split_max :: "char \<Rightarrow> nat \<Rightarrow> string \<Rightarrow> string list" where
  "split_max c 0 s = [s]"
| "split_max c (Suc n) s =
     (if c \<in> set s then fst (split_once c s) # split_max c n (snd (split_once c s)) else [s])"

text \<open>\<open>s.split()\<close>: the maximal runs of non-blank characters.\<close>

function split_ws :: "string \<Rightarrow> string list" where
  "split_ws s =
     (let t = lstrip s in
      if t = [] then []
      else takeWhile (\<lambda>c. \<not> is_ws c) t # split_ws (dropWhile (\<lambda>c. \<not> is_ws c) t))"
  by pat_completeness auto
termination
proof (relation "measure length", goal_cases)
  case (2 s t)
  then have ne: "lstrip s \<noteq> []" by simp
  then have "\<not> is_ws (hd (lstrip s))" unfolding lstrip_def by (rule hd_dropWhile)
  then have "length (dropWhile (\<lambda>c. \<not> is_ws c) (lstrip s)) < length (lstrip s)"
    using ne by (cases "lstrip s") (auto intro: le_imp_less_Suc length_dropWhile_le)
  also have "length (lstrip s) \<le> length s" by (simp add: lstrip_def length_dropWhile_le)
  finally show ?case using 2 by simp
qed simp

declare split_ws.simps [simp del]

text \<open>\<open>s.splitlines()\<close>\<close>

definition is_eol :: "char \<Rightarrow> bool" where
  "is_eol c = (10 \<le> char_code c \<and> char_code c \<le> 13 \<or> 28 \<le> char_code c \<and> char_code c \<le> 30)"

fun lines_acc :: "string \<Rightarrow> string \<Rightarrow> string list" where
  "lines_acc acc [] = (if acc = [] then [] else [rev acc])"
| "lines_acc acc (c # s) =
     (if is_eol c
      then rev acc # (case s of d # s' \<Rightarrow> if char_code c = 13 \<and> char_code d = 10
                                          then lines_acc [] s' else lines_acc [] s
                              | [] \<Rightarrow> lines_acc [] [])
      else lines_acc (c # acc) s)"

definition splitlines :: "string \<Rightarrow> string list" where
  "splitlines s = lines_acc [] s"

text \<open>\<open>sep.join(xs)\<close>\<close>

fun py_join :: "string \<Rightarrow> string list \<Rightarrow> string" where
  "py_join sep [] = []"
| "py_join sep [x] = x"
| "py_join sep (x # y # ys) = x @ sep @ py_join sep (y # ys)"

abbreviation startswith :: "string \<Rightarrow> string \<Rightarrow> bool" where
  "startswith s p \<equiv> prefix p s"

abbreviation endswith :: "string \<Rightarrow> string \<Rightarrow> bool" where
  "endswith s p \<equiv> suffix p s"

text \<open>\<open>sub in s\<close>\<close>

definition py_contains :: "string \<Rightarrow> string \<Rightarrow> bool" where
  "py_contains sub s = list_ex (\<lambda>t. prefix sub t) (suffixes s)"

subsection \<open>Numbers as text\<close>

definition digit_char :: "nat \<Rightarrow> char" where
  "digit_char d = char_of (48 + d)"

definition digit_val :: "char \<Rightarrow> nat" where
  "digit_val c = char_code c - 48"

fun str_nat :: "nat \<Rightarrow> string" where
  "str_nat n = (if n < 10 then [digit_char n] else str_nat (n div 10) @ [digit_char (n mod 10)])"

declare str_nat.simps [simp del]

definition str_int :: "int \<Rightarrow> string" where
  "str_int i = (if i < 0 then CHR ''-'' # str_nat (nat (- i)) else str_nat (nat i))"

definition dec_nat :: "string \<Rightarrow> nat" where
  "dec_nat s = foldl (\<lambda>a c. 10 * a + digit_val c) 0 s"

lemma char_code_digit [simp, str_simps]: "d < 10 \<Longrightarrow> char_code (digit_char d) = 48 + d"
  by (simp add: char_code_def digit_char_def)

lemma is_digit_digit_char [simp, str_simps]: "d < 10 \<Longrightarrow> is_digit (digit_char d)"
  by (simp add: is_digit_def)

lemma digit_val_digit_char [simp, str_simps]: "d < 10 \<Longrightarrow> digit_val (digit_char d) = d"
  by (simp add: digit_val_def)

lemma dec_nat_snoc [simp]: "dec_nat (s @ [c]) = 10 * dec_nat s + digit_val c"
  by (simp add: dec_nat_def)

lemma dec_nat_str_nat [simp, str_simps]: "dec_nat (str_nat n) = n"
proof (induction n rule: str_nat.induct)
  case (1 n)
  show ?case
  proof (cases "n < 10")
    case True
    then show ?thesis by (simp add: str_nat.simps [of n] dec_nat_def)
  next
    case False
    with 1 show ?thesis by (simp add: str_nat.simps [of n])
  qed
qed

lemma str_nat_digits: "list_all is_digit (str_nat n)"
proof (induction n rule: str_nat.induct)
  case (1 n)
  show ?case
  proof (cases "n < 10")
    case True
    then show ?thesis by (simp add: str_nat.simps [of n])
  next
    case False
    with 1 show ?thesis by (simp add: str_nat.simps [of n])
  qed
qed

lemma str_nat_nonempty [simp, str_simps]: "str_nat n \<noteq> []"
  by (simp add: str_nat.simps [of n])

lemma py_isdigit_str_nat [simp, str_simps]: "py_isdigit (str_nat n)"
  by (simp add: py_isdigit_def str_nat_digits)

lemma str_nat_inj: "str_nat m = str_nat n \<longleftrightarrow> m = n"
  by (metis dec_nat_str_nat)

lemma str_nat_no_char: "\<not> is_digit c \<Longrightarrow> c \<notin> set (str_nat n)"
  using str_nat_digits [of n] by (auto simp: list_all_iff)

text \<open>
  \<open>int(text)\<close>: surrounding blanks, an optional sign, digits with single underscores between them.
\<close>

fun int_body_ok :: "string \<Rightarrow> bool" where
  "int_body_ok [] = False"
| "int_body_ok [c] = is_digit c"
| "int_body_ok (c # d # r) =
     (is_digit c \<and> (if d = CHR ''_'' then int_body_ok r else int_body_ok (d # r)))"

definition py_repr_char :: "char \<Rightarrow> char \<Rightarrow> string" where
  "py_repr_char q c =
     (if c = q \<or> c = CHR 0x5C then [CHR 0x5C, c]
      else if char_code c = 10 then [CHR 0x5C, CHR ''n'']
      else if char_code c = 13 then [CHR 0x5C, CHR ''r'']
      else if char_code c = 9 then [CHR 0x5C, CHR ''t'']
      else if char_code c < 32 \<or> char_code c = 127
      then [CHR 0x5C, CHR ''x'', digit_char (char_code c div 16),
            (if char_code c mod 16 < 10 then digit_char (char_code c mod 16)
             else char_of (87 + char_code c mod 16))]
      else [c])"

definition py_repr :: "string \<Rightarrow> string" where
  "py_repr s =
     (let q = (if CHR 0x27 \<in> set s \<and> CHR 0x22 \<notin> set s then CHR 0x22 else CHR 0x27)
      in [q] @ concat (map (py_repr_char q) s) @ [q])"

definition py_int :: "string \<Rightarrow> int res" where
  "py_int text =
     (let t = strip text;
          neg = (t \<noteq> [] \<and> hd t = CHR ''-'');
          body = (if t \<noteq> [] \<and> (hd t = CHR ''-'' \<or> hd t = CHR ''+'') then tl t else t)
      in if int_body_ok body
         then Inr (let n = int (dec_nat (filter (\<lambda>c. c \<noteq> CHR ''_'') body))
                   in if neg then - n else n)
         else value_error (''invalid literal for int() with base 10: '' @ py_repr text))"

subsection \<open>Lemmas on strings\<close>

lemma is_digit_not_ws [str_simps]: "is_digit c \<Longrightarrow> \<not> is_ws c"
  by (simp add: is_digit_def is_ws_def)

lemma strip_no_ws:
  assumes "s \<noteq> []" "\<not> is_ws (hd s)" "\<not> is_ws (last s)"
  shows "strip s = s"
proof -
  have "lstrip s = s" using assms by (cases s) (auto simp: lstrip_def)
  moreover have "lstrip (rev s) = rev s"
    using assms by (cases "rev s") (auto simp: lstrip_def hd_rev [symmetric])
  ultimately show ?thesis by (simp add: strip_def)
qed

lemma strip_Nil [simp]: "strip [] = []"
  by (simp add: strip_def lstrip_def)

lemma split_on_nonempty [simp]: "split_on c s \<noteq> []"
  by (induction s) (auto split: list.splits)

lemma split_on_absent: "c \<notin> set s \<Longrightarrow> split_on c s = [s]"
  by (induction s) auto

lemma split_on_append: "c \<notin> set s \<Longrightarrow> split_on c (s @ c # t) = s # split_on c t"
  by (induction s) auto

lemma split_on_join:
  assumes "xs \<noteq> []" "\<forall>x \<in> set xs. c \<notin> set x"
  shows "split_on c (py_join [c] xs) = xs"
  using assms
proof (induction "[c]" xs rule: py_join.induct)
  case (3 x y ys)
  then show ?case by (simp add: split_on_append)
qed (auto simp: split_on_absent)

lemma py_join_eq_Nil_iff: "sep \<noteq> [] \<Longrightarrow> py_join sep xs = [] \<longleftrightarrow> xs = [] \<or> xs = [[]]"
  by (induction sep xs rule: py_join.induct) auto

lemma hd_py_join: "x \<noteq> [] \<Longrightarrow> hd (py_join sep (x # xs)) = hd x"
  by (cases xs) auto

lemma py_join_nonempty: "xs \<noteq> [] \<Longrightarrow> last xs \<noteq> [] \<Longrightarrow> py_join sep xs \<noteq> []"
  by (induction sep xs rule: py_join.induct) auto

lemma last_py_join: "xs \<noteq> [] \<Longrightarrow> last xs \<noteq> [] \<Longrightarrow> last (py_join sep xs) = last (last xs)"
proof (induction sep xs rule: py_join.induct)
  case (3 sep x y ys)
  then have "py_join sep (y # ys) \<noteq> []" using py_join_nonempty [of "y # ys" sep] by simp
  with 3 show ?case by simp
qed auto

lemma split_once_append: "c \<notin> set a \<Longrightarrow> split_once c (a @ c # b) = (a, b)"
  unfolding split_once_def by (induction a) auto

section \<open>Python values and dictionaries\<close>

text \<open>
  A dictionary is an association list in insertion order without duplicate keys;
  \<open>AList.update\<close> is \<open>d[k] = v\<close>: it replaces in place or appends.
\<close>

datatype pyval =
    PNone | PBool bool | PInt int | PFloat rat | PStr string
  | PList "pyval list" | PDict "(string \<times> pyval) list"

type_synonym pydict = "(string \<times> pyval) list"

abbreviation dict_set :: "'k \<Rightarrow> 'v \<Rightarrow> ('k \<times> 'v) list \<Rightarrow> ('k \<times> 'v) list" where
  "dict_set \<equiv> AList.update"

definition dict_get :: "('k \<times> 'v) list \<Rightarrow> 'k \<Rightarrow> 'v \<Rightarrow> 'v" where
  "dict_get d k v = (case map_of d k of None \<Rightarrow> v | Some x \<Rightarrow> x)"

definition dict_update :: "('k \<times> 'v) list \<Rightarrow> ('k \<times> 'v) list \<Rightarrow> ('k \<times> 'v) list" where
  "dict_update d e = foldl (\<lambda>a (k, v). dict_set k v a) d e"

fun truthy :: "pyval \<Rightarrow> bool" where
  "truthy PNone = False"
| "truthy (PBool b) = b"
| "truthy (PInt i) = (i \<noteq> 0)"
| "truthy (PFloat r) = (r \<noteq> 0)"
| "truthy (PStr s) = (s \<noteq> [])"
| "truthy (PList xs) = (xs \<noteq> [])"
| "truthy (PDict d) = (d \<noteq> [])"

lemma map_of_dict_set [simp]: "map_of (dict_set k v d) = (map_of d)(k \<mapsto> v)"
  by (rule update_conv')

lemma dict_get_set [simp]: "dict_get (dict_set k v d) k' x = (if k = k' then v else dict_get d k' x)"
  by (simp add: dict_get_def)

lemma distinct_dict_set [simp]:
  "distinct (map fst d) \<Longrightarrow> distinct (map fst (dict_set k v d))"
  by (rule distinct_update)

lemma fst_set_dict_set [simp]: "fst ` set (dict_set k v d) = insert k (fst ` set d)"
  using dom_update [of k v d] by (simp add: dom_map_of_conv_image_fst)

section \<open>Paths\<close>

text \<open>
  An absolute path is the list of its components; \<open>p / ''x''\<close> appends, \<open>name\<close> is the last
  component, \<open>parents\<close> the proper prefixes from the nearest.
\<close>

type_synonym path = "string list"

definition path_parts :: "string \<Rightarrow> path" where
  "path_parts s = filter (\<lambda>x. x \<noteq> [] \<and> x \<noteq> ''.'') (split_on CHR ''/'' s)"

definition path_str :: "path \<Rightarrow> string" where
  "path_str p = CHR ''/'' # py_join ''/'' p"

definition path_name :: "path \<Rightarrow> string" where
  "path_name p = (if p = [] then [] else last p)"

definition self_and_parents :: "path \<Rightarrow> path list" where
  "self_and_parents p = map (\<lambda>n. take n p) (rev [0..<Suc (length p)])"

end
