(* ===== verification/Cpu_List.thy ===== *)
theory Cpu_List
  imports Prelude
begin

text \<open>
  The Linux CPU-list syntax of \<open>tools/realsense_bench_common/cpu_isolation.py\<close>:
  \<open>parse_cpu_list\<close> and \<open>format_cpu_list\<close>, the locale \<open>cpu_codec\<close> that states what the CPU
  isolation relies on (printing then parsing gives the set back, parsed sets are finite) and
  its interpretation on the two functions. CPU numbers are \<open>nat\<close>: the parser admits decimal
  digits only and the kernel reports affinities as non-negative numbers.
\<close>

section \<open>Definitions\<close>

definition parse_cpu_token :: "string \<Rightarrow> string \<Rightarrow> nat set res" where
  "parse_cpu_token whole raw =
     (let token = strip raw in
      if token = [] then value_error (''invalid empty CPU-list element in '' @ py_repr whole)
      else if CHR ''-'' \<in> set token then
        (let (a, b) = split_once CHR ''-'' token in
         if \<not> (py_isdigit a \<and> py_isdigit b)
         then value_error (''invalid CPU range '' @ py_repr token)
         else if dec_nat a > dec_nat b
         then value_error (''descending CPU range '' @ py_repr token)
         else Inr (set [dec_nat a..<Suc (dec_nat b)]))
      else if \<not> py_isdigit token then value_error (''invalid CPU number '' @ py_repr token)
      else Inr {dec_nat token})"

fun parse_cpu_tokens :: "string \<Rightarrow> string list \<Rightarrow> nat set \<Rightarrow> nat set res" where
  "parse_cpu_tokens whole [] cpus = Inr cpus"
| "parse_cpu_tokens whole (t # ts) cpus =
     res_bind (parse_cpu_token whole t) (\<lambda>c. parse_cpu_tokens whole ts (cpus \<union> c))"

definition parse_cpu_list :: "string \<Rightarrow> nat set res" where
  "parse_cpu_list whole =
     (let text = strip whole in
      if text = [] then Inr {} else parse_cpu_tokens whole (split_on CHR '','' text) {})"

definition cpu_range_text :: "nat \<Rightarrow> nat \<Rightarrow> string" where
  "cpu_range_text first previous =
     (if first = previous then str_nat first else str_nat first @ ''-'' @ str_nat previous)"

fun format_ranges :: "nat \<Rightarrow> nat \<Rightarrow> nat list \<Rightarrow> string list" where
  "format_ranges first previous [] = [cpu_range_text first previous]"
| "format_ranges first previous (v # vs) =
     (if v = previous + 1 then format_ranges first v vs
      else cpu_range_text first previous # format_ranges v v vs)"

definition format_cpu_list :: "nat set \<Rightarrow> string" where
  "format_cpu_list cpus =
     (case sorted_list_of_set cpus of
        [] \<Rightarrow> []
      | v # vs \<Rightarrow> py_join '','' (format_ranges v v vs))"

section \<open>The interface the CPU isolation relies on\<close>

locale cpu_codec =
  fixes parse :: "string \<Rightarrow> nat set res"
    and print :: "nat set \<Rightarrow> string"
  assumes parse_finite: "parse t = Inr S \<Longrightarrow> finite S"
    and parse_print: "finite S \<Longrightarrow> parse (print S) = Inr S"
begin

lemma print_inj: "finite S \<Longrightarrow> finite T \<Longrightarrow> print S = print T \<Longrightarrow> S = T"
  using parse_print by (metis sum.inject(2))

lemma parse_normalised: "parse t = Inr S \<Longrightarrow> parse (print S) = Inr S"
  by (simp add: parse_finite parse_print)

lemma same_cpus: "parse t = Inr S \<Longrightarrow> parse a = parse (print S) \<longleftrightarrow> parse a = Inr S"
  by (simp add: parse_normalised)

end

section \<open>Lemmas\<close>

lemma parse_cpu_token_finite: "parse_cpu_token w t = Inr S \<Longrightarrow> finite S \<and> S \<noteq> {}"
  by (auto simp: parse_cpu_token_def Let_def split: if_splits prod.splits)

lemma parse_cpu_tokens_finite:
  "parse_cpu_tokens w ts acc = Inr S \<Longrightarrow> finite acc \<Longrightarrow> finite S"
  by (induction ts arbitrary: acc) (auto simp: res_bind_Inr_iff dest: parse_cpu_token_finite)

lemma parse_cpu_tokens_mono: "parse_cpu_tokens w ts acc = Inr S \<Longrightarrow> acc \<subseteq> S"
  by (induction ts arbitrary: acc) (fastforce simp: res_bind_Inr_iff)+

lemma parse_cpu_token_error: "parse_cpu_token w t = Inl e \<Longrightarrow> exn_kind e = ValueError"
  by (auto simp: parse_cpu_token_def Let_def split: if_splits prod.splits)

lemma parse_cpu_tokens_error: "parse_cpu_tokens w ts acc = Inl e \<Longrightarrow> exn_kind e = ValueError"
  by (induction ts arbitrary: acc) (auto simp: res_bind_Inl_iff dest: parse_cpu_token_error)

text \<open>The text of one range: no comma, no blanks, and it parses back to the range.\<close>

lemma not_digit_punct: "\<not> is_digit CHR ''-''" "\<not> is_digit CHR '',''" "\<not> is_ws CHR ''-''"
  by (simp_all add: is_digit_def is_ws_def char_code_def)

lemma cpu_range_text_chars: "c \<in> set (cpu_range_text a b) \<Longrightarrow> is_digit c \<or> c = CHR ''-''"
  using str_nat_digits by (auto simp: cpu_range_text_def list_all_iff split: if_splits)

lemma cpu_range_text_nonempty [simp]: "cpu_range_text a b \<noteq> []"
  by (simp add: cpu_range_text_def)

lemma cpu_range_text_no_comma: "CHR '','' \<notin> set (cpu_range_text a b)"
  using cpu_range_text_chars not_digit_punct by fastforce

lemma cpu_range_text_not_ws: "c \<in> set (cpu_range_text a b) \<Longrightarrow> \<not> is_ws c"
  using cpu_range_text_chars not_digit_punct is_digit_not_ws by blast

lemma strip_cpu_range_text: "strip (cpu_range_text a b) = cpu_range_text a b"
  by (rule strip_no_ws) (simp_all add: cpu_range_text_not_ws [OF hd_in_set] cpu_range_text_not_ws [OF last_in_set])

lemma dash_notin_str_nat [simp]: "CHR ''-'' \<notin> set (str_nat n)"
  by (rule str_nat_no_char) (simp add: not_digit_punct)

lemma parse_cpu_range_text:
  assumes "a \<le> b"
  shows "parse_cpu_token w (cpu_range_text a b) = Inr {a..b}"
proof -
  have split: "split_once CHR ''-'' (str_nat a @ CHR ''-'' # str_nat b) = (str_nat a, str_nat b)"
    by (rule split_once_append) simp
  have upt: "insert b {a..<b} = {a..b}" using assms by auto
  show ?thesis
  proof (cases "a = b")
    case True
    then show ?thesis
      by (simp add: parse_cpu_token_def Let_def strip_cpu_range_text)
        (simp add: cpu_range_text_def)
  next
    case False
    with assms show ?thesis
      by (simp add: parse_cpu_token_def Let_def strip_cpu_range_text)
        (simp add: cpu_range_text_def split upt)
  qed
qed

text \<open>The tokens printed from a strictly increasing list denote its elements.\<close>

lemma parse_format_ranges:
  assumes "first \<le> previous" "sorted_wrt (<) (previous # vs)"
  shows "parse_cpu_tokens w (format_ranges first previous vs) acc
           = Inr (acc \<union> {first..previous} \<union> set vs)"
  using assms
proof (induction first previous vs arbitrary: acc rule: format_ranges.induct)
  case (1 first previous)
  then show ?case by (simp add: parse_cpu_range_text)
next
  case (2 first previous v vs)
  show ?case
  proof (cases "v = previous + 1")
    case True
    then have "{first..v} = {first..previous} \<union> {v}" using 2 by auto
    with True 2 show ?thesis by auto
  next
    case False
    with 2 show ?thesis by (auto simp: parse_cpu_range_text)
  qed
qed

lemma format_ranges_tokens:
  "t \<in> set (format_ranges first previous vs) \<Longrightarrow> \<exists>a b. t = cpu_range_text a b"
  by (induction first previous vs rule: format_ranges.induct) (auto split: if_splits)

lemma format_ranges_nonempty [simp]: "format_ranges first previous vs \<noteq> []"
  by (induction first previous vs rule: format_ranges.induct) auto

lemma format_ranges_joined:
  "split_on CHR '','' (py_join '','' (format_ranges f p vs)) = format_ranges f p vs"
  by (rule split_on_join) (auto dest!: format_ranges_tokens simp: cpu_range_text_no_comma)

lemma strip_joined_ranges:
  "strip (py_join '','' (format_ranges f p vs)) = py_join '','' (format_ranges f p vs)"
proof (rule strip_no_ws)
  let ?ts = "format_ranges f p vs"
  obtain t ts where ts: "?ts = t # ts" by (cases ?ts) auto
  have token: "\<And>x. x \<in> set ?ts \<Longrightarrow> x \<noteq> [] \<and> (\<forall>c \<in> set x. \<not> is_ws c)"
    by (auto dest!: format_ranges_tokens dest: cpu_range_text_not_ws)
  have lst: "last ?ts \<in> set ?ts" and hd: "t \<in> set ?ts" using ts by auto
  show "py_join '','' ?ts \<noteq> []" using token [OF lst] by (simp add: py_join_nonempty)
  show "\<not> is_ws (hd (py_join '','' ?ts))"
    using token [OF hd] by (simp add: ts hd_py_join)
  show "\<not> is_ws (last (py_join '','' ?ts))"
    using token [OF lst] by (simp add: last_py_join)
qed

lemma parse_format_cpu_list:
  assumes "finite S"
  shows "parse_cpu_list (format_cpu_list S) = Inr S"
proof (cases "sorted_list_of_set S")
  case Nil
  then have "S = {}" using assms by simp
  then show ?thesis by (simp add: format_cpu_list_def parse_cpu_list_def)
next
  case (Cons v vs)
  have sorted: "sorted_wrt (<) (v # vs)"
    using strict_sorted_list_of_set [of S] Cons by simp
  have "set (v # vs) = S" using assms Cons set_sorted_list_of_set by metis
  then have S: "{v..v} \<union> set vs = S" by auto
  have ne: "py_join '','' (format_ranges v v vs) \<noteq> []"
    using format_ranges_tokens [OF last_in_set [OF format_ranges_nonempty], of v v vs]
    by (intro py_join_nonempty) (auto dest: sym)
  show ?thesis
    using parse_format_ranges [OF order_refl sorted, of _ "{}"] S ne Cons
    by (simp add: parse_cpu_list_def format_cpu_list_def strip_joined_ranges format_ranges_joined)
qed

lemma parse_cpu_list_finite: "parse_cpu_list t = Inr S \<Longrightarrow> finite S"
  by (auto simp: parse_cpu_list_def Let_def dest: parse_cpu_tokens_finite split: if_splits)

interpretation cpu_text: cpu_codec parse_cpu_list format_cpu_list
  by unfold_locales (simp_all add: parse_cpu_list_finite parse_format_cpu_list)

lemma parse_cpu_list_error_kind: "parse_cpu_list t = Inl e \<Longrightarrow> exn_kind e = ValueError"
  by (auto simp: parse_cpu_list_def Let_def dest: parse_cpu_tokens_error split: if_splits)

section \<open>Properties\<close>

text \<open>
  C5. \<open>format_cpu_list\<close> and \<open>parse_cpu_list\<close> are inverse on finite CPU sets: the text written for
  a set denotes that set, and no two sets share a text.
\<close>

theorem cpu_list_roundtrip:
  assumes "finite S"
  shows "parse_cpu_list (format_cpu_list S) = Inr S \<and>
    (\<forall>T. finite T \<and> format_cpu_list T = format_cpu_list S \<longrightarrow> T = S)"
  using assms cpu_text.parse_print cpu_text.print_inj by blast

theorem cpu_list_roundtrip_witness:
  "parse_cpu_list (format_cpu_list {0, 1, 2, 5, 7}) = Inr {0, 1, 2, 5, 7::nat}"
  using cpu_list_roundtrip [of "{0, 1, 2, 5, 7}"] by simp

end
