(* ===== verification/Host.thy ===== *)
theory Host
  imports Prelude
begin

text \<open>
  The operating system as the benchmark controls see it. Everything the sources obtain from
  outside the repository (files of sysfs, procfs and cgroup-v2, child processes, the clock,
  scheduler attributes) is an operation of the record \<open>host\<close>, a parameter of the models, over
  an abstract world \<open>'w\<close>. A method of a controller object runs on a pair of the object and the
  world; the functions \<open>do_\<close>\<dots> lift the host operations to such pairs, and their \<open>wp\<close>
  equations say that they leave the object alone.

  A failing operation yields \<open>Inl\<close> of a \<open>host_error\<close>: an \<open>OSError\<close>, an expired timeout of a
  child process, or a JSON document that cannot be decoded. Console output is not modelled. A JSON document written with \<open>json.dumps\<close> is handed over as the value it
  encodes, and \<open>json.loads\<close> of a file is a read of that value.
\<close>

datatype host_error = HOSError string | HTimeout string | HDecode string

fun host_exn :: "host_error \<Rightarrow> exn" where
  "host_exn (HOSError m) = Exn OSError m"
| "host_exn (HTimeout m) = Exn TimeoutExpired m"
| "host_exn (HDecode m) = Exn JSONDecodeError m"

lemma catchable_host_exn [simp]: "catchable (host_exn e)"
  by (cases e) (simp_all add: catchable_def)

definition of_host :: "host_error + 'a \<Rightarrow> 'a res" where
  "of_host r = (case r of Inl e \<Rightarrow> Inl (host_exn e) | Inr a \<Rightarrow> Inr a)"

record completed =
  returncode :: int
  stdout :: string
  stderr :: string

record run_request =
  rq_command :: "string list"
  rq_input :: "string option"
  rq_timeout :: "rat option"

record 'w host =
  h_read_text :: "path \<Rightarrow> 'w \<Rightarrow> host_error + string"
  h_is_file :: "path \<Rightarrow> 'w \<Rightarrow> bool"
  h_is_dir :: "path \<Rightarrow> 'w \<Rightarrow> bool"
  h_exists :: "path \<Rightarrow> 'w \<Rightarrow> bool"
  h_entries :: "path \<Rightarrow> 'w \<Rightarrow> string list"
  h_resolve :: "path \<Rightarrow> 'w \<Rightarrow> path"
  h_run :: "run_request \<Rightarrow> 'w \<Rightarrow> (host_error + completed) \<times> 'w"
  h_write_text :: "path \<Rightarrow> string \<Rightarrow> 'w \<Rightarrow> (host_error + unit) \<times> 'w"
  h_write_json :: "path \<Rightarrow> pyval \<Rightarrow> 'w \<Rightarrow> (host_error + unit) \<times> 'w"
  h_read_json :: "path \<Rightarrow> 'w \<Rightarrow> host_error + pyval"
  h_mkdir :: "path \<Rightarrow> 'w \<Rightarrow> (host_error + unit) \<times> 'w"
  h_getpid :: "'w \<Rightarrow> nat"
  h_geteuid :: "'w \<Rightarrow> nat"
  h_which :: "string \<Rightarrow> 'w \<Rightarrow> bool"
  h_writable :: "path \<Rightarrow> 'w \<Rightarrow> bool"
  h_is_linux :: "'w \<Rightarrow> bool"
  h_affinity :: "nat \<Rightarrow> 'w \<Rightarrow> nat set"
  h_sched :: "nat \<Rightarrow> 'w \<Rightarrow> (int \<times> int \<times> nat set) option"
  h_monotonic :: "'w \<Rightarrow> rat \<times> 'w"
  h_boottime_ns :: "'w \<Rightarrow> int \<times> 'w"
  h_sleep :: "rat \<Rightarrow> 'w \<Rightarrow> 'w"

named_theorems keeps_intros \<open>structural rules for invariants of a controller object\<close>
named_theorems preserves_intros \<open>structural rules for invariants, whatever is raised\<close>

section \<open>Lifting to a controller object\<close>

definition do_read :: "'w host \<Rightarrow> path \<Rightarrow> ('o \<times> 'w, string) py" where
  "do_read h p = (\<lambda>(ob, w). (of_host (h_read_text h p w), (ob, w)))"

definition do_run :: "'w host \<Rightarrow> run_request \<Rightarrow> ('o \<times> 'w, completed) py" where
  "do_run h rq = (\<lambda>(ob, w). let (r, w') = h_run h rq w in (of_host r, (ob, w')))"

definition do_write_text :: "'w host \<Rightarrow> path \<Rightarrow> string \<Rightarrow> ('o \<times> 'w, unit) py" where
  "do_write_text h p t = (\<lambda>(ob, w). let (r, w') = h_write_text h p t w in (of_host r, (ob, w')))"

definition do_write_json :: "'w host \<Rightarrow> path \<Rightarrow> pyval \<Rightarrow> ('o \<times> 'w, unit) py" where
  "do_write_json h p v = (\<lambda>(ob, w). let (r, w') = h_write_json h p v w in (of_host r, (ob, w')))"

definition do_mkdir :: "'w host \<Rightarrow> path \<Rightarrow> ('o \<times> 'w, unit) py" where
  "do_mkdir h p = (\<lambda>(ob, w). let (r, w') = h_mkdir h p w in (of_host r, (ob, w')))"

definition do_monotonic :: "'w host \<Rightarrow> ('o \<times> 'w, rat) py" where
  "do_monotonic h = (\<lambda>(ob, w). let (t, w') = h_monotonic h w in (Inr t, (ob, w')))"

definition do_boottime_ns :: "'w host \<Rightarrow> ('o \<times> 'w, int) py" where
  "do_boottime_ns h = (\<lambda>(ob, w). let (t, w') = h_boottime_ns h w in (Inr t, (ob, w')))"

definition do_sleep :: "'w host \<Rightarrow> rat \<Rightarrow> ('o \<times> 'w, unit) py" where
  "do_sleep h d = (\<lambda>(ob, w). (Inr (), (ob, h_sleep h d w)))"

text \<open>A question answered by the world, without effect.\<close>

definition ask :: "('w \<Rightarrow> 'a) \<Rightarrow> ('o \<times> 'w, 'a) py" where
  "ask f = (\<lambda>(ob, w). (Inr (f w), (ob, w)))"

definition ask_res :: "('w \<Rightarrow> 'a res) \<Rightarrow> ('o \<times> 'w, 'a) py" where
  "ask_res f = (\<lambda>(ob, w). (f w, (ob, w)))"

text \<open>A read of the object and an update of the object.\<close>

definition self_get :: "('o \<Rightarrow> 'a) \<Rightarrow> ('o \<times> 'w, 'a) py" where
  "self_get f = (\<lambda>(ob, w). (Inr (f ob), (ob, w)))"

definition self_upd :: "('o \<Rightarrow> 'o) \<Rightarrow> ('o \<times> 'w, unit) py" where
  "self_upd f = (\<lambda>(ob, w). (Inr (), (f ob, w)))"

subsection \<open>Weakest preconditions\<close>

lemma wp_do_read [wp_simps]:
  "wp (do_read h p) Q E (ob, w) =
     (case h_read_text h p w of Inl e \<Rightarrow> E (host_exn e) (ob, w) | Inr t \<Rightarrow> Q t (ob, w))"
  by (auto simp: wp_def of_host_def do_read_def split: sum.splits)

lemma wp_do_run [wp_simps]:
  "wp (do_run h rq) Q E (ob, w) =
     (case h_run h rq w of (Inl e, w') \<Rightarrow> E (host_exn e) (ob, w') | (Inr c, w') \<Rightarrow> Q c (ob, w'))"
  by (auto simp: wp_def of_host_def do_run_def split: prod.splits sum.splits)

lemma wp_do_write_text [wp_simps]:
  "wp (do_write_text h p t) Q E (ob, w) =
     (case h_write_text h p t w of (Inl e, w') \<Rightarrow> E (host_exn e) (ob, w') | (Inr c, w') \<Rightarrow> Q c (ob, w'))"
  by (auto simp: wp_def of_host_def do_write_text_def split: prod.splits sum.splits)

lemma wp_do_write_json [wp_simps]:
  "wp (do_write_json h p t) Q E (ob, w) =
     (case h_write_json h p t w of (Inl e, w') \<Rightarrow> E (host_exn e) (ob, w') | (Inr c, w') \<Rightarrow> Q c (ob, w'))"
  by (auto simp: wp_def of_host_def do_write_json_def split: prod.splits sum.splits)

lemma wp_do_mkdir [wp_simps]:
  "wp (do_mkdir h p) Q E (ob, w) =
     (case h_mkdir h p w of (Inl e, w') \<Rightarrow> E (host_exn e) (ob, w') | (Inr c, w') \<Rightarrow> Q c (ob, w'))"
  by (auto simp: wp_def of_host_def do_mkdir_def split: prod.splits sum.splits)

lemma wp_do_clock [wp_simps]:
  "wp (do_monotonic h) Q E (ob, w) = (case h_monotonic h w of (t, w') \<Rightarrow> Q t (ob, w'))"
  "wp (do_boottime_ns h) Q' E (ob, w) = (case h_boottime_ns h w of (n, w') \<Rightarrow> Q' n (ob, w'))"
  "wp (do_sleep h d) Q'' E (ob, w) = Q'' () (ob, h_sleep h d w)"
  by (auto simp: wp_def do_monotonic_def do_boottime_ns_def do_sleep_def split: prod.splits)

lemma wp_ask [wp_simps]:
  "wp (ask f) Q E (ob, w) = Q (f w) (ob, w)"
  "wp (ask_res g) Q' E (ob, w) = (case g w of Inl e \<Rightarrow> E e (ob, w) | Inr a \<Rightarrow> Q' a (ob, w))"
  by (auto simp: wp_def ask_def ask_res_def split: sum.splits)

lemma wp_self [wp_simps]:
  "wp (self_get f) Q E (ob, w) = Q (f ob) (ob, w)"
  "wp (self_upd g) Q' E (ob, w) = Q' () (g ob, w)"
  by (simp_all add: wp_def self_get_def self_upd_def)

subsection \<open>Frame rules\<close>

text \<open>
  \<open>keeps I m\<close>: whatever the world does, \<open>m\<close> preserves \<open>I\<close> of the object, and only raises
  exceptions that \<open>except Exception\<close> catches.
\<close>

definition keeps :: "('o \<Rightarrow> bool) \<Rightarrow> ('o \<times> 'w, 'a) py \<Rightarrow> bool" where
  "keeps I m \<longleftrightarrow> (\<forall>ob w. I ob \<longrightarrow>
     wp m (\<lambda>_ s. I (fst s)) (\<lambda>e s. catchable e \<and> I (fst s)) (ob, w))"


lemma keepsI:
  "(\<And>ob w. I ob \<Longrightarrow> wp m (\<lambda>_ s. I (fst s)) (\<lambda>e s. catchable e \<and> I (fst s)) (ob, w)) \<Longrightarrow> keeps I m"
  by (simp add: keeps_def)

lemma keepsD:
  "keeps I m \<Longrightarrow> I (fst s) \<Longrightarrow> wp m (\<lambda>_ s. I (fst s)) (\<lambda>e s. catchable e \<and> I (fst s)) s"
  by (cases s) (simp add: keeps_def)

lemma keeps_step:
  assumes "keeps I m" "I (fst s)" "\<And>a s'. I (fst s') \<Longrightarrow> Q a s'"
  shows "wp m Q (\<lambda>_ _. True) s"
  by (rule wp_mono [OF keepsD [OF assms(1,2)]]) (use assms(3) in auto)

lemma keeps_raise:
  assumes "keeps I m" "I (fst s)"
    and "\<And>e s'. catchable e \<Longrightarrow> I (fst s') \<Longrightarrow> E e s'"
    and "\<And>a s'. I (fst s') \<Longrightarrow> Q a s'"
  shows "wp m Q E s"
  by (rule wp_mono [OF keepsD [OF assms(1,2)]]) (use assms(3,4) in auto)

lemma keeps_bind [keeps_intros]: "keeps I m \<Longrightarrow> (\<And>a. keeps I (f a)) \<Longrightarrow> keeps I (py_bind m f)"
  by (rule keepsI) (auto simp: wp_simps intro!: wp_mono [OF keepsD] dest: keepsD)

lemma keeps_seq [keeps_intros]: "keeps I m \<Longrightarrow> keeps I n \<Longrightarrow> keeps I (py_seq m n)"
  by (simp add: py_seq_def keeps_bind)

lemma keeps_if [keeps_intros]:
  "(b \<Longrightarrow> keeps I m) \<Longrightarrow> (\<not> b \<Longrightarrow> keeps I n) \<Longrightarrow> keeps I (if b then m else n)"
  by simp

lemma keeps_option [keeps_intros]:
  "(v = None \<Longrightarrow> keeps I m) \<Longrightarrow> (\<And>x. v = Some x \<Longrightarrow> keeps I (f x)) \<Longrightarrow>
     keeps I (case v of None \<Rightarrow> m | Some x \<Rightarrow> f x)"
  by (cases v) auto

lemma keeps_prod [keeps_intros]:
  "(\<And>x y. p = (x, y) \<Longrightarrow> keeps I (f x y)) \<Longrightarrow> keeps I (case p of (x, y) \<Rightarrow> f x y)"
  by (cases p) auto

lemma keeps_basic [keeps_intros]:
  "keeps I (py_return a)"
  "catchable e \<Longrightarrow> keeps I (py_raise e)"
  "(\<And>e. r = Inl e \<Longrightarrow> catchable e) \<Longrightarrow> keeps I (py_res r)"
  by (auto simp: keeps_def wp_simps split: sum.splits)

declare catchable_class [keeps_intros]

lemma keeps_host [keeps_intros]:
  "keeps I (do_read h p)" "keeps I (do_run h rq)" "keeps I (do_mkdir h p)"
  "keeps I (do_write_json h p v)" "keeps I (do_write_text h p t)" "keeps I (ask f)" "keeps I (self_get g)"
  by (auto simp: keeps_def wp_simps split: sum.splits prod.splits)

lemma keeps_ask_res [keeps_intros]: "(\<And>w e. g w = Inl e \<Longrightarrow> catchable e) \<Longrightarrow> keeps I (ask_res g)"
  by (auto simp: keeps_def wp_simps split: sum.splits prod.splits)

lemma keeps_self_upd [keeps_intros]: "(\<And>ob. I ob \<Longrightarrow> I (g ob)) \<Longrightarrow> keeps I (self_upd g)"
  by (auto simp: keeps_def wp_simps)

lemma keeps_clock [keeps_intros]: "keeps I (do_monotonic h)" "keeps I (do_sleep h d)"
  by (auto simp: keeps_def wp_simps split: prod.splits)

lemma keeps_when [keeps_intros]: "(b \<Longrightarrow> keeps I m) \<Longrightarrow> keeps I (py_when b m)"
  by (simp add: py_when_def keeps_basic)

lemma keeps_for [keeps_intros]: "(\<And>x. x \<in> set xs \<Longrightarrow> keeps I (f x)) \<Longrightarrow> keeps I (py_for xs f)"
  by (induction xs) (auto intro: keeps_intros)

text \<open>\<open>preserves I m\<close>: \<open>m\<close> preserves \<open>I\<close> of the object, whether it returns or raises.\<close>

definition preserves :: "('o \<Rightarrow> bool) \<Rightarrow> ('o \<times> 'w, 'a) py \<Rightarrow> bool" where
  "preserves I m \<longleftrightarrow> (\<forall>ob w. I ob \<longrightarrow> wp m (\<lambda>_ s. I (fst s)) (\<lambda>_ s. I (fst s)) (ob, w))"

lemma preservesD: "preserves I m \<Longrightarrow> I (fst s) \<Longrightarrow> wp m (\<lambda>_ s. I (fst s)) (\<lambda>_ s. I (fst s)) s"
  by (cases s) (simp add: preserves_def)

lemma preserves_run: "preserves I m \<Longrightarrow> I (fst s) \<Longrightarrow> m s = (r, s') \<Longrightarrow> I (fst s')"
  by (drule (1) preservesD) (auto simp: wp_def split: sum.splits)

lemma keeps_preserves: "keeps I m \<Longrightarrow> preserves I m"
  unfolding preserves_def keeps_def by (blast intro: wp_mono)

lemma preserves_bind [preserves_intros]:
  "preserves I m \<Longrightarrow> (\<And>a. preserves I (f a)) \<Longrightarrow> preserves I (py_bind m f)"
  unfolding preserves_def [of I "py_bind m f"]
  by (auto simp: wp_simps intro!: wp_mono [OF preservesD] dest: preservesD)

lemma preserves_seq [preserves_intros]: "preserves I m \<Longrightarrow> preserves I n \<Longrightarrow> preserves I (py_seq m n)"
  by (simp add: py_seq_def preserves_bind)

lemma preserves_catch [preserves_intros]:
  "preserves I m \<Longrightarrow> (\<And>e. preserves I (f e)) \<Longrightarrow> preserves I (py_catch m f)"
  unfolding preserves_def [of I "py_catch m f"]
  by (auto simp: wp_simps intro!: wp_mono [OF preservesD] dest: preservesD)

lemma preserves_if [preserves_intros]:
  "(b \<Longrightarrow> preserves I m) \<Longrightarrow> (\<not> b \<Longrightarrow> preserves I n) \<Longrightarrow> preserves I (if b then m else n)"
  by simp

lemma preserves_option [preserves_intros]:
  "(v = None \<Longrightarrow> preserves I m) \<Longrightarrow> (\<And>x. v = Some x \<Longrightarrow> preserves I (f x)) \<Longrightarrow>
     preserves I (case v of None \<Rightarrow> m | Some x \<Rightarrow> f x)"
  by (cases v) auto

lemma preserves_prod [preserves_intros]:
  "(\<And>x y. p = (x, y) \<Longrightarrow> preserves I (f x y)) \<Longrightarrow> preserves I (case p of (x, y) \<Rightarrow> f x y)"
  by (cases p) auto

lemma preserves_basic [preserves_intros]:
  "preserves I (py_return a)" "preserves I (py_raise e)" "preserves I (py_res r)" "preserves I (ask_res g)"
  by (auto simp: preserves_def wp_simps split: sum.splits)

lemmas preserves_host [preserves_intros] =
  keeps_host [THEN keeps_preserves] keeps_clock [THEN keeps_preserves]

lemma preserves_self_upd [preserves_intros]:
  "(\<And>ob. I ob \<Longrightarrow> I (g ob)) \<Longrightarrow> preserves I (self_upd g)"
  by (auto simp: preserves_def wp_simps)

lemma preserves_when [preserves_intros]: "(b \<Longrightarrow> preserves I m) \<Longrightarrow> preserves I (py_when b m)"
  by (simp add: py_when_def preserves_basic)

lemma preserves_for [preserves_intros]:
  "(\<And>x. x \<in> set xs \<Longrightarrow> preserves I (f x)) \<Longrightarrow> preserves I (py_for xs f)"
  by (induction xs) (auto intro: preserves_intros)

lemma preserves_loop [preserves_intros]: "preserves I m \<Longrightarrow> preserves I (py_loop n m)"
  by (induction n) (auto intro!: preserves_intros)

section \<open>Controls that can be undone\<close>

text \<open>
  The contract of a control that a campaign applies and must be able to undo: \<open>dirty\<close> says of the
  object that something was changed, \<open>ok\<close> is the invariant of the object, \<open>undo\<close> does nothing on
  a clean object and leaves a clean object when it returns.
\<close>

locale reversible_control =
  fixes ok :: "'o \<Rightarrow> bool"
    and dirty :: "'o \<Rightarrow> bool"
    and undo :: "('o \<times> 'w, unit) py"
  assumes clean_undo: "\<not> dirty ob \<Longrightarrow> undo (ob, w) = (Inr (), ob, w)"
    and undo_cleans: "ok ob \<Longrightarrow> wp undo (\<lambda>_ s. \<not> dirty (fst s)) (\<lambda>_ _. True) (ob, w)"
begin

lemma undone: "ok ob \<Longrightarrow> undo (ob, w) = (Inr (), ob', w') \<Longrightarrow> \<not> dirty ob'"
  by (drule wp_returns [OF _ undo_cleans]) auto

lemma undo_twice:
  "ok ob \<Longrightarrow> undo (ob, w) = (Inr (), ob', w') \<Longrightarrow> undo (ob', w'') = (Inr (), ob', w'')"
  by (rule clean_undo) (rule undone)

lemma undo_raises_dirty: "undo (ob, w) = (Inl e, s) \<Longrightarrow> dirty ob"
  by (rule ccontr) (simp add: clean_undo)

end

section \<open>Clocks\<close>

text \<open>
  What the polling loops rely on: the monotonic clock does not go back, and a sleep lasts at
  least as long as requested.
\<close>

definition advancing_clock :: "'w host \<Rightarrow> ('w \<Rightarrow> rat) \<Rightarrow> bool" where
  "advancing_clock h now \<longleftrightarrow>
     (\<forall>w. fst (h_monotonic h w) = now w \<and> now w \<le> now (snd (h_monotonic h w))) \<and>
     (\<forall>w d. now w + d \<le> now (h_sleep h d w)) \<and>
     (\<forall>w rq. now w \<le> now (snd (h_run h rq w)))"

lemma advancing_clockD:
  assumes "advancing_clock h now"
  shows "h_monotonic h w = (t, w') \<Longrightarrow> t = now w \<and> now w \<le> now w'"
    and "now w + d \<le> now (h_sleep h d w)"
    and "h_run h rq w = (r, w') \<Longrightarrow> now w \<le> now w'"
  using assms unfolding advancing_clock_def by (metis fst_conv snd_conv)+

text \<open>
  A loop that sleeps a quantum, or until the deadline, in every further iteration needs at most
  one iteration per quantum left.
\<close>

definition quanta_left :: "rat \<Rightarrow> rat \<Rightarrow> nat" where
  "quanta_left quantum left = nat \<lceil>left / quantum\<rceil>"

lemma quanta_left_decreases:
  assumes "0 < quantum" "0 < left" "left' \<le> left - quantum \<or> left' \<le> 0"
  shows "quanta_left quantum left' < quanta_left quantum left"
proof -
  have pos: "0 < left / quantum" using assms by simp
  from assms(3) show ?thesis
  proof
    assume "left' \<le> left - quantum"
    then have "left' / quantum \<le> left / quantum - 1"
      using assms(1) by (simp add: field_simps)
    then have "\<lceil>left' / quantum\<rceil> \<le> \<lceil>left / quantum\<rceil> - 1" by linarith
    moreover have "0 < \<lceil>left / quantum\<rceil>" using pos by simp
    ultimately show ?thesis by (simp add: quanta_left_def)
  next
    assume "left' \<le> 0"
    then have "left' / quantum \<le> 0" using assms(1) by (simp add: divide_le_0_iff)
    then have "\<lceil>left' / quantum\<rceil> \<le> 0" by simp
    moreover have "0 < \<lceil>left / quantum\<rceil>" using pos by simp
    ultimately show ?thesis by (simp add: quanta_left_def)
  qed
qed

section \<open>Privileged commands\<close>

text \<open>
  \<open>_privileged\<close>, as the CPU isolation and the system controls define it, and the text an error
  message takes from a failed process: \<open>stderr.strip() or stdout.strip()\<close>.
\<close>

definition privileged :: "bool \<Rightarrow> string list \<Rightarrow> string list" where
  "privileged use_sudo command =
     (if use_sudo then ''sudo'' # ''--non-interactive'' # command else command)"

definition str_or :: "string \<Rightarrow> string \<Rightarrow> string" where
  "str_or a b = (if a \<noteq> [] then a else b)"

definition failure_detail :: "completed \<Rightarrow> string" where
  "failure_detail c = str_or (strip (stderr c)) (strip (stdout c))"

abbreviation command_request :: "string list \<Rightarrow> run_request" where
  "command_request cmd \<equiv> \<lparr>rq_command = cmd, rq_input = None, rq_timeout = None\<rparr>"

abbreviation tee_request :: "bool \<Rightarrow> path \<Rightarrow> string \<Rightarrow> run_request" where
  "tee_request sudo p v \<equiv>
     \<lparr>rq_command = privileged sudo [''tee'', path_str p], rq_input = Some (v @ [CHR 0x0A]),
      rq_timeout = None\<rparr>"

end
