(* ===== verification/Devices.thy ===== *)
theory Devices
  imports Host
begin

text \<open>
  RealSense USB-device discovery, \<open>tools/realsense_bench_common/realsense_devices.py\<close>: which
  sysfs directories are cameras, the record built for each, and the index by serial number.
\<close>

section \<open>Definitions\<close>

definition INTEL_VENDOR_ID :: string where
  "INTEL_VENDOR_ID = ''8086''"

definition KNOWN_D400_PRODUCTS :: "(string \<times> string) list" where
  "KNOWN_D400_PRODUCTS = [(''0ad3'', ''D415''), (''0b07'', ''D435''), (''0b5c'', ''D455'')]"

definition read_optional_text :: "'w host \<Rightarrow> 'w \<Rightarrow> path \<Rightarrow> string" where
  "read_optional_text h w p = (case h_read_text h p w of Inl _ \<Rightarrow> [] | Inr t \<Rightarrow> strip t)"

definition is_realsense_video_device :: "'w host \<Rightarrow> 'w \<Rightarrow> path \<Rightarrow> bool" where
  "is_realsense_video_device h w p =
     (if py_lower (read_optional_text h w (p @ [''idVendor''])) \<noteq> INTEL_VENDOR_ID then False
      else
        (let product_id = py_lower (read_optional_text h w (p @ [''idProduct'']));
             identity = py_lower (py_join '' ''
               [read_optional_text h w (p @ [''manufacturer'']),
                read_optional_text h w (p @ [''product''])])
         in product_id \<in> fst ` set KNOWN_D400_PRODUCTS \<or> py_contains ''realsense'' identity))"

definition model_from_device :: "'w host \<Rightarrow> 'w \<Rightarrow> path \<Rightarrow> string" where
  "model_from_device h w p =
     (let product_id = py_lower (read_optional_text h w (p @ [''idProduct''])) in
      case map_of KNOWN_D400_PRODUCTS product_id of
        Some known \<Rightarrow> known
      | None \<Rightarrow>
          (let product = read_optional_text h w (p @ [''product'']) in
           case find (\<lambda>model. py_contains (py_lower model) (py_lower product))
                  [''D455'', ''D435'', ''D415''] of
             Some model \<Rightarrow> model
           | None \<Rightarrow> str_or product ''unknown''))"

text \<open>\<open>usb_device.rsplit('.', 1)[0]\<close> is the text before the last dot.\<close>

definition upstream_hub_name :: "string \<Rightarrow> string" where
  "upstream_hub_name usb_device =
     (if CHR ''.'' \<notin> set usb_device then ''direct:'' @ usb_device
      else rev (tl (dropWhile (\<lambda>c. c \<noteq> CHR ''.'') (rev usb_device))))"

record usb_device =
  ud_usb_device :: string
  ud_sysfs_path :: path
  ud_resolved_sysfs_path :: path
  ud_vendor_id :: string
  ud_product_id :: string
  ud_manufacturer :: string
  ud_product :: string
  ud_model :: string
  ud_serial :: string
  ud_usb_descriptor_serial :: string
  ud_speed_mbps :: string
  ud_power_control :: string
  ud_runtime_status :: string
  ud_upstream_hub :: string
  ud_xhci_controller :: string

text \<open>\<open>next((c for c in (resolved, *resolved.parents) if c.name.startswith('xhci-hcd.')), None)\<close>\<close>

definition xhci_controller_of :: "path \<Rightarrow> path option" where
  "xhci_controller_of resolved =
     find (\<lambda>c. startswith (path_name c) ''xhci-hcd.'') (self_and_parents resolved)"

definition device_record :: "'w host \<Rightarrow> 'w \<Rightarrow> path \<Rightarrow> usb_device" where
  "device_record h w p =
     (let resolved = h_resolve h p w;
          usb_descriptor_serial = read_optional_text h w (p @ [''serial''])
      in \<lparr>ud_usb_device = path_name p,
          ud_sysfs_path = p,
          ud_resolved_sysfs_path = resolved,
          ud_vendor_id = py_lower (read_optional_text h w (p @ [''idVendor''])),
          ud_product_id = py_lower (read_optional_text h w (p @ [''idProduct''])),
          ud_manufacturer = read_optional_text h w (p @ [''manufacturer'']),
          ud_product = read_optional_text h w (p @ [''product'']),
          ud_model = model_from_device h w p,
          ud_serial = usb_descriptor_serial,
          ud_usb_descriptor_serial = usb_descriptor_serial,
          ud_speed_mbps = read_optional_text h w (p @ [''speed'']),
          ud_power_control = read_optional_text h w (p @ [''power'', ''control'']),
          ud_runtime_status = read_optional_text h w (p @ [''power'', ''runtime_status'']),
          ud_upstream_hub = upstream_hub_name (path_name p),
          ud_xhci_controller =
            (case xhci_controller_of resolved of None \<Rightarrow> [] | Some c \<Rightarrow> path_name c)\<rparr>)"

text \<open>\<open>sorted(base.glob('*'))\<close>: the entries of one directory in the order of their names.\<close>

definition glob_sorted :: "'w host \<Rightarrow> 'w \<Rightarrow> path \<Rightarrow> path list" where
  "glob_sorted h w base = map (\<lambda>n. base @ [n]) (sort (h_entries h base w))"

definition discover_realsense_devices :: "'w host \<Rightarrow> 'w \<Rightarrow> path \<Rightarrow> usb_device list" where
  "discover_realsense_devices h w base =
     map (device_record h w)
       (filter (\<lambda>p. h_is_dir h p w \<and> is_realsense_video_device h w p) (glob_sorted h w base))"

fun devices_by_serial_from ::
    "(string \<times> usb_device) list \<Rightarrow> usb_device list \<Rightarrow> (string \<times> usb_device) list" where
  "devices_by_serial_from result [] = result"
| "devices_by_serial_from result (d # ds) =
     devices_by_serial_from
       (if ud_serial d \<noteq> [] then dict_set (ud_serial d) d result else result) ds"

definition devices_by_serial :: "usb_device list \<Rightarrow> (string \<times> usb_device) list" where
  "devices_by_serial devices = devices_by_serial_from [] devices"

section \<open>Lemmas\<close>

lemma glob_sorted_set: "set (glob_sorted h w base) = {base @ [n] | n. n \<in> set (h_entries h base w)}"
  by (auto simp: glob_sorted_def)

lemma devices_by_serial_from_lookup:
  "map_of (devices_by_serial_from acc ds) s =
     (case find (\<lambda>d. ud_serial d = s \<and> s \<noteq> []) (rev ds) of None \<Rightarrow> map_of acc s | Some d \<Rightarrow> Some d)"
proof (induction ds arbitrary: acc)
  case Nil
  then show ?case by simp
next
  case (Cons d ds)
  have app: "find P (xs @ [y]) = (case find P xs of None \<Rightarrow> if P y then Some y else None | Some z \<Rightarrow> Some z)"
    for P :: "usb_device \<Rightarrow> bool" and xs y by (induction xs) auto
  show ?case by (auto simp: Cons.IH app split: option.splits)
qed

text \<open>
  The index returns, for a non-empty serial, the last discovered device with that serial, and
  nothing for the empty serial.
\<close>

lemma devices_by_serial_lookup:
  "map_of (devices_by_serial ds) s = find (\<lambda>d. ud_serial d = s \<and> s \<noteq> []) (rev ds)"
  by (simp add: devices_by_serial_def devices_by_serial_from_lookup split: option.splits)

lemma devices_by_serial_from_distinct:
  "distinct (map fst acc) \<Longrightarrow> distinct (map fst (devices_by_serial_from acc ds))"
  by (induction ds arbitrary: acc) auto

lemma devices_by_serial_distinct: "distinct (map fst (devices_by_serial ds))"
  by (simp add: devices_by_serial_def devices_by_serial_from_distinct)

lemma upstream_hub_name_port:
  "CHR ''.'' \<notin> set port \<Longrightarrow> upstream_hub_name (hub @ ''.'' @ port) = hub"
proof -
  assume "CHR ''.'' \<notin> set port"
  then have "dropWhile (\<lambda>c. c \<noteq> CHR ''.'') (rev port @ CHR ''.'' # rev hub) = CHR ''.'' # rev hub"
    by (subst dropWhile_append2) auto
  then show ?thesis by (simp add: upstream_hub_name_def)
qed

lemma discover_realsense_devices_mem:
  "d \<in> set (discover_realsense_devices h w base) \<longleftrightarrow>
     (\<exists>n \<in> set (h_entries h base w). h_is_dir h (base @ [n]) w \<and>
        is_realsense_video_device h w (base @ [n]) \<and> d = device_record h w (base @ [n]))"
  by (auto simp: discover_realsense_devices_def glob_sorted_set)

end
