(* ===== verification/Host_Sim.thy ===== *)
theory Host_Sim
  imports Host
begin

text \<open>
  A small executable host, on which the theorems about the controllers are applied to concrete
  machines. Files are an association list; a command that succeeds is appended to the log; \<open>tee\<close>
  stores its input; a table adds what a command changes besides (a cpuset partition that becomes
  effective, a device that disappears), and a list names the commands that fail. The clock
  advances by what is slept.
\<close>

record sim =
  sim_files :: "(path \<times> string) list"
  sim_dirs :: "path list"
  sim_links :: "(path \<times> path) list"
  sim_effects :: "((string list \<times> string option) \<times> (path \<times> string) list) list"
  sim_failing :: "string list list"
  sim_output :: "(string list \<times> string) list"
  sim_affinity :: "(string list \<times> nat list) list"
  sim_log :: "run_request list"
  sim_json :: "(path \<times> pyval) list"
  sim_now :: rat

definition sim_empty :: sim where
  "sim_empty = \<lparr>sim_files = [], sim_dirs = [], sim_links = [], sim_effects = [], sim_failing = [], sim_output = [],
     sim_affinity = [], sim_log = [], sim_json = [], sim_now = 0\<rparr>"

definition chomp :: "string \<Rightarrow> string" where
  "chomp s = (if s \<noteq> [] \<and> last s = CHR 0x0A then butlast s else s)"

definition sim_store :: "run_request \<Rightarrow> (path \<times> string) list \<Rightarrow> (path \<times> string) list" where
  "sim_store rq fs =
     (case (rq_command rq, rq_input rq) of
        ([c, p], Some v) \<Rightarrow> if c = ''tee'' then dict_set (path_parts p) (chomp v) fs else fs
      | _ \<Rightarrow> fs)"

definition sim_run :: "run_request \<Rightarrow> sim \<Rightarrow> (host_error + completed) \<times> sim" where
  "sim_run rq w =
     (if rq_command rq \<in> set (sim_failing w)
      then (Inr \<lparr>returncode = 1, stdout = [], stderr = ''denied''\<rparr>, w)
      else (Inr \<lparr>returncode = 0, stdout = dict_get (sim_output w) (rq_command rq) [], stderr = []\<rparr>,
            w\<lparr>sim_files := dict_update (sim_store rq (sim_files w))
                 (dict_get (sim_effects w) (rq_command rq, rq_input rq) []),
              sim_log := sim_log w @ [rq]\<rparr>))"

text \<open>The CPUs a process may run on: those listed for the last logged command that has an entry.\<close>

definition sim_cpus :: "sim \<Rightarrow> nat set" where
  "sim_cpus w =
     (case List.map_filter (\<lambda>rq. map_of (sim_affinity w) (rq_command rq)) (rev (sim_log w)) of
        [] \<Rightarrow> {} | cs # _ \<Rightarrow> set cs)"

definition sim_entries :: "path \<Rightarrow> sim \<Rightarrow> string list" where
  "sim_entries p w = remdups (List.map_filter
     (\<lambda>q. if length p < length q \<and> take (length p) q = p then Some (q ! length p) else None)
     (map fst (sim_files w) @ sim_dirs w))"

definition sim_is_dir :: "path \<Rightarrow> sim \<Rightarrow> bool" where
  "sim_is_dir p w = (p \<in> set (sim_dirs w) \<or>
     list_ex (\<lambda>(q, _). length p < length q \<and> take (length p) q = p) (sim_files w))"

definition sim_host :: "sim host" where
  "sim_host = \<lparr>
     h_read_text = (\<lambda>p w. case map_of (sim_files w) p of None \<Rightarrow> Inl (HOSError (path_str p)) | Some t \<Rightarrow> Inr t),
     h_is_file = (\<lambda>p w. map_of (sim_files w) p \<noteq> None),
     h_is_dir = sim_is_dir,
     h_exists = (\<lambda>p w. map_of (sim_files w) p \<noteq> None \<or> sim_is_dir p w),
     h_entries = sim_entries,
     h_resolve = (\<lambda>p w. dict_get (sim_links w) p p),
     h_run = sim_run,
     h_write_text = (\<lambda>p t w. (Inr (), w\<lparr>sim_files := dict_set p t (sim_files w)\<rparr>)),
     h_write_json = (\<lambda>p v w. (Inr (), w\<lparr>sim_json := dict_set p v (sim_json w)\<rparr>)),
     h_read_json = (\<lambda>p w. case map_of (sim_json w) p of None \<Rightarrow> Inl (HOSError (path_str p)) | Some v \<Rightarrow> Inr v),
     h_mkdir = (\<lambda>p w. (Inr (), w\<lparr>sim_dirs := p # sim_dirs w\<rparr>)),
     h_getpid = (\<lambda>w. 7), h_geteuid = (\<lambda>w. 0), h_which = (\<lambda>c w. True), h_writable = (\<lambda>p w. True),
     h_is_linux = (\<lambda>w. True), h_affinity = (\<lambda>pid. sim_cpus), h_sched = (\<lambda>pid w. None),
     h_monotonic = (\<lambda>w. (sim_now w, w)), h_boottime_ns = (\<lambda>w. (\<lfloor>sim_now w * 1000000000\<rfloor>, w)),
     h_sleep = (\<lambda>d w. w\<lparr>sim_now := sim_now w + d\<rparr>)\<rparr>"

lemma sim_now_run [simp]: "sim_now (snd (sim_run rq w)) = sim_now w"
  by (simp add: sim_run_def)

lemma sim_advancing_clock: "advancing_clock sim_host sim_now"
  by (simp add: advancing_clock_def sim_host_def)

end
