(* ===== verification/Cpu_Isolation.thy ===== *)
theory Cpu_Isolation
  imports Cpu_List Devices Host_Sim
begin

text \<open>
  \<open>CpuIsolation\<close> of \<open>tools/realsense_bench_common/cpu_isolation.py\<close>: the object that moves the
  campaign into an isolated cgroup, pins the camera xHCI interrupts to the housekeeping CPUs and
  undoes all of it. The object is the record \<open>cpu_iso\<close>; its methods run on pairs of the object and
  the world. The lemmas show what \<open>prepare\<close> establishes, that \<open>restore\<close> leaves nothing to undo
  when it returns, and that a failing \<open>prepare\<close> undoes what it did.
\<close>

section \<open>Definitions\<close>

record cpu_iso_config =
  cc_enabled :: bool
  cc_housekeeping_cpus :: string
  cc_benchmark_cpus :: string
  cc_use_sudo :: bool
  cc_cgroup_root :: path
  cc_cpu_online_path :: path
  cc_proc_root :: path
  cc_usb_sysfs_base :: path

record irq_thread =
  it_pid :: nat
  it_name :: string
  it_policy :: string
  it_priority :: int
  it_affinity :: string

text \<open>\<open>ir_thread = Some None\<close> is the empty dictionary \<open>_irq_thread_state\<close> returns.\<close>

record irq_record =
  ir_irq :: nat
  ir_action :: string
  ir_controller :: path
  ir_usb_devices :: "string list"
  ir_original :: "string option"
  ir_effective :: "string option"
  ir_thread :: "irq_thread option option"

record iso_actual =
  ia_root_effective :: string
  ia_benchmark_effective :: string
  ia_isolated :: string
  ia_process_affinity :: string

text \<open>The dictionary \<open>_state\<close>; the keys that only \<open>prepare\<close> and \<open>verify\<close> add are options.\<close>

record iso_state =
  is_enabled :: bool
  is_active :: bool
  is_housekeeping :: string
  is_benchmark :: string
  is_xhci_irqs :: "irq_record list"
  is_cgroups :: "(path \<times> path) option"
  is_actual :: "iso_actual option"
  is_verified :: "bool option"

record cpu_iso =
  ci_active :: bool
  ci_controller_enabled_by_us :: bool
  ci_cgroup_created :: bool
  ci_process_moved :: bool
  ci_cgroup_path :: "path option"
  ci_original_cgroup_path :: "path option"
  ci_original_irq_affinities :: "(nat \<times> string) list"
  ci_state :: iso_state

definition iso_init :: "cpu_iso_config \<Rightarrow> cpu_iso" where
  "iso_init cfg =
     \<lparr>ci_active = False, ci_controller_enabled_by_us = False, ci_cgroup_created = False,
      ci_process_moved = False, ci_cgroup_path = None, ci_original_cgroup_path = None,
      ci_original_irq_affinities = [],
      ci_state = \<lparr>is_enabled = cc_enabled cfg, is_active = False,
        is_housekeeping = cc_housekeeping_cpus cfg, is_benchmark = cc_benchmark_cpus cfg,
        is_xhci_irqs = [], is_cgroups = None, is_actual = None, is_verified = None\<rparr>\<rparr>"

subsection \<open>Files and privileged commands\<close>

definition iso_read :: "'w host \<Rightarrow> path \<Rightarrow> ('o \<times> 'w, string) py" where
  "iso_read h p = py_bind (do_read h p) (\<lambda>t. py_return (strip t))"

definition iso_run_privileged ::
    "'w host \<Rightarrow> cpu_iso_config \<Rightarrow> string list \<Rightarrow> ('o \<times> 'w, unit) py" where
  "iso_run_privileged h cfg command =
     py_bind (do_run h (command_request (privileged (cc_use_sudo cfg) command))) (\<lambda>c.
       if returncode c \<noteq> 0
       then py_raise (Exn RuntimeError (py_join '' '' command @ '' failed: '' @
              str_or (failure_detail c) (''status '' @ str_int (returncode c))))
       else py_skip)"

definition iso_write ::
    "'w host \<Rightarrow> cpu_iso_config \<Rightarrow> path \<Rightarrow> string \<Rightarrow> ('o \<times> 'w, unit) py" where
  "iso_write h cfg p v =
     py_bind (do_run h (tee_request (cc_use_sudo cfg) p v)) (\<lambda>c.
       if returncode c \<noteq> 0
       then py_raise (Exn RuntimeError (''failed to write '' @ path_str p @ ''='' @ v @ '': '' @
              str_or (failure_detail c) (''status '' @ str_int (returncode c))))
       else py_skip)"

subsection \<open>Discovery\<close>

definition cgroup_v2_relative :: "string \<Rightarrow> string option" where
  "cgroup_v2_relative line =
     (case split_max CHR '':'' 2 line of
        [a, b, c] \<Rightarrow> if a = ''0'' \<and> b = [] then Some (dropWhile (\<lambda>x. x = CHR ''/'') c) else None
      | _ \<Rightarrow> None)"

definition iso_current_process_cgroup ::
    "'w host \<Rightarrow> cpu_iso_config \<Rightarrow> ('o \<times> 'w, path) py" where
  "iso_current_process_cgroup h cfg =
     py_bind (iso_read h (cc_proc_root cfg @ [''self'', ''cgroup''])) (\<lambda>text.
       case find (\<lambda>l. cgroup_v2_relative l \<noteq> None) (splitlines text) of
         Some line \<Rightarrow>
           py_return (cc_cgroup_root cfg @ path_parts (the (cgroup_v2_relative line)))
       | None \<Rightarrow> py_raise (Exn RuntimeError
           ''the current process is not in a cgroup-v2 hierarchy''))"

definition iso_connected_realsense_devices ::
    "'w host \<Rightarrow> cpu_iso_config \<Rightarrow> 'w \<Rightarrow> path list" where
  "iso_connected_realsense_devices h cfg w =
     filter (\<lambda>p. h_is_dir h p w \<and> is_realsense_video_device h w p)
       (glob_sorted h w (cc_usb_sysfs_base cfg))"

text \<open>\<open>re.match(r'^\s*(\d+):', line)\<close>\<close>

definition irq_line_number :: "string \<Rightarrow> nat option" where
  "irq_line_number line =
     (let t = lstrip line; ds = takeWhile is_digit t; rest = dropWhile is_digit t
      in if ds \<noteq> [] \<and> rest \<noteq> [] \<and> hd rest = CHR '':'' then Some (dec_nat ds) else None)"

text \<open>\<open>re.findall(r'xhci-hcd:(usb\d+)', line)\<close>\<close>

function find_xhci_actions :: "string \<Rightarrow> string list" where
  "find_xhci_actions s =
     (case s of
        [] \<Rightarrow> []
      | c # r \<Rightarrow>
          (let ds = takeWhile is_digit (drop 12 s) in
           if prefix ''xhci-hcd:usb'' s \<and> ds \<noteq> []
           then (''usb'' @ ds) # find_xhci_actions (drop (12 + length ds) s)
           else find_xhci_actions r))"
  by pat_completeness auto
termination
  by (relation "measure length") auto

declare find_xhci_actions.simps [simp del]

fun add_actions :: "nat \<Rightarrow> string list \<Rightarrow> (string \<times> nat) list \<Rightarrow> (string \<times> nat) list res" where
  "add_actions irq [] actions = Inr actions"
| "add_actions irq (a # as) actions =
     (if map_of actions a \<noteq> None \<and> map_of actions a \<noteq> Some irq
      then runtime_error (''xHCI action '' @ a @ '' maps to multiple IRQs'')
      else add_actions irq as (dict_set a irq actions))"

fun interrupt_lines :: "string list \<Rightarrow> (string \<times> nat) list \<Rightarrow> (string \<times> nat) list res" where
  "interrupt_lines [] actions = Inr actions"
| "interrupt_lines (l # ls) actions =
     (case irq_line_number l of
        None \<Rightarrow> interrupt_lines ls actions
      | Some irq \<Rightarrow> res_bind (add_actions irq (find_xhci_actions l) actions) (interrupt_lines ls))"

definition iso_interrupt_actions ::
    "'w host \<Rightarrow> cpu_iso_config \<Rightarrow> ('o \<times> 'w, (string \<times> nat) list) py" where
  "iso_interrupt_actions h cfg =
     py_bind (iso_read h (cc_proc_root cfg @ [''interrupts''])) (\<lambda>text.
       py_res (interrupt_lines (splitlines text) []))"

definition repr_matches :: "(string \<times> nat) list \<Rightarrow> string" where
  "repr_matches ms =
     ''['' @ py_join '', '' (map (\<lambda>(b, i). ''('' @ py_repr b @ '', '' @ str_nat i @ '')'') ms) @ '']''"

text \<open>\<open>sorted\<close> names of the directories \<open>usb<digits>\<close> below the controller.\<close>

definition root_hub_names :: "'w host \<Rightarrow> 'w \<Rightarrow> path \<Rightarrow> string list" where
  "root_hub_names h w controller =
     sort (filter (\<lambda>n. prefix ''usb'' n \<and> py_isdigit (drop 3 n) \<and> h_is_dir h (controller @ [n]) w)
       (h_entries h controller w))"

definition controller_match ::
    "'w host \<Rightarrow> 'w \<Rightarrow> (string \<times> nat) list \<Rightarrow> path \<Rightarrow> (path \<times> string \<times> nat) res" where
  "controller_match h w actions device =
     (let resolved = h_resolve h device w in
      case xhci_controller_of resolved of
        None \<Rightarrow> runtime_error (''cannot find the xHCI controller for '' @ path_name device @ '': '' @
                  path_str resolved)
      | Some controller \<Rightarrow>
          (let ms = List.map_filter (\<lambda>bus. map_option (\<lambda>i. (bus, i)) (map_of actions bus))
                      (root_hub_names h w controller) in
           case ms of
             [(bus, irq)] \<Rightarrow> Inr (controller, bus, irq)
           | _ \<Rightarrow> runtime_error (''expected one xHCI IRQ for '' @ path_name device @ '' via '' @
                    path_str controller @ '', found '' @ repr_matches ms)))"

definition add_irq_device ::
    "path \<Rightarrow> path \<times> string \<times> nat \<Rightarrow> (nat \<times> irq_record) list \<Rightarrow> (nat \<times> irq_record) list" where
  "add_irq_device device m by_irq =
     (case m of (controller, bus, irq) \<Rightarrow>
       (let rec = dict_get by_irq irq
              \<lparr>ir_irq = irq, ir_action = ''xhci-hcd:'' @ bus, ir_controller = controller,
               ir_usb_devices = [], ir_original = None, ir_effective = None, ir_thread = None\<rparr>
        in dict_set irq (rec\<lparr>ir_usb_devices := ir_usb_devices rec @ [path_name device]\<rparr>) by_irq))"

fun group_by_irq ::
    "'w host \<Rightarrow> 'w \<Rightarrow> (string \<times> nat) list \<Rightarrow> path list \<Rightarrow> (nat \<times> irq_record) list
      \<Rightarrow> (nat \<times> irq_record) list res" where
  "group_by_irq h w actions [] by_irq = Inr by_irq"
| "group_by_irq h w actions (d # ds) by_irq =
     res_bind (controller_match h w actions d) (\<lambda>m.
       group_by_irq h w actions ds (add_irq_device d m by_irq))"

definition iso_discover_camera_xhci_irqs ::
    "'w host \<Rightarrow> cpu_iso_config \<Rightarrow> ('o \<times> 'w, irq_record list) py" where
  "iso_discover_camera_xhci_irqs h cfg =
     py_bind (ask (iso_connected_realsense_devices h cfg)) (\<lambda>devices.
       if devices = []
       then py_raise (Exn RuntimeError
              ''CPU isolation requires at least one connected RealSense camera'')
       else
         py_bind (iso_interrupt_actions h cfg) (\<lambda>actions.
         py_bind (ask_res (\<lambda>w. group_by_irq h w actions devices [])) (\<lambda>by_irq.
         py_return (map snd (sort_key fst by_irq)))))"

definition sched_policy_name :: "int \<Rightarrow> string" where
  "sched_policy_name i =
     (case map_of [(0, ''SCHED_OTHER''), (1, ''SCHED_FIFO''), (2, ''SCHED_RR''),
                   (3, ''SCHED_BATCH''), (5, ''SCHED_IDLE''), (6, ''SCHED_DEADLINE'')] i of
        Some n \<Rightarrow> n | None \<Rightarrow> str_int i)"

definition irq_thread_of :: "'w host \<Rightarrow> 'w \<Rightarrow> nat \<Rightarrow> string \<Rightarrow> irq_thread" where
  "irq_thread_of h w pid name =
     (case h_sched h pid w of
        Some (policy_id, priority, affinity) \<Rightarrow>
          \<lparr>it_pid = pid, it_name = name, it_policy = sched_policy_name policy_id,
           it_priority = priority, it_affinity = format_cpu_list affinity\<rparr>
      | None \<Rightarrow>
          \<lparr>it_pid = pid, it_name = name, it_policy = sched_policy_name (-1),
           it_priority = -1, it_affinity = format_cpu_list {}\<rparr>)"

definition irq_thread_candidate ::
    "'w host \<Rightarrow> cpu_iso_config \<Rightarrow> 'w \<Rightarrow> nat \<Rightarrow> string \<Rightarrow> irq_thread option" where
  "irq_thread_candidate h cfg w irq n =
     (if \<not> py_isdigit n then None
      else (case h_read_text h (cc_proc_root cfg @ [n, ''comm'']) w of
              Inl _ \<Rightarrow> None
            | Inr t \<Rightarrow>
                if startswith (strip t) (''irq/'' @ str_nat irq @ ''-'')
                then Some (irq_thread_of h w (dec_nat n) (strip t)) else None))"

definition iso_irq_thread_state ::
    "'w host \<Rightarrow> cpu_iso_config \<Rightarrow> nat \<Rightarrow> 'w \<Rightarrow> irq_thread option" where
  "iso_irq_thread_state h cfg irq w =
     (case List.map_filter (irq_thread_candidate h cfg w irq) (h_entries h (cc_proc_root cfg) w) of
        [] \<Rightarrow> None | t # _ \<Rightarrow> Some t)"

subsection \<open>Validation\<close>

definition iso_required_files :: "cpu_iso_config \<Rightarrow> path list" where
  "iso_required_files cfg = map (\<lambda>n. cc_cgroup_root cfg @ [n])
     [''cgroup.controllers'', ''cgroup.subtree_control'', ''cgroup.procs'',
      ''cpuset.cpus.effective'', ''cpuset.cpus.isolated'', ''cpuset.mems.effective'']"

definition iso_check_partition :: "nat set \<Rightarrow> nat set \<Rightarrow> nat set \<Rightarrow> unit res" where
  "iso_check_partition housekeeping benchmark online =
     (if housekeeping = {} \<or> benchmark = {}
      then runtime_error ''CPU isolation requires two non-empty CPU sets''
      else if housekeeping \<inter> benchmark \<noteq> {}
      then runtime_error ''housekeeping and benchmark CPU sets overlap''
      else if housekeeping \<union> benchmark \<noteq> online
      then runtime_error (''housekeeping and benchmark CPU sets must exactly partition '' @
             ''online CPUs '' @ format_cpu_list online)
      else Inr ())"

definition iso_validate_environment ::
    "'w host \<Rightarrow> cpu_iso_config \<Rightarrow> ('o \<times> 'w, unit) py" where
  "iso_validate_environment h cfg =
     (if \<not> cc_enabled cfg then py_skip else
      py_bind (py_res (parse_cpu_list (cc_housekeeping_cpus cfg))) (\<lambda>housekeeping.
      py_bind (py_res (parse_cpu_list (cc_benchmark_cpus cfg))) (\<lambda>benchmark.
      py_bind (iso_read h (cc_cpu_online_path cfg)) (\<lambda>online_text.
      py_bind (py_res (parse_cpu_list online_text)) (\<lambda>online.
      py_seq (py_res (iso_check_partition housekeeping benchmark online))
     (py_bind (ask (\<lambda>w. filter (\<lambda>p. \<not> h_is_file h p w) (iso_required_files cfg))) (\<lambda>missing.
      if missing \<noteq> []
      then py_raise (Exn RuntimeError (''cgroup-v2 cpuset support is unavailable: '' @
             py_join '', '' (map path_str missing)))
      else
      py_bind (iso_read h (cc_cgroup_root cfg @ [''cgroup.controllers''])) (\<lambda>controllers.
      if ''cpuset'' \<notin> set (split_ws controllers)
      then py_raise (Exn RuntimeError ''the cgroup-v2 cpuset controller is unavailable'')
      else
      py_bind (iso_read h (cc_cgroup_root cfg @ [''cpuset.cpus.isolated''])) (\<lambda>isolated.
      if isolated \<noteq> []
      then py_raise (Exn RuntimeError ''an existing isolated cpuset partition is already active'')
      else
      py_bind (iso_current_process_cgroup h cfg) (\<lambda>_.
      py_bind (iso_discover_camera_xhci_irqs h cfg) (\<lambda>_. py_skip)))))))))))"

subsection \<open>JSON form of the state\<close>

definition irq_thread_json :: "irq_thread \<Rightarrow> pyval" where
  "irq_thread_json t = PDict [(''pid'', PInt (int (it_pid t))), (''name'', PStr (it_name t)),
     (''policy'', PStr (it_policy t)), (''priority'', PInt (it_priority t)),
     (''affinity'', PStr (it_affinity t))]"

definition opt_key :: "string \<Rightarrow> ('a \<Rightarrow> pyval) \<Rightarrow> 'a option \<Rightarrow> (string \<times> pyval) list" where
  "opt_key k f v = (case v of None \<Rightarrow> [] | Some x \<Rightarrow> [(k, f x)])"

definition irq_record_json :: "irq_record \<Rightarrow> pyval" where
  "irq_record_json r = PDict ([(''irq'', PInt (int (ir_irq r))), (''action'', PStr (ir_action r)),
     (''controller'', PStr (path_str (ir_controller r))),
     (''usb_devices'', PList (map PStr (ir_usb_devices r)))] @
     opt_key ''original_affinity'' PStr (ir_original r) @
     opt_key ''effective_affinity'' PStr (ir_effective r) @
     opt_key ''thread'' (\<lambda>t. case t of None \<Rightarrow> PDict [] | Some x \<Rightarrow> irq_thread_json x) (ir_thread r))"

definition iso_state_json :: "iso_state \<Rightarrow> pyval" where
  "iso_state_json s = PDict ([(''enabled'', PBool (is_enabled s)), (''active'', PBool (is_active s))] @
     (case is_cgroups s of None \<Rightarrow> [] | Some (c, o') \<Rightarrow>
        [(''cgroup'', PStr (path_str c)), (''original_cgroup'', PStr (path_str o'))]) @
     [(''housekeeping_cpus'', PStr (is_housekeeping s)),
      (''benchmark_cpus'', PStr (is_benchmark s))] @
     (case is_actual s of None \<Rightarrow> [] | Some a \<Rightarrow>
        [(''root_effective_cpus'', PStr (ia_root_effective a)),
         (''benchmark_effective_cpus'', PStr (ia_benchmark_effective a)),
         (''isolated_cpus'', PStr (ia_isolated a)),
         (''process_affinity'', PStr (ia_process_affinity a))]) @
     [(''xhci_irqs'', PList (map irq_record_json (is_xhci_irqs s)))] @
     opt_key ''verified'' PBool (is_verified s))"

subsection \<open>Verification\<close>

definition irq_affinity_path :: "cpu_iso_config \<Rightarrow> nat \<Rightarrow> path" where
  "irq_affinity_path cfg irq = cc_proc_root cfg @ [''irq'', str_nat irq, ''smp_affinity_list'']"

text \<open>\<open>parse_cpu_list(a) != parse_cpu_list(b)\<close>, where either parse may raise.\<close>

definition cpus_differ :: "string \<Rightarrow> string \<Rightarrow> bool res" where
  "cpus_differ a b =
     res_bind (parse_cpu_list a) (\<lambda>x. res_bind (parse_cpu_list b) (\<lambda>y. Inr (x \<noteq> y)))"

fun compare_expected :: "(string \<times> string \<times> string) list \<Rightarrow> string list \<Rightarrow> string list res" where
  "compare_expected [] errors = Inr errors"
| "compare_expected ((key, actual, expected) # rest) errors =
     res_bind (cpus_differ actual expected) (\<lambda>d.
       compare_expected rest
         (if d then errors @ [key @ ''='' @ actual @ '', expected '' @ expected] else errors))"

definition iso_set_irq :: "nat \<Rightarrow> string \<Rightarrow> irq_thread option \<Rightarrow> cpu_iso \<Rightarrow> cpu_iso" where
  "iso_set_irq i affinity thread ob =
     ob\<lparr>ci_state := (ci_state ob)\<lparr>is_xhci_irqs :=
       (is_xhci_irqs (ci_state ob))[i := ((is_xhci_irqs (ci_state ob)) ! i)
          \<lparr>ir_effective := Some affinity, ir_thread := Some thread\<rparr>]\<rparr>\<rparr>"

fun iso_verify_irqs ::
    "'w host \<Rightarrow> cpu_iso_config \<Rightarrow> string \<Rightarrow> nat list \<Rightarrow> string list
      \<Rightarrow> (cpu_iso \<times> 'w, string list) py" where
  "iso_verify_irqs h cfg housekeeping [] errors = py_return errors"
| "iso_verify_irqs h cfg housekeeping (i # is) errors =
     py_bind (self_get (\<lambda>ob. ir_irq (is_xhci_irqs (ci_state ob) ! i))) (\<lambda>irq.
     py_bind (iso_read h (irq_affinity_path cfg irq)) (\<lambda>affinity.
     py_bind (ask (iso_irq_thread_state h cfg irq)) (\<lambda>thread.
     py_seq (self_upd (iso_set_irq i affinity thread))
    (py_bind (py_res (cpus_differ affinity housekeeping)) (\<lambda>d.
     iso_verify_irqs h cfg housekeeping is
       (if d then errors @ [''IRQ '' @ str_nat irq @ '' affinity='' @ affinity @ '', expected '' @
                            housekeeping] else errors))))))"

definition iso_read_actual ::
    "'w host \<Rightarrow> cpu_iso_config \<Rightarrow> path \<Rightarrow> ('o \<times> 'w, iso_actual) py" where
  "iso_read_actual h cfg cgroup =
     py_bind (iso_read h (cc_cgroup_root cfg @ [''cpuset.cpus.effective''])) (\<lambda>root_effective.
     py_bind (iso_read h (cgroup @ [''cpuset.cpus.effective''])) (\<lambda>benchmark_effective.
     py_bind (iso_read h (cc_cgroup_root cfg @ [''cpuset.cpus.isolated''])) (\<lambda>isolated.
     py_bind (ask (h_affinity h 0)) (\<lambda>affinity.
     py_return \<lparr>ia_root_effective = root_effective,
       ia_benchmark_effective = benchmark_effective, ia_isolated = isolated,
       ia_process_affinity = format_cpu_list affinity\<rparr>))))"

definition expected_pairs :: "iso_actual \<Rightarrow> string \<Rightarrow> string \<Rightarrow> (string \<times> string \<times> string) list" where
  "expected_pairs a housekeeping benchmark =
     [(''root_effective_cpus'', ia_root_effective a, housekeeping),
      (''benchmark_effective_cpus'', ia_benchmark_effective a, benchmark),
      (''isolated_cpus'', ia_isolated a, benchmark),
      (''process_affinity'', ia_process_affinity a, benchmark)]"

definition iso_verify_with ::
    "'w host \<Rightarrow> cpu_iso_config \<Rightarrow> path option \<Rightarrow> path \<Rightarrow> (cpu_iso \<times> 'w, iso_state) py" where
  "iso_verify_with h cfg output cgroup =
     py_bind (py_res (parse_cpu_list (cc_benchmark_cpus cfg))) (\<lambda>bset.
     py_bind (py_res (parse_cpu_list (cc_housekeeping_cpus cfg))) (\<lambda>hset.
     py_bind (iso_read_actual h cfg cgroup) (\<lambda>actual.
     py_bind (py_res (compare_expected
       (expected_pairs actual (format_cpu_list hset) (format_cpu_list bset)) [])) (\<lambda>errors0.
     py_bind (self_get (\<lambda>ob. length (is_xhci_irqs (ci_state ob)))) (\<lambda>n.
     py_bind (iso_verify_irqs h cfg (format_cpu_list hset) [0..<n] errors0) (\<lambda>errors.
     py_seq (self_upd (\<lambda>ob. ob\<lparr>ci_state := (ci_state ob)
       \<lparr>is_actual := Some actual, is_verified := Some (errors = [])\<rparr>\<rparr>))
    (py_bind (self_get ci_state) (\<lambda>st.
     py_seq (case output of None \<Rightarrow> py_skip | Some p \<Rightarrow> do_write_json h p (iso_state_json st))
     (if errors \<noteq> []
      then py_raise (Exn RuntimeError
             (''CPU isolation verification failed: '' @ py_join '' | '' errors))
      else py_return st)))))))))"

definition iso_verify ::
    "'w host \<Rightarrow> cpu_iso_config \<Rightarrow> path option \<Rightarrow> (cpu_iso \<times> 'w, iso_state) py" where
  "iso_verify h cfg output =
     (if \<not> cc_enabled cfg then self_get ci_state else
      py_bind (self_get (\<lambda>ob. (ci_active ob, ci_cgroup_path ob))) (\<lambda>(active, cgroup).
      case cgroup of
        None \<Rightarrow> py_raise (Exn RuntimeError ''the configured CPU isolation is not active'')
      | Some p \<Rightarrow>
          if \<not> active
          then py_raise (Exn RuntimeError ''the configured CPU isolation is not active'')
          else iso_verify_with h cfg output p))"

subsection \<open>Restoration\<close>

text \<open>One \<open>try: m except Exception as error: errors.append(label + str(error))\<close>.\<close>

definition collect_error ::
    "string \<Rightarrow> ('s, unit) py \<Rightarrow> string list \<Rightarrow> ('s, string list) py" where
  "collect_error label m errors =
     py_catch (py_seq m (py_return errors)) (\<lambda>e. py_return (errors @ [label @ exn_msg e]))"

fun iso_restore_irqs ::
    "'w host \<Rightarrow> cpu_iso_config \<Rightarrow> (nat \<times> string) list \<Rightarrow> string list
      \<Rightarrow> (cpu_iso \<times> 'w, string list) py" where
  "iso_restore_irqs h cfg [] errors = py_return errors"
| "iso_restore_irqs h cfg ((irq, affinity) # rest) errors =
     py_bind (collect_error (''restore IRQ '' @ str_nat irq @ '' affinity: '')
       (iso_write h cfg (irq_affinity_path cfg irq) affinity) errors)
       (iso_restore_irqs h cfg rest)"

definition iso_restore_process ::
    "'w host \<Rightarrow> cpu_iso_config \<Rightarrow> cpu_iso \<Rightarrow> string list \<Rightarrow> (cpu_iso \<times> 'w, string list) py" where
  "iso_restore_process h cfg ob errors =
     (if ci_process_moved ob then
        (let target = (case ci_original_cgroup_path ob of None \<Rightarrow> cc_cgroup_root cfg | Some p \<Rightarrow> p)
         in collect_error ''restore process cgroup: ''
              (py_bind (ask (h_getpid h)) (\<lambda>pid.
               py_seq (iso_write h cfg (target @ [''cgroup.procs'']) (str_nat pid))
                 (self_upd (\<lambda>ob. ob\<lparr>ci_process_moved := False\<rparr>)))) errors)
      else py_return errors)"

definition iso_restore_cgroup ::
    "'w host \<Rightarrow> cpu_iso_config \<Rightarrow> cpu_iso \<Rightarrow> string list \<Rightarrow> (cpu_iso \<times> 'w, string list) py" where
  "iso_restore_cgroup h cfg ob errors =
     (case ci_cgroup_path ob of
        Some p \<Rightarrow>
          if ci_cgroup_created ob then
            collect_error ''remove benchmark cpuset: ''
              (py_seq (iso_write h cfg (p @ [''cpuset.cpus.partition'']) ''member'')
              (py_seq (iso_run_privileged h cfg [''rmdir'', path_str p])
                (self_upd (\<lambda>ob. ob\<lparr>ci_cgroup_created := False\<rparr>)))) errors
          else py_return errors
      | None \<Rightarrow> py_return errors)"

definition iso_restore_controller ::
    "'w host \<Rightarrow> cpu_iso_config \<Rightarrow> cpu_iso \<Rightarrow> string list \<Rightarrow> (cpu_iso \<times> 'w, string list) py" where
  "iso_restore_controller h cfg ob errors =
     (if ci_controller_enabled_by_us ob then
        collect_error ''disable cpuset controller: ''
          (py_seq (iso_write h cfg (cc_cgroup_root cfg @ [''cgroup.subtree_control'']) ''-cpuset'')
            (self_upd (\<lambda>ob. ob\<lparr>ci_controller_enabled_by_us := False\<rparr>))) errors
      else py_return errors)"

definition iso_needs_restore :: "cpu_iso \<Rightarrow> bool" where
  "iso_needs_restore ob \<longleftrightarrow> ci_active ob \<or> ci_controller_enabled_by_us ob \<or> ci_cgroup_created ob \<or>
     ci_process_moved ob \<or> ci_original_irq_affinities ob \<noteq> []"

definition iso_restore :: "'w host \<Rightarrow> cpu_iso_config \<Rightarrow> (cpu_iso \<times> 'w, unit) py" where
  "iso_restore h cfg =
     py_bind (self_get id) (\<lambda>ob.
     if \<not> iso_needs_restore ob then py_skip else
     py_bind (iso_restore_process h cfg ob []) (\<lambda>errors1.
     py_bind (iso_restore_irqs h cfg (ci_original_irq_affinities ob) errors1) (\<lambda>errors2.
     py_seq (self_upd (\<lambda>ob. ob\<lparr>ci_original_irq_affinities := []\<rparr>))
    (py_bind (iso_restore_cgroup h cfg ob errors2) (\<lambda>errors3.
     py_bind (iso_restore_controller h cfg ob errors3) (\<lambda>errors.
     py_seq (self_upd (\<lambda>ob. ob\<lparr>ci_active := False,
                               ci_state := (ci_state ob)\<lparr>is_active := False\<rparr>\<rparr>))
     (if errors \<noteq> [] then py_raise (Exn RuntimeError (py_join '' | '' errors))
      else py_skip)))))))"

subsection \<open>Preparation\<close>

fun iso_prepare_irqs ::
    "'w host \<Rightarrow> cpu_iso_config \<Rightarrow> string \<Rightarrow> irq_record list \<Rightarrow> (cpu_iso \<times> 'w, irq_record list) py" where
  "iso_prepare_irqs h cfg housekeeping [] = py_return []"
| "iso_prepare_irqs h cfg housekeeping (r # rs) =
     (let p = irq_affinity_path cfg (ir_irq r) in
      py_bind (iso_read h p) (\<lambda>original.
      py_seq (self_upd (\<lambda>ob. ob\<lparr>ci_original_irq_affinities :=
                dict_set (ir_irq r) original (ci_original_irq_affinities ob)\<rparr>))
     (py_seq (iso_write h cfg p housekeeping)
     (py_bind (iso_read h p) (\<lambda>effective.
      py_bind (ask (iso_irq_thread_state h cfg (ir_irq r))) (\<lambda>thread.
      py_bind (iso_prepare_irqs h cfg housekeeping rs) (\<lambda>rest.
      py_return (r\<lparr>ir_original := Some original, ir_effective := Some effective,
                   ir_thread := Some thread\<rparr> # rest))))))))"

definition iso_prepare_partition ::
    "'w host \<Rightarrow> cpu_iso_config \<Rightarrow> path \<Rightarrow> string list \<Rightarrow> string \<Rightarrow> (cpu_iso \<times> 'w, unit) py" where
  "iso_prepare_partition h cfg cgroup subtree benchmark =
     py_seq (if ''cpuset'' \<notin> set subtree
             then py_seq (iso_write h cfg (cc_cgroup_root cfg @ [''cgroup.subtree_control'']) ''+cpuset'')
                    (self_upd (\<lambda>ob. ob\<lparr>ci_controller_enabled_by_us := True\<rparr>))
             else py_skip)
    (py_seq (iso_run_privileged h cfg [''mkdir'', path_str cgroup])
    (py_seq (self_upd (\<lambda>ob. ob\<lparr>ci_cgroup_created := True\<rparr>))
    (py_bind (iso_read h (cc_cgroup_root cfg @ [''cpuset.mems.effective''])) (\<lambda>mems.
     py_seq (iso_write h cfg (cgroup @ [''cpuset.mems'']) mems)
    (py_seq (iso_write h cfg (cgroup @ [''cpuset.cpus'']) benchmark)
            (iso_write h cfg (cgroup @ [''cpuset.cpus.partition'']) ''isolated''))))))"

definition prepare_errors :: "iso_actual \<Rightarrow> string \<Rightarrow> string \<Rightarrow> string list res" where
  "prepare_errors a housekeeping benchmark =
     res_bind (cpus_differ (ia_benchmark_effective a) benchmark) (\<lambda>d1.
     res_bind (cpus_differ (ia_root_effective a) housekeeping) (\<lambda>d2.
     res_bind (cpus_differ (ia_isolated a) benchmark) (\<lambda>d3.
     res_bind (cpus_differ (ia_process_affinity a) benchmark) (\<lambda>d4.
     Inr ((if d1 then [''benchmark effective CPUs='' @ ia_benchmark_effective a] else []) @
          (if d2 then [''root effective CPUs='' @ ia_root_effective a] else []) @
          (if d3 then [''isolated CPUs='' @ ia_isolated a] else []) @
          (if d4 then [''process affinity='' @ ia_process_affinity a] else []))))))"

definition iso_prepare_effective ::
    "'w host \<Rightarrow> cpu_iso_config \<Rightarrow> path \<Rightarrow> ('o \<times> 'w, iso_actual) py" where
  "iso_prepare_effective h cfg cgroup =
     py_bind (iso_read h (cgroup @ [''cpuset.cpus.effective''])) (\<lambda>effective_benchmark.
     py_bind (iso_read h (cc_cgroup_root cfg @ [''cpuset.cpus.effective''])) (\<lambda>effective_root.
     py_bind (iso_read h (cc_cgroup_root cfg @ [''cpuset.cpus.isolated''])) (\<lambda>isolated.
     py_bind (ask (h_affinity h 0)) (\<lambda>affinity.
     py_return \<lparr>ia_root_effective = effective_root,
       ia_benchmark_effective = effective_benchmark, ia_isolated = isolated,
       ia_process_affinity = format_cpu_list affinity\<rparr>))))"

definition iso_prepare_body ::
    "'w host \<Rightarrow> cpu_iso_config \<Rightarrow> path \<Rightarrow> path \<Rightarrow> path \<Rightarrow> string list \<Rightarrow> irq_record list \<Rightarrow> string \<Rightarrow> string
      \<Rightarrow> (cpu_iso \<times> 'w, iso_state) py" where
  "iso_prepare_body h cfg record_dir cgroup original subtree irq_records housekeeping benchmark =
     py_seq (iso_prepare_partition h cfg cgroup subtree benchmark)
    (py_bind (iso_prepare_irqs h cfg housekeeping irq_records) (\<lambda>records.
     py_bind (ask (h_getpid h)) (\<lambda>pid.
     py_seq (iso_write h cfg (cgroup @ [''cgroup.procs'']) (str_nat pid))
    (py_seq (self_upd (\<lambda>ob. ob\<lparr>ci_process_moved := True\<rparr>))
    (py_bind (iso_prepare_effective h cfg cgroup) (\<lambda>actual.
     py_bind (py_res (prepare_errors actual housekeeping benchmark)) (\<lambda>errors.
     if errors \<noteq> []
     then py_raise (Exn RuntimeError
            (''CPU isolation verification failed: '' @ py_join '' | '' errors))
     else
     py_seq (self_upd (\<lambda>ob. ob\<lparr>ci_active := True,
       ci_state := \<lparr>is_enabled = True, is_active = True, is_housekeeping = housekeeping,
         is_benchmark = benchmark, is_xhci_irqs = records,
         is_cgroups = Some (cgroup, original), is_actual = Some actual, is_verified = None\<rparr>\<rparr>))
    (py_seq (py_bind (iso_verify h cfg None) (\<lambda>_. py_skip))
    (py_seq (do_mkdir h record_dir)
    (py_bind (self_get ci_state) (\<lambda>st.
     py_seq (do_write_json h (record_dir @ [''cpu_isolation_campaign.json'']) (iso_state_json st))
       (self_get ci_state))))))))))))"

definition cleanup_prefix :: string where
  "cleanup_prefix = ''CPU isolation setup failed and cleanup also failed: ''"

definition iso_prepare_guarded ::
    "'w host \<Rightarrow> cpu_iso_config \<Rightarrow> path \<Rightarrow> path \<Rightarrow> path \<Rightarrow> string list \<Rightarrow> irq_record list \<Rightarrow> string \<Rightarrow> string
      \<Rightarrow> (cpu_iso \<times> 'w, iso_state) py" where
  "iso_prepare_guarded h cfg record_dir cgroup original subtree irq_records housekeeping benchmark =
     py_catch
       (iso_prepare_body h cfg record_dir cgroup original subtree irq_records housekeeping benchmark)
       (\<lambda>e. py_seq
          (py_catch (iso_restore h cfg)
            (\<lambda>cleanup. py_raise (Exn RuntimeError (cleanup_prefix @ exn_msg cleanup))))
          (py_raise e))"

definition iso_prepare_from ::
    "'w host \<Rightarrow> cpu_iso_config \<Rightarrow> path \<Rightarrow> path \<Rightarrow> (cpu_iso \<times> 'w, iso_state) py" where
  "iso_prepare_from h cfg record_dir cgroup =
     py_bind (iso_current_process_cgroup h cfg) (\<lambda>original.
     py_seq (self_upd (\<lambda>ob. ob\<lparr>ci_original_cgroup_path := Some original\<rparr>))
    (py_bind (iso_read h (cc_cgroup_root cfg @ [''cgroup.subtree_control''])) (\<lambda>subtree.
     py_bind (iso_discover_camera_xhci_irqs h cfg) (\<lambda>irq_records.
     py_bind (py_res (parse_cpu_list (cc_housekeeping_cpus cfg))) (\<lambda>hset.
     py_bind (py_res (parse_cpu_list (cc_benchmark_cpus cfg))) (\<lambda>bset.
     iso_prepare_guarded h cfg record_dir cgroup original (split_ws subtree) irq_records
       (format_cpu_list hset) (format_cpu_list bset)))))))"

definition iso_prepare ::
    "'w host \<Rightarrow> cpu_iso_config \<Rightarrow> path \<Rightarrow> (cpu_iso \<times> 'w, iso_state) py" where
  "iso_prepare h cfg record_dir =
     py_bind (self_get id) (\<lambda>ob.
     if \<not> cc_enabled cfg \<or> ci_active ob then self_get ci_state else
     py_seq (iso_validate_environment h cfg)
    (py_bind (ask (h_getpid h)) (\<lambda>pid.
     let cgroup = cc_cgroup_root cfg @ [''rs-camera-benchmark-'' @ str_nat pid] in
     py_bind (ask (h_exists h cgroup)) (\<lambda>exists.
     if exists
     then py_raise (Exn RuntimeError (''benchmark cpuset already exists: '' @ path_str cgroup))
     else
     py_seq (self_upd (\<lambda>ob. ob\<lparr>ci_cgroup_path := Some cgroup\<rparr>))
       (iso_prepare_from h cfg record_dir cgroup)))))"

section \<open>Lemmas\<close>

lemma catchable_parse_cpu_list: "parse_cpu_list t = Inl e \<Longrightarrow> catchable e"
  using parse_cpu_list_error_kind [of t e] by (simp add: catchable_def)

lemma catchable_cpus_differ: "cpus_differ a b = Inl e \<Longrightarrow> catchable e"
  by (auto simp: cpus_differ_def res_bind_Inl_iff catchable_parse_cpu_list)

lemma keeps_iso_io [keeps_intros]:
  "keeps I (iso_read h p)" "keeps I (iso_write h cfg p v)" "keeps I (iso_run_privileged h cfg c)"
  unfolding iso_read_def iso_write_def iso_run_privileged_def
  by (intro keeps_intros, (simp; fail)?)+

lemma catchable_compare_expected: "compare_expected ps errs = Inl e \<Longrightarrow> catchable e"
  by (induction ps errs rule: compare_expected.induct)
    (auto simp: res_bind_Inl_iff catchable_cpus_differ)

lemma catchable_prepare_errors: "prepare_errors a hk b = Inl e \<Longrightarrow> catchable e"
  by (auto simp: prepare_errors_def res_bind_Inl_iff catchable_cpus_differ)

text \<open>Methods that preserve an invariant the updates of the interrupt records do not touch.\<close>

lemma keeps_iso_verify_irqs:
  assumes "\<And>ob i a t. I ob \<Longrightarrow> I (iso_set_irq i a t ob)"
  shows "keeps I (iso_verify_irqs h cfg hk is errs)"
proof (induction "is" arbitrary: errs)
  case Nil
  show ?case by (simp add: keeps_intros)
next
  case (Cons i "is")
  show ?case
    by (simp only: iso_verify_irqs.simps)
      (intro keeps_intros keeps_self_upd assms Cons.IH; auto dest: catchable_cpus_differ)
qed

lemma keeps_iso_verify:
  assumes "\<And>ob i a t. I ob \<Longrightarrow> I (iso_set_irq i a t ob)"
    and "\<And>ob f. I ob \<Longrightarrow> I (ob\<lparr>ci_state := f (ci_state ob)\<rparr>)"
  shows "keeps I (iso_verify h cfg out)"
  unfolding iso_verify_def iso_verify_with_def iso_read_actual_def
  by (intro keeps_intros keeps_iso_verify_irqs assms;
      auto dest: catchable_parse_cpu_list catchable_compare_expected)

lemma keeps_iso_prepare_irqs:
  assumes "\<And>ob f. I ob \<Longrightarrow> I (ob\<lparr>ci_original_irq_affinities := f (ci_original_irq_affinities ob)\<rparr>)"
  shows "keeps I (iso_prepare_irqs h cfg hk rs)"
proof (induction rs)
  case Nil
  show ?case by (simp add: keeps_intros)
next
  case (Cons r rs)
  show ?case
    by (simp only: iso_prepare_irqs.simps Let_def) (intro keeps_intros assms Cons.IH)
qed

text \<open>The path of the benchmark cgroup is fixed before the guarded part of \<open>prepare\<close> starts.\<close>

lemma keeps_iso_prepare_body:
  "keeps (\<lambda>ob. ci_cgroup_path ob = Some c)
     (iso_prepare_body h cfg d cg orig sub rs hk b)"
  unfolding iso_prepare_body_def iso_prepare_partition_def iso_prepare_effective_def
  by (intro keeps_intros keeps_iso_verify keeps_iso_prepare_irqs;
      auto simp: iso_set_irq_def dest: catchable_prepare_errors)

subsection \<open>What restoring leaves behind\<close>

lemma wp_collect_error [wp_simps]:
  "wp (collect_error l m errs) Q E s =
     wp m (\<lambda>_ s'. Q errs s')
       (\<lambda>e s'. if catchable e then Q (errs @ [l @ exn_msg e]) s' else E e s') s"
  by (simp add: collect_error_def wp_simps)

lemma wp_iso_write [wp_simps]:
  "wp (iso_write h cfg p v) Q E (ob, w) =
     (case h_run h (tee_request (cc_use_sudo cfg) p v) w of
        (Inl e, w') \<Rightarrow> E (host_exn e) (ob, w')
      | (Inr c, w') \<Rightarrow> if returncode c = 0 then Q () (ob, w')
          else E (Exn RuntimeError (''failed to write '' @ path_str p @ ''='' @ v @ '': '' @
              str_or (failure_detail c) (''status '' @ str_int (returncode c)))) (ob, w'))"
  by (auto simp: iso_write_def wp_simps split: prod.splits sum.splits)

lemma wp_iso_run_privileged [wp_simps]:
  "wp (iso_run_privileged h cfg cmd) Q E (ob, w) =
     (case h_run h (command_request (privileged (cc_use_sudo cfg) cmd)) w of
        (Inl e, w') \<Rightarrow> E (host_exn e) (ob, w')
      | (Inr c, w') \<Rightarrow> if returncode c = 0 then Q () (ob, w')
          else E (Exn RuntimeError (py_join '' '' cmd @ '' failed: '' @
              str_or (failure_detail c) (''status '' @ str_int (returncode c)))) (ob, w'))"
  by (auto simp: iso_run_privileged_def wp_simps split: prod.splits sum.splits)

text \<open>
  Every step of \<open>restore\<close> either does its work and clears its flag, or reports one more error
  and leaves the object as it was; none raises.
\<close>

definition restore_step :: "('o \<Rightarrow> 'o) \<Rightarrow> string list \<Rightarrow> 'o \<Rightarrow> string list \<Rightarrow> 'o \<times> 'w \<Rightarrow> bool" where
  "restore_step clear errs ob errs' s \<longleftrightarrow>
     errs' = errs \<and> fst s = clear ob \<or> (\<exists>m. errs' = errs @ [m]) \<and> fst s = ob"

lemma iso_restore_process_wp:
  "ci_process_moved cur = ci_process_moved ob \<Longrightarrow>
   wp (iso_restore_process h cfg ob errs)
     (restore_step (\<lambda>ob. ob\<lparr>ci_process_moved := False\<rparr>) errs cur) E (cur, w)"
  by (auto simp: iso_restore_process_def restore_step_def wp_simps Let_def
      split: prod.splits sum.splits option.splits)

lemma iso_restore_cgroup_wp:
  "ci_cgroup_created cur = ci_cgroup_created ob \<Longrightarrow>
   (ci_cgroup_created ob \<longrightarrow> ci_cgroup_path ob \<noteq> None) \<Longrightarrow>
   wp (iso_restore_cgroup h cfg ob errs)
     (restore_step (\<lambda>ob. ob\<lparr>ci_cgroup_created := False\<rparr>) errs cur) E (cur, w)"
  by (auto simp: iso_restore_cgroup_def restore_step_def wp_simps
      split: prod.splits sum.splits option.splits)

lemma iso_restore_controller_wp:
  "ci_controller_enabled_by_us cur = ci_controller_enabled_by_us ob \<Longrightarrow>
   wp (iso_restore_controller h cfg ob errs)
     (restore_step (\<lambda>ob. ob\<lparr>ci_controller_enabled_by_us := False\<rparr>) errs cur) E (cur, w)"
  by (auto simp: iso_restore_controller_def restore_step_def wp_simps
      split: prod.splits sum.splits option.splits)

lemma iso_restore_irqs_wp:
  "wp (iso_restore_irqs h cfg as errs)
     (\<lambda>errs' s. fst s = cur \<and> prefix errs errs') E (cur, w)"
proof (induction "as" arbitrary: errs w)
  case Nil
  then show ?case by (simp add: wp_simps)
next
  case (Cons a "as")
  have IH: "wp (iso_restore_irqs h cfg as errs') (\<lambda>errs'' s. fst s = cur \<and> prefix errs errs'') E (cur, w')"
    if "prefix errs errs'" for errs' w'
    by (rule wp_mono [OF Cons.IH]) (use that prefix_order.trans in auto)
  show ?case
    by (cases a) (auto simp: wp_simps intro: IH split: prod.splits sum.splits)
qed

lemma iso_restore_wp:
  assumes path: "ci_cgroup_created ob \<longrightarrow> ci_cgroup_path ob \<noteq> None"
  shows "wp (iso_restore h cfg) (\<lambda>_ s. \<not> iso_needs_restore (fst s))
     (\<lambda>e s. exn_kind e = RuntimeError \<and> \<not> ci_active (fst s) \<and>
            ci_original_irq_affinities (fst s) = []) (ob, w)"
proof (cases "iso_needs_restore ob")
  case False
  then show ?thesis by (simp add: iso_restore_def wp_simps)
next
  case True
  show ?thesis
    unfolding iso_restore_def
    apply (simp add: wp_simps True)
    apply (rule wp_step [OF iso_restore_process_wp], simp)
    apply (clarsimp simp: restore_step_def)
    apply (rule wp_step [OF iso_restore_irqs_wp])
    apply (clarsimp simp: wp_simps)
    apply (rule wp_step [OF iso_restore_cgroup_wp], fastforce, simp add: path)
    apply (clarsimp simp: restore_step_def)
    apply (rule wp_step [OF iso_restore_controller_wp], fastforce)
    apply (auto simp: wp_simps restore_step_def iso_needs_restore_def)
    done
qed

interpretation iso_undo:
  reversible_control "\<lambda>ob. ci_cgroup_created ob \<longrightarrow> ci_cgroup_path ob \<noteq> None" iso_needs_restore
    "iso_restore h cfg" for h cfg
proof
  show "iso_restore h cfg (ob, w) = (Inr (), ob, w)" if "\<not> iso_needs_restore ob" for ob w
    using that by (simp add: iso_restore_def py_defs self_get_def)
  show "wp (iso_restore h cfg) (\<lambda>_ s. \<not> iso_needs_restore (fst s)) (\<lambda>_ _. True) (ob, w)"
    if "ci_cgroup_created ob \<longrightarrow> ci_cgroup_path ob \<noteq> None" for ob w
    by (rule wp_mono [OF iso_restore_wp [OF that]]) auto
qed

subsection \<open>What verifying establishes\<close>

definition irq_on_cpus :: "string \<Rightarrow> irq_record \<Rightarrow> bool" where
  "irq_on_cpus cpus r \<longleftrightarrow> (\<exists>a. ir_effective r = Some a \<and> cpus_differ a cpus = Inr False)"

text \<open>
  The recorded state of a verified isolation: the four CPU sets the kernel reported denote the
  configured ones, and every camera interrupt is on the housekeeping CPUs.
\<close>

definition iso_verified :: "cpu_iso_config \<Rightarrow> iso_state \<Rightarrow> bool" where
  "iso_verified cfg st \<longleftrightarrow> is_verified st = Some True \<and>
     (\<exists>a hs bs. is_actual st = Some a \<and>
        parse_cpu_list (cc_housekeeping_cpus cfg) = Inr hs \<and>
        parse_cpu_list (cc_benchmark_cpus cfg) = Inr bs \<and>
        parse_cpu_list (ia_root_effective a) = Inr hs \<and>
        parse_cpu_list (ia_benchmark_effective a) = Inr bs \<and>
        parse_cpu_list (ia_isolated a) = Inr bs \<and>
        parse_cpu_list (ia_process_affinity a) = Inr bs \<and>
        (\<forall>r \<in> set (is_xhci_irqs st). \<exists>x. ir_effective r = Some x \<and> parse_cpu_list x = Inr hs))"

lemma compare_expected_mono: "compare_expected ps errs = Inr errs' \<Longrightarrow> prefix errs errs'"
proof (induction ps errs arbitrary: errs' rule: compare_expected.induct)
  case (2 key actual expected rest errors)
  then obtain d where "cpus_differ actual expected = Inr d"
    and "prefix (if d then errors @ [key @ ''='' @ actual @ '', expected '' @ expected] else errors) errs'"
    by (auto simp: res_bind_Inr_iff)
  then show ?case by (auto split: if_splits dest: append_prefixD)
qed simp

lemma compare_expected_ok:
  "compare_expected ps errs = Inr [] \<Longrightarrow> \<forall>(k, a, e) \<in> set ps. cpus_differ a e = Inr False"
proof (induction ps errs rule: compare_expected.induct)
  case (2 key actual expected rest errors)
  then obtain d where d: "cpus_differ actual expected = Inr d"
    and rest: "compare_expected rest
      (if d then errors @ [key @ ''='' @ actual @ '', expected '' @ expected] else errors) = Inr []"
    by (auto simp: res_bind_Inr_iff)
  have "\<not> d" using compare_expected_mono [OF rest] by auto
  moreover have "\<forall>(k, a, e) \<in> set rest. cpus_differ a e = Inr False"
    using "2.IH" [of d] rest by blast
  ultimately show ?case using d by auto
qed simp

lemma cpus_differ_same: "finite S \<Longrightarrow> cpus_differ a (format_cpu_list S) = Inr False \<longleftrightarrow> parse_cpu_list a = Inr S"
  by (auto simp: cpus_differ_def res_bind_Inr_iff cpu_text.parse_print)

lemma iso_set_irq_length [simp]:
  "length (is_xhci_irqs (ci_state (iso_set_irq i a t ob))) = length (is_xhci_irqs (ci_state ob))"
  by (simp add: iso_set_irq_def)

lemma irq_on_cpus_set:
  "cpus_differ a hk = Inr False \<Longrightarrow> j < length (is_xhci_irqs (ci_state ob)) \<Longrightarrow>
   j = i \<or> irq_on_cpus hk (is_xhci_irqs (ci_state ob) ! j) \<Longrightarrow>
   irq_on_cpus hk (is_xhci_irqs (ci_state (iso_set_irq i a t ob)) ! j)"
  by (cases "j = i") (auto simp: iso_set_irq_def irq_on_cpus_def)

lemma iso_verify_irqs_wp:
  "wp (iso_verify_irqs h cfg hk is errs)
     (\<lambda>errs' s. prefix errs errs' \<and>
        length (is_xhci_irqs (ci_state (fst s))) = length (is_xhci_irqs (ci_state ob)) \<and>
        (errs' = [] \<longrightarrow> (\<forall>i < length (is_xhci_irqs (ci_state ob)).
           i \<in> set is \<or> irq_on_cpus hk (is_xhci_irqs (ci_state ob) ! i) \<longrightarrow>
           irq_on_cpus hk (is_xhci_irqs (ci_state (fst s)) ! i))))
     (\<lambda>_ _. True) (ob, w)"
proof (induction "is" arbitrary: errs ob w)
  case Nil
  then show ?case by (simp add: wp_simps)
next
  case (Cons i "is")
  show ?case
    apply (simp add: wp_simps iso_read_def split: sum.splits)
    apply (intro allI impI conjI)
     apply (rule wp_step [OF Cons.IH])
     apply (auto dest: append_prefixD) [1]
    apply (rule wp_step [OF Cons.IH])
    apply (auto simp: irq_on_cpus_set)
    done
qed

lemma iso_verify_with_wp:
  "wp (iso_verify_with h cfg out p)
     (\<lambda>st s. iso_verified cfg st \<and> ci_state (fst s) = st) (\<lambda>_ _. True) (ob, w)"
proof -
  have verified: "iso_verified cfg (ci_state ob'\<lparr>is_actual := Some a, is_verified := Some True\<rparr>)"
    if parsed: "parse_cpu_list (cc_benchmark_cpus cfg) = Inr bs"
         "parse_cpu_list (cc_housekeeping_cpus cfg) = Inr hs"
      and cmp: "compare_expected (expected_pairs a (format_cpu_list hs) (format_cpu_list bs)) [] = Inr []"
      and irqs: "\<forall>i < length (is_xhci_irqs (ci_state ob')).
         irq_on_cpus (format_cpu_list hs) (is_xhci_irqs (ci_state ob') ! i)"
    for bs hs a ob'
  proof -
    have fin: "finite bs" "finite hs" using parsed by (auto dest: cpu_text.parse_finite)
    have "\<forall>r \<in> set (is_xhci_irqs (ci_state ob')). irq_on_cpus (format_cpu_list hs) r"
      using irqs by (auto simp: in_set_conv_nth)
    then show ?thesis
      using compare_expected_ok [OF cmp] parsed fin
      by (auto simp: iso_verified_def expected_pairs_def irq_on_cpus_def cpus_differ_same)
  qed
  show ?thesis
    unfolding iso_verify_with_def iso_read_actual_def iso_read_def
    apply (simp add: wp_simps split: sum.splits)
    apply (intro allI impI)
    apply (rule wp_step [OF iso_verify_irqs_wp])
    apply (auto simp: wp_simps intro!: verified split: option.splits prod.splits sum.splits)
    done
qed

lemma iso_verify_wp:
  "cc_enabled cfg \<Longrightarrow>
   wp (iso_verify h cfg out)
     (\<lambda>st s. iso_verified cfg st \<and> ci_state (fst s) = st) (\<lambda>_ _. True) (ob, w)"
  by (auto simp: iso_verify_def wp_simps iso_verify_with_wp split: option.splits)

subsection \<open>What preparing establishes\<close>

lemma catchable_interrupt_lines: "interrupt_lines ls acts = Inl e \<Longrightarrow> catchable e"
proof (induction ls acts rule: interrupt_lines.induct)
  case (2 l ls acts)
  have add: "add_actions i xs as = Inl e \<Longrightarrow> catchable e" for i xs "as"
    by (induction i xs "as" rule: add_actions.induct) (auto split: if_splits)
  from 2 show ?case by (auto simp: res_bind_Inl_iff add split: option.splits)
qed simp

lemma catchable_group_by_irq: "group_by_irq h w acts ds b = Inl e \<Longrightarrow> catchable e"
proof (induction ds arbitrary: b)
  case (Cons d ds)
  have "controller_match h w acts d = Inl e \<Longrightarrow> catchable e"
    by (auto simp: controller_match_def Let_def split: option.splits list.splits prod.splits)
  with Cons show ?case by (auto simp: res_bind_Inl_iff)
qed simp

lemma catchable_iso_check_partition: "iso_check_partition a b c = Inl e \<Longrightarrow> catchable e"
  by (auto simp: iso_check_partition_def split: if_splits)

lemma keeps_iso_discovery [keeps_intros]:
  "keeps I (iso_current_process_cgroup h cfg)"
  "keeps I (iso_interrupt_actions h cfg)"
  "keeps I (iso_discover_camera_xhci_irqs h cfg)"
  unfolding iso_current_process_cgroup_def iso_discover_camera_xhci_irqs_def iso_interrupt_actions_def
  by (intro keeps_intros; auto dest: catchable_interrupt_lines catchable_group_by_irq)+

lemma keeps_iso_validate_environment [keeps_intros]: "keeps I (iso_validate_environment h cfg)"
  unfolding iso_validate_environment_def
  by (intro keeps_intros; auto dest: catchable_parse_cpu_list catchable_iso_check_partition)

text \<open>The guarded part of \<open>prepare\<close>, when it completes.\<close>

definition iso_prepared :: "cpu_iso_config \<Rightarrow> iso_state \<Rightarrow> cpu_iso \<Rightarrow> bool" where
  "iso_prepared cfg st ob \<longleftrightarrow> ci_active ob \<and> ci_cgroup_created ob \<and> ci_process_moved ob \<and>
     ci_state ob = st \<and> iso_verified cfg st"

lemma iso_prepare_partition_wp:
  "wp (iso_prepare_partition h cfg c sub b) (\<lambda>_ s. ci_cgroup_created (fst s)) (\<lambda>_ _. True) (ob, w)"
proof -
  have any: "keeps (\<lambda>_. True) m \<Longrightarrow> (\<And>a s'. Q a s') \<Longrightarrow> wp m Q (\<lambda>_ _. True) s"
    for m :: "(cpu_iso \<times> 'a, 'b) py" and Q s by (rule keeps_step) auto
  have rest: "keeps ci_cgroup_created (py_bind (iso_read h p) (\<lambda>mems.
      py_seq (iso_write h cfg q mems) (py_seq (iso_write h cfg q' b) (iso_write h cfg q'' v))))"
    for p q q' q'' v by (intro keeps_intros)
  show ?thesis
    unfolding iso_prepare_partition_def wp_seq
    by (rule any, intro keeps_intros, simp, rule any, intro keeps_intros)
      (clarsimp simp: wp_self, rule keeps_step [OF rest], simp_all)
qed

lemma iso_prepare_body_wp:
  assumes "cc_enabled cfg"
  shows "wp (iso_prepare_body h cfg d c orig sub rs hk b)
     (\<lambda>st s. iso_prepared cfg st (fst s)) (\<lambda>_ _. True) (ob, w)"
proof -
  let ?I = "\<lambda>ob. ci_active ob \<and> ci_cgroup_created ob \<and> ci_process_moved ob"
  have verify: "wp (iso_verify h cfg None)
      (\<lambda>st s. ?I (fst s) \<and> iso_verified cfg st \<and> ci_state (fst s) = st) (\<lambda>_ _. True) (ob', w')"
    if "?I ob'" for ob' w'
  proof -
    have "keeps ?I (iso_verify h cfg None)"
      by (rule keeps_iso_verify) (auto simp: iso_set_irq_def)
    then have "wp (iso_verify h cfg None) (\<lambda>_ s. ?I (fst s)) (\<lambda>_ _. True) (ob', w')"
      by (rule keeps_step) (use that in auto)
    from wp_conj [OF this iso_verify_wp [OF assms]] show ?thesis by simp
  qed
  have irqs: "keeps ci_cgroup_created (iso_prepare_irqs h cfg hk rs)"
    by (rule keeps_iso_prepare_irqs) simp
  show ?thesis
    unfolding iso_prepare_body_def iso_prepare_effective_def iso_read_def
    apply (simp add: wp_simps)
    apply (rule wp_step [OF iso_prepare_partition_wp])
    apply (rule keeps_step [OF irqs], assumption)
    apply (auto simp: wp_simps split: prod.splits sum.splits)
    apply (rule wp_step [OF verify], simp)
    apply (auto simp: wp_simps iso_prepared_def split: prod.splits sum.splits)
    done
qed

text \<open>
  A campaign that starts with nothing to undo ends \<open>prepare\<close> in one of three ways: prepared and
  verified; failed with everything undone; or failed with the exception that says that undoing
  failed too.
\<close>

definition cleanup_failed :: "exn \<Rightarrow> bool" where
  "cleanup_failed e \<longleftrightarrow> exn_kind e = RuntimeError \<and>
     startswith (exn_msg e) cleanup_prefix"

lemma iso_restore_outcome:
  assumes "ci_cgroup_path (fst s) = Some c"
    and "\<And>s'. \<not> iso_needs_restore (fst s') \<Longrightarrow> Q () s'"
    and "\<And>e s'. exn_kind e = RuntimeError \<Longrightarrow> E e s'"
  shows "wp (iso_restore h cfg) Q E s"
proof -
  obtain ob w where "s = (ob, w)" by (cases s)
  with assms show ?thesis by (auto intro!: wp_mono [OF iso_restore_wp])
qed

lemma keeps_unprepared:
  assumes "keeps I m" "I (fst s)" "\<And>ob. I ob \<Longrightarrow> \<not> iso_needs_restore ob"
    and "\<And>a s'. I (fst s') \<Longrightarrow> Q a s'"
  shows "wp m Q (\<lambda>e s. iso_needs_restore (fst s) \<longrightarrow> cleanup_failed e) s"
  by (rule keeps_raise [where I = I]) (use assms in auto)

lemma iso_prepare_wp:
  assumes enabled: "cc_enabled cfg" and fresh: "\<not> iso_needs_restore ob"
  shows "wp (iso_prepare h cfg d) (\<lambda>st s. iso_prepared cfg st (fst s))
     (\<lambda>e s. iso_needs_restore (fst s) \<longrightarrow> cleanup_failed e) (ob, w)"
proof -
  let ?N = "\<lambda>ob. \<not> iso_needs_restore ob"
  let ?E = "\<lambda>e s. iso_needs_restore (fst s) \<longrightarrow> cleanup_failed e"
  let ?C = "\<lambda>c ob. ?N ob \<and> ci_cgroup_path ob = Some c"
  have guarded: "wp (iso_prepare_guarded h cfg d c orig sub rs hk b)
      (\<lambda>st s. iso_prepared cfg st (fst s)) ?E s"
    if "ci_cgroup_path (fst s) = Some c" for c orig sub rs hk b s
  proof -
    have handler: "wp (py_seq (py_catch (iso_restore h cfg)
           (\<lambda>cleanup. py_raise (Exn RuntimeError (cleanup_prefix @ exn_msg cleanup))))
          (py_raise e)) Q ?E s'"
      if "ci_cgroup_path (fst s') = Some c" for e s' and Q :: "iso_state \<Rightarrow> cpu_iso \<times> 'a \<Rightarrow> bool"
      unfolding wp_seq wp_catch wp_raise
      by (rule iso_restore_outcome [OF that]) (auto simp: catchable_def cleanup_failed_def)
    have "wp (iso_prepare_body h cfg d c orig sub rs hk b)
        (\<lambda>st s. iso_prepared cfg st (fst s) \<and> ci_cgroup_path (fst s) = Some c)
        (\<lambda>e s. True \<and> catchable e \<and> ci_cgroup_path (fst s) = Some c) s"
      by (rule wp_conj [OF _ keepsD [OF keeps_iso_prepare_body]])
        (cases s, simp_all add: that iso_prepare_body_wp [OF enabled])
    then show ?thesis
      unfolding iso_prepare_guarded_def wp_catch by (rule wp_mono) (auto intro: handler)
  qed
  have N_upd: "?N ob' \<Longrightarrow> ?C c (ob'\<lparr>ci_cgroup_path := Some c\<rparr>)"
    "?C c ob' \<Longrightarrow> ?C c (ob'\<lparr>ci_original_cgroup_path := Some p\<rparr>)" for ob' c p
    by (auto simp: iso_needs_restore_def)
  have started: "wp (iso_prepare_from h cfg d c') (\<lambda>st s. iso_prepared cfg st (fst s)) ?E s"
    if C: "?C c' (fst s)" for c' s
    unfolding iso_prepare_from_def
    unfolding wp_bind wp_seq
    apply (rule keeps_unprepared [where I = "?C c'", OF _ C], intro keeps_intros, simp)
    apply (clarsimp simp: wp_self)
    apply (rule keeps_unprepared [where I = "?C c'"], intro keeps_intros, simp add: N_upd, simp)
    apply (rule keeps_unprepared [where I = "?C c'"], intro keeps_intros, simp, simp)
    apply (auto simp: wp_res intro!: guarded split: sum.splits)
    done
  show ?thesis
    unfolding iso_prepare_def Let_def
    using fresh
    apply (simp add: wp_bind wp_self enabled iso_needs_restore_def [of ob] wp_seq)
    apply (rule keeps_unprepared [where I = ?N], intro keeps_intros, simp add: fresh, assumption)
    apply (clarsimp simp: wp_ask wp_bind [of "ask _"])
    apply (auto simp: wp_raise wp_seq wp_self N_upd intro!: started)
    done
qed

subsection \<open>The commands a restoration issues\<close>

text \<open>
  \<open>runs_ok h rqs w w'\<close>: running exactly the requests \<open>rqs\<close>, in this order and each with exit
  status 0, leads from \<open>w\<close> to \<open>w'\<close>.
\<close>

fun runs_ok :: "'w host \<Rightarrow> run_request list \<Rightarrow> 'w \<Rightarrow> 'w \<Rightarrow> bool" where
  "runs_ok h [] w w' \<longleftrightarrow> w' = w"
| "runs_ok h (r # rs) w w' \<longleftrightarrow>
     (\<exists>c w1. h_run h r w = (Inr c, w1) \<and> returncode c = 0 \<and> runs_ok h rs w1 w')"

lemma runs_ok_append: "runs_ok h (rs @ rs') w w' \<longleftrightarrow> (\<exists>w1. runs_ok h rs w w1 \<and> runs_ok h rs' w1 w')"
  by (induction rs arbitrary: w) auto

definition restore_process_requests :: "'w host \<Rightarrow> cpu_iso_config \<Rightarrow> cpu_iso \<Rightarrow> 'w \<Rightarrow> run_request list" where
  "restore_process_requests h cfg ob w =
     (if ci_process_moved ob
      then [tee_request (cc_use_sudo cfg)
              ((case ci_original_cgroup_path ob of None \<Rightarrow> cc_cgroup_root cfg | Some p \<Rightarrow> p) @ [''cgroup.procs''])
              (str_nat (h_getpid h w))] else [])"

definition restore_irq_requests :: "cpu_iso_config \<Rightarrow> (nat \<times> string) list \<Rightarrow> run_request list" where
  "restore_irq_requests cfg as =
     map (\<lambda>(irq, a). tee_request (cc_use_sudo cfg) (irq_affinity_path cfg irq) a) as"

definition restore_cgroup_requests :: "cpu_iso_config \<Rightarrow> cpu_iso \<Rightarrow> run_request list" where
  "restore_cgroup_requests cfg ob =
     (case ci_cgroup_path ob of
        Some p \<Rightarrow> if ci_cgroup_created ob
          then [tee_request (cc_use_sudo cfg) (p @ [''cpuset.cpus.partition'']) ''member'',
                command_request (privileged (cc_use_sudo cfg) [''rmdir'', path_str p])] else []
      | None \<Rightarrow> [])"

definition restore_controller_requests :: "cpu_iso_config \<Rightarrow> cpu_iso \<Rightarrow> run_request list" where
  "restore_controller_requests cfg ob =
     (if ci_controller_enabled_by_us ob
      then [tee_request (cc_use_sudo cfg) (cc_cgroup_root cfg @ [''cgroup.subtree_control'']) ''-cpuset'']
      else [])"

text \<open>
  What undoing consists of: move the process back, write every saved interrupt affinity, turn the
  partition into a member and remove the cgroup, disable the controller.
\<close>

definition iso_restore_requests :: "'w host \<Rightarrow> cpu_iso_config \<Rightarrow> cpu_iso \<Rightarrow> 'w \<Rightarrow> run_request list" where
  "iso_restore_requests h cfg ob w =
     restore_process_requests h cfg ob w @ restore_irq_requests cfg (ci_original_irq_affinities ob) @
     restore_cgroup_requests cfg ob @ restore_controller_requests cfg ob"

lemma iso_restore_process_runs:
  "wp (iso_restore_process h cfg ob errs)
     (\<lambda>errs' s. prefix errs errs' \<and> (errs' = errs \<longrightarrow> runs_ok h (restore_process_requests h cfg ob w) w (snd s)))
     E (cur, w)"
  by (auto simp: iso_restore_process_def restore_process_requests_def wp_simps Let_def
      split: prod.splits sum.splits)

lemma iso_restore_cgroup_runs:
  "wp (iso_restore_cgroup h cfg ob errs)
     (\<lambda>errs' s. prefix errs errs' \<and> (errs' = errs \<longrightarrow> runs_ok h (restore_cgroup_requests cfg ob) w (snd s)))
     E (cur, w)"
  by (auto simp: iso_restore_cgroup_def restore_cgroup_requests_def wp_simps
      split: prod.splits sum.splits option.splits)

lemma iso_restore_controller_runs:
  "wp (iso_restore_controller h cfg ob errs)
     (\<lambda>errs' s. prefix errs errs' \<and> (errs' = errs \<longrightarrow> runs_ok h (restore_controller_requests cfg ob) w (snd s)))
     E (cur, w)"
  by (auto simp: iso_restore_controller_def restore_controller_requests_def wp_simps
      split: prod.splits sum.splits)

lemma iso_restore_irqs_runs:
  "wp (iso_restore_irqs h cfg as errs)
     (\<lambda>errs' s. prefix errs errs' \<and> (errs' = errs \<longrightarrow> runs_ok h (restore_irq_requests cfg as) w (snd s)))
     E (cur, w)"
proof (induction "as" arbitrary: errs w)
  case Nil
  then show ?case by (simp add: wp_simps restore_irq_requests_def)
next
  case (Cons a "as")
  obtain irq aff where a: "a = (irq, aff)" by (cases a)
  have failed: "wp (iso_restore_irqs h cfg as (errs @ [m]))
     (\<lambda>errs' s. prefix errs errs' \<and> (errs' = errs \<longrightarrow> P s)) E (cur, w')" for m w' P
    by (rule wp_step [OF Cons.IH]) (auto dest: append_prefixD)
  have done': "wp (iso_restore_irqs h cfg as errs)
     (\<lambda>errs' s. prefix errs errs' \<and> (errs' = errs \<longrightarrow> runs_ok h (restore_irq_requests cfg (a # as)) w (snd s)))
     E (cur, w')"
    if "h_run h (tee_request (cc_use_sudo cfg) (irq_affinity_path cfg irq) aff) w = (Inr c, w')"
      and "returncode c = 0" for c w'
    by (rule wp_step [OF Cons.IH]) (use that in \<open>auto simp: a restore_irq_requests_def\<close>)
  show ?case
    by (auto simp: a wp_simps intro: failed done' [unfolded a] split: prod.splits sum.splits)
qed

lemma iso_restore_runs:
  "wp (iso_restore h cfg)
     (\<lambda>_ s. iso_needs_restore ob \<longrightarrow> runs_ok h (iso_restore_requests h cfg ob w) w (snd s))
     (\<lambda>_ _. True) (ob, w)"
proof (cases "iso_needs_restore ob")
  case False
  then show ?thesis by (simp add: iso_restore_def wp_simps)
next
  case True
  then show ?thesis
    unfolding iso_restore_def
    apply (simp add: wp_simps)
    apply (rule wp_step [OF iso_restore_process_runs])
    apply (clarsimp)
    apply (rule wp_step [OF iso_restore_irqs_runs])
    apply (clarsimp simp: wp_simps)
    apply (rule wp_step [OF iso_restore_cgroup_runs])
    apply (clarsimp)
    apply (rule wp_step [OF iso_restore_controller_runs])
    apply (clarsimp simp: wp_simps iso_restore_requests_def runs_ok_append)
    apply blast
    done
qed

subsection \<open>A failing restoration still attempts every step\<close>

text \<open>The world after the requests \<open>rqs\<close> were issued, whatever their outcomes.\<close>

definition issue_all :: "'w host \<Rightarrow> run_request list \<Rightarrow> 'w \<Rightarrow> 'w" where
  "issue_all h rqs w = fold (\<lambda>rq w. snd (h_run h rq w)) rqs w"

lemma issue_all_append [simp]: "issue_all h (a @ b) w = issue_all h b (issue_all h a w)"
  by (simp add: issue_all_def)

lemma issue_all_simps [simp]:
  "issue_all h [] w = w" "issue_all h (r # rs) w = issue_all h rs (snd (h_run h r w))"
  by (simp_all add: issue_all_def)

lemma iso_restore_process_issues:
  "wp (iso_restore_process h cfg ob errs)
     (\<lambda>_ s. snd s = issue_all h (restore_process_requests h cfg ob w) w) E (cur, w)"
  by (auto simp: iso_restore_process_def restore_process_requests_def wp_simps
      split: prod.splits sum.splits option.splits)

lemma iso_restore_irqs_issues:
  "wp (iso_restore_irqs h cfg as errs)
     (\<lambda>_ s. snd s = issue_all h (restore_irq_requests cfg as) w) E (cur, w)"
proof (induction "as" arbitrary: errs w)
  case Nil
  then show ?case by (simp add: wp_simps restore_irq_requests_def)
next
  case (Cons a "as")
  obtain irq aff where a: "a = (irq, aff)" by (cases a)
  have "wp (iso_restore_irqs h cfg as errs')
     (\<lambda>_ s. snd s = issue_all h (restore_irq_requests cfg (a # as)) w) E (cur, w')"
    if "w' = snd (h_run h (tee_request (cc_use_sudo cfg) (irq_affinity_path cfg irq) aff) w)" for errs' w'
    by (rule wp_step [OF Cons.IH]) (use that in \<open>simp add: a restore_irq_requests_def\<close>)
  then show ?case
    by (auto simp: a wp_simps split: prod.splits sum.splits)
qed

lemma iso_restore_cgroup_issues:
  "wp (iso_restore_cgroup h cfg ob errs)
     (\<lambda>_ s. \<exists>n. snd s = issue_all h (take n (restore_cgroup_requests cfg ob)) w) E (cur, w)"
  by (auto simp: iso_restore_cgroup_def restore_cgroup_requests_def wp_simps
      intro: exI [of _ 0] exI [of _ "Suc 0"] exI [of _ "Suc (Suc 0)"]
      split: prod.splits sum.splits option.splits)

lemma iso_restore_controller_issues:
  "wp (iso_restore_controller h cfg ob errs)
     (\<lambda>_ s. snd s = issue_all h (restore_controller_requests cfg ob) w) E (cur, w)"
  by (auto simp: iso_restore_controller_def restore_controller_requests_def wp_simps
      split: prod.splits sum.splits)

lemma iso_restore_issues:
  assumes "iso_needs_restore ob"
  shows "wp (iso_restore h cfg)
     (\<lambda>_ _. True)
     (\<lambda>_ s. \<exists>n. snd s = issue_all h (restore_process_requests h cfg ob w @
        restore_irq_requests cfg (ci_original_irq_affinities ob) @
        take n (restore_cgroup_requests cfg ob) @ restore_controller_requests cfg ob) w) (ob, w)"
  unfolding iso_restore_def
  apply (simp add: wp_simps assms)
  apply (rule wp_step [OF iso_restore_process_issues])
  apply clarsimp
  apply (rule wp_step [OF iso_restore_irqs_issues])
  apply (clarsimp simp: wp_simps)
  apply (rule wp_step [OF iso_restore_cgroup_issues])
  apply clarsimp
  apply (rule wp_step [OF iso_restore_controller_issues])
  apply (clarsimp simp: wp_simps, blast)
  done

lemma iso_validate_environment_wp:
  assumes "cc_enabled cfg"
  shows "wp (iso_validate_environment h cfg)
     (\<lambda>_ s. \<exists>hs bs online. parse_cpu_list (cc_housekeeping_cpus cfg) = Inr hs \<and>
        parse_cpu_list (cc_benchmark_cpus cfg) = Inr bs \<and>
        h_read_text h (cc_cpu_online_path cfg) w = Inr online \<and>
        parse_cpu_list (strip online) = Inr (hs \<union> bs) \<and>
        hs \<noteq> {} \<and> bs \<noteq> {} \<and> hs \<inter> bs = {}) (\<lambda>_ _. True) (ob, w)"
  unfolding iso_validate_environment_def iso_read_def [of h "cc_cpu_online_path cfg"]
  using assms
  by (auto simp: wp_res wp_bind [of "py_res _"] wp_bind [of "py_bind _ _"] wp_bind [of "do_read _ _"]
      wp_seq wp_do_read wp_return iso_check_partition_def split: sum.splits)

section \<open>Properties\<close>

subsection \<open>A machine to apply them to\<close>

text \<open>
  Two CPUs, one camera behind one xHCI controller on interrupt 40. Making the benchmark cgroup an
  isolated partition takes CPU 1 from the root.
\<close>

definition demo_iso_cfg :: cpu_iso_config where
  "demo_iso_cfg = \<lparr>cc_enabled = True, cc_housekeeping_cpus = ''0'', cc_benchmark_cpus = ''1'',
     cc_use_sudo = False, cc_cgroup_root = [''c''], cc_cpu_online_path = [''o''],
     cc_proc_root = [''p''], cc_usb_sysfs_base = [''u'']\<rparr>"

definition demo_iso_cgroup :: path where
  "demo_iso_cgroup = [''c'', ''rs-camera-benchmark-7'']"

definition demo_iso_machine :: sim where
  "demo_iso_machine = sim_empty\<lparr>
     sim_files := [
       ([''o''], ''0-1''),
       ([''c'', ''cgroup.controllers''], ''cpu cpuset''),
       ([''c'', ''cgroup.subtree_control''], ''cpu''),
       ([''c'', ''cgroup.procs''], []),
       ([''c'', ''cpuset.cpus.effective''], ''0-1''),
       ([''c'', ''cpuset.cpus.isolated''], []),
       ([''c'', ''cpuset.mems.effective''], ''0''),
       ([''p'', ''self'', ''cgroup''], ''0::/''),
       ([''p'', ''interrupts''], ''40: xhci-hcd:usb1''),
       ([''p'', ''irq'', ''40'', ''smp_affinity_list''], ''0-1''),
       ([''u'', ''1-1'', ''idVendor''], ''8086''),
       ([''u'', ''1-1'', ''idProduct''], ''0b07'')],
     sim_dirs := [[''x'', ''xhci-hcd.0'', ''usb1'']],
     sim_links := [([''u'', ''1-1''], [''x'', ''xhci-hcd.0'', ''usb1'', ''1-1''])],
     sim_effects := [
       (([''tee'', path_str (demo_iso_cgroup @ [''cpuset.cpus.partition''])],
           Some (''isolated'' @ [CHR 0x0A])),
        [([''c'', ''cpuset.cpus.effective''], ''0''), ([''c'', ''cpuset.cpus.isolated''], ''1''),
         (demo_iso_cgroup @ [''cpuset.cpus.effective''], ''1'')])],
     sim_affinity := [([''tee'', path_str (demo_iso_cgroup @ [''cgroup.procs''])], [1])]\<rparr>"


lemma demo_iso_init: "\<not> iso_needs_restore (iso_init cfg)" "ci_cgroup_created (iso_init cfg) = False"
  by (simp_all add: iso_needs_restore_def iso_init_def)

lemma demo_iso_prepare_returns:
  "case iso_prepare sim_host demo_iso_cfg [''r''] (iso_init demo_iso_cfg, demo_iso_machine) of
     (Inl _, _) \<Rightarrow> False | (Inr _, _) \<Rightarrow> True"
  by code_simp

text \<open>The object a completed \<open>prepare\<close> leaves behind, with one interrupt to put back.\<close>

definition demo_iso_active :: cpu_iso where
  "demo_iso_active = (iso_init demo_iso_cfg)\<lparr>ci_active := True, ci_controller_enabled_by_us := True,
     ci_cgroup_created := True, ci_process_moved := True, ci_cgroup_path := Some demo_iso_cgroup,
     ci_original_cgroup_path := Some [''c''], ci_original_irq_affinities := [(40, ''0-1'')]\<rparr>"

lemma demo_iso_restore_returns:
  "fst (iso_restore sim_host demo_iso_cfg (demo_iso_active, demo_iso_machine)) = Inr ()"
  by code_simp

definition demo_iso_stuck :: sim where
  "demo_iso_stuck = demo_iso_machine\<lparr>sim_failing := [[''tee'', ''/p/irq/40/smp_affinity_list'']]\<rparr>"

lemma demo_iso_restore_fails:
  "case fst (iso_restore sim_host demo_iso_cfg (demo_iso_active, demo_iso_stuck)) of
     Inl _ \<Rightarrow> True | Inr _ \<Rightarrow> False"
  by code_simp

lemma demo_iso_validates:
  "fst (iso_validate_environment sim_host demo_iso_cfg (iso_init demo_iso_cfg, demo_iso_machine)) = Inr ()"
  by code_simp

subsection \<open>Claims\<close>

text \<open>
  C1. \<open>CpuIsolation.prepare\<close>, from an object with nothing to undo: either it returns a state in
  which the campaign is active, moved into its own cgroup, and verified (the CPU sets the kernel
  reports and the affinity of every camera interrupt are the configured ones), or it raises; and
  if it raises with something left to undo, the exception is the one that reports that the
  clean-up failed as well.
\<close>

theorem iso_prepare_outcome:
  assumes "cc_enabled cfg" "\<not> iso_needs_restore ob"
  shows "case iso_prepare h cfg record_dir (ob, w) of
           (Inr st, ob', w') \<Rightarrow> iso_prepared cfg st ob'
         | (Inl e, ob', w') \<Rightarrow> iso_needs_restore ob' \<longrightarrow> cleanup_failed e"
  using iso_prepare_wp [OF assms, of h record_dir w]
  by (auto simp: wp_def split: prod.splits sum.splits)

theorem iso_prepare_outcome_witness:
  "\<exists>st ob' w'. iso_prepare sim_host demo_iso_cfg [''r''] (iso_init demo_iso_cfg, demo_iso_machine)
      = (Inr st, ob', w') \<and> iso_prepared demo_iso_cfg st ob'"
  using iso_prepare_outcome [of demo_iso_cfg "iso_init demo_iso_cfg" sim_host "[''r'']" demo_iso_machine]
    demo_iso_prepare_returns demo_iso_init
  by (auto simp: demo_iso_cfg_def split: prod.splits sum.splits)

text \<open>
  C2. \<open>CpuIsolation.restore\<close>, when it returns: nothing is left to undo; the commands it ran are
  exactly the inverse steps (process back to its cgroup, saved interrupt affinities, partition
  back to member, cgroup removed, controller disabled), in that order and all with status 0; and
  a second call changes neither the object nor the machine.
\<close>

theorem iso_restore_complete:
  assumes "ci_cgroup_created ob \<longrightarrow> ci_cgroup_path ob \<noteq> None"
    and "iso_restore h cfg (ob, w) = (Inr (), ob', w')"
  shows "\<not> iso_needs_restore ob' \<and>
    (iso_needs_restore ob \<longrightarrow> runs_ok h (iso_restore_requests h cfg ob w) w w') \<and>
    iso_restore h cfg (ob', w'') = (Inr (), ob', w'')"
  using iso_undo.undone [OF assms] iso_undo.undo_twice [OF assms] wp_returns [OF assms(2) iso_restore_runs]
  by simp

theorem iso_restore_complete_witness:
  "\<not> iso_needs_restore (fst (snd (iso_restore sim_host demo_iso_cfg (demo_iso_active, demo_iso_machine))))"
  using iso_restore_complete [of demo_iso_active sim_host demo_iso_cfg demo_iso_machine
      "fst (snd (iso_restore sim_host demo_iso_cfg (demo_iso_active, demo_iso_machine)))"
      "snd (snd (iso_restore sim_host demo_iso_cfg (demo_iso_active, demo_iso_machine)))"]
    demo_iso_restore_returns
  by (auto simp: prod_eq_iff demo_iso_active_def)



text \<open>
  C4. \<open>CpuIsolation.validate_environment\<close> accepts only a configuration whose housekeeping and
  benchmark CPUs are non-empty, disjoint and together exactly the CPUs that are online.
\<close>

theorem iso_validate_environment_partition:
  assumes "cc_enabled cfg" "fst (iso_validate_environment h cfg (ob, w)) = Inr ()"
  shows "\<exists>hs bs online. parse_cpu_list (cc_housekeeping_cpus cfg) = Inr hs \<and>
    parse_cpu_list (cc_benchmark_cpus cfg) = Inr bs \<and>
    h_read_text h (cc_cpu_online_path cfg) w = Inr online \<and>
    parse_cpu_list (strip online) = Inr (hs \<union> bs) \<and> hs \<noteq> {} \<and> bs \<noteq> {} \<and> hs \<inter> bs = {}"
  using iso_validate_environment_wp [OF assms(1), of h w ob] assms(2)
  by (auto simp: wp_def split: prod.splits sum.splits)

theorem iso_validate_environment_partition_witness:
  "\<exists>hs bs online. parse_cpu_list ''0'' = Inr hs \<and> parse_cpu_list ''1'' = Inr bs \<and>
    h_read_text sim_host [''o''] demo_iso_machine = Inr online \<and>
    parse_cpu_list (strip online) = Inr (hs \<union> bs) \<and> hs \<noteq> {} \<and> bs \<noteq> {} \<and> hs \<inter> bs = {}"
  using iso_validate_environment_partition [of demo_iso_cfg sim_host "iso_init demo_iso_cfg" demo_iso_machine]
    demo_iso_validates by (simp add: demo_iso_cfg_def)

end
