(* ===== verification/System_Controls.thy ===== *)
theory System_Controls
  imports Cpu_Isolation
begin

text \<open>
  \<open>SystemControls\<close> of \<open>tools/realsense_bench_common/system_controls.py\<close>: the machine-level
  controls of a campaign. The object owns a \<open>CpuIsolation\<close> object and the state of two more
  controls, the CPU-frequency lock and the UVC binding of the RSUSB backend. A method of the inner
  object is run on the outer one by \<open>with_iso\<close>. The two polling loops of the class are bounded by
  a fuel argument; the lemmas show how much fuel is enough on a machine whose clock advances.
\<close>

section \<open>Definitions\<close>

definition CPUFREQ_BASE :: path where
  "CPUFREQ_BASE = [''sys'', ''devices'', ''system'', ''cpu'', ''cpufreq'']"

definition NO_TURBO_PATH :: path where
  "NO_TURBO_PATH = [''sys'', ''devices'', ''system'', ''cpu'', ''intel_pstate'', ''no_turbo'']"

definition THERMAL_ZONE0 :: path where
  "THERMAL_ZONE0 = [''sys'', ''class'', ''thermal'', ''thermal_zone0'', ''temp'']"

text \<open>\<open>sc_iso_paths\<close> carries the default paths of \<open>CpuIsolationConfig\<close>, which are not fields here.\<close>

record sys_config =
  sc_executable :: string
  sc_tool_dir :: path
  sc_use_sudo :: bool
  sc_cpu_frequency_mhz :: "int option"
  sc_cpu_lock_script :: path
  sc_cpu_restore_script :: path
  sc_rsusb_backend :: bool
  sc_rsusb_usb_devices :: "string list"
  sc_rsusb_helper :: path
  sc_rsusb_prepare_each_attempt :: bool
  sc_rsusb_prepare_timeout_seconds :: rat
  sc_rsusb_unbind_settle_seconds :: rat
  sc_disable_realsense_autosuspend :: bool
  sc_usb_sysfs_base :: path
  sc_cpu_isolation_enabled :: bool
  sc_housekeeping_cpus :: string
  sc_benchmark_cpus :: string
  sc_cgroup_root :: path
  sc_cpu_online_path :: path
  sc_proc_root :: path

record cpu_policy =
  cp_name :: string
  cp_path :: path
  cp_driver :: string
  cp_affected_cpus :: string
  cp_governor :: string
  cp_min_khz :: string
  cp_max_khz :: string
  cp_current_khz :: string

record cpu_freq =
  cf_policies :: "cpu_policy list"
  cf_boost :: string
  cf_no_turbo :: string
  cf_temperature :: string

text \<open>What \<open>_lock_cpu_once\<close> returns: the disabled dictionary, or the state with the request.\<close>

datatype cpu_lock = LockDisabled | Locked cpu_freq int

record sys_controls =
  sy_cpu_locked :: bool
  sy_cpu_restore_needed :: bool
  sy_cpu_original_state :: "cpu_freq option"
  sy_rsusb_unbound :: bool
  sy_iso :: cpu_iso

definition sys_iso_config :: "sys_config \<Rightarrow> cpu_iso_config" where
  "sys_iso_config cfg =
     \<lparr>cc_enabled = sc_cpu_isolation_enabled cfg, cc_housekeeping_cpus = sc_housekeeping_cpus cfg,
      cc_benchmark_cpus = sc_benchmark_cpus cfg, cc_use_sudo = sc_use_sudo cfg,
      cc_cgroup_root = sc_cgroup_root cfg, cc_cpu_online_path = sc_cpu_online_path cfg,
      cc_proc_root = sc_proc_root cfg, cc_usb_sysfs_base = sc_usb_sysfs_base cfg\<rparr>"

definition sys_init :: "sys_config \<Rightarrow> sys_controls" where
  "sys_init cfg =
     \<lparr>sy_cpu_locked = False, sy_cpu_restore_needed = False, sy_cpu_original_state = None,
      sy_rsusb_unbound = False, sy_iso = iso_init (sys_iso_config cfg)\<rparr>"

definition with_iso :: "(cpu_iso \<times> 'w, 'a) py \<Rightarrow> (sys_controls \<times> 'w, 'a) py" where
  "with_iso m = (\<lambda>(ob, w). let (r, (iso, w')) = m (sy_iso ob, w) in (r, (ob\<lparr>sy_iso := iso\<rparr>, w')))"

subsection \<open>CPU frequency\<close>

definition read_policy :: "'w host \<Rightarrow> 'w \<Rightarrow> path \<Rightarrow> cpu_policy" where
  "read_policy h w d =
     \<lparr>cp_name = path_name d, cp_path = d,
      cp_driver = read_optional_text h w (d @ [''scaling_driver'']),
      cp_affected_cpus = read_optional_text h w (d @ [''affected_cpus'']),
      cp_governor = read_optional_text h w (d @ [''scaling_governor'']),
      cp_min_khz = read_optional_text h w (d @ [''scaling_min_freq'']),
      cp_max_khz = read_optional_text h w (d @ [''scaling_max_freq'']),
      cp_current_khz = read_optional_text h w (d @ [''scaling_cur_freq''])\<rparr>"

definition cpu_frequency_state :: "'w host \<Rightarrow> 'w \<Rightarrow> cpu_freq" where
  "cpu_frequency_state h w =
     \<lparr>cf_policies = map (read_policy h w)
        (filter (\<lambda>d. startswith (path_name d) ''policy'' \<and> h_is_dir h d w) (glob_sorted h w CPUFREQ_BASE)),
      cf_boost = read_optional_text h w (CPUFREQ_BASE @ [''boost'']),
      cf_no_turbo = read_optional_text h w NO_TURBO_PATH,
      cf_temperature = read_optional_text h w THERMAL_ZONE0\<rparr>"

definition frequency_errors :: "string \<Rightarrow> cpu_policy \<Rightarrow> string list" where
  "frequency_errors target p =
     List.map_filter (\<lambda>(field, value). if value \<noteq> target
         then Some (cp_name p @ '' '' @ field @ ''='' @ value @ '', expected '' @ target) else None)
       [(''scaling_min_khz'', cp_min_khz p), (''scaling_max_khz'', cp_max_khz p),
        (''scaling_current_khz'', cp_current_khz p)]"

definition verify_cpu_frequency :: "sys_config \<Rightarrow> cpu_freq \<Rightarrow> string list" where
  "verify_cpu_frequency cfg state =
     (case sc_cpu_frequency_mhz cfg of
        None \<Rightarrow> []
      | Some mhz \<Rightarrow>
          if cf_policies state = []
          then [''no CPU-frequency policies found below '' @ path_str CPUFREQ_BASE]
          else concat (map (frequency_errors (str_int (mhz * 1000))) (cf_policies state)))"

definition lock_poll_step ::
    "'w host \<Rightarrow> sys_config \<Rightarrow> rat \<Rightarrow> ('o \<times> 'w, (cpu_freq \<times> string list) option) py" where
  "lock_poll_step h cfg deadline =
     py_bind (ask (cpu_frequency_state h)) (\<lambda>state.
     let errors = verify_cpu_frequency cfg state in
     if errors = [] then py_return (Some (state, errors))
     else py_bind (do_monotonic h) (\<lambda>now.
       if now \<ge> deadline then py_return (Some (state, errors))
       else py_seq (do_sleep h (1 / 20)) (py_return None)))"

definition lock_cpu_fresh ::
    "'w host \<Rightarrow> sys_config \<Rightarrow> nat \<Rightarrow> path \<Rightarrow> int \<Rightarrow> (sys_controls \<times> 'w, cpu_lock) py" where
  "lock_cpu_fresh h cfg fuel record_dir mhz =
     py_bind (ask (cpu_frequency_state h)) (\<lambda>original.
     py_seq (self_upd (\<lambda>ob. ob\<lparr>sy_cpu_original_state := Some original\<rparr>))
     (if cf_policies original = []
      then py_raise (Exn RuntimeError (''No CPU-frequency policies found below '' @ path_str CPUFREQ_BASE))
      else
      py_seq (self_upd (\<lambda>ob. ob\<lparr>sy_cpu_restore_needed := True\<rparr>))
     (py_bind (do_run h (command_request (privileged (sc_use_sudo cfg)
         [path_str (sc_cpu_lock_script cfg), str_int (mhz * 1000)]))) (\<lambda>completed.
      py_seq (do_write_text h (record_dir @ [''cpu_frequency_lock.txt'']) (stdout completed @ stderr completed))
     (if returncode completed \<noteq> 0
      then py_raise (Exn RuntimeError ''Failed to lock CPU frequency; see cpu_frequency_lock.txt'')
      else
      py_bind (do_monotonic h) (\<lambda>now.
      py_bind (py_loop fuel (lock_poll_step h cfg (now + 1))) (\<lambda>(state, errors).
      if errors \<noteq> []
      then py_raise (Exn RuntimeError
             (''CPU-frequency lock verification failed: '' @ py_join '' | '' errors))
      else
      py_seq (self_upd (\<lambda>ob. ob\<lparr>sy_cpu_locked := True\<rparr>)) (py_return (Locked state mhz)))))))))"

definition lock_cpu_once ::
    "'w host \<Rightarrow> sys_config \<Rightarrow> nat \<Rightarrow> path \<Rightarrow> (sys_controls \<times> 'w, cpu_lock) py" where
  "lock_cpu_once h cfg fuel record_dir =
     (case sc_cpu_frequency_mhz cfg of
        None \<Rightarrow> py_return LockDisabled
      | Some mhz \<Rightarrow>
          py_bind (self_get sy_cpu_locked) (\<lambda>locked.
          if locked then
            py_bind (ask (cpu_frequency_state h)) (\<lambda>state.
            let errors = verify_cpu_frequency cfg state in
            if errors \<noteq> []
            then py_raise (Exn RuntimeError
                   (''CPU frequency changed during the campaign: '' @ py_join '' | '' errors))
            else py_return (Locked state mhz))
          else lock_cpu_fresh h cfg fuel record_dir mhz))"

definition write_sysfs_value ::
    "'w host \<Rightarrow> sys_config \<Rightarrow> path \<Rightarrow> string \<Rightarrow> ('o \<times> 'w, unit) py" where
  "write_sysfs_value h cfg p v =
     py_bind (do_run h (tee_request (sc_use_sudo cfg) p v)) (\<lambda>c.
       if returncode c \<noteq> 0
       then py_raise (Exn RuntimeError (''Failed to write '' @ path_str p @ ''='' @ v @ '': '' @ failure_detail c))
       else py_skip)"

definition restore_policy :: "'w host \<Rightarrow> sys_config \<Rightarrow> cpu_policy \<Rightarrow> ('o \<times> 'w, unit) py" where
  "restore_policy h cfg p =
     py_seq (py_when (cp_max_khz p \<noteq> []) (write_sysfs_value h cfg (cp_path p @ [''scaling_max_freq'']) (cp_max_khz p)))
    (py_seq (py_when (cp_min_khz p \<noteq> []) (write_sysfs_value h cfg (cp_path p @ [''scaling_min_freq'']) (cp_min_khz p)))
            (py_when (cp_governor p \<noteq> []) (write_sysfs_value h cfg (cp_path p @ [''scaling_governor'']) (cp_governor p))))"

text \<open>\<open>actual.get(field)\<close> of a policy that is no longer there is \<open>None\<close>.\<close>

definition policy_field_error ::
    "string \<Rightarrow> cpu_policy option \<Rightarrow> string \<times> (cpu_policy \<Rightarrow> string) \<Rightarrow> cpu_policy \<Rightarrow> string option" where
  "policy_field_error name actual ff original =
     (case ff of (field, get) \<Rightarrow>
       if map_option get actual \<noteq> Some (get original)
       then Some (name @ '' '' @ field @ ''='' @ (case actual of None \<Rightarrow> [] | Some a \<Rightarrow> get a) @
                  '', expected '' @ get original)
       else None)"

definition restored_fields :: "(string \<times> (cpu_policy \<Rightarrow> string)) list" where
  "restored_fields = [(''scaling_min_khz'', cp_min_khz), (''scaling_max_khz'', cp_max_khz),
     (''governor'', cp_governor)]"

definition restored_errors :: "cpu_policy list \<Rightarrow> cpu_policy list \<Rightarrow> string list" where
  "restored_errors restored originals =
     (let by_name = dict_update [] (map (\<lambda>p. (cp_name p, p)) restored)
      in concat (map (\<lambda>o'. List.map_filter
           (\<lambda>ff. policy_field_error (cp_name o') (map_of by_name (cp_name o')) ff o') restored_fields) originals))"

definition restore_original_frequency ::
    "'w host \<Rightarrow> sys_config \<Rightarrow> cpu_freq \<Rightarrow> (sys_controls \<times> 'w, unit) py" where
  "restore_original_frequency h cfg original =
     py_seq (py_for (cf_policies original) (restore_policy h cfg))
    (py_bind (ask (h_is_file h (CPUFREQ_BASE @ [''boost'']))) (\<lambda>boost_file.
     py_seq (py_when (cf_boost original \<noteq> [] \<and> boost_file)
              (write_sysfs_value h cfg (CPUFREQ_BASE @ [''boost'']) (cf_boost original)))
    (py_bind (ask (h_is_file h NO_TURBO_PATH)) (\<lambda>turbo_file.
     py_seq (py_when (cf_no_turbo original \<noteq> [] \<and> turbo_file)
              (write_sysfs_value h cfg NO_TURBO_PATH (cf_no_turbo original)))
    (py_bind (ask (cpu_frequency_state h)) (\<lambda>restored.
     let errors = restored_errors (cf_policies restored) (cf_policies original) in
     if errors \<noteq> []
     then py_raise (Exn RuntimeError
            (''Pre-campaign CPU-frequency state was not restored: '' @ py_join '' | '' errors))
     else
     self_upd (\<lambda>ob. ob\<lparr>sy_cpu_restore_needed := False, sy_cpu_locked := False\<rparr>)))))))"

definition restore_cpu_frequency :: "'w host \<Rightarrow> sys_config \<Rightarrow> (sys_controls \<times> 'w, unit) py" where
  "restore_cpu_frequency h cfg =
     py_bind (self_get (\<lambda>ob. (sy_cpu_restore_needed ob, sy_cpu_original_state ob))) (\<lambda>(needed, captured).
     if \<not> needed then py_skip else
     (case captured of
        None \<Rightarrow> py_raise (Exn RuntimeError ''Original CPU-frequency state was not captured'')
      | Some original \<Rightarrow>
          py_bind (do_run h (command_request (privileged (sc_use_sudo cfg)
              [path_str (sc_cpu_restore_script cfg)]))) (\<lambda>completed.
          if returncode completed \<noteq> 0
          then py_raise (Exn RuntimeError (''Default CPU-frequency restore failed: '' @
                 str_or (failure_detail completed) (''status '' @ str_int (returncode completed))))
          else restore_original_frequency h cfg original)))"

subsection \<open>USB autosuspend\<close>

record usb_power =
  up_usb_device :: string
  up_sysfs_path :: path
  up_vendor :: string
  up_product :: string
  up_model :: string
  up_serial :: string
  up_control_path :: path
  up_control :: string

definition usb_power_of :: "'w host \<Rightarrow> 'w \<Rightarrow> usb_device \<Rightarrow> usb_power" where
  "usb_power_of h w d =
     (let control = ud_sysfs_path d @ [''power'', ''control''] in
      \<lparr>up_usb_device = path_name (ud_sysfs_path d), up_sysfs_path = ud_sysfs_path d,
       up_vendor = ud_vendor_id d, up_product = ud_product_id d, up_model = ud_model d,
       up_serial = ud_serial d, up_control_path = control,
       up_control = read_optional_text h w control\<rparr>)"

definition realsense_usb_power_state :: "'w host \<Rightarrow> sys_config \<Rightarrow> 'w \<Rightarrow> usb_power list" where
  "realsense_usb_power_state h cfg w =
     map (usb_power_of h w) (discover_realsense_devices h w (sc_usb_sysfs_base cfg))"

definition usb_power_json :: "usb_power \<Rightarrow> pyval" where
  "usb_power_json d = PDict [(''usb_device'', PStr (up_usb_device d)),
     (''sysfs_path'', PStr (path_str (up_sysfs_path d))), (''vendor'', PStr (up_vendor d)),
     (''product'', PStr (up_product d)), (''model'', PStr (up_model d)), (''serial'', PStr (up_serial d)),
     (''power_control_path'', PStr (path_str (up_control_path d))), (''power_control'', PStr (up_control d))]"

definition enforce_device :: "'w host \<Rightarrow> sys_config \<Rightarrow> usb_power \<Rightarrow> ('o \<times> 'w, unit) py" where
  "enforce_device h cfg d =
     py_bind (ask (h_is_file h (up_control_path d))) (\<lambda>available.
     if \<not> available
     then py_raise (Exn RuntimeError (''RealSense power control is unavailable: '' @ path_str (up_control_path d)))
     else py_when (up_control d \<noteq> ''on'') (write_sysfs_value h cfg (up_control_path d) ''on''))"

definition enforce_realsense_autosuspend ::
    "'w host \<Rightarrow> sys_config \<Rightarrow> path option \<Rightarrow> int option \<Rightarrow> ('o \<times> 'w, usb_power list) py" where
  "enforce_realsense_autosuspend h cfg output attempt =
     py_bind (ask (realsense_usb_power_state h cfg)) (\<lambda>devices.
     if devices = []
     then py_raise (Exn RuntimeError ''No connected Intel RealSense video camera was found'')
     else
     py_seq (py_for devices (enforce_device h cfg))
    (py_bind (ask (realsense_usb_power_state h cfg)) (\<lambda>verified.
     let errors = map (\<lambda>d. up_usb_device d @ ''='' @ str_or (up_control d) ''unreadable'')
           (filter (\<lambda>d. up_control d \<noteq> ''on'') verified) in
     if errors \<noteq> []
     then py_raise (Exn RuntimeError
            (''RealSense USB autosuspend disable verification failed: '' @ py_join '', '' errors))
     else
     py_seq (case output of None \<Rightarrow> py_skip | Some p \<Rightarrow>
        do_write_json h p (PDict [(''enabled'', PBool True),
          (''attempt'', case attempt of None \<Rightarrow> PNone | Some a \<Rightarrow> PInt a),
          (''devices'', PList (map usb_power_json verified))]))
       (py_return verified))))"

subsection \<open>The RSUSB helper\<close>

text \<open>
  One pass of the retry loop. The list of failures is local to the loop; only its last element
  reaches the message, which is the output of this pass.
\<close>

definition rsusb_helper_step ::
    "'w host \<Rightarrow> sys_config \<Rightarrow> string \<Rightarrow> string \<Rightarrow> rat \<Rightarrow> ('o \<times> 'w, unit option) py" where
  "rsusb_helper_step h cfg action device deadline =
     py_bind (do_run h (command_request (privileged (sc_use_sudo cfg)
         [path_str (sc_rsusb_helper cfg), action, device]))) (\<lambda>completed.
     let output = strip (stdout completed @ stderr completed) in
     if returncode completed = 0 then py_return (Some ())
     else
     py_bind (do_monotonic h) (\<lambda>now.
     let remaining = deadline - now in
     if remaining \<le> 0
     then py_raise (Exn RuntimeError (''Failed to '' @ action @ '' UVC for '' @ device @ '': '' @
            str_or output (''exit status '' @ str_int (returncode completed))))
     else py_seq (do_sleep h (min (1 / 4) remaining)) (py_return None)))"

definition run_rsusb_helper ::
    "'w host \<Rightarrow> sys_config \<Rightarrow> nat \<Rightarrow> string \<Rightarrow> ('o \<times> 'w, unit) py" where
  "run_rsusb_helper h cfg fuel action =
     py_for (sc_rsusb_usb_devices cfg) (\<lambda>device.
       py_bind (do_monotonic h) (\<lambda>now.
         py_loop fuel (rsusb_helper_step h cfg action device (now + sc_rsusb_prepare_timeout_seconds cfg))))"

definition prepare_rsusb_access :: "'w host \<Rightarrow> sys_config \<Rightarrow> nat \<Rightarrow> (sys_controls \<times> 'w, unit) py" where
  "prepare_rsusb_access h cfg fuel =
     (if \<not> sc_rsusb_backend cfg then py_skip else
      py_seq (run_rsusb_helper h cfg fuel ''unbind'')
     (py_seq (self_upd (\<lambda>ob. ob\<lparr>sy_rsusb_unbound := True\<rparr>))
       (py_when (sc_rsusb_unbind_settle_seconds cfg > 0)
         (do_sleep h (sc_rsusb_unbind_settle_seconds cfg)))))"

definition prepare_rsusb_once :: "'w host \<Rightarrow> sys_config \<Rightarrow> nat \<Rightarrow> (sys_controls \<times> 'w, unit) py" where
  "prepare_rsusb_once h cfg fuel =
     py_bind (self_get sy_rsusb_unbound) (\<lambda>unbound.
     if \<not> sc_rsusb_backend cfg \<or> unbound then py_skip else
      py_seq (run_rsusb_helper h cfg fuel ''unbind'')
     (py_seq (self_upd (\<lambda>ob. ob\<lparr>sy_rsusb_unbound := True\<rparr>))
       (py_when (sc_rsusb_unbind_settle_seconds cfg > 0)
         (do_sleep h (sc_rsusb_unbind_settle_seconds cfg)))))"

definition restore_v4l2_binding :: "'w host \<Rightarrow> sys_config \<Rightarrow> nat \<Rightarrow> (sys_controls \<times> 'w, unit) py" where
  "restore_v4l2_binding h cfg fuel =
     py_bind (self_get sy_rsusb_unbound) (\<lambda>unbound.
     if \<not> unbound then py_skip else
     py_seq (run_rsusb_helper h cfg fuel ''bind'')
       (self_upd (\<lambda>ob. ob\<lparr>sy_rsusb_unbound := False\<rparr>)))"

subsection \<open>Kernel log\<close>

definition snapshot_topology :: "'w host \<Rightarrow> sys_config \<Rightarrow> path \<Rightarrow> ('o \<times> 'w, unit) py" where
  "snapshot_topology h cfg output =
     py_bind (do_run h (command_request [sc_executable cfg,
       path_str (sc_tool_dir cfg @ [''snapshot_topology.py'']), ''--output'', path_str output])) (\<lambda>_. py_skip)"

definition kernel_log :: "'w host \<Rightarrow> sys_config \<Rightarrow> ('o \<times> 'w, string option \<times> string) py" where
  "kernel_log h cfg =
     py_bind (do_run h (command_request (privileged (sc_use_sudo cfg) [''dmesg'', ''--color=never'']))) (\<lambda>c.
       if returncode c \<noteq> 0
       then py_return (None, str_or (failure_detail c) (''dmesg exited with '' @ str_int (returncode c)))
       else py_return (Some (stdout c), []))"

definition newline :: string where
  "newline = [CHR 0x0A]"

text \<open>The loop from the last index down: the lines after the last line equal to the anchor.\<close>

fun after_anchor :: "string \<Rightarrow> nat \<Rightarrow> string list \<Rightarrow> string list option" where
  "after_anchor anchor 0 ls = None"
| "after_anchor anchor (Suc i) ls =
     (if ls ! i = anchor then Some (drop (i + 1) ls) else after_anchor anchor i ls)"

definition anchor_lost :: string where
  "anchor_lost = ''dmesg ring buffer changed and the pre-run anchor was lost''"

definition kernel_delta :: "string \<Rightarrow> string \<Rightarrow> string \<times> string" where
  "kernel_delta before after =
     (if startswith after before then (drop (length before) after, [])
      else if splitlines before = [] then (after, [])
      else
        (case after_anchor (last (splitlines before)) (length (splitlines after)) (splitlines after) of
           Some ls \<Rightarrow>
             (let delta = py_join newline ls in (if delta \<noteq> [] then delta @ newline else [], []))
         | None \<Rightarrow> ([], anchor_lost)))"

definition capture_kernel_delta ::
    "'w host \<Rightarrow> sys_config \<Rightarrow> path \<Rightarrow> string option \<Rightarrow> string \<Rightarrow> ('o \<times> 'w, unit) py" where
  "capture_kernel_delta h cfg record_dir before before_error =
     py_bind (kernel_log h cfg) (\<lambda>(after, after_error).
     let error0 = str_or before_error after_error in
     py_bind (case (before, after) of
        (Some b, Some a) \<Rightarrow>
          (let (delta, delta_error) = kernel_delta b a in
           py_seq (py_when (delta_error = []) (do_write_text h (record_dir @ [''kernel_log.txt'']) delta))
             (py_return (str_or error0 delta_error)))
      | _ \<Rightarrow> py_return error0) (\<lambda>error.
     py_when (error \<noteq> [])
       (do_write_text h (record_dir @ [''kernel_log_capture_error.txt'']) (error @ newline))))"

subsection \<open>Campaign operations\<close>

definition cpu_policy_json :: "cpu_policy \<Rightarrow> pyval" where
  "cpu_policy_json p = PDict [(''name'', PStr (cp_name p)), (''path'', PStr (path_str (cp_path p))),
     (''driver'', PStr (cp_driver p)), (''affected_cpus'', PStr (cp_affected_cpus p)),
     (''governor'', PStr (cp_governor p)), (''scaling_min_khz'', PStr (cp_min_khz p)),
     (''scaling_max_khz'', PStr (cp_max_khz p)), (''scaling_current_khz'', PStr (cp_current_khz p))]"

fun cpu_lock_json :: "cpu_lock \<Rightarrow> pyval" where
  "cpu_lock_json LockDisabled = PDict [(''enabled'', PBool False), (''policies'', PList [])]"
| "cpu_lock_json (Locked s mhz) = PDict [(''policies'', PList (map cpu_policy_json (cf_policies s))),
     (''boost'', PStr (cf_boost s)), (''intel_pstate_no_turbo'', PStr (cf_no_turbo s)),
     (''temperature_millic'', PStr (cf_temperature s)), (''enabled'', PBool True),
     (''requested_mhz'', PInt mhz), (''locked'', PBool True)]"

definition write_cpu_state :: "'w host \<Rightarrow> path \<Rightarrow> cpu_lock \<Rightarrow> ('o \<times> 'w, unit) py" where
  "write_cpu_state h output state = do_write_json h output (cpu_lock_json state)"

fun require_helpers :: "'w host \<Rightarrow> path list \<Rightarrow> ('o \<times> 'w, unit) py" where
  "require_helpers h [] = py_skip"
| "require_helpers h (p # ps) =
     py_bind (ask (h_is_file h p)) (\<lambda>ok.
     if \<not> ok then py_raise (Exn RuntimeError (''Required helper is missing: '' @ path_str p))
     else require_helpers h ps)"

definition sys_validate_environment :: "'w host \<Rightarrow> sys_config \<Rightarrow> (sys_controls \<times> 'w, unit) py" where
  "sys_validate_environment h cfg =
     (if sc_rsusb_backend cfg \<and> sc_rsusb_usb_devices cfg = []
      then py_raise (Exn RuntimeError
             ''RSUSB campaign constants require one USB device per connected camera'')
      else
      py_seq (require_helpers h
        ((if sc_cpu_frequency_mhz cfg \<noteq> None then [sc_cpu_lock_script cfg, sc_cpu_restore_script cfg] else []) @
         (if sc_rsusb_backend cfg then [sc_rsusb_helper cfg] else [])))
        (with_iso (iso_validate_environment h (sys_iso_config cfg))))"

definition prepare_campaign ::
    "'w host \<Rightarrow> sys_config \<Rightarrow> nat \<Rightarrow> path \<Rightarrow> (sys_controls \<times> 'w, cpu_lock) py" where
  "prepare_campaign h cfg fuel record_dir =
     py_bind (with_iso (iso_prepare h (sys_iso_config cfg) record_dir)) (\<lambda>_.
     py_bind (lock_cpu_once h cfg fuel record_dir) (\<lambda>cpu_state.
     py_seq (py_when (\<not> sc_rsusb_prepare_each_attempt cfg) (prepare_rsusb_once h cfg fuel))
    (py_seq (py_when (sc_disable_realsense_autosuspend cfg)
       (py_bind (enforce_realsense_autosuspend h cfg
          (Some (record_dir @ [''realsense_autosuspend_campaign.json''])) None) (\<lambda>_. py_skip)))
     (py_return cpu_state))))"

definition prepare_attempt ::
    "'w host \<Rightarrow> sys_config \<Rightarrow> nat \<Rightarrow> int \<Rightarrow> path \<Rightarrow> (sys_controls \<times> 'w, unit) py" where
  "prepare_attempt h cfg fuel attempt attempt_dir =
     py_bind (with_iso (iso_verify h (sys_iso_config cfg)
        (Some (attempt_dir @ [''cpu_isolation_before.json''])))) (\<lambda>_.
     py_seq (py_when (sc_rsusb_backend cfg)
       (if sc_rsusb_prepare_each_attempt cfg then prepare_rsusb_access h cfg fuel
        else prepare_rsusb_once h cfg fuel))
     (py_when (sc_disable_realsense_autosuspend cfg)
       (py_bind (ask (h_is_dir h attempt_dir)) (\<lambda>present.
        py_bind (enforce_realsense_autosuspend h cfg
          (if present then Some (attempt_dir @ [''realsense_autosuspend.json'']) else None)
          (Some attempt)) (\<lambda>_. py_skip)))))"

definition sys_cleanup :: "'w host \<Rightarrow> sys_config \<Rightarrow> nat \<Rightarrow> (sys_controls \<times> 'w, unit) py" where
  "sys_cleanup h cfg fuel =
     py_bind (collect_error ''restore V4L2 binding: '' (restore_v4l2_binding h cfg fuel) []) (\<lambda>errors1.
     py_bind (collect_error ''restore CPU isolation: ''
       (with_iso (iso_restore h (sys_iso_config cfg))) errors1) (\<lambda>errors2.
     py_bind (collect_error ''restore CPU frequency: '' (restore_cpu_frequency h cfg) errors2) (\<lambda>errors.
     if errors \<noteq> [] then py_raise (Exn RuntimeError (py_join '' | '' errors)) else py_skip)))"

section \<open>Lemmas\<close>

lemma wp_with_iso [wp_simps]:
  "wp (with_iso m) Q E (ob, w) =
     wp m (\<lambda>a s. Q a (ob\<lparr>sy_iso := fst s\<rparr>, snd s)) (\<lambda>e s. E e (ob\<lparr>sy_iso := fst s\<rparr>, snd s)) (sy_iso ob, w)"
  by (auto simp: wp_def with_iso_def Let_def split: prod.splits sum.splits)

lemma preserves_with_iso:
  assumes "preserves J m" "\<And>ob. I ob \<Longrightarrow> J (sy_iso ob)" "\<And>ob iso. I ob \<Longrightarrow> J iso \<Longrightarrow> I (ob\<lparr>sy_iso := iso\<rparr>)"
  shows "preserves I (with_iso m)"
  unfolding preserves_def
proof (intro allI impI)
  fix ob w assume I: "I ob"
  have "wp m (\<lambda>_ s. J (fst s)) (\<lambda>_ s. J (fst s)) (sy_iso ob, w)"
    using preservesD [OF assms(1), of "(sy_iso ob, w)"] assms(2) [OF I] by simp
  then show "wp (with_iso m) (\<lambda>_ s. I (fst s)) (\<lambda>_ s. I (fst s)) (ob, w)"
    unfolding wp_with_iso by (rule wp_mono) (use assms(3) [OF I] in auto)
qed

lemma keeps_sys_io [keeps_intros]:
  "keeps I (write_sysfs_value h cfg p v)" "keeps I (restore_policy h cfg q)"
  "keeps I (enforce_device h cfg d)"
  unfolding write_sysfs_value_def restore_policy_def enforce_device_def
  by (intro keeps_intros)+

lemma keeps_enforce [keeps_intros]: "keeps I (enforce_realsense_autosuspend h cfg out a)"
  unfolding enforce_realsense_autosuspend_def Let_def
  by (intro keeps_intros)

lemma preserves_rsusb [preserves_intros]:
  "preserves I (run_rsusb_helper h cfg n a)"
  unfolding run_rsusb_helper_def rsusb_helper_step_def Let_def
  by (intro preserves_intros)

subsection \<open>CPU frequency\<close>

lemma map_filter_Nil_iff: "List.map_filter f xs = [] \<longleftrightarrow> (\<forall>x \<in> set xs. f x = None)"
  by (induction xs) (auto simp: List.map_filter_simps split: option.splits)

lemma frequency_errors_Nil:
  "frequency_errors t p = [] \<longleftrightarrow> cp_min_khz p = t \<and> cp_max_khz p = t \<and> cp_current_khz p = t"
  by (auto simp: frequency_errors_def map_filter_Nil_iff)

lemma verify_cpu_frequency_Nil:
  assumes "sc_cpu_frequency_mhz cfg = Some mhz"
  shows "verify_cpu_frequency cfg s = [] \<longleftrightarrow> cf_policies s \<noteq> [] \<and>
     (\<forall>p \<in> set (cf_policies s). cp_min_khz p = str_int (mhz * 1000) \<and>
        cp_max_khz p = str_int (mhz * 1000) \<and> cp_current_khz p = str_int (mhz * 1000))"
  using assms by (auto simp: verify_cpu_frequency_def frequency_errors_Nil)

text \<open>The lock is established, or the object remembers that the frequency must be restored.\<close>

definition freq_ok :: "sys_controls \<Rightarrow> bool" where
  "freq_ok ob \<longleftrightarrow> (sy_cpu_restore_needed ob \<longrightarrow> sy_cpu_original_state ob \<noteq> None) \<and>
     (sy_cpu_locked ob \<longrightarrow> sy_cpu_restore_needed ob)"

lemma lock_poll_wp:
  assumes clock: "advancing_clock h now" and fuel: "quanta_left (1 / 20) (deadline - now w) < n"
  shows "wp (py_loop n (lock_poll_step h cfg deadline))
     (\<lambda>(st, errs) s. fst s = ob \<and> errs = verify_cpu_frequency cfg st) (\<lambda>_ _. False) (ob, w)"
proof (rule py_loop_wp [where I = "\<lambda>s. fst s = ob" and
      f = "\<lambda>s. quanta_left (1 / 20) (deadline - now (snd s))"])
  fix s :: "'b \<times> 'a" assume "fst s = ob"
  then obtain w where s: "s = (ob, w)" by (cases s) auto
  show "wp (lock_poll_step h cfg deadline)
     (\<lambda>r s'. case r of None \<Rightarrow> fst s' = ob \<and>
          quanta_left (1 / 20) (deadline - now (snd s')) < quanta_left (1 / 20) (deadline - now (snd s))
        | Some a \<Rightarrow> (case a of (st, errs) \<Rightarrow> \<lambda>s. fst s = ob \<and> errs = verify_cpu_frequency cfg st) s')
     (\<lambda>_ _. False) s"
  proof (cases "h_monotonic h w")
    case (Pair t w')
    have adv: "t = now w" "now w + 1 / 20 \<le> now (h_sleep h (1 / 20) w')"
      using advancing_clockD(1) [OF clock Pair] advancing_clockD(2) [OF clock, of w' "1 / 20"] by auto
    have "quanta_left (1 / 20) (deadline - now (h_sleep h (1 / 20) w')) < quanta_left (1 / 20) (deadline - now w)"
      if "\<not> deadline \<le> t"
      by (rule quanta_left_decreases)
        (use that adv in \<open>auto simp: algebra_simps\<close>)
    then show ?thesis by (simp add: s lock_poll_step_def wp_simps Let_def Pair)
  qed
qed (use fuel in auto)


definition lock_fuel :: nat where
  "lock_fuel = 21"

lemma quanta_left_mono: "0 < q \<Longrightarrow> a \<le> b \<Longrightarrow> quanta_left q a \<le> quanta_left q b"
  unfolding quanta_left_def by (intro nat_mono ceiling_mono divide_right_mono) auto

lemma quanta_second: "x \<le> y \<Longrightarrow> quanta_left (1 / 20) (x + 1 - y) < lock_fuel"
proof -
  assume "x \<le> y"
  then have "quanta_left (1 / 20) (x + 1 - y) \<le> quanta_left (1 / 20) 1" by (intro quanta_left_mono) auto
  also have "quanta_left (1 / 20) 1 = 20" by (simp add: quanta_left_def)
  finally show ?thesis by (simp add: lock_fuel_def)
qed

definition at_frequency :: "int \<Rightarrow> cpu_freq \<Rightarrow> bool" where
  "at_frequency mhz st \<longleftrightarrow> cf_policies st \<noteq> [] \<and>
     (\<forall>p \<in> set (cf_policies st). cp_min_khz p = str_int (mhz * 1000) \<and>
        cp_max_khz p = str_int (mhz * 1000) \<and> cp_current_khz p = str_int (mhz * 1000))"

lemma lock_cpu_fresh_wp:
  assumes mhz: "sc_cpu_frequency_mhz cfg = Some mhz" and clock: "advancing_clock h now" and fuel: "lock_fuel \<le> n"
    and fresh: "\<not> sy_cpu_restore_needed ob" "\<not> sy_cpu_locked ob"
  shows "wp (lock_cpu_fresh h cfg n d mhz)
     (\<lambda>r s. (\<exists>st. r = Locked st mhz \<and> at_frequency mhz st) \<and> sy_cpu_locked (fst s) \<and> freq_ok (fst s))
     (\<lambda>e s. catchable e \<and> freq_ok (fst s) \<and> \<not> sy_cpu_locked (fst s) \<and>
        (sy_cpu_restore_needed (fst s) \<or> s = (fst s, w))) (ob, w)"
proof -
  let ?ob = "\<lambda>orig. ob\<lparr>sy_cpu_original_state := Some orig, sy_cpu_restore_needed := True\<rparr>"
  have poll: "wp (py_loop n (lock_poll_step h cfg (t + 1)))
     (\<lambda>(st, errs) s. fst s = ?ob orig \<and> errs = verify_cpu_frequency cfg st) (\<lambda>_ _. False) (?ob orig, w')"
    if "h_monotonic h w'' = (t, w')" for orig w' w'' t
  proof (rule lock_poll_wp [OF clock])
    have "t \<le> now w'" using advancing_clockD(1) [OF clock that] by auto
    then show "quanta_left (1 / 20) (t + 1 - now w') < n"
      using quanta_second [of t "now w'"] fuel by simp
  qed
  show ?thesis
    unfolding lock_cpu_fresh_def
    using fresh
    apply (auto simp: wp_simps freq_ok_def split: prod.splits sum.splits)
    apply (rule wp_mono [OF poll], assumption)
     apply (auto simp: wp_simps at_frequency_def verify_cpu_frequency_Nil [OF mhz, THEN iffD1] freq_ok_def)
    done
qed


text \<open>The last policy with a name is the one the dictionary keeps.\<close>

lemma map_of_dict_update_Some:
  "map_of (dict_update d e) k = Some v \<Longrightarrow> map_of d k = Some v \<or> (k, v) \<in> set e"
  unfolding dict_update_def
proof (induction e arbitrary: d)
  case (Cons a e)
  obtain k' v' where "a = (k', v')" by (cases a)
  then show ?case using Cons.IH [of "dict_set k' v' d"] Cons.prems
    by (auto split: if_splits)
qed simp

definition policy_restored :: "cpu_policy list \<Rightarrow> cpu_policy \<Rightarrow> bool" where
  "policy_restored now original \<longleftrightarrow> (\<exists>p \<in> set now. cp_name p = cp_name original \<and>
     cp_min_khz p = cp_min_khz original \<and> cp_max_khz p = cp_max_khz original \<and>
     cp_governor p = cp_governor original)"

lemma restored_errors_Nil:
  assumes "restored_errors now originals = []" "o' \<in> set originals"
  shows "policy_restored now o'"
proof -
  let ?d = "dict_update [] (map (\<lambda>p. (cp_name p, p)) now)"
  have all: "policy_field_error (cp_name o') (map_of ?d (cp_name o')) ff o' = None" if "ff \<in> set restored_fields" for ff
    using assms that by (auto simp: restored_errors_def Let_def map_filter_Nil_iff)
  obtain a where a: "map_of ?d (cp_name o') = Some a"
    using all [of "(''governor'', cp_governor)"] by (auto simp: restored_fields_def policy_field_error_def split: if_splits)
  then have "(cp_name o', a) \<in> set (map (\<lambda>p. (cp_name p, p)) now)"
    using map_of_dict_update_Some [OF a] by simp
  moreover have "cp_min_khz a = cp_min_khz o'" "cp_max_khz a = cp_max_khz o'" "cp_governor a = cp_governor o'"
    using all [of "(''scaling_min_khz'', cp_min_khz)"] all [of "(''scaling_max_khz'', cp_max_khz)"]
      all [of "(''governor'', cp_governor)"] a
    by (auto simp: restored_fields_def policy_field_error_def split: if_splits)
  ultimately show ?thesis by (auto simp: policy_restored_def)
qed

lemma keeps_world_step:
  assumes m: "keeps (\<lambda>x. x = ob) m" and Q: "\<And>a w'. Q a (ob, w')" and E: "\<And>e w'. catchable e \<Longrightarrow> E e (ob, w')"
  shows "wp m Q E (ob, w)"
proof (rule keeps_raise [OF m])
  show "catchable e \<Longrightarrow> fst s' = ob \<Longrightarrow> E e s'" for e s' using E by (cases s') auto
  show "fst s' = ob \<Longrightarrow> Q a s'" for a s' using Q by (cases s') auto
qed simp

lemma restore_original_frequency_wp:
  "wp (restore_original_frequency h cfg orig)
     (\<lambda>_ s. fst s = ob\<lparr>sy_cpu_restore_needed := False, sy_cpu_locked := False\<rparr> \<and>
        (\<forall>p \<in> set (cf_policies orig). policy_restored (cf_policies (cpu_frequency_state h (snd s))) p))
     (\<lambda>e s. catchable e \<and> fst s = ob) (ob, w)"
proof -
  have for': "keeps (\<lambda>x. x = ob) (py_for ps (restore_policy h cfg))"
    and when': "keeps (\<lambda>x. x = ob) (py_when b (write_sysfs_value h cfg p v))" for ps b p v
    by (intro keeps_intros)+
  show ?thesis
    unfolding restore_original_frequency_def
    apply (simp only: wp_bind wp_seq)
    apply (rule keeps_world_step [OF for'])
     apply (simp only: wp_ask)
     apply (rule keeps_world_step [OF when'])
      apply (simp only: wp_ask)
      apply (rule keeps_world_step [OF when'])
       apply (auto simp: Let_def wp_simps intro: restored_errors_Nil)
    done
qed

lemma restore_cpu_frequency_wp:
  assumes "freq_ok ob"
  shows "wp (restore_cpu_frequency h cfg)
     (\<lambda>_ s. \<not> sy_cpu_restore_needed (fst s) \<and> \<not> sy_cpu_locked (fst s) \<and>
        sy_iso (fst s) = sy_iso ob \<and> sy_rsusb_unbound (fst s) = sy_rsusb_unbound ob \<and>
        (\<forall>orig. sy_cpu_restore_needed ob \<and> sy_cpu_original_state ob = Some orig \<longrightarrow>
           (\<forall>p \<in> set (cf_policies orig). policy_restored (cf_policies (cpu_frequency_state h (snd s))) p)))
     (\<lambda>e s. catchable e \<and> fst s = ob) (ob, w)"
  unfolding restore_cpu_frequency_def
  using assms
  by (auto simp: wp_simps freq_ok_def intro!: wp_step [OF restore_original_frequency_wp]
      split: prod.splits sum.splits option.splits)

subsection \<open>The RSUSB helper\<close>

lemma rsusb_loop_wp:
  assumes clock: "advancing_clock h now" and fuel: "quanta_left (1 / 4) (deadline - now w) < n"
  shows "wp (py_loop n (rsusb_helper_step h cfg action device deadline))
     (\<lambda>_ s. fst s = ob) (\<lambda>e s. catchable e \<and> fst s = ob) (ob, w)"
proof (rule py_loop_wp [where I = "\<lambda>s. fst s = ob" and
      f = "\<lambda>s. quanta_left (1 / 4) (deadline - now (snd s))"])
  fix s :: "'b \<times> 'a" assume "fst s = ob"
  then obtain w where s: "s = (ob, w)" by (cases s) auto
  have less: "quanta_left (1 / 4) (deadline - now (h_sleep h (min (1 / 4) (deadline - t)) w2))
      < quanta_left (1 / 4) (deadline - now w)"
    if run: "h_run h rq w = (r, w1)" "h_monotonic h w1 = (t, w2)" and left: "\<not> deadline - t \<le> 0" for rq r w1 w2 t
  proof (rule quanta_left_decreases)
    have "now w \<le> now w1" "t = now w1" "now w1 \<le> now w2"
      "now w2 + min (1 / 4) (deadline - t) \<le> now (h_sleep h (min (1 / 4) (deadline - t)) w2)"
      using advancing_clockD [OF clock] run by blast+
    then show "0 < deadline - now w"
      "deadline - now (h_sleep h (min (1 / 4) (deadline - t)) w2) \<le> deadline - now w - 1 / 4 \<or>
       deadline - now (h_sleep h (min (1 / 4) (deadline - t)) w2) \<le> 0"
      using left by (auto simp: min_def algebra_simps split: if_splits)
  qed simp
  show "wp (rsusb_helper_step h cfg action device deadline)
     (\<lambda>r s'. case r of None \<Rightarrow> fst s' = ob \<and>
          quanta_left (1 / 4) (deadline - now (snd s')) < quanta_left (1 / 4) (deadline - now (snd s))
        | Some a \<Rightarrow> fst s' = ob) (\<lambda>e s. catchable e \<and> fst s = ob) s"
    by (auto simp: s rsusb_helper_step_def wp_simps Let_def less split: prod.splits sum.splits)
qed (use fuel in auto)

definition rsusb_fuel :: "sys_config \<Rightarrow> nat" where
  "rsusb_fuel cfg = quanta_left (1 / 4) (sc_rsusb_prepare_timeout_seconds cfg) + 1"

lemma run_rsusb_helper_wp:
  assumes clock: "advancing_clock h now" and fuel: "rsusb_fuel cfg \<le> n"
  shows "wp (run_rsusb_helper h cfg n action)
     (\<lambda>_ s. fst s = ob) (\<lambda>e s. catchable e \<and> fst s = ob) (ob, w)"
  unfolding run_rsusb_helper_def
proof (rule wp_for [where I = "\<lambda>s. fst s = ob"])
  fix x and s :: "'b \<times> 'a" assume "fst s = ob"
  then obtain w where s: "s = (ob, w)" by (cases s) auto
  obtain t w' where t: "h_monotonic h w = (t, w')" by (cases "h_monotonic h w")
  have "quanta_left (1 / 4) (t + sc_rsusb_prepare_timeout_seconds cfg - now w') \<le>
      quanta_left (1 / 4) (sc_rsusb_prepare_timeout_seconds cfg)"
    by (rule quanta_left_mono) (use advancing_clockD(1) [OF clock t] in auto)
  then show "wp (py_bind (do_monotonic h) (\<lambda>now. py_loop n
        (rsusb_helper_step h cfg action x (now + sc_rsusb_prepare_timeout_seconds cfg))))
     (\<lambda>_ s. fst s = ob) (\<lambda>e s. catchable e \<and> fst s = ob) s"
    using fuel by (auto simp: s t wp_simps rsusb_fuel_def intro!: rsusb_loop_wp [OF clock])
qed simp

lemma restore_v4l2_binding_wp:
  assumes clock: "advancing_clock h now" and fuel: "rsusb_fuel cfg \<le> n"
  shows "wp (restore_v4l2_binding h cfg n)
     (\<lambda>_ s. fst s = ob\<lparr>sy_rsusb_unbound := False\<rparr>) (\<lambda>e s. catchable e \<and> fst s = ob) (ob, w)"
  unfolding restore_v4l2_binding_def
  by (auto simp: wp_simps intro!: wp_step [OF run_rsusb_helper_wp [OF assms]])

subsection \<open>The invariant of the object\<close>

abbreviation iso_path_ok :: "cpu_iso \<Rightarrow> bool" where
  "iso_path_ok ob \<equiv> ci_cgroup_created ob \<longrightarrow> ci_cgroup_path ob \<noteq> None"

definition sys_ok :: "sys_controls \<Rightarrow> bool" where
  "sys_ok ob \<longleftrightarrow> freq_ok ob \<and> iso_path_ok (sy_iso ob)"

definition sys_dirty :: "sys_controls \<Rightarrow> bool" where
  "sys_dirty ob \<longleftrightarrow> sy_rsusb_unbound ob \<or> iso_needs_restore (sy_iso ob) \<or>
     sy_cpu_restore_needed ob \<or> sy_cpu_locked ob"

lemma preserves_collect_error [preserves_intros]:
  "preserves I m \<Longrightarrow> preserves I (collect_error l m errs)"
  unfolding collect_error_def by (intro preserves_intros)

lemma preserves_via:
  assumes "\<And>ob. I ob \<Longrightarrow> J (g ob)" "preserves J m" "\<And>ob. J ob \<Longrightarrow> I ob"
  shows "preserves I (py_seq (self_upd g) m)"
  unfolding preserves_def using assms
  by (auto simp: wp_simps intro!: wp_mono [OF preservesD [OF assms(2)]])

lemmas preserves_iso_io [preserves_intros] =
  keeps_iso_io [THEN keeps_preserves] keeps_iso_discovery [THEN keeps_preserves]
  keeps_iso_validate_environment [THEN keeps_preserves] keeps_sys_io [THEN keeps_preserves]
  keeps_enforce [THEN keeps_preserves]

lemma preserves_iso_restore_irqs: "preserves I (iso_restore_irqs h cfg as errs)"
  by (induction "as" arbitrary: errs) (auto intro!: preserves_intros)

lemma preserves_iso_restore:
  assumes "\<And>ob. I ob \<Longrightarrow> I (ob\<lparr>ci_process_moved := False\<rparr>)"
    "\<And>ob. I ob \<Longrightarrow> I (ob\<lparr>ci_cgroup_created := False\<rparr>)"
    "\<And>ob. I ob \<Longrightarrow> I (ob\<lparr>ci_controller_enabled_by_us := False\<rparr>)"
    "\<And>ob. I ob \<Longrightarrow> I (ob\<lparr>ci_original_irq_affinities := []\<rparr>)"
    "\<And>ob f. I ob \<Longrightarrow> I (ob\<lparr>ci_active := False, ci_state := f (ci_state ob)\<rparr>)"
  shows "preserves I (iso_restore h cfg)"
  unfolding iso_restore_def iso_restore_process_def iso_restore_cgroup_def iso_restore_controller_def Let_def
  by (intro preserves_intros preserves_iso_restore_irqs assms)

lemma preserves_iso_verify: "preserves iso_path_ok (iso_verify h cfg out)"
  by (rule keeps_preserves [OF keeps_iso_verify]) (auto simp: iso_set_irq_def)

lemma preserves_iso_prepare: "preserves iso_path_ok (iso_prepare h cfg d)"
proof -
  have guarded: "preserves (\<lambda>ob. ci_cgroup_path ob = Some c)
      (iso_prepare_guarded h cfg d c orig sub rs hk b)" for c orig sub rs hk b
    unfolding iso_prepare_guarded_def
    by (intro preserves_intros keeps_preserves [OF keeps_iso_prepare_body] preserves_iso_restore) auto
  have tail: "preserves (\<lambda>ob. ci_cgroup_path ob = Some c) (iso_prepare_from h cfg d c)" for c
    unfolding iso_prepare_from_def by (intro preserves_intros guarded) simp
  show ?thesis
    unfolding iso_prepare_def Let_def
    apply (rule preserves_bind, intro preserves_intros)
    apply (rule preserves_if, intro preserves_intros)
    apply (rule preserves_seq, intro preserves_intros)
    apply (rule preserves_bind, intro preserves_intros)+
    apply (rule preserves_if, intro preserves_intros)
    apply (rule preserves_via [OF _ tail], simp_all)
    done
qed

lemma preserves_lock: "preserves sys_ok (lock_cpu_once h cfg n d)"
proof -
  have fresh: "preserves sys_ok (lock_cpu_fresh h cfg n d mhz)" for mhz
    unfolding lock_cpu_fresh_def lock_poll_step_def Let_def
    apply (rule preserves_bind, intro preserves_intros)
    apply (rule preserves_via [where J = "\<lambda>ob. sys_ok ob \<and> sy_cpu_original_state ob \<noteq> None"])
      apply (simp add: sys_ok_def freq_ok_def)
     apply (rule preserves_if, intro preserves_intros)
     apply (rule preserves_via [where J = "\<lambda>ob. sys_ok ob \<and> sy_cpu_original_state ob \<noteq> None \<and> sy_cpu_restore_needed ob"])
       apply (simp add: sys_ok_def freq_ok_def)
      apply (intro preserves_intros)
      apply (auto simp: sys_ok_def freq_ok_def)
    done
  show ?thesis
    unfolding lock_cpu_once_def Let_def by (intro preserves_intros fresh)
qed

lemma preserves_prepare_campaign: "preserves sys_ok (prepare_campaign h cfg n d)"
proof -
  have iso: "preserves sys_ok (with_iso (iso_prepare h (sys_iso_config cfg) d))"
    by (rule preserves_with_iso [OF preserves_iso_prepare]) (auto simp: sys_ok_def freq_ok_def)
  show ?thesis
    unfolding prepare_campaign_def prepare_rsusb_once_def
    by (intro preserves_intros iso preserves_lock) (auto simp: sys_ok_def freq_ok_def)
qed

lemma preserves_prepare_attempt: "preserves sys_ok (prepare_attempt h cfg n i d)"
proof -
  have iso: "preserves sys_ok (with_iso (iso_verify h (sys_iso_config cfg) out))" for out
    by (rule preserves_with_iso [OF preserves_iso_verify]) (auto simp: sys_ok_def freq_ok_def)
  show ?thesis
    unfolding prepare_attempt_def prepare_rsusb_once_def prepare_rsusb_access_def
    by (intro preserves_intros iso) (auto simp: sys_ok_def freq_ok_def)
qed

lemma preserves_restores:
  "preserves sys_ok (restore_v4l2_binding h cfg n)"
  "preserves sys_ok (with_iso (iso_restore h icfg))"
  "preserves sys_ok (restore_cpu_frequency h cfg)"
proof -
  show "preserves sys_ok (restore_v4l2_binding h cfg n)"
    unfolding restore_v4l2_binding_def by (intro preserves_intros) (auto simp: sys_ok_def freq_ok_def)
  show "preserves sys_ok (with_iso (iso_restore h icfg))"
    by (rule preserves_with_iso [OF preserves_iso_restore, where J = iso_path_ok])
      (auto simp: sys_ok_def freq_ok_def)
  show "preserves sys_ok (restore_cpu_frequency h cfg)"
    unfolding restore_cpu_frequency_def restore_original_frequency_def Let_def
    by (intro preserves_intros) (auto simp: sys_ok_def freq_ok_def)
qed

lemma preserves_sys_cleanup: "preserves sys_ok (sys_cleanup h cfg n)"
  unfolding sys_cleanup_def by (intro preserves_intros preserves_restores)

subsection \<open>Reachable objects\<close>

text \<open>The states a campaign can bring its controls to: any sequence of calls, returning or raising.\<close>

inductive sys_reachable :: "'w host \<Rightarrow> sys_config \<Rightarrow> nat \<Rightarrow> sys_controls \<times> 'w \<Rightarrow> bool"
  for h cfg n where
  reach_init: "sys_reachable h cfg n (sys_init cfg, w)"
| reach_world: "sys_reachable h cfg n (ob, w) \<Longrightarrow> sys_reachable h cfg n (ob, w')"
| reach_campaign: "sys_reachable h cfg n s \<Longrightarrow> prepare_campaign h cfg n d s = (r, s') \<Longrightarrow> sys_reachable h cfg n s'"
| reach_attempt: "sys_reachable h cfg n s \<Longrightarrow> prepare_attempt h cfg n i d s = (r', s') \<Longrightarrow> sys_reachable h cfg n s'"
| reach_v4l2: "sys_reachable h cfg n s \<Longrightarrow> restore_v4l2_binding h cfg n s = (r', s') \<Longrightarrow> sys_reachable h cfg n s'"
| reach_cleanup: "sys_reachable h cfg n s \<Longrightarrow> sys_cleanup h cfg n s = (r', s') \<Longrightarrow> sys_reachable h cfg n s'"

lemma sys_reachable_ok: "sys_reachable h cfg n s \<Longrightarrow> sys_ok (fst s)"
proof (induction rule: sys_reachable.induct)
  case (reach_init w)
  then show ?case by (simp add: sys_init_def sys_ok_def freq_ok_def iso_init_def)
next
  case (reach_campaign s d r s')
  then show ?case using preserves_run [OF preserves_prepare_campaign] by blast
next
  case (reach_attempt s i d r' s')
  then show ?case using preserves_run [OF preserves_prepare_attempt] by blast
next
  case (reach_v4l2 s r' s')
  then show ?case using preserves_run [OF preserves_restores(1)] by blast
next
  case (reach_cleanup s r' s')
  then show ?case using preserves_run [OF preserves_sys_cleanup] by blast
qed simp

subsection \<open>The three controls as reversible controls\<close>

interpretation v4l2_undo: reversible_control "\<lambda>_. True" sy_rsusb_unbound "restore_v4l2_binding h cfg n" for h cfg n
proof
  show "restore_v4l2_binding h cfg n (ob, w) = (Inr (), ob, w)" if "\<not> sy_rsusb_unbound ob" for ob w
    using that by (simp add: restore_v4l2_binding_def py_defs self_get_def)
  have "wp (run_rsusb_helper h cfg n a) (\<lambda>_ _. True) (\<lambda>_ _. True) s" for a and s :: "sys_controls \<times> 'a" by simp
  then show "wp (restore_v4l2_binding h cfg n) (\<lambda>_ s. \<not> sy_rsusb_unbound (fst s)) (\<lambda>_ _. True) (ob, w)" for ob w
    unfolding restore_v4l2_binding_def
    by (auto simp: wp_simps elim!: wp_mono intro: wp_mono [OF wp_True] split: prod.splits)
qed

interpretation freq_undo: reversible_control freq_ok sy_cpu_restore_needed "restore_cpu_frequency h cfg" for h cfg
proof
  show "restore_cpu_frequency h cfg (ob, w) = (Inr (), ob, w)" if "\<not> sy_cpu_restore_needed ob" for ob w
    using that by (simp add: restore_cpu_frequency_def py_defs self_get_def)
  show "wp (restore_cpu_frequency h cfg) (\<lambda>_ s. \<not> sy_cpu_restore_needed (fst s)) (\<lambda>_ _. True) (ob, w)"
    if "freq_ok ob" for ob w
    by (rule wp_mono [OF restore_cpu_frequency_wp [OF that]]) auto
qed

lemma with_iso_run:
  "with_iso m (ob, w) = (r, ob', w') \<longleftrightarrow>
     (\<exists>iso. m (sy_iso ob, w) = (r, iso, w') \<and> ob' = ob\<lparr>sy_iso := iso\<rparr>)"
  by (auto simp: with_iso_def Let_def split: prod.splits)

interpretation sys_iso_undo: reversible_control "\<lambda>ob. iso_path_ok (sy_iso ob)" "\<lambda>ob. iso_needs_restore (sy_iso ob)"
    "with_iso (iso_restore h cfg)" for h cfg
proof
  show "with_iso (iso_restore h cfg) (ob, w) = (Inr (), ob, w)" if "\<not> iso_needs_restore (sy_iso ob)" for ob w
    unfolding with_iso_run by (rule exI [of _ "sy_iso ob"]) (simp add: iso_undo.clean_undo [OF that])
  show "wp (with_iso (iso_restore h cfg)) (\<lambda>_ s. \<not> iso_needs_restore (sy_iso (fst s))) (\<lambda>_ _. True) (ob, w)"
    if "iso_path_ok (sy_iso ob)" for ob w
    unfolding wp_with_iso by (rule wp_mono [OF iso_undo.undo_cleans [OF that]]) auto
qed

subsection \<open>Clean-up\<close>

definition outcome_errors :: "string \<Rightarrow> unit res \<Rightarrow> string list" where
  "outcome_errors label r = (case r of Inl e \<Rightarrow> [label @ exn_msg e] | Inr _ \<Rightarrow> [])"

lemma collect_error_run:
  assumes "m s = (r, s')" "\<And>e. r = Inl e \<Longrightarrow> catchable e"
  shows "collect_error label m errs s = (Inr (errs @ outcome_errors label r), s')"
  using assms by (cases r) (auto simp: collect_error_def py_defs outcome_errors_def)

lemma outcome_errors_Nil: "outcome_errors l r = [] \<longleftrightarrow> r = Inr ()"
  by (cases r) (auto simp: outcome_errors_def)

text \<open>
  The three restorations in the order of \<open>cleanup\<close>, each started in the state the previous one
  left, and whether they raised or not.
\<close>

definition three_restorations ::
    "'w host \<Rightarrow> sys_config \<Rightarrow> nat \<Rightarrow> sys_controls \<times> 'w \<Rightarrow> string list \<times> unit res list \<times> sys_controls \<times> 'w" where
  "three_restorations h cfg n s =
     (let (r1, s1) = restore_v4l2_binding h cfg n s;
          (r2, s2) = with_iso (iso_restore h (sys_iso_config cfg)) s1;
          (r3, s3) = restore_cpu_frequency h cfg s2
      in (outcome_errors ''restore V4L2 binding: '' r1 @ outcome_errors ''restore CPU isolation: '' r2 @
          outcome_errors ''restore CPU frequency: '' r3, [r1, r2, r3], s3))"

lemma sys_cleanup_run:
  assumes clock: "advancing_clock h now" and fuel: "rsusb_fuel cfg \<le> n" and ok: "sys_ok ob"
    and three: "three_restorations h cfg n (ob, w) = (errs, rs, s3)"
  shows "sys_cleanup h cfg n (ob, w) =
     ((if errs = [] then Inr () else Inl (Exn RuntimeError (py_join '' | '' errs))), s3)"
proof -
  obtain r1 ob1 w1 where 1: "restore_v4l2_binding h cfg n (ob, w) = (r1, ob1, w1)" by (metis prod.collapse)
  obtain r2 ob2 w2 where 2: "with_iso (iso_restore h (sys_iso_config cfg)) (ob1, w1) = (r2, ob2, w2)" by (metis prod.collapse)
  obtain r3 ob3 w3 where 3: "restore_cpu_frequency h cfg (ob2, w2) = (r3, ob3, w3)" by (metis prod.collapse)
  have ok1: "sys_ok ob1" using preserves_run [OF preserves_restores(1) _ 1] ok by simp
  have ok2: "sys_ok ob2" using preserves_run [OF preserves_restores(2) _ 2] ok1 by simp
  have c1: "catchable e" if "r1 = Inl e" for e
    using wp_raises [OF 1 [unfolded that] restore_v4l2_binding_wp [OF clock fuel]] by simp
  have c2: "catchable e" if r2: "r2 = Inl e" for e
  proof -
    obtain iso where "iso_restore h (sys_iso_config cfg) (sy_iso ob1, w1) = (Inl e, iso, w2)"
      using 2 r2 by (auto simp: with_iso_run)
    from wp_raises [OF this iso_restore_wp] ok1 show ?thesis by (simp add: sys_ok_def catchable_def)
  qed
  have c3: "catchable e" if "r3 = Inl e" for e
    using wp_raises [OF 3 [unfolded that] restore_cpu_frequency_wp] ok2 by (simp add: sys_ok_def)
  have "errs = outcome_errors ''restore V4L2 binding: '' r1 @ outcome_errors ''restore CPU isolation: '' r2 @
      outcome_errors ''restore CPU frequency: '' r3" "s3 = (ob3, w3)"
    using three by (auto simp: three_restorations_def 1 2 3)
  then show ?thesis
    by (simp add: sys_cleanup_def py_bind_def py_raise_def py_return_def
        collect_error_run [where m = "restore_v4l2_binding h cfg n", OF 1 c1]
        collect_error_run [where m = "with_iso (iso_restore h (sys_iso_config cfg))", OF 2 c2]
        collect_error_run [where m = "restore_cpu_frequency h cfg", OF 3 c3])
qed

lemma three_restorations_clean:
  assumes ok: "sys_ok ob" and three: "three_restorations h cfg n (ob, w) = ([], rs, ob', w')"
  shows "\<not> sys_dirty ob'"
proof -
  obtain r1 ob1 w1 where 1: "restore_v4l2_binding h cfg n (ob, w) = (r1, ob1, w1)" by (metis prod.collapse)
  obtain r2 ob2 w2 where 2: "with_iso (iso_restore h (sys_iso_config cfg)) (ob1, w1) = (r2, ob2, w2)" by (metis prod.collapse)
  obtain r3 ob3 w3 where 3: "restore_cpu_frequency h cfg (ob2, w2) = (r3, ob3, w3)" by (metis prod.collapse)
  from three have r: "r1 = Inr ()" "r2 = Inr ()" "r3 = Inr ()" and ob': "ob' = ob3"
    by (auto simp: three_restorations_def 1 2 3 outcome_errors_Nil)
  have ok1: "sys_ok ob1" using preserves_run [OF preserves_restores(1) _ 1] ok by simp
  have ok2: "sys_ok ob2" using preserves_run [OF preserves_restores(2) _ 2] ok1 by simp
  have u1: "\<not> sy_rsusb_unbound ob1" using v4l2_undo.undone [OF _ 1 [unfolded r]] by simp
  have u2: "\<not> iso_needs_restore (sy_iso ob2)" using sys_iso_undo.undone [OF _ 2 [unfolded r]] ok1 by (simp add: sys_ok_def)
  have same: "sy_rsusb_unbound ob2 = sy_rsusb_unbound ob1" using 2 by (auto simp: with_iso_run)
  show ?thesis
    using wp_returns [OF 3 [unfolded r] restore_cpu_frequency_wp] ok2 u1 u2 same
    by (simp add: sys_ok_def sys_dirty_def ob')
qed

lemma three_restorations_noop:
  assumes "\<not> sys_dirty ob"
  shows "three_restorations h cfg n (ob, w) = ([], [Inr (), Inr (), Inr ()], ob, w)"
  using assms
  by (simp add: three_restorations_def sys_dirty_def v4l2_undo.clean_undo sys_iso_undo.clean_undo
      freq_undo.clean_undo outcome_errors_def)

subsection \<open>Preparing a campaign\<close>

definition campaign_ready :: "sys_config \<Rightarrow> cpu_lock \<Rightarrow> sys_controls \<Rightarrow> bool" where
  "campaign_ready cfg lock ob \<longleftrightarrow>
     (sc_cpu_isolation_enabled cfg \<longrightarrow> (\<exists>st. iso_prepared (sys_iso_config cfg) st (sy_iso ob))) \<and>
     (case sc_cpu_frequency_mhz cfg of
        None \<Rightarrow> lock = LockDisabled
      | Some mhz \<Rightarrow> sy_cpu_locked ob \<and> (\<exists>st. lock = Locked st mhz \<and> at_frequency mhz st)) \<and>
     (sc_rsusb_backend cfg \<and> \<not> sc_rsusb_prepare_each_attempt cfg \<longrightarrow> sy_rsusb_unbound ob)"

lemma lock_cpu_once_wp:
  assumes clock: "advancing_clock h now" and fuel: "lock_fuel \<le> n"
    and ok: "freq_ok ob" "sy_cpu_locked ob = sy_cpu_restore_needed ob"
  shows "wp (lock_cpu_once h cfg n d)
     (\<lambda>lock s. case sc_cpu_frequency_mhz cfg of None \<Rightarrow> lock = LockDisabled
        | Some mhz \<Rightarrow> sy_cpu_locked (fst s) \<and> (\<exists>st. lock = Locked st mhz \<and> at_frequency mhz st))
     (\<lambda>e s. catchable e \<and> freq_ok (fst s)) (ob, w)"
proof (cases "sc_cpu_frequency_mhz cfg")
  case None
  then show ?thesis by (simp add: lock_cpu_once_def wp_simps)
next
  case (Some mhz)
  show ?thesis
  proof (cases "sy_cpu_locked ob")
    case True
    then show ?thesis
      using ok Some by (auto simp: lock_cpu_once_def wp_simps Let_def at_frequency_def
          verify_cpu_frequency_Nil [OF Some])
  next
    case False
    then have "wp (lock_cpu_fresh h cfg n d mhz)
     (\<lambda>r s. (\<exists>st. r = Locked st mhz \<and> at_frequency mhz st) \<and> sy_cpu_locked (fst s) \<and> freq_ok (fst s))
     (\<lambda>e s. catchable e \<and> freq_ok (fst s) \<and> \<not> sy_cpu_locked (fst s) \<and>
        (sy_cpu_restore_needed (fst s) \<or> s = (fst s, w))) (ob, w)"
      using lock_cpu_fresh_wp [OF Some clock fuel] ok by simp
    then show ?thesis
      using False Some by (auto simp: lock_cpu_once_def wp_simps elim: wp_mono)
  qed
qed

lemma preserves_lock_iso: "preserves (\<lambda>ob. sy_iso ob = i) (lock_cpu_once h cfg n d)"
  unfolding lock_cpu_once_def lock_cpu_fresh_def lock_poll_step_def Let_def
  by (intro preserves_intros) auto

lemma prepare_campaign_wp:
  assumes clock: "advancing_clock h now" and fuel: "lock_fuel \<le> n"
    and ok: "freq_ok ob" "sy_cpu_locked ob = sy_cpu_restore_needed ob" "\<not> iso_needs_restore (sy_iso ob)"
  shows "wp (prepare_campaign h cfg n d) (\<lambda>lock s. campaign_ready cfg lock (fst s)) (\<lambda>_ _. True) (ob, w)"
proof -
  let ?iso = "\<lambda>iso. sc_cpu_isolation_enabled cfg \<longrightarrow> (\<exists>st. iso_prepared (sys_iso_config cfg) st iso)"
  let ?locked = "\<lambda>lock ob. case sc_cpu_frequency_mhz cfg of None \<Rightarrow> lock = LockDisabled
        | Some mhz \<Rightarrow> sy_cpu_locked ob \<and> (\<exists>st. lock = Locked st mhz \<and> at_frequency mhz st)"
  have iso: "wp (iso_prepare h (sys_iso_config cfg) d) (\<lambda>_ s. ?iso (fst s)) (\<lambda>_ _. True) (sy_iso ob, w)"
  proof (cases "sc_cpu_isolation_enabled cfg")
    case True
    then have "cc_enabled (sys_iso_config cfg)" by (simp add: sys_iso_config_def)
    show ?thesis by (rule wp_mono [OF iso_prepare_wp [OF \<open>cc_enabled _\<close> ok(3)]]) auto
  qed simp
  have lock: "wp (lock_cpu_once h cfg n d) (\<lambda>lock s. ?locked lock (fst s) \<and> sy_iso (fst s) = i) (\<lambda>_ _. True)
      (ob\<lparr>sy_iso := i\<rparr>, w')" for i w'
  proof -
    have "wp (lock_cpu_once h cfg n d) (\<lambda>lock s. ?locked lock (fst s)) (\<lambda>e s. catchable e \<and> freq_ok (fst s))
        (ob\<lparr>sy_iso := i\<rparr>, w')"
      by (rule lock_cpu_once_wp [OF clock fuel]) (use ok in \<open>auto simp: freq_ok_def\<close>)
    moreover have "wp (lock_cpu_once h cfg n d) (\<lambda>_ s. sy_iso (fst s) = i) (\<lambda>_ s. sy_iso (fst s) = i)
        (ob\<lparr>sy_iso := i\<rparr>, w')"
      by (rule preservesD [OF preserves_lock_iso]) simp
    ultimately show ?thesis by (drule_tac wp_conj) (auto elim: wp_mono)
  qed
  have helper: "wp (run_rsusb_helper h cfg n a) (\<lambda>_ s. fst s = ob2) (\<lambda>_ _. True) (ob2, w2)"
    for a and ob2 :: sys_controls and w2
    by (rule wp_mono [OF preservesD [OF preserves_rsusb, where I = "\<lambda>x. x = ob2"]]) simp_all
  have enforce: "wp (enforce_realsense_autosuspend h cfg out a) (\<lambda>_ s. fst s = ob2) (\<lambda>_ _. True) (ob2, w2)"
    for out a and ob2 :: sys_controls and w2
    by (rule wp_mono [OF keepsD [OF keeps_enforce, where I = "\<lambda>x. x = ob2"]]) simp_all
  show ?thesis
    unfolding prepare_campaign_def prepare_rsusb_once_def
    apply (simp only: wp_bind wp_seq wp_with_iso)
    apply (rule wp_step [OF iso])
    apply (rule wp_step [OF lock])
    apply (auto simp: wp_simps campaign_ready_def
        intro!: wp_step [OF helper] wp_step [OF enforce] split: option.splits)
    apply blast+
    done
qed

subsection \<open>Kernel log\<close>

lemma after_anchor_spec:
  assumes "i \<le> length ls" "anchor \<notin> set (drop i ls)"
  shows "case after_anchor anchor i ls of
           Some rest \<Rightarrow> \<exists>pre. ls = pre @ anchor # rest \<and> anchor \<notin> set rest
         | None \<Rightarrow> anchor \<notin> set ls"
  using assms
proof (induction i)
  case (Suc i)
  then have drop_i: "drop i ls = ls ! i # drop (Suc i) ls" by (simp add: Cons_nth_drop_Suc)
  show ?case
  proof (cases "ls ! i = anchor")
    case True
    have "ls = take i ls @ anchor # drop (Suc i) ls"
      using drop_i True by (metis append_take_drop_id)
    then show ?thesis using True Suc.prems by auto
  next
    case False
    then show ?thesis using Suc drop_i by simp
  qed
qed simp

lemma kernel_delta_anchor:
  assumes "\<not> prefix before after" "splitlines before \<noteq> []"
  shows "(kernel_delta before after = ([], anchor_lost) \<and> last (splitlines before) \<notin> set (splitlines after)) \<or>
    (\<exists>pre rest. splitlines after = pre @ last (splitlines before) # rest \<and>
       last (splitlines before) \<notin> set rest \<and>
       kernel_delta before after =
         (if py_join newline rest = [] then [] else py_join newline rest @ newline, []))"
  using after_anchor_spec [of "length (splitlines after)" "splitlines after" "last (splitlines before)"] assms
  by (auto simp: kernel_delta_def Let_def split: option.splits)

section \<open>Properties\<close>

subsection \<open>A machine to apply them to\<close>

text \<open>One CPU-frequency policy, one camera for the RSUSB backend, no CPU isolation.\<close>

definition demo_sys_cfg :: sys_config where
  "demo_sys_cfg = \<lparr>sc_executable = ''python'', sc_tool_dir = [''t''], sc_use_sudo = False,
     sc_cpu_frequency_mhz = Some 2, sc_cpu_lock_script = [''lock''], sc_cpu_restore_script = [''restore''],
     sc_rsusb_backend = True, sc_rsusb_usb_devices = [''2-1''], sc_rsusb_helper = [''helper''],
     sc_rsusb_prepare_each_attempt = False, sc_rsusb_prepare_timeout_seconds = 1,
     sc_rsusb_unbind_settle_seconds = 0, sc_disable_realsense_autosuspend = False,
     sc_usb_sysfs_base = [''u''], sc_cpu_isolation_enabled = False, sc_housekeeping_cpus = ''0'',
     sc_benchmark_cpus = ''1'', sc_cgroup_root = [''c''], sc_cpu_online_path = [''o''], sc_proc_root = [''p'']\<rparr>"

definition demo_policy :: "string \<Rightarrow> path" where
  "demo_policy f = CPUFREQ_BASE @ [''policy0'', f]"

definition demo_sys_machine :: sim where
  "demo_sys_machine = sim_empty\<lparr>
     sim_files := [(demo_policy ''scaling_min_freq'', ''600''), (demo_policy ''scaling_max_freq'', ''3000''),
       (demo_policy ''scaling_cur_freq'', ''700''), (demo_policy ''scaling_governor'', ''ondemand'')],
     sim_effects := [(([''/lock'', ''2000''], None),
        [(demo_policy ''scaling_min_freq'', ''2000''), (demo_policy ''scaling_max_freq'', ''2000''),
         (demo_policy ''scaling_cur_freq'', ''2000''), (demo_policy ''scaling_governor'', ''performance'')])]\<rparr>"

definition demo_prepare :: "cpu_lock res \<times> sys_controls \<times> sim" where
  "demo_prepare = prepare_campaign sim_host demo_sys_cfg 30 [''r''] (sys_init demo_sys_cfg, demo_sys_machine)"

definition demo_cleanup :: "unit res \<times> sys_controls \<times> sim" where
  "demo_cleanup = sys_cleanup sim_host demo_sys_cfg 30 (snd demo_prepare)"

lemma demo_prepare_returns: "case fst demo_prepare of Inl _ \<Rightarrow> False | Inr _ \<Rightarrow> True"
  by code_simp

lemma demo_cleanup_returns: "fst demo_cleanup = Inr ()"
  by code_simp

lemma demo_fuel: "rsusb_fuel demo_sys_cfg \<le> 30" "lock_fuel \<le> 30"
  by (simp_all add: rsusb_fuel_def demo_sys_cfg_def quanta_left_def lock_fuel_def)

lemma demo_reachable: "sys_reachable sim_host demo_sys_cfg 30 (snd demo_prepare)"
  by (rule reach_campaign [OF reach_init, where r = "fst demo_prepare"])
    (unfold demo_prepare_def, rule surjective_pairing)

lemma demo_lock_returns:
  "case lock_cpu_once sim_host demo_sys_cfg 30 [''r''] (sys_init demo_sys_cfg, demo_sys_machine) of
     (Inl _, _) \<Rightarrow> False | (Inr _, _) \<Rightarrow> True"
  by code_simp

subsection \<open>Claims\<close>

text \<open>
  C6. \<open>SystemControls.cleanup\<close>, in any state a campaign can reach and on a machine whose clock
  advances: all three restorations are run, in the order V4L2 binding, CPU isolation, CPU
  frequency, each from the state the previous one left even if that one raised; \<open>cleanup\<close> ends in
  the state the third leaves, returns if none of them raised, and otherwise raises one
  \<open>RuntimeError\<close> that joins the messages of those that did.
\<close>

theorem sys_cleanup_runs_all:
  assumes "advancing_clock h now" "rsusb_fuel cfg \<le> fuel" "sys_reachable h cfg fuel (ob, w)"
  shows "case three_restorations h cfg fuel (ob, w) of (errors, rs, s) \<Rightarrow>
    sys_cleanup h cfg fuel (ob, w) =
      ((if errors = [] then Inr () else Inl (Exn RuntimeError (py_join '' | '' errors))), s)"
  using sys_cleanup_run [OF assms(1,2)] sys_reachable_ok [OF assms(3)] by (auto split: prod.splits)

theorem sys_cleanup_runs_all_witness:
  "case three_restorations sim_host demo_sys_cfg 30 (snd demo_prepare) of (errors, rs, s) \<Rightarrow>
    demo_cleanup = ((if errors = [] then Inr () else Inl (Exn RuntimeError (py_join '' | '' errors))), s)"
  using sys_cleanup_runs_all [OF sim_advancing_clock demo_fuel(1), of "fst (snd demo_prepare)" "snd (snd demo_prepare)"]
    demo_reachable by (simp add: demo_cleanup_def)

text \<open>
  C7. A \<open>SystemControls.cleanup\<close> that returns leaves nothing to undo: the UVC interfaces are bound,
  the CPU isolation is undone, the frequency lock is released; and calling it again changes
  neither the object nor the machine.
\<close>

theorem sys_cleanup_clean:
  assumes "advancing_clock h now" "rsusb_fuel cfg \<le> fuel" "sys_reachable h cfg fuel (ob, w)"
    and "sys_cleanup h cfg fuel (ob, w) = (Inr (), ob', w')"
  shows "\<not> sys_dirty ob' \<and> sys_cleanup h cfg fuel (ob', w'') = (Inr (), ob', w'')"
proof -
  obtain errs rs s where three: "three_restorations h cfg fuel (ob, w) = (errs, rs, s)"
    by (cases "three_restorations h cfg fuel (ob, w)") auto
  have ok: "sys_ok ob" using sys_reachable_ok [OF assms(3)] by simp
  from sys_cleanup_run [OF assms(1,2) ok three] assms(4)
  have e: "errs = []" and s: "s = (ob', w')" by (auto split: if_splits)
  have clean: "\<not> sys_dirty ob'" using three_restorations_clean [OF ok] three e s by simp
  have "sys_ok ob'"
    using preserves_run [OF preserves_sys_cleanup _ assms(4)] ok by simp
  from sys_cleanup_run [OF assms(1,2) this three_restorations_noop [OF clean]] clean
  show ?thesis by simp
qed

theorem sys_cleanup_clean_witness: "\<not> sys_dirty (fst (snd demo_cleanup))"
  using sys_cleanup_clean [OF sim_advancing_clock demo_fuel(1), of "fst (snd demo_prepare)" "snd (snd demo_prepare)"
      "fst (snd demo_cleanup)" "snd (snd demo_cleanup)"] demo_reachable demo_cleanup_returns
  by (simp add: demo_cleanup_def prod_eq_iff)

text \<open>
  \<open>SystemControls.prepare_campaign\<close>, started with nothing applied, returns only when the campaign
  is ready: the CPU isolation is active and verified when enabled, every CPU-frequency policy is
  at the requested frequency in the state it returns, and the UVC interfaces are unbound when the
  RSUSB backend is prepared once.
\<close>

lemma prepare_campaign_ready:
  assumes "advancing_clock h now" "lock_fuel \<le> fuel"
    and "prepare_campaign h cfg fuel record_dir (sys_init cfg, w) = (Inr lock, ob', w')"
  shows "campaign_ready cfg lock ob'"
  using wp_returns [OF assms(3) prepare_campaign_wp [OF assms(1,2)]]
  by (simp add: sys_init_def freq_ok_def iso_init_def iso_needs_restore_def)

text \<open>
  \<open>SystemControls._lock_cpu_once\<close> always ends, within the polling deadline of one second (21
  rounds of its loop), on a machine whose clock advances. From a consistent, unlocked object it either
  returns with the lock recorded and all policies at the requested frequency, or raises an ordinary
  exception with the object consistent: in particular, if the lock was attempted, the object still
  knows that the frequency has to be restored and to what.
\<close>

lemma lock_cpu_once_outcome:
  assumes "advancing_clock h now" "lock_fuel \<le> fuel" "freq_ok ob" "sy_cpu_locked ob = sy_cpu_restore_needed ob"
  shows "case lock_cpu_once h cfg fuel record_dir (ob, w) of
      (Inr lock, ob', w') \<Rightarrow> (case sc_cpu_frequency_mhz cfg of None \<Rightarrow> lock = LockDisabled
        | Some mhz \<Rightarrow> sy_cpu_locked ob' \<and> (\<exists>st. lock = Locked st mhz \<and> at_frequency mhz st))
    | (Inl e, ob', w') \<Rightarrow> exn_kind e \<noteq> Diverged \<and> freq_ok ob'"
  using lock_cpu_once_wp [OF assms, of cfg record_dir w]
  by (auto simp: wp_def catchable_def split: prod.splits sum.splits option.splits)

text \<open>
  \<open>SystemControls.restore_cpu_frequency\<close>, when a restoration is due: if it returns, every
  policy captured before the campaign exists again with its minimum, maximum and governor in the
  state the machine is left in, and the lock is released; if it raises, the object is unchanged,
  so that a later call tries again.
\<close>

lemma restore_cpu_frequency_restores:
  assumes "freq_ok ob" "sy_cpu_restore_needed ob" "sy_cpu_original_state ob = Some original"
  shows "case restore_cpu_frequency h cfg (ob, w) of
      (Inr _, ob', w') \<Rightarrow> \<not> sy_cpu_restore_needed ob' \<and> \<not> sy_cpu_locked ob' \<and>
        (\<forall>p \<in> set (cf_policies original). policy_restored (cf_policies (cpu_frequency_state h w')) p)
    | (Inl e, ob', w') \<Rightarrow> ob' = ob"
  using restore_cpu_frequency_wp [OF assms(1), of h cfg w] assms(2,3)
  by (auto simp: wp_def split: prod.splits sum.splits)

text \<open>
  \<open>SystemControls.kernel_delta\<close>: if the later log extends the earlier one, the delta is exactly the
  extension; if the earlier log is empty of lines, it is the whole later log; otherwise it is the
  lines after the last occurrence of the last earlier line, and the error about the lost anchor
  is reported exactly when that line does not occur any more.
\<close>

lemma kernel_delta_spec:
  "kernel_delta before (before @ new) = (new, []) \<and>
   (if startswith after before then kernel_delta before after = (drop (length before) after, [])
    else if splitlines before = [] then kernel_delta before after = (after, [])
    else (kernel_delta before after = ([], anchor_lost) \<and> last (splitlines before) \<notin> set (splitlines after)) \<or>
      (\<exists>pre rest. splitlines after = pre @ last (splitlines before) # rest \<and>
         last (splitlines before) \<notin> set rest \<and>
         kernel_delta before after =
           (if py_join newline rest = [] then [] else py_join newline rest @ newline, [])))"
  using kernel_delta_anchor [of before after] by (auto simp: kernel_delta_def)

end
