(* ===== verification/Json.thy ===== *)
theory Json
  imports Prelude
begin

text \<open>
  Python operations on JSON values, as the adapters and parsers use them: \<open>get\<close> with a default,
  truth values, \<open>str\<close>, \<open>int\<close>, iteration, and the exceptions they raise on the wrong kind of value.
  The text of a float is its fraction: the shortest decimal form that Python prints is not
  modelled, and no theorem depends on it.
\<close>

section \<open>Definitions\<close>

text \<open>\<open>v.get(k, default)\<close>\<close>

fun py_get :: "pyval \<Rightarrow> string \<Rightarrow> pyval \<Rightarrow> pyval res" where
  "py_get (PDict d) k dflt = Inr (dict_get d k dflt)"
| "py_get _ k dflt = Inl (Exn AttributeError ''get'')"

text \<open>\<open>d[k]\<close>\<close>

fun py_item :: "pyval \<Rightarrow> string \<Rightarrow> pyval res" where
  "py_item (PDict d) k = (case map_of d k of None \<Rightarrow> Inl (Exn KeyError k) | Some v \<Rightarrow> Inr v)"
| "py_item _ k = Inl (Exn TypeError k)"

text \<open>Iteration over a value.\<close>

fun py_iter :: "pyval \<Rightarrow> pyval list res" where
  "py_iter (PList vs) = Inr vs"
| "py_iter (PDict d) = Inr (map (PStr \<circ> fst) d)"
| "py_iter (PStr s) = Inr (map (\<lambda>c. PStr [c]) s)"
| "py_iter _ = Inl (Exn TypeError ''object is not iterable'')"

text \<open>\<open>all(f(x) for x in xs)\<close>\<close>

fun all_true :: "('a \<Rightarrow> bool res) \<Rightarrow> 'a list \<Rightarrow> bool res" where
  "all_true f [] = Inr True"
| "all_true f (x # xs) = res_bind (f x) (\<lambda>b. if b then all_true f xs else Inr False)"

text \<open>\<open>v.values()\<close>\<close>

fun py_values :: "pyval \<Rightarrow> pyval list res" where
  "py_values (PDict d) = Inr (map snd d)"
| "py_values _ = Inl (Exn AttributeError ''values'')"

text \<open>\<open>d[k]\<close> for a key that is itself a value\<close>

fun py_item_at :: "pyval \<Rightarrow> pyval \<Rightarrow> pyval res" where
  "py_item_at d (PStr k) = py_item d k"
| "py_item_at d (PList _) = Inl (Exn TypeError ''unhashable type'')"
| "py_item_at d (PDict _) = Inl (Exn TypeError ''unhashable type'')"
| "py_item_at d k = (case d of PDict _ \<Rightarrow> Inl (Exn KeyError []) | _ \<Rightarrow> Inl (Exn TypeError []))"

text \<open>\<open>v == w\<close>: numbers by value, dictionaries as maps.\<close>

fun py_number :: "pyval \<Rightarrow> rat option" where
  "py_number (PBool b) = Some (if b then 1 else 0)"
| "py_number (PInt i) = Some (of_int i)"
| "py_number (PFloat r) = Some r"
| "py_number _ = None"

function py_eq :: "pyval \<Rightarrow> pyval \<Rightarrow> bool" where
  "py_eq v w =
     (case (v, w) of
        (PList as, PList bs) \<Rightarrow> length as = length bs \<and> list_all (\<lambda>i. py_eq (as ! i) (bs ! i)) [0..<length as]
      | (PDict a, PDict b) \<Rightarrow> list_all (\<lambda>(k, x). case map_of b k of None \<Rightarrow> False | Some y \<Rightarrow> py_eq x y) a \<and>
          list_all (\<lambda>(k, y). map_of a k \<noteq> None) b
      | _ \<Rightarrow> (if py_number v \<noteq> None then py_number v = py_number w else v = w))"
  by pat_completeness auto
termination
proof (relation "measure (size \<circ> fst)", goal_cases)
  case (2 v w x y vs ws i)
  then have "vs ! i \<in> set vs" by auto
  then show ?case using 2 size_list_estimation' [of "vs ! i" vs "size (vs ! i)" size] by auto
next
  case (3 v w x y a b kx k z u)
  then have "(k, z) \<in> set a" by auto
  then have "size (snd (k, z)) \<le> size_list (\<lambda>p. size (snd p)) a" by (rule size_list_estimation') simp
  also have "\<dots> \<le> size_list (size_prod (\<lambda>_. 0) size) a" by (rule size_list_pointwise) auto
  finally show ?case using 3 by auto
qed simp

declare py_eq.simps [simp del]

text \<open>Distinctness of a list of values, as the size of \<open>set(vs)\<close> tells.\<close>

fun hash_key :: "pyval \<Rightarrow> (rat + pyval) res" where
  "hash_key (PList _) = Inl (Exn TypeError ''unhashable type'')"
| "hash_key (PDict _) = Inl (Exn TypeError ''unhashable type'')"
| "hash_key v = Inr (case py_number v of Some r \<Rightarrow> Inl r | None \<Rightarrow> Inr v)"

definition py_distinct :: "pyval list \<Rightarrow> bool res" where
  "py_distinct vs = res_bind (res_map hash_key vs) (\<lambda>ks. Inr (distinct ks))"

definition str_rat :: "rat \<Rightarrow> string" where
  "str_rat r = (case quotient_of r of (n, d) \<Rightarrow> str_int n @ ''/'' @ str_int d)"

fun py_reprv :: "pyval \<Rightarrow> string" where
  "py_reprv PNone = ''None''"
| "py_reprv (PBool b) = (if b then ''True'' else ''False'')"
| "py_reprv (PInt i) = str_int i"
| "py_reprv (PFloat r) = str_rat r"
| "py_reprv (PStr s) = py_repr s"
| "py_reprv (PList vs) = ''['' @ py_join '', '' (map py_reprv vs) @ '']''"
| "py_reprv (PDict d) = ''{'' @ py_join '', '' (map (\<lambda>(k, v). py_repr k @ '': '' @ py_reprv v) d) @ ''}''"

text \<open>\<open>str(v)\<close>\<close>

definition py_str :: "pyval \<Rightarrow> string" where
  "py_str v = (case v of PStr s \<Rightarrow> s | _ \<Rightarrow> py_reprv v)"

text \<open>Truncation towards zero.\<close>

definition rat_trunc :: "rat \<Rightarrow> int" where
  "rat_trunc r = (if r < 0 then - \<lfloor>- r\<rfloor> else \<lfloor>r\<rfloor>)"

text \<open>\<open>int(v)\<close>\<close>

fun py_intv :: "pyval \<Rightarrow> int res" where
  "py_intv (PInt i) = Inr i"
| "py_intv (PBool b) = Inr (if b then 1 else 0)"
| "py_intv (PFloat r) = Inr (rat_trunc r)"
| "py_intv (PStr s) = py_int s"
| "py_intv _ = Inl (Exn TypeError ''int() argument must be a string or a number'')"

text \<open>\<open>v or w\<close>\<close>

definition py_or :: "pyval \<Rightarrow> pyval \<Rightarrow> pyval" where
  "py_or v w = (if truthy v then v else w)"

text \<open>\<open>float(s)\<close> of a decimal text with an optional exponent; infinities and NaN are not modelled.\<close>

definition py_float :: "string \<Rightarrow> rat res" where
  "py_float s =
     (let t = strip s;
          neg = prefix ''-'' t;
          body = (if neg \<or> prefix ''+'' t then tl t else t);
          whole = takeWhile is_digit body; r1 = dropWhile is_digit body;
          dotted = prefix ''.'' r1;
          frac = (if dotted then takeWhile is_digit (tl r1) else []);
          r2 = (if dotted then dropWhile is_digit (tl r1) else r1);
          expo = (r2 \<noteq> [] \<and> lower_char (hd r2) = CHR ''e'');
          r3 = (if expo then tl r2 else r2);
          eneg = (expo \<and> prefix ''-'' r3);
          edigits = (if expo \<and> (eneg \<or> prefix ''+'' r3) then tl r3 else r3);
          base = (of_nat (dec_nat (whole @ frac)) :: rat) / 10 ^ length frac;
          scaled = (if \<not> expo then base
                    else if eneg then base / 10 ^ dec_nat edigits else base * 10 ^ dec_nat edigits)
      in if whole @ frac = [] \<or> (expo \<and> \<not> py_isdigit edigits) \<or> (\<not> expo \<and> r3 \<noteq> [])
         then value_error (''could not convert string to float: '' @ py_repr s)
         else Inr (if neg then - scaled else scaled))"

text \<open>\<open>float(v)\<close>\<close>

fun py_floatv :: "pyval \<Rightarrow> rat res" where
  "py_floatv (PInt i) = Inr (of_int i)"
| "py_floatv (PBool b) = Inr (if b then 1 else 0)"
| "py_floatv (PFloat r) = Inr r"
| "py_floatv (PStr s) = py_float s"
| "py_floatv _ = Inl (Exn TypeError ''float() argument must be a string or a real number'')"

fun exn_class_name :: "exn_class \<Rightarrow> string" where
  "exn_class_name ValueError = ''ValueError''"
| "exn_class_name RuntimeError = ''RuntimeError''"
| "exn_class_name KeyError = ''KeyError''"
| "exn_class_name IndexError = ''IndexError''"
| "exn_class_name TypeError = ''TypeError''"
| "exn_class_name OSError = ''OSError''"
| "exn_class_name AttributeError = ''AttributeError''"
| "exn_class_name AssertionError = ''AssertionError''"
| "exn_class_name ZeroDivisionError = ''ZeroDivisionError''"
| "exn_class_name StatisticsError = ''StatisticsError''"
| "exn_class_name TimeoutExpired = ''TimeoutExpired''"
| "exn_class_name CalledProcessError = ''CalledProcessError''"
| "exn_class_name JSONDecodeError = ''JSONDecodeError''"
| "exn_class_name SystemExit = ''SystemExit''"
| "exn_class_name Diverged = ''Diverged''"

text \<open>\<open>f'{type(error).__name__}: {error}'\<close>\<close>

definition exn_text :: "exn \<Rightarrow> string" where
  "exn_text e = exn_class_name (exn_kind e) @ '': '' @ exn_msg e"

section \<open>Lemmas\<close>

lemma py_get_error_kind: "py_get v k d = Inl e \<Longrightarrow> exn_kind e = AttributeError"
  by (cases v) auto

lemma dict_update_Nil [simp]: "dict_update d [] = d"
  by (simp add: dict_update_def)

lemma dict_update_Cons [simp]: "dict_update d ((k, v) # e) = dict_update (dict_set k v d) e"
  by (simp add: dict_update_def)

lemma dict_update_append: "dict_update d (a @ b) = dict_update (dict_update d a) b"
  by (simp add: dict_update_def)

lemma map_of_dict_update: "map_of (dict_update d e) k = (case map_of (rev e) k of None \<Rightarrow> map_of d k | Some v \<Rightarrow> Some v)"
proof (induction e arbitrary: d)
  case (Cons a e)
  obtain k' v' where a: "a = (k', v')" by (cases a)
  show ?case by (auto simp: a Cons.IH map_add_def split: option.splits)
qed simp

lemma map_of_dict_update_other: "k \<notin> fst ` set e \<Longrightarrow> map_of (dict_update d e) k = map_of d k"
  by (simp add: map_of_dict_update map_of_eq_None_iff [THEN iffD2] image_iff split: option.splits)

end
