(* ===== verification/Attempts.thy ===== *)
theory Attempts
  imports Json
begin

text \<open>
  \<open>tools/realsense_bench_common/attempts.py\<close> and \<open>results.py\<close>: the loop that runs one logical
  benchmark point, classifies every attempt, recovers the cameras and retries. The functions the
  benchmark passes in (run, classify, recover, build a record, prepare) are the fields of the
  record \<open>adapter\<close>; they act on the state \<open>'s\<close> of the benchmark. The locale \<open>attempt_adapter\<close>
  states what the loop relies on for its counters, and the classifiers of the three benchmarks
  (steady state, startup, timerlat) interpret it.
\<close>

section \<open>Definitions\<close>

record decision =
  dc_success :: bool
  dc_failure_phase :: string
  dc_retry :: bool
  dc_recover :: bool
  dc_error :: string
  dc_metadata :: pydict

record attempt_result =
  ar_output :: string
  ar_summary :: pydict
  ar_selected_attempt :: nat
  ar_selected_dir :: path
  ar_attempts :: "pydict list"
  ar_recoveries :: "pydict list"
  ar_recovery :: pydict

record 's adapter =
  ad_before :: "(nat \<Rightarrow> path \<Rightarrow> ('s, unit) py) option"
  ad_run :: "nat \<Rightarrow> path \<Rightarrow> ('s, string \<times> pydict) py"
  ad_classify :: "pydict \<Rightarrow> decision res"
  ad_recover :: "(pydict \<Rightarrow> path \<Rightarrow> decision \<Rightarrow> ('s, pydict) py) option"
  ad_build :: "(pydict \<Rightarrow> decision \<Rightarrow> pydict res) option"
  ad_sleep :: "rat \<Rightarrow> ('s, unit) py"

definition aggregate_recoveries :: "string \<Rightarrow> pydict list \<Rightarrow> pydict" where
  "aggregate_recoveries method recoveries =
     (let errors = map (\<lambda>i. py_str (dict_get i ''error'' (PStr [])))
            (filter (\<lambda>i. truthy (dict_get i ''error'' PNone)) recoveries)
      in [(''attempted'', PBool (recoveries \<noteq> [])), (''method'', PStr method),
          (''count'', PInt (int (length recoveries)))] @
         (if recoveries \<noteq> []
          then [(''success'', PBool (list_all (\<lambda>i. truthy (dict_get i ''success'' (PBool False))) recoveries))]
          else []) @
         (if errors \<noteq> [] then [(''error'', PStr (py_join '' | '' errors))] else []))"

definition attempt_dir_of :: "path \<Rightarrow> nat \<Rightarrow> path" where
  "attempt_dir_of record_dir attempt = record_dir @ [''attempt-'' @ str_nat attempt]"

definition attempt_base :: "nat \<Rightarrow> path \<Rightarrow> decision \<Rightarrow> pydict" where
  "attempt_base attempt attempt_dir d =
     [(''attempt'', PInt (int attempt)), (''success'', PBool (dc_success d)),
      (''failure_phase'', PStr (dc_failure_phase d)), (''error'', PStr (dc_error d)),
      (''record_data_dir'', PStr (path_str attempt_dir))]"

definition attempt_record :: "'s adapter \<Rightarrow> nat \<Rightarrow> path \<Rightarrow> pydict \<Rightarrow> decision \<Rightarrow> pydict res" where
  "attempt_record ad attempt attempt_dir summary d =
     (let base = dict_update (attempt_base attempt attempt_dir d) (dc_metadata d) in
      case ad_build ad of
        None \<Rightarrow> Inr base
      | Some build \<Rightarrow> res_bind (build summary d) (\<lambda>extra. Inr (dict_update base extra)))"

definition needs_recovery :: "string \<Rightarrow> decision \<Rightarrow> bool" where
  "needs_recovery method d \<longleftrightarrow> \<not> dc_success d \<and> dc_recover d \<and> method \<noteq> ''none''"

definition recover_step ::
    "'s adapter \<Rightarrow> string \<Rightarrow> path \<Rightarrow> pydict \<Rightarrow> decision \<Rightarrow> ('s, pydict option) py" where
  "recover_step ad method attempt_dir summary d =
     (case ad_recover ad of
        Some recover \<Rightarrow>
          if needs_recovery method d
          then py_bind (recover summary attempt_dir d) (\<lambda>r. py_return (Some r))
          else py_return None
      | None \<Rightarrow> py_return None)"

type_synonym final_attempt = "string \<times> pydict \<times> decision \<times> nat \<times> path"

text \<open>The \<open>for\<close> loop over the attempt numbers, with the lists it appends to and the last attempt.\<close>

fun attempt_loop ::
    "'s adapter \<Rightarrow> path \<Rightarrow> int \<Rightarrow> string \<Rightarrow> rat \<Rightarrow> nat list \<Rightarrow> pydict list \<Rightarrow> pydict list \<Rightarrow> final_attempt option
      \<Rightarrow> ('s, pydict list \<times> pydict list \<times> final_attempt option) py" where
  "attempt_loop ad dir max_attempts method settle [] attempts recoveries final =
     py_return (attempts, recoveries, final)"
| "attempt_loop ad dir max_attempts method settle (attempt # rest) attempts recoveries final =
     (let attempt_dir = attempt_dir_of dir attempt in
      py_seq (case ad_before ad of None \<Rightarrow> py_skip | Some prepare \<Rightarrow> prepare attempt attempt_dir)
     (py_bind (ad_run ad attempt attempt_dir) (\<lambda>(output, summary).
      py_bind (py_res (ad_classify ad summary)) (\<lambda>d.
      py_bind (py_res (attempt_record ad attempt attempt_dir summary d)) (\<lambda>rec.
      py_bind (recover_step ad method attempt_dir summary d) (\<lambda>recovery.
      let recoveries' = (case recovery of None \<Rightarrow> recoveries | Some r \<Rightarrow> recoveries @ [r]);
          rec' = (case recovery of None \<Rightarrow> rec | Some r \<Rightarrow> dict_set ''recovery'' (PDict r) rec);
          final' = Some (output, summary, d, attempt, attempt_dir)
      in
      if \<not> (\<not> dc_success d \<and> dc_retry d \<and> int attempt < max_attempts)
      then py_return (attempts @ [rec'], recoveries', final')
      else
      py_seq (py_when (settle > 0) (ad_sleep ad settle))
        (attempt_loop ad dir max_attempts method settle rest (attempts @ [rec']) recoveries' final')))))))"

definition loop_summary :: "pydict \<Rightarrow> decision \<Rightarrow> nat \<Rightarrow> pydict list \<Rightarrow> pydict \<Rightarrow> pydict" where
  "loop_summary summary d selected attempts recovery =
     dict_update summary
       [(''attempt_count'', PInt (int (length attempts))),
        (''failed_attempt_count'', PInt (int (length
           (filter (\<lambda>i. \<not> truthy (dict_get i ''success'' PNone)) attempts)))),
        (''initial_attempt_success'', PBool (truthy (dict_get (hd attempts) ''success'' PNone))),
        (''eventual_success'', PBool (dc_success d)),
        (''selected_attempt'', PInt (int selected)),
        (''attempts'', PList (map PDict attempts)),
        (''recovery'', PDict recovery)]"

definition run_attempt_loop ::
    "'s adapter \<Rightarrow> path \<Rightarrow> int \<Rightarrow> string \<Rightarrow> rat \<Rightarrow> ('s, attempt_result) py" where
  "run_attempt_loop ad record_dir max_attempts method settle =
     (if max_attempts < 1 then py_raise (Exn ValueError ''max_attempts must be at least one'')
      else
      py_bind (attempt_loop ad record_dir max_attempts method settle [1..<Suc (nat max_attempts)] [] [] None)
       (\<lambda>(attempts, recoveries, final).
      case final of
        None \<Rightarrow> py_raise (Exn RuntimeError ''No benchmark attempt was executed'')
      | Some (output, summary, d, selected, selected_dir) \<Rightarrow>
          (let recovery = aggregate_recoveries method recoveries in
           py_return \<lparr>ar_output = output,
             ar_summary = loop_summary summary d selected attempts recovery,
             ar_selected_attempt = selected, ar_selected_dir = selected_dir,
             ar_attempts = attempts, ar_recoveries = recoveries, ar_recovery = recovery\<rparr>)))"

definition common_attempt_result_fields :: "pydict \<Rightarrow> pydict res" where
  "common_attempt_result_fields summary =
     (let success = PBool (truthy (dict_get summary ''success'' (PBool False)));
          recovery = dict_get summary ''recovery'' (PDict [])
      in res_bind (py_get recovery ''attempted'' (PBool False)) (\<lambda>attempted.
         res_bind (py_get recovery ''count'' (PInt 0)) (\<lambda>count.
         res_bind (py_get recovery ''method'' (PStr ''none'')) (\<lambda>method.
         res_bind (py_get recovery ''success'' (PStr [])) (\<lambda>rsuccess.
         res_bind (py_get recovery ''error'' (PStr [])) (\<lambda>rerror.
         Inr [(''attempt_count'', dict_get summary ''attempt_count'' (PInt 1)),
              (''failed_attempt_count'', dict_get summary ''failed_attempt_count'' (PInt 0)),
              (''initial_attempt_success'', dict_get summary ''initial_attempt_success'' success),
              (''eventual_success'', dict_get summary ''eventual_success'' success),
              (''selected_attempt'', dict_get summary ''selected_attempt'' (PInt 1)),
              (''recovery_attempted'', attempted), (''recovery_count'', count),
              (''recovery_method'', method), (''recovery_success'', rsuccess),
              (''recovery_error'', rerror)]))))))"

section \<open>Lemmas\<close>

subsection \<open>The history of a run\<close>

text \<open>
  The specification of the retry policy, over the decisions of the attempts made: at least one
  and at most \<open>max_attempts\<close>; every attempt but the last failed and asked for a retry; the last
  one succeeded, or did not ask for a retry, or was the last one allowed.
\<close>

definition attempt_history :: "int \<Rightarrow> decision list \<Rightarrow> bool" where
  "attempt_history max_attempts ds \<longleftrightarrow> ds \<noteq> [] \<and> int (length ds) \<le> max_attempts \<and>
     (\<forall>d \<in> set (butlast ds). \<not> dc_success d \<and> dc_retry d) \<and>
     (dc_success (last ds) \<or> \<not> dc_retry (last ds) \<or> int (length ds) = max_attempts)"

text \<open>A record of attempt \<open>i\<close> with decision \<open>d\<close>, with the recovery added if there was one.\<close>

definition record_of :: "'s adapter \<Rightarrow> path \<Rightarrow> nat \<Rightarrow> decision \<Rightarrow> pydict \<Rightarrow> bool" where
  "record_of ad dir i d rec \<longleftrightarrow> (\<exists>summary base. ad_classify ad summary = Inr d \<and>
     attempt_record ad i (attempt_dir_of dir i) summary d = Inr base \<and>
     (rec = base \<or> (\<exists>r. rec = dict_set ''recovery'' (PDict r) base)))"

definition recoveries_due :: "'s adapter \<Rightarrow> string \<Rightarrow> decision list \<Rightarrow> nat" where
  "recoveries_due ad method ds =
     (if ad_recover ad = None then 0 else length (filter (needs_recovery method) ds))"

lemma recoveries_due_Cons:
  "recoveries_due ad method (d # ds) =
     (if ad_recover ad \<noteq> None \<and> needs_recovery method d then 1 else 0) + recoveries_due ad method ds"
  by (simp add: recoveries_due_def)

lemma wp_any: "(\<And>a s'. Q a s') \<Longrightarrow> wp m Q (\<lambda>_ _. True) s"
  by (auto simp: wp_def split: prod.splits sum.splits)

lemma recover_step_wp:
  "wp (recover_step ad method dir summary d)
     (\<lambda>r _. r \<noteq> None \<longleftrightarrow> ad_recover ad \<noteq> None \<and> needs_recovery method d) (\<lambda>_ _. True) s"
proof (cases "ad_recover ad")
  case (Some f)
  have "wp (f summary dir d) (\<lambda>_ _. True) (\<lambda>_ _. True) s" by simp
  then show ?thesis by (auto simp: recover_step_def Some wp_simps elim!: wp_mono)
qed (simp add: recover_step_def wp_simps)

text \<open>What the loop appends when it starts at attempt \<open>k\<close>.\<close>

definition loop_tail ::
    "'s adapter \<Rightarrow> path \<Rightarrow> string \<Rightarrow> nat \<Rightarrow> nat \<Rightarrow> pydict list \<Rightarrow> pydict list \<Rightarrow>
     pydict list \<times> pydict list \<times> final_attempt option \<Rightarrow> bool" where
  "loop_tail ad dir method n k attempts recoveries res \<longleftrightarrow>
     (case res of (as, rs, final) \<Rightarrow>
       \<exists>ds new newr output summary. ds \<noteq> [] \<and> k + length ds \<le> Suc n \<and>
         (\<forall>d \<in> set (butlast ds). \<not> dc_success d \<and> dc_retry d) \<and>
         (dc_success (last ds) \<or> \<not> dc_retry (last ds) \<or> k + length ds = Suc n) \<and>
         as = attempts @ new \<and> rs = recoveries @ newr \<and>
         list_all2 (\<lambda>(i, d) rec. record_of ad dir i d rec) (zip [k..<k + length ds] ds) new \<and>
         length newr = recoveries_due ad method ds \<and>
         final = Some (output, summary, last ds, k + length ds - 1, attempt_dir_of dir (k + length ds - 1)))"

lemma loop_tail_stop:
  assumes "k \<le> n" "record_of ad dir k d rec" "dc_success d \<or> \<not> dc_retry d \<or> k = n"
    "length newr = recoveries_due ad method [d]"
  shows "loop_tail ad dir method n k attempts recoveries
     (attempts @ [rec], recoveries @ newr, Some (output, summary, d, k, attempt_dir_of dir k))"
  unfolding loop_tail_def prod.case
  by (rule exI [of _ "[d]"], rule exI [of _ "[rec]"], rule exI [of _ newr]) (use assms in auto)

lemma loop_tail_step:
  assumes "loop_tail ad dir method n (Suc k) (attempts @ [rec]) (recoveries @ newr) res"
    and "record_of ad dir k d rec" "\<not> dc_success d" "dc_retry d" "length newr = recoveries_due ad method [d]"
  shows "loop_tail ad dir method n k attempts recoveries res"
proof -
  obtain as rs final where res: "res = (as, rs, final)" by (cases res)
  from assms(1) obtain ds new newr' out summary where *:
    "ds \<noteq> []" "Suc k + length ds \<le> Suc n" "\<forall>d \<in> set (butlast ds). \<not> dc_success d \<and> dc_retry d"
    "dc_success (last ds) \<or> \<not> dc_retry (last ds) \<or> Suc k + length ds = Suc n"
    "as = (attempts @ [rec]) @ new" "rs = (recoveries @ newr) @ newr'"
    "list_all2 (\<lambda>(i, d) rec. record_of ad dir i d rec) (zip [Suc k..<Suc k + length ds] ds) new"
    "length newr' = recoveries_due ad method ds"
    "final = Some (out, summary, last ds, Suc k + length ds - 1, attempt_dir_of dir (Suc k + length ds - 1))"
    unfolding loop_tail_def res prod.case by blast
  have upt: "[k..<Suc (k + length ds)] = k # [Suc k..<Suc (k + length ds)]" by (simp add: upt_rec)
  show ?thesis
    unfolding loop_tail_def res prod.case
    by (rule exI [of _ "d # ds"], rule exI [of _ "rec # new"], rule exI [of _ "newr @ newr'"])
      (use * assms(2-5) in \<open>auto simp: upt recoveries_due_Cons recoveries_due_def simp del: upt_Suc\<close>)
qed

lemma attempt_loop_wp:
  assumes "k \<le> n"
  shows "wp (attempt_loop ad dir (int n) method settle [k..<Suc n] attempts recoveries final)
     (\<lambda>res _. loop_tail ad dir method n k attempts recoveries res) (\<lambda>_ _. True) s"
  using assms
proof (induction "Suc n - k" arbitrary: k attempts recoveries final s)
  case (Suc m)
  have upt: "[k..<Suc n] = k # [Suc k..<Suc n]" using Suc.prems by (simp add: upt_rec)
  have cont: "wp (let recoveries' = (case recovery of None \<Rightarrow> recoveries | Some r \<Rightarrow> recoveries @ [r]);
          rec' = (case recovery of None \<Rightarrow> rec | Some r \<Rightarrow> dict_set ''recovery'' (PDict r) rec);
          final' = Some (out, summary, d, k, attempt_dir_of dir k)
      in
      if \<not> (\<not> dc_success d \<and> dc_retry d \<and> int k < int n)
      then py_return (attempts @ [rec'], recoveries', final')
      else
      py_seq (py_when (settle > 0) (ad_sleep ad settle))
        (attempt_loop ad dir (int n) method settle [Suc k..<Suc n] (attempts @ [rec']) recoveries' final'))
     (\<lambda>res _. loop_tail ad dir method n k attempts recoveries res) (\<lambda>_ _. True) s'"
    if classify: "ad_classify ad summary = Inr d"
      and base: "attempt_record ad k (attempt_dir_of dir k) summary d = Inr rec"
      and due: "recovery \<noteq> None \<longleftrightarrow> ad_recover ad \<noteq> None \<and> needs_recovery method d"
    for recovery rec d out summary s'
  proof -
    let ?newr = "case recovery of None \<Rightarrow> [] | Some r \<Rightarrow> [r]"
    let ?rec = "case recovery of None \<Rightarrow> rec | Some r \<Rightarrow> dict_set ''recovery'' (PDict r) rec"
    have len: "length ?newr = recoveries_due ad method [d]"
      using due by (cases recovery) (auto simp: recoveries_due_def)
    have rec: "record_of ad dir k d ?rec"
      using classify base by (auto simp: record_of_def split: option.splits)
    have app: "(case recovery of None \<Rightarrow> recoveries | Some r \<Rightarrow> recoveries @ [r]) = recoveries @ ?newr"
      by (cases recovery) auto
    show ?thesis
    proof (cases "\<not> dc_success d \<and> dc_retry d \<and> k < n")
      case False
      then show ?thesis
        unfolding Let_def app using loop_tail_stop [OF Suc.prems rec _ len] Suc.prems
        by (auto simp: wp_return)
    next
      case True
      have next': "wp (attempt_loop ad dir (int n) method settle [Suc k..<Suc n] (attempts @ [?rec]) (recoveries @ ?newr) f)
          (\<lambda>res _. loop_tail ad dir method n k attempts recoveries res) (\<lambda>_ _. True) s''" for f s''
        by (rule wp_step [OF Suc.hyps(1)]) (use Suc True len rec in \<open>auto intro: loop_tail_step\<close>)
      show ?thesis
        unfolding Let_def app using True by (auto simp: wp_seq wp_when simp del: upt_Suc intro: next' wp_any)
    qed
  qed
  show ?case
    unfolding upt attempt_loop.simps Let_def [of "attempt_dir_of dir k"] wp_seq wp_bind
    apply (rule wp_any, rule wp_any)
    apply (simp only: split_paired_all prod.case wp_bind wp_res)
    apply (split sum.split, intro conjI allI impI, simp)
    apply (split sum.split, intro conjI allI impI, simp)
    apply (rule wp_step [OF recover_step_wp], erule (2) cont)
    done
qed simp

subsection \<open>The contract of an adapter\<close>

text \<open>
  The keys of an attempt record that the loop writes itself, and the counters it derives from
  them. An adapter whose metadata and extra fields leave them alone gets counters that agree with
  the decisions made.
\<close>

definition loop_keys :: "string set" where
  "loop_keys = {''attempt'', ''success'', ''recovery''}"

locale attempt_adapter =
  fixes classify :: "pydict \<Rightarrow> decision res"
    and build :: "(pydict \<Rightarrow> decision \<Rightarrow> pydict res) option"
  assumes retry_failed: "classify summary = Inr d \<Longrightarrow> dc_retry d \<Longrightarrow> \<not> dc_success d"
    and metadata_keys: "classify summary = Inr d \<Longrightarrow> fst ` set (dc_metadata d) \<inter> loop_keys = {}"
    and build_keys: "build = Some f \<Longrightarrow> f summary d = Inr extra \<Longrightarrow> fst ` set extra \<inter> loop_keys = {}"
begin

lemma record_keeps:
  assumes "ad_build ad = build" "classify summary = Inr d"
    and "attempt_record ad i dir summary d = Inr rec" "k \<in> loop_keys"
  shows "map_of rec k = map_of (attempt_base i dir d) k"
proof -
  have m: "k \<notin> fst ` set (dc_metadata d)" using metadata_keys [OF assms(2)] assms(4) by blast
  show ?thesis
  proof (cases build)
    case None
    then show ?thesis using assms(1,3) m by (auto simp: attempt_record_def map_of_dict_update_other)
  next
    case (Some f)
    then obtain extra where "f summary d = Inr extra"
      and rec: "rec = dict_update (dict_update (attempt_base i dir d) (dc_metadata d)) extra"
      using assms(1,3) by (auto simp: attempt_record_def res_bind_Inr_iff)
    then have "k \<notin> fst ` set extra" using build_keys [OF Some] assms(4) by blast
    then show ?thesis using m by (simp add: rec map_of_dict_update_other)
  qed
qed

lemma record_success:
  assumes "ad_classify ad = classify" "ad_build ad = build" "record_of ad dir i d rec"
  shows "truthy (dict_get rec ''success'' PNone) = dc_success d"
proof -
  obtain summary base where base: "classify summary = Inr d"
      "attempt_record ad i (attempt_dir_of dir i) summary d = Inr base"
    and rec: "rec = base \<or> (\<exists>r. rec = dict_set ''recovery'' (PDict r) base)"
    using assms by (auto simp: record_of_def)
  have "map_of base ''success'' = Some (PBool (dc_success d))"
    using record_keeps [OF assms(2) base, of "''success''"] by (simp add: loop_keys_def attempt_base_def)
  then show ?thesis using rec by (auto simp: dict_get_def)
qed

end

text \<open>The report of a run of the loop, in terms of the decisions made.\<close>

definition loop_report ::
    "'s adapter \<Rightarrow> path \<Rightarrow> int \<Rightarrow> string \<Rightarrow> decision list \<Rightarrow> attempt_result \<Rightarrow> bool" where
  "loop_report ad dir max_attempts method ds r \<longleftrightarrow>
     attempt_history max_attempts ds \<and>
     ar_selected_attempt r = length ds \<and> ar_selected_dir r = attempt_dir_of dir (length ds) \<and>
     length (ar_attempts r) = length ds \<and>
     length (ar_recoveries r) = recoveries_due ad method ds \<and>
     map_of (ar_summary r) ''attempt_count'' = Some (PInt (int (length ds))) \<and>
     map_of (ar_summary r) ''failed_attempt_count'' =
       Some (PInt (int (length ds) - (if dc_success (last ds) then 1 else 0))) \<and>
     map_of (ar_summary r) ''initial_attempt_success'' = Some (PBool (dc_success (hd ds))) \<and>
     map_of (ar_summary r) ''eventual_success'' = Some (PBool (dc_success (last ds))) \<and>
     map_of (ar_summary r) ''selected_attempt'' = Some (PInt (int (length ds)))"

lemma run_attempt_loop_history:
  assumes "run_attempt_loop ad dir max_attempts method settle s = (Inr r, s')"
  shows "\<exists>ds summary. attempt_history max_attempts ds \<and>
    list_all2 (\<lambda>(i, d) rec. record_of ad dir i d rec) (zip [1..<Suc (length ds)] ds) (ar_attempts r) \<and>
    ar_selected_attempt r = length ds \<and> ar_selected_dir r = attempt_dir_of dir (length ds) \<and>
    length (ar_recoveries r) = recoveries_due ad method ds \<and>
    ar_recovery r = aggregate_recoveries method (ar_recoveries r) \<and>
    ar_summary r = loop_summary summary (last ds) (length ds) (ar_attempts r) (ar_recovery r)"
proof -
  let ?n = "nat max_attempts"
  have n: "\<not> max_attempts < 1" using assms by (auto simp: run_attempt_loop_def py_defs)
  then have wp: "wp (attempt_loop ad dir (int ?n) method settle [1..<Suc ?n] [] [] None)
     (\<lambda>res _. loop_tail ad dir method ?n 1 [] [] res) (\<lambda>_ _. True) s"
    by (intro attempt_loop_wp) simp
  from assms n obtain as rs out summary d k kd s1 where
    loop: "attempt_loop ad dir (int ?n) method settle [1..<Suc ?n] [] [] None s =
        (Inr (as, rs, Some (out, summary, d, k, kd)), s1)"
    and r: "r = \<lparr>ar_output = out, ar_summary = loop_summary summary d k as (aggregate_recoveries method rs),
             ar_selected_attempt = k, ar_selected_dir = kd, ar_attempts = as, ar_recoveries = rs,
             ar_recovery = aggregate_recoveries method rs\<rparr>"
    by (auto simp: run_attempt_loop_def py_defs Let_def simp del: upt_Suc
        split: prod.splits sum.splits option.splits)
  from wp_returns [OF loop wp] obtain ds where
    "ds \<noteq> []" "Suc (length ds) \<le> Suc ?n" "\<forall>d \<in> set (butlast ds). \<not> dc_success d \<and> dc_retry d"
    "dc_success (last ds) \<or> \<not> dc_retry (last ds) \<or> Suc (length ds) = Suc ?n"
    "list_all2 (\<lambda>(i, d) rec. record_of ad dir i d rec) (zip [1..<1 + length ds] ds) as"
    "length rs = recoveries_due ad method ds" "d = last ds" "k = length ds" "kd = attempt_dir_of dir (length ds)"
    by (auto simp: loop_tail_def simp del: upt_Suc)
  then show ?thesis
    using n by (intro exI [of _ ds] exI [of _ summary]) (auto simp: attempt_history_def r simp del: upt_Suc)
qed

lemma history_failed:
  assumes "attempt_history m ds"
  shows "length (filter (\<lambda>d. \<not> dc_success d) ds) = length ds - (if dc_success (last ds) then 1 else 0)"
proof -
  have ds: "ds = butlast ds @ [last ds]" using assms by (simp add: attempt_history_def)
  have "filter (\<lambda>d. \<not> dc_success d) (butlast ds) = butlast ds"
    using assms by (auto simp: attempt_history_def filter_id_conv)
  moreover have "0 < length ds" using assms by (simp add: attempt_history_def)
  ultimately show ?thesis by (subst ds, subst filter_append) auto
qed

context attempt_adapter
begin

lemma successes:
  assumes "ad_classify ad = classify" "ad_build ad = build"
    and "list_all2 (\<lambda>(i, d) rec. record_of ad dir i d rec) (zip is ds) as" "length is = length ds"
  shows "map (\<lambda>rec. truthy (dict_get rec ''success'' PNone)) as = map dc_success ds"
proof (rule nth_equalityI)
  show len: "length (map (\<lambda>rec. truthy (dict_get rec ''success'' PNone)) as) = length (map dc_success ds)"
    using assms(3,4) by (auto dest!: list_all2_lengthD)
  fix i assume "i < length (map (\<lambda>rec. truthy (dict_get rec ''success'' PNone)) as)"
  then have i: "i < length as" "i < length ds" using len by auto
  with assms(3,4) have "record_of ad dir (is ! i) (ds ! i) (as ! i)"
    by (auto simp: list_all2_conv_all_nth)
  from record_success [OF assms(1,2) this] i
  show "map (\<lambda>rec. truthy (dict_get rec ''success'' PNone)) as ! i = map dc_success ds ! i" by simp
qed

lemma reports:
  assumes "ad_classify ad = classify" "ad_build ad = build"
    and "run_attempt_loop ad dir max_attempts method settle s = (Inr r, s')"
  shows "\<exists>ds. loop_report ad dir max_attempts method ds r"
proof -
  from run_attempt_loop_history [OF assms(3)] obtain ds summary where
    hist: "attempt_history max_attempts ds"
    and recs: "list_all2 (\<lambda>(i, d) rec. record_of ad dir i d rec) (zip [1..<Suc (length ds)] ds) (ar_attempts r)"
    and sel: "ar_selected_attempt r = length ds" "ar_selected_dir r = attempt_dir_of dir (length ds)"
      "length (ar_recoveries r) = recoveries_due ad method ds"
    and summ: "ar_summary r = loop_summary summary (last ds) (length ds) (ar_attempts r) (ar_recovery r)"
    by blast
  let ?ok = "\<lambda>rec. truthy (dict_get rec ''success'' PNone)"
  have ok: "map ?ok (ar_attempts r) = map dc_success ds"
    using successes [OF assms(1,2) recs] by (simp del: upt_Suc)
  have len: "length (ar_attempts r) = length ds" using ok by (metis length_map)
  have ne: "ds \<noteq> []" "ar_attempts r \<noteq> []" using hist len by (auto simp: attempt_history_def)
  have hd: "?ok (hd (ar_attempts r)) = dc_success (hd ds)"
    using ok ne by (metis hd_map)
  have "length (filter Not (map ?ok (ar_attempts r))) = length (filter Not (map dc_success ds))"
    by (simp only: ok)
  then have failed: "int (length (filter (\<lambda>i. \<not> ?ok i) (ar_attempts r))) =
      int (length ds) - (if dc_success (last ds) then 1 else 0)"
    using history_failed [OF hist] ne by (simp add: filter_map comp_def of_nat_diff Suc_le_eq)
  show ?thesis
    by (rule exI [of _ ds]) (use hist sel len ne in
        \<open>auto simp: loop_report_def summ loop_summary_def map_of_dict_update failed hd\<close>)
qed

end

end
