(* ===== verification/Attempt_Adapters.thy ===== *)
theory Attempt_Adapters
  imports Attempts Host_Sim
begin

text \<open>
  How the three benchmarks use the attempt loop: the steady-state adapter
  (\<open>tools/realsense_steady_bench/steady_attempts.py\<close>, all of it), and the classifiers that the
  startup campaign (\<open>run_startup_campaign.py\<close>) and the timerlat benchmark
  (\<open>timerlat_benchmark.py\<close>) pass to it. Each of them satisfies the contract \<open>attempt_adapter\<close>.
\<close>

section \<open>Definitions\<close>

subsection \<open>Steady state\<close>

definition measurement_started :: "pydict \<Rightarrow> bool res" where
  "measurement_started summary =
     res_bind (py_get (dict_get summary ''measurement'' (PDict [])) ''start_boottime_ns'' (PInt 0)) (\<lambda>value.
     res_bind (py_intv (py_or value (PInt 0))) (\<lambda>i. Inr (i \<noteq> 0)))"

text \<open>\<open>[serials] if serials else []\<close> for a string, the elements otherwise.\<close>

definition serial_list :: "pyval \<Rightarrow> pyval list res" where
  "serial_list v = (case v of PStr s \<Rightarrow> Inr (if s \<noteq> [] then [v] else []) | _ \<Rightarrow> py_iter v)"

definition rsusb_port :: "pyval \<Rightarrow> string" where
  "rsusb_port usb_device = ''/sys/bus/usb/devices/'' @ py_str usb_device"

definition rsusb_ports_of :: "pyval list \<Rightarrow> pyval list \<Rightarrow> (string \<times> string) list" where
  "rsusb_ports_of serials usb_devices =
     dict_update [] (map (\<lambda>(serial, usb). (py_str serial, rsusb_port usb)) (zip serials usb_devices))"

definition with_port :: "(string \<times> string) list \<Rightarrow> pydict \<Rightarrow> pydict" where
  "with_port ports descriptor =
     (case map_of ports (py_str (dict_get descriptor ''serial'' (PStr []))) of
        Some port \<Rightarrow> if port \<noteq> [] then dict_set ''physical_port'' (PStr port) descriptor else descriptor
      | None \<Rightarrow> descriptor)"

fun as_dict :: "pyval \<Rightarrow> pydict option" where
  "as_dict (PDict d) = Some d"
| "as_dict _ = None"

definition camera_descriptors :: "pydict \<Rightarrow> pydict \<Rightarrow> pydict list res" where
  "camera_descriptors kase summary =
     (let probe = dict_get kase ''probe'' (PDict []) in
      res_bind (py_get probe ''serial'' (PList [])) (\<lambda>serial.
      res_bind (py_get probe ''serials'' serial) (\<lambda>serials_value.
      res_bind (py_get probe ''rsusb_usb_devices'' (PList [])) (\<lambda>usb_value.
      res_bind (serial_list serials_value) (\<lambda>serials.
      res_bind (py_iter usb_value) (\<lambda>usb_devices.
      let ports = rsusb_ports_of serials usb_devices in
      case dict_get summary ''cameras'' (PList []) of
        PList (c # cs) \<Rightarrow> Inr (map (with_port ports) (List.map_filter as_dict (c # cs)))
      | _ \<Rightarrow> Inr (map (\<lambda>serial.
          (''serial'', PStr (py_str serial)) #
          (case map_of ports (py_str serial) of
             Some port \<Rightarrow> [(''physical_port'', PStr port)] | None \<Rightarrow> [])) serials)))))))"

definition RETRYABLE_PHASES :: "string list" where
  "RETRYABLE_PHASES = [''startup'', ''noise_transition'', ''measurement'']"

definition steady_phase :: "bool \<Rightarrow> string \<Rightarrow> bool \<Rightarrow> string" where
  "steady_phase success error started =
     (if success then ''none''
      else if startswith error ''SCHED_DEADLINE setup failed:'' \<or> startswith error ''Rate-monotonic setup failed:''
      then ''scheduler_setup''
      else if startswith error ''Noise setup failed:'' then ''noise_setup''
      else if startswith error ''Noise transition frame failure:'' then ''noise_transition''
      else if started then ''measurement'' else ''startup'')"

definition steady_classify_attempt :: "pydict \<Rightarrow> decision res" where
  "steady_classify_attempt summary =
     (let success = truthy (dict_get summary ''success'' (PBool False)) in
      res_bind (measurement_started summary) (\<lambda>started.
      let error = py_str (dict_get summary ''error'' (PStr []));
          phase = steady_phase success error started;
          again = (\<not> success \<and> phase \<in> set RETRYABLE_PHASES)
      in Inr \<lparr>dc_success = success, dc_failure_phase = phase, dc_retry = again, dc_recover = again,
              dc_error = error, dc_metadata = [(''measurement_started'', PBool started)]\<rparr>))"

definition steady_camera_record :: "pyval \<Rightarrow> pyval res" where
  "steady_camera_record camera =
     res_bind (py_get camera ''serial'' (PStr [])) (\<lambda>serial.
     res_bind (py_get camera ''warmup_deliveries'' (PInt 0)) (\<lambda>warmup.
     res_bind (py_get camera ''timeouts'' (PInt 0)) (\<lambda>timeouts.
     Inr (PDict [(''serial'', serial), (''warmup_deliveries'', warmup), (''timeouts'', timeouts)]))))"

definition steady_attempt_record :: "pydict \<Rightarrow> decision \<Rightarrow> pydict res" where
  "steady_attempt_record summary d =
     res_bind (py_iter (dict_get summary ''cameras'' (PList []))) (\<lambda>cameras.
     res_bind (res_map steady_camera_record cameras) (\<lambda>records.
     Inr [(''cameras'', PList records)]))"

text \<open>\<open>mkdir(exist_ok=False)\<close>\<close>

definition mkdir_new :: "'w host \<Rightarrow> path \<Rightarrow> ('o \<times> 'w, unit) py" where
  "mkdir_new h p =
     py_bind (ask (h_exists h p)) (\<lambda>present.
     if present then py_raise (Exn OSError (path_str p)) else do_mkdir h p)"

definition reset_failure_summary :: "string \<Rightarrow> pydict list \<Rightarrow> pydict" where
  "reset_failure_summary message cameras =
     [(''schema_version'', PInt 1), (''success'', PBool False), (''error'', PStr message),
      (''run'', PDict [(''camera_count'', PInt (int (length cameras)))]),
      (''measurement'', PDict [(''start_boottime_ns'', PInt 0), (''end_boottime_ns'', PInt 0),
                               (''duration_ms'', PFloat 0)]),
      (''aggregate'', PDict []), (''cameras'', PList (map PDict cameras))]"

definition record_pre_run_reset_failure ::
    "'w host \<Rightarrow> pydict \<Rightarrow> nat \<Rightarrow> path \<Rightarrow> pydict \<Rightarrow> exn \<Rightarrow> ('o \<times> 'w, string \<times> pydict) py" where
  "record_pre_run_reset_failure h kase attempt attempt_dir base_manifest e =
     py_seq (mkdir_new h attempt_dir)
    (let message = ''Pre-run reset failed: '' @ exn_text e in
     py_bind (py_res (camera_descriptors kase [])) (\<lambda>cameras.
     let summary = reset_failure_summary message cameras;
         manifest = dict_update base_manifest
           [(''attempt'', PInt (int attempt)), (''record_data_dir'', PStr (path_str attempt_dir)),
            (''pre_run_reset_failed'', PBool True), (''pre_run_reset_error'', PStr message)];
         output = message @ [CHR 0x0A]
     in
     py_seq (do_write_json h (attempt_dir @ [''steady_summary.json'']) (PDict summary))
    (py_seq (do_write_json h (attempt_dir @ [''attempt_manifest.json'']) (PDict manifest))
    (py_seq (do_write_text h (attempt_dir @ [''probe_stdout.txt'']) output)
     (py_return (output, summary))))))"

text \<open>
  The adapter \<open>run_steady_attempts\<close> builds: \<open>recover\<close> is the bound method of the recovery object
  it is given, \<open>run\<close> the attempt function.
\<close>

definition steady_adapter ::
    "'w host \<Rightarrow> pydict \<Rightarrow> string \<Rightarrow> (pydict list \<Rightarrow> path \<Rightarrow> ('o \<times> 'w, pydict) py)
      \<Rightarrow> (nat \<Rightarrow> path \<Rightarrow> ('o \<times> 'w, string \<times> pydict) py) \<Rightarrow> ('o \<times> 'w) adapter" where
  "steady_adapter h kase recover_on_failure recover run =
     \<lparr>ad_before = None, ad_run = run, ad_classify = steady_classify_attempt,
      ad_recover = (if recover_on_failure = ''full-reset''
        then Some (\<lambda>summary attempt_dir d.
          py_bind (py_res (camera_descriptors kase summary)) (\<lambda>cs. recover cs attempt_dir))
        else None),
      ad_build = Some steady_attempt_record,
      ad_sleep = do_sleep h\<rparr>"

definition read_manifest :: "'w host \<Rightarrow> path \<Rightarrow> pydict \<Rightarrow> ('o \<times> 'w, pyval) py" where
  "read_manifest h p base_manifest =
     py_bind (ask (h_is_file h p)) (\<lambda>present.
     if present then ask_res (\<lambda>w. of_host (h_read_json h p w))
     else py_return (PDict base_manifest))"

definition run_steady_attempts ::
    "'w host \<Rightarrow> pydict \<Rightarrow> path \<Rightarrow> pydict \<Rightarrow> string \<Rightarrow> rat \<Rightarrow> int
      \<Rightarrow> (pydict list \<Rightarrow> path \<Rightarrow> ('o \<times> 'w, pydict) py)
      \<Rightarrow> (nat \<Rightarrow> path \<Rightarrow> ('o \<times> 'w, string \<times> pydict) py) \<Rightarrow> ('o \<times> 'w, string) py" where
  "run_steady_attempts h kase record_dir base_manifest recover_on_failure settle max_attempts recover run =
     py_bind (run_attempt_loop (steady_adapter h kase recover_on_failure recover run)
        record_dir max_attempts recover_on_failure settle) (\<lambda>result.
     py_seq (do_write_json h (record_dir @ [''steady_summary.json'']) (PDict (ar_summary result)))
    (py_seq (do_write_json h (record_dir @ [''attempts.json'']) (PList (map PDict (ar_attempts result))))
    (py_seq (do_write_text h (record_dir @ [''selected_attempt.txt''])
       (str_nat (ar_selected_attempt result) @ [CHR 0x0A]))
    (py_seq (do_write_text h (record_dir @ [''probe_stdout.txt'']) (ar_output result))
    (py_bind (read_manifest h (ar_selected_dir result @ [''attempt_manifest.json'']) base_manifest) (\<lambda>manifest.
     case manifest of
       PDict m \<Rightarrow>
         py_seq (do_write_json h (record_dir @ [''run_manifest.json''])
           (PDict (dict_update m
             [(''selected_attempt'', PInt (int (ar_selected_attempt result))),
              (''attempt_count'', PInt (int (length (ar_attempts result)))),
              (''eventual_success'', dict_get (ar_summary result) ''eventual_success'' PNone)])))
          (py_return (ar_output result))
     | _ \<Rightarrow> py_raise (Exn AttributeError ''update'')))))))"

subsection \<open>Startup campaign and timerlat benchmark\<close>

definition process_failed_text :: string where
  "process_failed_text = ''benchmark process failed before clean exit''"

definition startup_classify_attempt :: "pydict \<Rightarrow> decision res" where
  "startup_classify_attempt summary =
     (let startup_result = dict_get summary ''startup_result'' (PDict []);
          startup_error = dict_get summary ''startup_error'' (PDict []);
          process_error = truthy (dict_get summary ''process_error'' (PBool False))
      in
      res_bind (py_get startup_result ''success'' (PBool False)) (\<lambda>probe.
      res_bind (py_get startup_error ''message'' (PStr [])) (\<lambda>message.
      res_bind (py_get startup_result ''completed_cycles'' (PInt 0)) (\<lambda>completed.
      res_bind (py_get startup_error ''kind'' (PStr [])) (\<lambda>kind.
      let success = (truthy probe \<and> \<not> process_error);
          error_message = (if process_error \<and> py_str message = [] then process_failed_text else py_str message)
      in Inr \<lparr>dc_success = success, dc_failure_phase = (if success then ''none'' else ''startup''),
              dc_retry = (\<not> success), dc_recover = True, dc_error = error_message,
              dc_metadata = [(''cycles_started'', dict_get summary ''cycles_started'' (PInt 0)),
                (''cycles_completed'', completed), (''error_kind'', kind),
                (''error_message'', PStr error_message)]\<rparr>)))))"

definition timerlat_classify :: "pydict \<Rightarrow> decision res" where
  "timerlat_classify summary =
     (let success = truthy (dict_get summary ''success'' (PBool False));
          phase = py_str (dict_get summary ''failure_phase'' (PStr ''measurement''))
      in Inr \<lparr>dc_success = success, dc_failure_phase = phase,
              dc_retry = (\<not> success \<and> phase = ''startup''), dc_recover = True,
              dc_error = py_str (dict_get summary ''error'' (PStr [])), dc_metadata = []\<rparr>)"

section \<open>Lemmas\<close>

lemma res_bind_InrE: "res_bind m f = Inr b \<Longrightarrow> (\<And>a. m = Inr a \<Longrightarrow> f a = Inr b \<Longrightarrow> P) \<Longrightarrow> P"
  by (auto simp: res_bind_Inr_iff)

interpretation steady_adapter: attempt_adapter steady_classify_attempt "Some steady_attempt_record"
  by unfold_locales
    (auto simp: steady_classify_attempt_def steady_attempt_record_def loop_keys_def Let_def res_bind_Inr_iff)

interpretation startup_adapter: attempt_adapter startup_classify_attempt None
  by unfold_locales (auto simp: startup_classify_attempt_def loop_keys_def Let_def res_bind_Inr_iff)

interpretation timerlat_adapter: attempt_adapter timerlat_classify None
  by unfold_locales (auto simp: timerlat_classify_def loop_keys_def Let_def)

text \<open>
  Scheduler and noise set-up failures are final: the steady-state classifier retries exactly the
  failures of the startup, noise-transition and measurement phases, and recovers exactly those.
\<close>

lemma steady_phase_none: "steady_phase s e started = ''none'' \<longleftrightarrow> s"
  by (simp add: steady_phase_def)

lemma steady_classify_fields:
  assumes "steady_classify_attempt summary = Inr d"
  shows "dc_recover d = dc_retry d"
    "dc_retry d \<longleftrightarrow> \<not> dc_success d \<and> dc_failure_phase d \<in> set RETRYABLE_PHASES"
    "dc_success d \<longleftrightarrow> dc_failure_phase d = ''none''"
    "dc_success d \<longleftrightarrow> truthy (dict_get summary ''success'' (PBool False))"
  using assms
  by (auto simp: steady_classify_attempt_def Let_def res_bind_Inr_iff steady_phase_none)

section \<open>Properties\<close>

subsection \<open>Attempts to apply them to\<close>

text \<open>Two failing startups, then a success.\<close>

definition demo_summary :: "nat \<Rightarrow> pydict" where
  "demo_summary i = [(''success'', PBool (i = 3)), (''error'', PStr (if i = 3 then [] else ''no frames'')),
     (''cameras'', PList [PDict [(''serial'', PStr ''77'')]])]"

definition demo_run :: "nat \<Rightarrow> path \<Rightarrow> (unit \<times> sim, string \<times> pydict) py" where
  "demo_run i d = py_return (''attempt '' @ str_nat i, demo_summary i)"

definition demo_recover :: "pydict list \<Rightarrow> path \<Rightarrow> (unit \<times> sim, pydict) py" where
  "demo_recover cs d = py_return [(''success'', PBool True), (''camera_count'', PInt (int (length cs)))]"

definition demo_loop :: "attempt_result res \<times> unit \<times> sim" where
  "demo_loop = run_attempt_loop
     (steady_adapter sim_host [] ''full-reset'' demo_recover demo_run) [''r''] 5 ''full-reset'' 1 ((), sim_empty)"

lemma demo_loop_returns: "case demo_loop of (Inl _, _) \<Rightarrow> False | (Inr r, _) \<Rightarrow> ar_selected_attempt r = 3"
  by code_simp

subsection \<open>Claims\<close>

text \<open>
  C8. \<open>run_attempt_loop\<close>, for any functions a benchmark passes in: when it returns, there is a
  sequence of decisions, one per attempt, numbered from 1 and at most \<open>max_attempts\<close> long, in
  which every attempt but the last failed and asked for a retry and the last succeeded, refused a
  retry or was the last allowed; the attempt records are those of these decisions in this order;
  the selected attempt and its directory are the last; there is one recovery for each failed
  attempt that asks for it when recovery is configured; and the summary is derived from them.
\<close>

theorem run_attempt_loop_spec:
  assumes "run_attempt_loop ad dir max_attempts method settle s = (Inr r, s')"
  shows "\<exists>ds summary. attempt_history max_attempts ds \<and>
    list_all2 (\<lambda>(i, d) rec. record_of ad dir i d rec) (zip [1..<Suc (length ds)] ds) (ar_attempts r) \<and>
    ar_selected_attempt r = length ds \<and> ar_selected_dir r = attempt_dir_of dir (length ds) \<and>
    length (ar_recoveries r) = recoveries_due ad method ds \<and>
    ar_recovery r = aggregate_recoveries method (ar_recoveries r) \<and>
    ar_summary r = loop_summary summary (last ds) (length ds) (ar_attempts r) (ar_recovery r)"
  using assms by (rule run_attempt_loop_history)

theorem run_attempt_loop_spec_witness:
  "\<exists>r ds. fst demo_loop = Inr r \<and> attempt_history 5 ds \<and> length ds = 3"
proof -
  obtain r s' where run: "demo_loop = (Inr r, s')" and sel: "ar_selected_attempt r = 3"
    using demo_loop_returns by (auto split: prod.splits sum.splits)
  have "fst demo_loop = Inr r" by (subst run, rule fst_conv)
  with run_attempt_loop_spec [OF run [unfolded demo_loop_def]] sel show ?thesis by metis
qed

text \<open>
  The steady-state benchmark's counters are those of its decisions: after
  \<open>run_attempt_loop\<close> with the steady-state adapter, the summary's attempt count, failed count,
  initial and eventual success and selected attempt agree with the sequence of decisions.
\<close>

lemma steady_loop_report:
  assumes "run_attempt_loop (steady_adapter h kase recover_on_failure recover run)
      dir max_attempts recover_on_failure settle s = (Inr r, s')"
  shows "\<exists>ds. loop_report (steady_adapter h kase recover_on_failure recover run)
      dir max_attempts recover_on_failure ds r"
  by (rule steady_adapter.reports [OF _ _ assms]) (simp_all add: steady_adapter_def)

text \<open>
  The startup campaign's and the timerlat benchmark's classifiers give the same guarantee: with
  either of them and no extra record fields, the counters of the summary agree with the decisions.
\<close>

lemma startup_and_timerlat_loop_report:
  assumes "ad_classify ad = startup_classify_attempt \<or> ad_classify ad = timerlat_classify" "ad_build ad = None"
    and "run_attempt_loop ad dir max_attempts method settle s = (Inr r, s')"
  shows "\<exists>ds. loop_report ad dir max_attempts method ds r"
  using assms(1) startup_adapter.reports [OF _ assms(2,3)] timerlat_adapter.reports [OF _ assms(2,3)] by blast

text \<open>
  \<open>_classify_attempt\<close> of the steady-state benchmark: an attempt is a success exactly when its phase is
  \<open>none\<close>; it is retried exactly when it failed in the startup, noise-transition or measurement
  phase, so scheduler and noise set-up failures are final; and the cameras are recovered exactly
  when the attempt is retried.
\<close>

lemma steady_classify_retry:
  assumes "steady_classify_attempt summary = Inr d"
  shows "(dc_success d \<longleftrightarrow> dc_failure_phase d = ''none'') \<and>
    (dc_success d \<longleftrightarrow> truthy (dict_get summary ''success'' (PBool False))) \<and>
    (dc_retry d \<longleftrightarrow> \<not> dc_success d \<and> dc_failure_phase d \<in> set RETRYABLE_PHASES) \<and>
    dc_recover d = dc_retry d"
  using steady_classify_fields [OF assms] by blast

end
