(* ===== verification/Recovery.thy ===== *)
theory Recovery
  imports Attempt_Adapters
begin

text \<open>
  \<open>MultiCameraFullReset\<close> of \<open>tools/realsense_bench_common/recovery.py\<close>: the firmware and USB reset of
  every selected camera. Result dictionaries are \<open>pydict\<close> values; \<open>json.loads\<close> is the parameter
  \<open>rc_json_loads\<close> of the configuration. The enumeration loop is bounded by fuel, and the lemmas
  show how much is enough.
\<close>

section \<open>Definitions\<close>

record ('o, 'w) recovery_config =
  rc_reset_probe :: path
  rc_use_sudo :: bool
  rc_reset_timeout_ms :: int
  rc_enumeration_timeout_seconds :: rat
  rc_prepare_enumeration_probe :: "('o \<times> 'w, unit) py option"
  rc_json_loads :: "string \<Rightarrow> pyval res"

definition rec_validate_environment ::
    "'w host \<Rightarrow> ('o, 'w) recovery_config \<Rightarrow> ('o \<times> 'w, unit) py" where
  "rec_validate_environment h cfg =
     py_bind (ask (h_which h ''usbreset'')) (\<lambda>usbreset.
     if \<not> usbreset then py_raise (Exn RuntimeError ''usbreset is required for full-reset recovery'')
     else
     py_bind (ask (h_which h ''sudo'')) (\<lambda>sudo.
     if rc_use_sudo cfg \<and> \<not> sudo
     then py_raise (Exn RuntimeError ''sudo is required for full-reset recovery'')
     else py_skip))"

definition rec_privileged :: "('o, 'w) recovery_config \<Rightarrow> bool \<Rightarrow> string list \<Rightarrow> string list" where
  "rec_privileged cfg preserve_library_path command =
     (if \<not> rc_use_sudo cfg then command
      else [''sudo'', ''--non-interactive''] @
        (if preserve_library_path then [''--preserve-env=LD_LIBRARY_PATH''] else []) @ command)"

definition usb_device_from_physical_port :: "'w host \<Rightarrow> string \<Rightarrow> 'w \<Rightarrow> path option" where
  "usb_device_from_physical_port h physical_port w =
     (if \<not> startswith physical_port ''/sys/'' then None
      else find (\<lambda>c. h_is_file h (c @ [''busnum'']) w \<and> h_is_file h (c @ [''devnum'']) w)
             (self_and_parents (h_resolve h (path_parts physical_port) w)))"

definition RESET_PREFIX :: string where
  "RESET_PREFIX = ''RS_HARDWARE_RESET ''"

fun port_from_lines :: "(string \<Rightarrow> pyval res) \<Rightarrow> string list \<Rightarrow> string res" where
  "port_from_lines loads [] = Inr []"
| "port_from_lines loads (line # ls) =
     (if \<not> startswith line RESET_PREFIX then port_from_lines loads ls
      else (case loads (drop (length RESET_PREFIX) line) of
              Inl e \<Rightarrow> if exn_kind e = JSONDecodeError then port_from_lines loads ls else Inl e
            | Inr payload \<Rightarrow>
                res_bind (py_get payload ''state'' PNone) (\<lambda>state.
                if state = PStr ''requested''
                then res_bind (py_get payload ''physical_port'' (PStr [])) (\<lambda>p. Inr (py_str p))
                else port_from_lines loads ls)))"

definition physical_port_from_reset_output :: "(string \<Rightarrow> pyval res) \<Rightarrow> string \<Rightarrow> string res" where
  "physical_port_from_reset_output loads output = port_from_lines loads (splitlines output)"

definition probe_can_find_serial ::
    "'w host \<Rightarrow> ('o, 'w) recovery_config \<Rightarrow> string \<Rightarrow> rat \<Rightarrow> ('o \<times> 'w, bool \<times> string) py" where
  "probe_can_find_serial h cfg serial timeout_seconds =
     py_except [TimeoutExpired]
       (py_bind (do_run h \<lparr>rq_command = rec_privileged cfg True
            [path_str (rc_reset_probe cfg), ''--device-present'', ''--serial'', serial],
          rq_input = None, rq_timeout = Some timeout_seconds\<rparr>) (\<lambda>completed.
        py_return (returncode completed = 0, strip (stdout completed @ stderr completed))))
       (\<lambda>_. py_return (False, ''device enumeration probe timed out''))"

definition firmware_command :: "('o, 'w) recovery_config \<Rightarrow> string \<Rightarrow> string list" where
  "firmware_command cfg serial = rec_privileged cfg True
     [path_str (rc_reset_probe cfg), ''--hardware-reset'', ''--reset-timeout-ms'',
      str_int (rc_reset_timeout_ms cfg), ''--serial'', serial]"

definition COMPLETE_MARK :: string where
  "COMPLETE_MARK = ''\"state\":\"complete\"''"

definition firmware_incomplete :: string where
  "firmware_incomplete = ''RealSense firmware hardware reset did not complete''"

definition firmware_outcome :: "pydict \<Rightarrow> completed \<Rightarrow> string \<Rightarrow> pydict" where
  "firmware_outcome result completed port =
     (let output = stdout completed @ stderr completed;
          success = (returncode completed = 0 \<and> py_contains COMPLETE_MARK output);
          updated = dict_update result
            [(''returncode'', PInt (returncode completed)), (''output'', PStr (strip output)),
             (''success'', PBool success), (''reported_physical_port'', PStr port)]
      in if success then updated else dict_set ''error'' (PStr firmware_incomplete) updated)"

definition firmware_reset ::
    "'w host \<Rightarrow> ('o, 'w) recovery_config \<Rightarrow> string \<Rightarrow> ('o \<times> 'w, pydict) py" where
  "firmware_reset h cfg serial =
     (let command = firmware_command cfg serial;
          result = [(''command'', PList (map PStr command)), (''success'', PBool False)]
      in
      py_except [OSError, TimeoutExpired]
        (py_bind (do_run h \<lparr>rq_command = command, rq_input = None,
             rq_timeout = Some (of_int (rc_reset_timeout_ms cfg) / 1000 + 5)\<rparr>) (\<lambda>completed.
         py_bind (py_res (physical_port_from_reset_output (rc_json_loads cfg)
             (stdout completed @ stderr completed))) (\<lambda>port.
         py_return (firmware_outcome result completed port))))
        (\<lambda>e. py_return (dict_set ''error'' (PStr (exn_text e)) result)))"

text \<open>\<open>f'{i:03d}'\<close>\<close>

definition pad3 :: "int \<Rightarrow> string" where
  "pad3 i =
     (if i < 0 then CHR ''-'' # replicate (2 - length (str_nat (nat (- i)))) CHR ''0'' @ str_nat (nat (- i))
      else replicate (3 - length (str_nat (nat i))) CHR ''0'' @ str_nat (nat i))"

definition read_int :: "'w host \<Rightarrow> path \<Rightarrow> ('o \<times> 'w, int) py" where
  "read_int h p = py_bind (do_read h p) (\<lambda>t. py_res (py_int (strip t)))"

fun enumeration_loop ::
    "'w host \<Rightarrow> ('o, 'w) recovery_config \<Rightarrow> string \<Rightarrow> rat \<Rightarrow> nat \<Rightarrow> string \<Rightarrow> ('o \<times> 'w, bool \<times> string) py" where
  "enumeration_loop h cfg serial deadline 0 last_output = py_raise (Exn Diverged [])"
| "enumeration_loop h cfg serial deadline (Suc fuel) last_output =
     py_bind (do_monotonic h) (\<lambda>now.
     let remaining = deadline - now in
     if remaining \<le> 0 then py_return (False, last_output)
     else
     py_bind (probe_can_find_serial h cfg serial (max (1 / 20) (min 5 remaining))) (\<lambda>(visible, out).
     if visible then py_return (True, out)
     else
     py_bind (do_monotonic h) (\<lambda>now2.
     py_seq (do_sleep h (min (1 / 4) (max 0 (deadline - now2))))
       (enumeration_loop h cfg serial deadline fuel out))))"

definition not_resolved :: string where
  "not_resolved = ''could not resolve the camera to a composite USB device''"

definition not_reappeared :: string where
  "not_reappeared = ''camera did not reappear before recovery timeout''"

definition usb_reset_started :: "pydict \<Rightarrow> path \<Rightarrow> string \<Rightarrow> string list \<Rightarrow> pydict" where
  "usb_reset_started result usb_device target command = dict_update result
     [(''usb_device'', PStr (path_str usb_device)), (''target'', PStr target),
      (''command'', PList (map PStr command))]"

definition usb_enumerated :: "pydict \<Rightarrow> bool \<times> string \<Rightarrow> pydict" where
  "usb_enumerated result seen =
     (case seen of (visible, last_output) \<Rightarrow>
       let r = dict_set ''enumeration_output'' (PStr last_output)
                 (if visible then dict_set ''success'' (PBool True) result else result)
       in if visible then r else dict_set ''error'' (PStr not_reappeared) r)"

text \<open>
  The \<open>try\<close> block updates the dictionary \<open>result\<close> in place, so its \<open>except\<close> clause reports the
  error in the dictionary as updated so far. The block is therefore split where it updates
  \<open>result\<close>: \<open>guarded\<close> runs one part of it, and either stops with the error or goes on.
\<close>

definition RESET_ERRORS :: "exn_class list" where
  "RESET_ERRORS = [OSError, ValueError, JSONDecodeError, TimeoutExpired]"

definition py_try :: "exn_class list \<Rightarrow> ('s, 'a) py \<Rightarrow> ('s, exn + 'a) py" where
  "py_try ks m = py_except ks (py_bind m (\<lambda>a. py_return (Inr a))) (\<lambda>e. py_return (Inl e))"

definition guarded :: "pydict \<Rightarrow> ('s, 'a) py \<Rightarrow> ('a \<Rightarrow> ('s, pydict) py) \<Rightarrow> ('s, pydict) py" where
  "guarded result m k =
     py_bind (py_try RESET_ERRORS m) (\<lambda>r. case r of
       Inl e \<Rightarrow> py_return (dict_set ''error'' (PStr (exn_text e)) result)
     | Inr a \<Rightarrow> k a)"

definition usb_target :: "'w host \<Rightarrow> path \<Rightarrow> ('o \<times> 'w, string) py" where
  "usb_target h usb_device =
     py_bind (read_int h (usb_device @ [''busnum''])) (\<lambda>bus.
     py_bind (read_int h (usb_device @ [''devnum''])) (\<lambda>device_number.
     py_return (pad3 bus @ ''/'' @ pad3 device_number)))"

definition await_enumeration ::
    "'w host \<Rightarrow> ('o, 'w) recovery_config \<Rightarrow> nat \<Rightarrow> string \<Rightarrow> ('o \<times> 'w, bool \<times> string) py" where
  "await_enumeration h cfg fuel serial =
     py_seq (case rc_prepare_enumeration_probe cfg of None \<Rightarrow> py_skip | Some prepare \<Rightarrow> prepare)
    (py_bind (do_monotonic h) (\<lambda>now.
       enumeration_loop h cfg serial (now + rc_enumeration_timeout_seconds cfg) fuel []))"

definition usb_reset_body ::
    "'w host \<Rightarrow> ('o, 'w) recovery_config \<Rightarrow> nat \<Rightarrow> string \<Rightarrow> path \<Rightarrow> pydict \<Rightarrow> ('o \<times> 'w, pydict) py" where
  "usb_reset_body h cfg fuel serial usb_device result =
     guarded result (usb_target h usb_device) (\<lambda>target.
     let command = rec_privileged cfg False [''usbreset'', target];
         started = usb_reset_started result usb_device target command
     in
     guarded started (do_run h \<lparr>rq_command = command, rq_input = None, rq_timeout = Some 15\<rparr>) (\<lambda>completed.
     let ran = dict_update started [(''returncode'', PInt (returncode completed)),
                 (''output'', PStr (strip (stdout completed @ stderr completed)))]
     in
     if returncode completed \<noteq> 0
     then py_return (dict_set ''error'' (PStr ''usbreset failed'') ran)
     else
     guarded ran (await_enumeration h cfg fuel serial) (\<lambda>seen. py_return (usb_enumerated ran seen))))"

definition usb_reset ::
    "'w host \<Rightarrow> ('o, 'w) recovery_config \<Rightarrow> nat \<Rightarrow> string \<Rightarrow> string \<Rightarrow> ('o \<times> 'w, pydict) py" where
  "usb_reset h cfg fuel serial physical_port =
     (let result = [(''physical_port'', PStr physical_port), (''success'', PBool False)] in
      py_bind (ask (usb_device_from_physical_port h physical_port)) (\<lambda>usb_device.
      case usb_device of
        None \<Rightarrow> py_return (dict_set ''error'' (PStr not_resolved) result)
      | Some d \<Rightarrow> usb_reset_body h cfg fuel serial d result))"

definition camera_outcome :: "pydict \<Rightarrow> pydict \<Rightarrow> pydict \<Rightarrow> pydict" where
  "camera_outcome result firmware usb =
     (let success = (truthy (dict_get firmware ''success'' (PBool False)) \<and>
            truthy (dict_get usb ''success'' (PBool False)));
          errors = map (\<lambda>i. py_str (dict_get i ''error'' (PStr [])))
            (filter (\<lambda>i. truthy (dict_get i ''error'' PNone)) [firmware, usb]);
          updated = dict_update result [(''usb_reset'', PDict usb), (''success'', PBool success)]
      in if errors \<noteq> [] then dict_set ''error'' (PStr (py_join '' | '' errors)) updated else updated)"

definition recover_camera ::
    "'w host \<Rightarrow> ('o, 'w) recovery_config \<Rightarrow> nat \<Rightarrow> pydict \<Rightarrow> ('o \<times> 'w, pydict) py" where
  "recover_camera h cfg fuel camera =
     (let serial = py_str (dict_get camera ''serial'' (PStr []));
          physical_port = py_str (dict_get camera ''physical_port'' (PStr []));
          result = [(''serial'', PStr serial), (''physical_port'', PStr physical_port),
                    (''success'', PBool False)]
      in
      if serial = [] then py_return (dict_set ''error'' (PStr ''camera serial is missing'') result)
      else
      py_bind (firmware_reset h cfg serial) (\<lambda>firmware.
      let result1 = dict_set ''hardware_reset'' (PDict firmware) result;
          port = (if physical_port = [] then py_str (dict_get firmware ''reported_physical_port'' (PStr []))
                  else physical_port);
          result2 = (if physical_port = [] then dict_set ''physical_port'' (PStr port) result1 else result1)
      in
      py_bind (usb_reset h cfg fuel serial port) (\<lambda>usb.
      py_return (camera_outcome result2 firmware usb))))"

fun dedup_cameras :: "pydict list \<Rightarrow> string list \<Rightarrow> pydict list" where
  "dedup_cameras [] seen = []"
| "dedup_cameras (camera # cs) seen =
     (let serial = py_str (dict_get camera ''serial'' (PStr [])) in
      if serial \<noteq> [] \<and> serial \<in> set seen then dedup_cameras cs seen
      else camera # dedup_cameras cs (if serial \<noteq> [] then serial # seen else seen))"

definition no_descriptors :: string where
  "no_descriptors = ''failed run did not report any camera descriptors''"

definition recovery_base :: "nat \<Rightarrow> pydict" where
  "recovery_base n = [(''attempted'', PBool True), (''method'', PStr ''full-reset''),
     (''success'', PBool False), (''camera_count'', PInt (int n)), (''cameras'', PList [])]"

definition recovery_outcome :: "pydict list \<Rightarrow> pydict" where
  "recovery_outcome cameras =
     (let updated = dict_update (recovery_base (length cameras))
            [(''cameras'', PList (map PDict cameras)),
             (''success'', PBool (list_all (\<lambda>c. truthy (dict_get c ''success'' (PBool False))) cameras))];
          errors = map (\<lambda>c. py_str (dict_get c ''serial'' (PStr ''unknown'')) @ '': '' @
                            py_str (dict_get c ''error'' (PStr [])))
            (filter (\<lambda>c. truthy (dict_get c ''error'' PNone)) cameras)
      in if errors \<noteq> [] then dict_set ''error'' (PStr (py_join '' | '' errors)) updated else updated)"

definition recover ::
    "'w host \<Rightarrow> ('o, 'w) recovery_config \<Rightarrow> nat \<Rightarrow> pydict list \<Rightarrow> path \<Rightarrow> ('o \<times> 'w, pydict) py" where
  "recover h cfg fuel cameras record_dir =
     (let descriptors = dedup_cameras cameras [] in
      py_bind (if descriptors = []
               then py_return (dict_set ''error'' (PStr no_descriptors) (recovery_base 0))
               else py_bind (py_map descriptors (recover_camera h cfg fuel)) (\<lambda>cs.
                      py_return (recovery_outcome cs))) (\<lambda>result.
      py_seq (do_mkdir h record_dir)
     (py_seq (do_write_json h (record_dir @ [''recovery.json'']) (PDict result))
        (py_return result))))"

definition reset_before_run ::
    "'w host \<Rightarrow> ('o, 'w) recovery_config \<Rightarrow> nat \<Rightarrow> pydict list \<Rightarrow> path \<Rightarrow> ('o \<times> 'w, pydict) py" where
  "reset_before_run h cfg fuel cameras record_dir =
     py_bind (do_monotonic h) (\<lambda>started.
     py_bind (recover h cfg fuel cameras (record_dir @ [''pre_run_reset''])) (\<lambda>recovered.
     py_bind (do_monotonic h) (\<lambda>ended.
     let result = dict_update recovered [(''operation'', PStr ''pre-run-reset''),
            (''duration_ms'', PFloat ((ended - started) * 1000))]
     in
     py_seq (do_write_json h (record_dir @ [''pre_run_reset.json'']) (PDict result))
     (if \<not> truthy (dict_get result ''success'' (PBool False))
      then py_raise (Exn RuntimeError (''pre-run RealSense full reset failed: '' @
             py_str (dict_get result ''error'' (PStr ''unknown error''))))
      else py_return result))))"

section \<open>Lemmas\<close>

subsection \<open>Success and error\<close>

definition rec_ok :: "pydict \<Rightarrow> bool" where
  "rec_ok r = truthy (dict_get r ''success'' (PBool False))"

definition rec_error :: "pydict \<Rightarrow> bool" where
  "rec_error r = truthy (dict_get r ''error'' PNone)"

text \<open>A result that reports an error exactly when it is not a success.\<close>

definition rec_consistent :: "pydict \<Rightarrow> bool" where
  "rec_consistent r \<longleftrightarrow> (rec_ok r \<longleftrightarrow> \<not> rec_error r)"

lemma str_int_nonempty [simp]: "str_int i \<noteq> []"
  by (simp add: str_int_def)

lemma py_str_truthy: "truthy v \<Longrightarrow> py_str v \<noteq> []"
  by (cases v) (auto simp: py_str_def str_rat_def split: prod.splits)

lemma exn_text_nonempty [simp]: "exn_text e \<noteq> []"
  by (simp add: exn_text_def)

lemmas reset_messages = firmware_incomplete_def not_resolved_def not_reappeared_def no_descriptors_def

lemma dict_get_Nil [simp]: "dict_get [] k x = x"
  by (simp add: dict_get_def)

lemma dict_get_Cons [simp]: "dict_get ((k', v) # d) k x = (if k = k' then v else dict_get d k x)"
  by (simp add: dict_get_def)

lemma firmware_outcome_consistent:
  "rec_consistent (firmware_outcome [(''command'', c), (''success'', PBool False)] completed port)"
  by (simp add: rec_consistent_def rec_ok_def rec_error_def firmware_outcome_def Let_def reset_messages)

lemma firmware_reset_consistent:
  "wp (firmware_reset h cfg serial) (\<lambda>r _. rec_consistent r) (\<lambda>_ _. True) (ob, w)"
proof -
  have err: "rec_consistent [(''command'', c), (''success'', PBool False), (''error'', PStr (exn_text e))]" for e c
    by (simp add: rec_consistent_def rec_ok_def rec_error_def)
  show ?thesis
    unfolding firmware_reset_def Let_def
    by (auto simp: wp_except wp_bind wp_do_run wp_res wp_return firmware_outcome_consistent err
        split: prod.splits sum.splits)
qed

lemma guarded_wp:
  assumes "\<And>e. Q (dict_set ''error'' (PStr (exn_text e)) r)"
    and "\<And>a s. wp (k a) (\<lambda>r _. Q r) (\<lambda>_ _. True) s"
  shows "wp (guarded r m k) (\<lambda>r _. Q r) (\<lambda>_ _. True) s"
proof -
  have "wp (py_try RESET_ERRORS m) (\<lambda>r' s. wp (case r' of
       Inl e \<Rightarrow> py_return (dict_set ''error'' (PStr (exn_text e)) r) | Inr a \<Rightarrow> k a) (\<lambda>r _. Q r) (\<lambda>_ _. True) s) (\<lambda>_ _. True) s"
    by (rule wp_any) (auto simp: wp_return assms split: sum.splits)
  then show ?thesis by (simp add: guarded_def wp_bind)
qed

lemma usb_enumerated_consistent:
  assumes "\<not> rec_ok r" "\<not> rec_error r"
  shows "rec_consistent (usb_enumerated r seen)"
proof -
  obtain visible out where seen: "seen = (visible, out)" by (cases seen)
  show ?thesis
    using assms by (cases visible)
      (simp_all add: seen usb_enumerated_def Let_def rec_consistent_def rec_ok_def rec_error_def not_reappeared_def)
qed

lemma usb_reset_consistent:
  "wp (usb_reset h cfg fuel serial port) (\<lambda>r _. rec_consistent r) (\<lambda>_ _. True) (ob, w)"
proof -
  have body: "wp (usb_reset_body h cfg fuel serial d [(''physical_port'', p), (''success'', PBool False)])
      (\<lambda>r _. rec_consistent r) (\<lambda>_ _. True) s" for d p s
    unfolding usb_reset_body_def Let_def
    apply (rule guarded_wp)
     apply (simp add: rec_consistent_def rec_ok_def rec_error_def)
    apply (rule guarded_wp)
     apply (simp add: rec_consistent_def rec_ok_def rec_error_def usb_reset_started_def)
    apply (simp only: if_distrib [of "\<lambda>m. wp m _ _ _"] wp_return)
    apply (rule if_split [THEN iffD2], intro conjI impI)
     apply (simp add: rec_consistent_def rec_ok_def rec_error_def usb_reset_started_def)
    apply (rule guarded_wp)
     apply (simp add: rec_consistent_def rec_ok_def rec_error_def usb_reset_started_def)
    apply (simp only: wp_return)
    apply (rule usb_enumerated_consistent)
     apply (simp_all add: rec_ok_def rec_error_def usb_reset_started_def)
    done
  show ?thesis
    unfolding usb_reset_def Let_def
    using body by (auto simp: wp_bind wp_ask wp_return rec_consistent_def rec_ok_def rec_error_def not_resolved_def
        split: option.splits)
qed

lemma py_join_truthy: "errors \<noteq> [] \<Longrightarrow> [] \<notin> set errors \<Longrightarrow> py_join sep errors \<noteq> []"
  by (cases errors; cases "tl errors") auto

lemma camera_outcome_consistent:
  assumes "rec_consistent firmware" "rec_consistent usb" "dict_get result ''error'' PNone = PNone"
  shows "rec_consistent (camera_outcome result firmware usb)"
    "rec_ok (camera_outcome result firmware usb) \<longleftrightarrow> rec_ok firmware \<and> rec_ok usb"
proof -
  let ?errors = "map (\<lambda>i. py_str (dict_get i ''error'' (PStr [])))
            (filter (\<lambda>i. truthy (dict_get i ''error'' PNone)) [firmware, usb])"
  have get: "dict_get i ''error'' (PStr []) = dict_get i ''error'' PNone" if "truthy (dict_get i ''error'' PNone)" for i
    using that by (auto simp: dict_get_def split: option.splits)
  have ne: "[] \<notin> set ?errors" using get py_str_truthy by (auto split: if_splits) metis+
  have empty: "?errors = [] \<longleftrightarrow> \<not> rec_error firmware \<and> \<not> rec_error usb" by (simp add: rec_error_def)
  show "rec_ok (camera_outcome result firmware usb) \<longleftrightarrow> rec_ok firmware \<and> rec_ok usb"
    by (simp add: camera_outcome_def Let_def rec_ok_def)
  then show "rec_consistent (camera_outcome result firmware usb)"
    using assms empty py_join_truthy [OF _ ne, of "'' | ''"]
    unfolding rec_consistent_def rec_error_def [of "camera_outcome _ _ _"]
    by (simp add: camera_outcome_def Let_def)
qed


text \<open>The serial of a camera descriptor, and of the result for it.\<close>

definition serial_of :: "pydict \<Rightarrow> string" where
  "serial_of c = py_str (dict_get c ''serial'' (PStr []))"

lemma recover_camera_wp:
  "wp (recover_camera h cfg fuel camera)
     (\<lambda>r _. rec_consistent r \<and> serial_of r = serial_of camera) (\<lambda>_ _. True) (ob, w)"
proof -
  let ?r = "\<lambda>port. [(''serial'', PStr (serial_of camera)), (''physical_port'', PStr port), (''success'', PBool False)]"
  have out: "rec_consistent (camera_outcome r f u) \<and> serial_of (camera_outcome r f u) = serial_of camera"
    if "rec_consistent f" "rec_consistent u" "dict_get r ''error'' PNone = PNone" "serial_of r = serial_of camera" for r f u
    using camera_outcome_consistent [OF that(1-3)] that(4)
    by (auto simp: serial_of_def camera_outcome_def Let_def)
  show ?thesis
  proof (cases "serial_of camera = []")
    case True
    then show ?thesis
      unfolding recover_camera_def Let_def serial_of_def [symmetric]
      by (simp add: wp_return rec_consistent_def rec_ok_def rec_error_def)
        (simp add: serial_of_def py_str_def)
  next
    case False
    then show ?thesis
      unfolding recover_camera_def Let_def serial_of_def [symmetric]
      apply (simp only: if_False wp_bind)
      apply (rule wp_step [OF firmware_reset_consistent], simp only: split_paired_all)
      apply (rule wp_step [OF usb_reset_consistent])
      apply (simp only: wp_return, rule out, assumption, assumption)
       apply (simp_all add: serial_of_def py_str_def)
      done
  qed
qed

lemma py_map_wp:
  assumes "\<And>x s. wp (f x) (\<lambda>r _. P x r) (\<lambda>_ _. True) s"
  shows "wp (py_map xs f) (\<lambda>rs _. list_all2 P xs rs) (\<lambda>_ _. True) s"
proof (induction xs arbitrary: s)
  case (Cons x xs)
  show ?case
    unfolding py_map.simps wp_bind
    by (rule wp_step [OF assms], rule wp_step [OF Cons.IH]) (simp add: wp_return)
qed (simp add: wp_return)

lemma recovery_outcome_consistent:
  assumes "\<forall>c \<in> set cs. rec_consistent c"
  shows "rec_consistent (recovery_outcome cs)" "rec_ok (recovery_outcome cs) \<longleftrightarrow> list_all rec_ok cs"
    "dict_get (recovery_outcome cs) ''cameras'' PNone = PList (map PDict cs)"
proof -
  let ?errors = "map (\<lambda>c. py_str (dict_get c ''serial'' (PStr ''unknown'')) @ '': '' @
                            py_str (dict_get c ''error'' (PStr [])))
            (filter (\<lambda>c. truthy (dict_get c ''error'' PNone)) cs)"
  have ne: "[] \<notin> set ?errors" by auto
  have empty: "?errors = [] \<longleftrightarrow> list_all rec_ok cs"
    using assms by (auto simp: filter_empty_conv rec_consistent_def rec_error_def list_all_iff)
  show "dict_get (recovery_outcome cs) ''cameras'' PNone = PList (map PDict cs)"
    by (simp add: recovery_outcome_def Let_def recovery_base_def)
  show ok: "rec_ok (recovery_outcome cs) \<longleftrightarrow> list_all rec_ok cs"
    by (simp add: recovery_outcome_def Let_def rec_ok_def [abs_def] recovery_base_def)
  have "rec_error (recovery_outcome cs) \<longleftrightarrow> ?errors \<noteq> []"
    using py_join_truthy [OF _ ne, of "'' | ''"]
    by (simp add: recovery_outcome_def Let_def rec_error_def recovery_base_def)
  then show "rec_consistent (recovery_outcome cs)" using ok empty by (auto simp: rec_consistent_def)
qed

lemma recover_wp:
  "wp (recover h cfg fuel cameras dir)
     (\<lambda>r _. rec_consistent r \<and> (\<exists>cs. dict_get r ''cameras'' PNone = PList (map PDict cs) \<and>
        map serial_of cs = map serial_of (dedup_cameras cameras []) \<and>
        (rec_ok r \<longleftrightarrow> cs \<noteq> [] \<and> list_all rec_ok cs)))
     (\<lambda>_ _. True) (ob, w)"
proof -
  let ?P = "\<lambda>r. rec_consistent r \<and> (\<exists>cs. dict_get r ''cameras'' PNone = PList (map PDict cs) \<and>
        map serial_of cs = map serial_of (dedup_cameras cameras []) \<and>
        (rec_ok r \<longleftrightarrow> cs \<noteq> [] \<and> list_all rec_ok cs))"
  have none: "?P (dict_set ''error'' (PStr no_descriptors) (recovery_base 0))"
    if "dedup_cameras cameras [] = []"
    using that by (simp add: recovery_base_def rec_consistent_def rec_ok_def rec_error_def no_descriptors_def)
  have some: "?P (recovery_outcome cs)"
    if ne: "dedup_cameras cameras [] \<noteq> []" and cs: "list_all2 (\<lambda>c r. rec_consistent r \<and> serial_of r = serial_of c) (dedup_cameras cameras []) cs" for cs
  proof -
    have all: "\<forall>c \<in> set cs. rec_consistent c"
      and ser: "map serial_of cs = map serial_of (dedup_cameras cameras [])"
      using cs by (auto simp: list_all2_conv_all_nth in_set_conv_nth intro: nth_equalityI)
    then have "cs \<noteq> []" using ne by auto
    with all ser show ?thesis using recovery_outcome_consistent [OF all] by auto
  qed
  have written: "wp (py_seq (do_mkdir h dir) (py_seq (do_write_json h p (PDict r)) (py_return r)))
      (\<lambda>r _. ?P r) (\<lambda>_ _. True) s" if "?P r" for p r s
    using that by (cases s) (auto simp: wp_simps split: prod.splits sum.splits)
  have cams: "wp (py_map ds (recover_camera h cfg fuel))
      (\<lambda>rs _. list_all2 (\<lambda>c r. rec_consistent r \<and> serial_of r = serial_of c) ds rs) (\<lambda>_ _. True) (ob, w)" for ds
    by (rule py_map_wp) (simp only: split_paired_all recover_camera_wp)
  show ?thesis
  proof (cases "dedup_cameras cameras [] = []")
    case True
    show ?thesis
      unfolding recover_def Let_def wp_bind if_P [OF True] wp_return by (rule written [OF none [OF True]])
  next
    case False
    show ?thesis
      unfolding recover_def Let_def wp_bind if_not_P [OF False] wp_return
      by (rule wp_step [OF cams], rule written, rule some [OF False])
  qed
qed

subsection \<open>Which cameras are reset\<close>

lemma dedup_cameras_spec:
  "subseq (dedup_cameras cs seen) cs \<and>
   distinct (filter (\<lambda>s. s \<noteq> []) (map serial_of (dedup_cameras cs seen))) \<and>
   set (map serial_of (dedup_cameras cs seen)) \<inter> set (filter (\<lambda>s. s \<noteq> []) seen) = {} \<and>
   set (filter (\<lambda>s. s \<noteq> []) (map serial_of cs)) \<subseteq> set (map serial_of (dedup_cameras cs seen)) \<union> set seen \<and>
   filter (\<lambda>c. serial_of c = []) (dedup_cameras cs seen) = filter (\<lambda>c. serial_of c = []) cs"
proof (induction cs seen rule: dedup_cameras.induct)
  case (2 camera cs seen)
  show ?case
  proof (cases "serial_of camera \<noteq> [] \<and> serial_of camera \<in> set seen")
    case True
    then have "dedup_cameras (camera # cs) seen = dedup_cameras cs seen"
      by (simp add: Let_def serial_of_def)
    with True 2(1) [OF refl] show ?thesis by (auto simp: serial_of_def)
  next
    case False
    let ?seen = "if serial_of camera \<noteq> [] then serial_of camera # seen else seen"
    have eq: "dedup_cameras (camera # cs) seen = camera # dedup_cameras cs ?seen"
      using False by (auto simp: Let_def serial_of_def)
    note IH = 2(2) [OF refl, folded serial_of_def, OF False]
    show ?thesis using False IH unfolding eq by (cases "serial_of camera = []") auto
  qed
qed simp

subsection \<open>Waiting for the camera to reappear\<close>

lemma probe_wp:
  assumes "advancing_clock h now"
  shows "wp (probe_can_find_serial h cfg serial t) (\<lambda>_ s. fst s = ob \<and> now w \<le> now (snd s))
     (\<lambda>e _. exn_kind e \<noteq> Diverged) (ob, w)"
proof -
  have host: "exn_kind (host_exn e) \<noteq> Diverged" for e by (cases e) auto
  show ?thesis
    unfolding probe_can_find_serial_def
    using advancing_clockD(3) [OF assms] host
    by (auto simp: wp_simps split: prod.splits sum.splits)
qed

lemma enumeration_loop_wp:
  assumes clock: "advancing_clock h now" and fuel: "quanta_left (1 / 4) (deadline - now w) < n"
  shows "wp (enumeration_loop h cfg serial deadline n out)
     (\<lambda>(visible, _) s. visible \<or> deadline \<le> now (snd s)) (\<lambda>e _. exn_kind e \<noteq> Diverged) (ob, w)"
  using fuel
proof (induction n arbitrary: w out)
  case (Suc n)
  obtain t w1 where t: "h_monotonic h w = (t, w1)" by (cases "h_monotonic h w")
  have tw: "t = now w" "now w \<le> now w1" using advancing_clockD(1) [OF clock t] by auto
  have again: "wp (py_bind (do_monotonic h) (\<lambda>now2.
      py_seq (do_sleep h (min (1 / 4) (max 0 (deadline - now2))))
       (enumeration_loop h cfg serial deadline n out')))
     (\<lambda>(visible, _) s. visible \<or> deadline \<le> now (snd s)) (\<lambda>e _. exn_kind e \<noteq> Diverged) (ob, w2)"
    if left: "\<not> deadline - t \<le> 0" and w2: "now w1 \<le> now w2" for w2 out'
  proof -
    obtain t2 w3 where t2: "h_monotonic h w2 = (t2, w3)" by (cases "h_monotonic h w2")
    let ?d = "min (1 / 4) (max 0 (deadline - t2))"
    have t2': "t2 = now w2" "now w2 \<le> now w3" "now w3 + ?d \<le> now (h_sleep h ?d w3)"
      using advancing_clockD [OF clock] t2 by blast+
    have "quanta_left (1 / 4) (deadline - now (h_sleep h ?d w3)) < quanta_left (1 / 4) (deadline - now w)"
      by (rule quanta_left_decreases) (use left tw w2 t2' in \<open>auto simp: min_def max_def split: if_splits\<close>)
    then have "quanta_left (1 / 4) (deadline - now (h_sleep h ?d w3)) < n" using Suc.prems by simp
    from Suc.IH [OF this] show ?thesis by (simp add: wp_simps t2)
  qed
  show ?case
  proof (cases "deadline - t \<le> 0")
    case True
    then show ?thesis using tw by (simp add: wp_simps t Let_def)
  next
    case False
    have "wp (probe_can_find_serial h cfg serial (max (1 / 20) (min 5 (deadline - t))))
      (\<lambda>(visible, out') s. wp (if visible then py_return (True, out') else
          py_bind (do_monotonic h) (\<lambda>now2. py_seq (do_sleep h (min (1 / 4) (max 0 (deadline - now2))))
            (enumeration_loop h cfg serial deadline n out')))
        (\<lambda>(visible, _) s. visible \<or> deadline \<le> now (snd s)) (\<lambda>e _. exn_kind e \<noteq> Diverged) s)
      (\<lambda>e _. exn_kind e \<noteq> Diverged) (ob, w1)"
      by (rule wp_step [OF probe_wp [OF clock]]) (use again [OF False] in \<open>auto simp: wp_return\<close>)
    then show ?thesis using False by (simp add: wp_bind wp_do_clock t Let_def case_prod_unfold if_distrib)
  qed
qed simp

section \<open>Properties\<close>

subsection \<open>A machine to apply them to\<close>

text \<open>
  One camera on bus 2. The probe reports a completed reset, and finds the camera; the decoder
  of its report lines is not needed, because the port of the camera is known.
\<close>

definition demo_rec_cfg :: "(unit, sim) recovery_config" where
  "demo_rec_cfg = \<lparr>rc_reset_probe = [''probe''], rc_use_sudo = False, rc_reset_timeout_ms = 1000,
     rc_enumeration_timeout_seconds = 1, rc_prepare_enumeration_probe = None,
     rc_json_loads = (\<lambda>t. Inl (Exn JSONDecodeError t))\<rparr>"

definition demo_rec_machine :: sim where
  "demo_rec_machine = sim_empty\<lparr>
     sim_files := [([''sys'', ''d'', ''busnum''], ''2''), ([''sys'', ''d'', ''devnum''], ''13'')],
     sim_output := [([''/probe'', ''--hardware-reset'', ''--reset-timeout-ms'', ''1000'', ''--serial'', ''77''],
        COMPLETE_MARK)]\<rparr>"

definition demo_cameras :: "pydict list" where
  "demo_cameras = [[(''serial'', PStr ''77''), (''physical_port'', PStr ''/sys/d/video0'')], [(''serial'', PStr ''77'')]]"

definition demo_recovered :: "pydict res \<times> unit \<times> sim" where
  "demo_recovered = recover sim_host demo_rec_cfg 9 demo_cameras [''r''] ((), demo_rec_machine)"

lemma demo_recovered_ok: "case fst demo_recovered of Inl _ \<Rightarrow> False | Inr r \<Rightarrow> rec_ok r"
  by code_simp

lemma demo_reset_ok:
  "case fst (reset_before_run sim_host demo_rec_cfg 9 demo_cameras [''r''] ((), demo_rec_machine)) of
     Inl _ \<Rightarrow> False | Inr r \<Rightarrow> True"
  by code_simp

subsection \<open>Claims\<close>

text \<open>
  \<open>MultiCameraFullReset.recover\<close>, when it returns: the result lists one entry per selected camera, in
  the order of the descriptors and with their serials; it is a success exactly when there is a
  camera and every one of them was reset; and it carries an error text exactly when it is not a
  success.
\<close>

lemma recover_result:
  assumes "recover h cfg fuel cameras dir (ob, w) = (Inr r, s')"
  shows "(rec_ok r \<longleftrightarrow> \<not> rec_error r) \<and>
    (\<exists>cs. dict_get r ''cameras'' PNone = PList (map PDict cs) \<and>
       map serial_of cs = map serial_of (dedup_cameras cameras []) \<and>
       (rec_ok r \<longleftrightarrow> cs \<noteq> [] \<and> list_all rec_ok cs))"
  using wp_returns [OF assms recover_wp] unfolding rec_consistent_def .




text \<open>
  \<open>reset_before_run\<close> returns only after a successful reset: there was a camera, and the firmware and
  USB reset of every selected camera succeeded.
\<close>

lemma reset_before_run_success:
  assumes "reset_before_run h cfg fuel cameras dir (ob, w) = (Inr r, s')"
  shows "rec_ok r \<and> (\<exists>cs. dict_get r ''cameras'' PNone = PList (map PDict cs) \<and>
    map serial_of cs = map serial_of (dedup_cameras cameras []) \<and> cs \<noteq> [] \<and> list_all rec_ok cs)"
proof -
  have "wp (reset_before_run h cfg fuel cameras dir)
     (\<lambda>r _. rec_ok r \<and> (\<exists>cs. dict_get r ''cameras'' PNone = PList (map PDict cs) \<and>
        map serial_of cs = map serial_of (dedup_cameras cameras []) \<and> cs \<noteq> [] \<and> list_all rec_ok cs))
     (\<lambda>_ _. True) (ob, w)"
    unfolding reset_before_run_def Let_def wp_bind
    by (auto simp: wp_do_clock intro!: wp_step [OF recover_wp] split: prod.splits)
      (auto simp: wp_simps rec_ok_def split: prod.splits sum.splits)
  from wp_returns [OF assms this] show ?thesis .
qed

end
