(* ===== verification/Startup_Trace.thy ===== *)
theory Startup_Trace
  imports Json Host_Sim "HOL-Library.Product_Lexorder" "HOL-Library.Multiset"
begin

text \<open>
  \<open>tools/realsense_startup_bench/parse_startup_trace.py\<close>: the merge of the pthread lifecycle trace
  with the scheduler events of LiME. A lifecycle event is the JSON object of its line; a scheduler
  event is kept as the fields the parser reads. The records of \<open>lifecycle_records\<close>, which the code
  shares between a list and three dictionaries and updates in place, are a store: the list of
  records, with positions in it as references. \<open>json.loads\<close> and \<open>json.dumps\<close> are parameters.
\<close>

section \<open>Definitions\<close>

type_synonym event = pydict

definition NS_PER_MS :: rat where
  "NS_PER_MS = 1000000"

text \<open>\<open>(a - b) / 1_000_000\<close>\<close>

definition ms_between :: "int \<Rightarrow> int \<Rightarrow> rat" where
  "ms_between later earlier = of_int (later - earlier) / NS_PER_MS"

text \<open>\<open>int(event[k])\<close>\<close>

definition ev_int :: "event \<Rightarrow> string \<Rightarrow> int res" where
  "ev_int e k = res_bind (py_item (PDict e) k) py_intv"

text \<open>\<open>isinstance(v, int)\<close>: a boolean is an \<open>int\<close>.\<close>

fun as_int :: "pyval \<Rightarrow> int option" where
  "as_int (PInt i) = Some i"
| "as_int (PBool b) = Some (if b then 1 else 0)"
| "as_int _ = None"

text \<open>\<open>v == 0\<close>\<close>

fun eq_zero :: "pyval \<Rightarrow> bool" where
  "eq_zero (PInt i) = (i = 0)"
| "eq_zero (PBool b) = (\<not> b)"
| "eq_zero (PFloat r) = (r = 0)"
| "eq_zero _ = False"

subsection \<open>Reading\<close>

fun parse_jsonl_lines :: "(string \<Rightarrow> pyval res) \<Rightarrow> path \<Rightarrow> nat \<Rightarrow> string list \<Rightarrow> event list res" where
  "parse_jsonl_lines loads p number [] = Inr []"
| "parse_jsonl_lines loads p number (raw # ls) =
     (let line = strip raw in
      if line = [] then parse_jsonl_lines loads p (number + 1) ls
      else (case loads line of
              Inl e \<Rightarrow>
                if exn_kind e = JSONDecodeError
                then value_error (path_str p @ '':'' @ str_nat number @ '': '' @ exn_msg e)
                else Inl e
            | Inr value \<Rightarrow>
                res_bind (parse_jsonl_lines loads p (number + 1) ls) (\<lambda>events.
                Inr (case value of PDict d \<Rightarrow> d # events | _ \<Rightarrow> events))))"

text \<open>\<open>sorted(xs, key=k)\<close> for a key that may raise: all keys are computed first.\<close>

definition sort_by_res :: "('a \<Rightarrow> int res) \<Rightarrow> 'a list \<Rightarrow> 'a list res" where
  "sort_by_res k xs = res_bind (res_map k xs) (\<lambda>ks. Inr (map snd (sort_key fst (zip ks xs))))"

definition read_jsonl :: "'w host \<Rightarrow> (string \<Rightarrow> pyval res) \<Rightarrow> path \<Rightarrow> 'w \<Rightarrow> event list res" where
  "read_jsonl h loads p w =
     res_bind (of_host (h_read_text h p w)) (\<lambda>text.
     res_bind (parse_jsonl_lines loads p 1 (split_on (CHR 0x0A) text)) (\<lambda>events.
     sort_by_res (\<lambda>e. py_intv (dict_get e ''timestamp_ns'' (PInt 0))) events))"

fun event_time :: "pyval \<Rightarrow> int option" where
  "event_time (PInt i) = Some i"
| "event_time (PBool b) = Some (if b then 1 else 0)"
| "event_time (PDict d) = as_int (dict_get d ''boottime_ns'' PNone)"
| "event_time _ = None"

fun policy_fields :: "(pyval \<Rightarrow> string) \<Rightarrow> pyval \<Rightarrow> string \<times> string" where
  "policy_fields dumps (PStr s) = (s, [])"
| "policy_fields dumps (PDict ((name, PDict parameters) # _)) =
     (case map_of parameters ''prio'' of
        Some prio \<Rightarrow> (name, py_str prio)
      | None \<Rightarrow> (name, dumps (PDict parameters)))"
| "policy_fields dumps (PDict ((name, _) # _)) = (name, [])"
| "policy_fields dumps _ = (''UNKNOWN'', [])"

subsection \<open>Phases and cycles\<close>

text \<open>\<open>^cycle_(\d+)_(begin|end)$\<close>; \<open>$\<close> also matches before a final newline.\<close>

definition cycle_match :: "string \<Rightarrow> (nat \<times> bool) option" where
  "cycle_match name =
     (let rest = drop 6 name; ds = takeWhile is_digit rest; tl' = dropWhile is_digit rest in
      if \<not> prefix ''cycle_'' name \<or> ds = [] then None
      else if tl' = ''_begin'' \<or> tl' = ''_begin'' @ [CHR 0x0A] then Some (dec_nat ds, True)
      else if tl' = ''_end'' \<or> tl' = ''_end'' @ [CHR 0x0A] then Some (dec_nat ds, False)
      else None)"

definition is_phase :: "event \<Rightarrow> bool" where
  "is_phase e = (dict_get e ''event'' PNone = PStr ''phase_marker'')"

definition has_name :: "string \<Rightarrow> event \<Rightarrow> bool" where
  "has_name n e = (dict_get e ''name'' PNone = PStr n)"

fun collect_cycles ::
    "event list \<Rightarrow> (nat \<times> int) list \<Rightarrow> (nat \<times> int) list \<Rightarrow> ((nat \<times> int) list \<times> (nat \<times> int) list) res" where
  "collect_cycles [] starts ends = Inr (starts, ends)"
| "collect_cycles (e # es) starts ends =
     (case cycle_match (py_str (dict_get e ''name'' (PStr []))) of
        None \<Rightarrow> collect_cycles es starts ends
      | Some (cycle, begin_marker) \<Rightarrow>
          res_bind (ev_int e ''timestamp_ns'') (\<lambda>t.
          if begin_marker then collect_cycles es (dict_set cycle t starts) ends
          else collect_cycles es starts (dict_set cycle t ends)))"

text \<open>The end of a cycle without an end marker is the start of the next one.\<close>

fun cycle_bounds :: "int \<Rightarrow> (nat \<times> int) list \<Rightarrow> (nat \<times> int) list \<Rightarrow> (nat \<times> int \<times> int) list" where
  "cycle_bounds trace_end ends [] = []"
| "cycle_bounds trace_end ends ((cycle, start) # rest) =
     (let next_start = (case rest of [] \<Rightarrow> trace_end + 1 | (_, s) # _ \<Rightarrow> s)
      in (cycle, start, dict_get ends cycle next_start) # cycle_bounds trace_end ends rest)"

definition max_default :: "int list \<Rightarrow> int \<Rightarrow> int" where
  "max_default xs d = (case xs of [] \<Rightarrow> d | y # ys \<Rightarrow> foldl max y ys)"

definition min_default :: "int list \<Rightarrow> int \<Rightarrow> int" where
  "min_default xs d = (case xs of [] \<Rightarrow> d | y # ys \<Rightarrow> foldl min y ys)"

definition phase_origin :: "event list \<Rightarrow> int res" where
  "phase_origin phases =
     res_bind (res_map (\<lambda>e. ev_int e ''timestamp_ns'') phases) (\<lambda>times.
     case find (\<lambda>e. has_name ''process_start'' e) phases of
       Some e \<Rightarrow> ev_int e ''timestamp_ns''
     | None \<Rightarrow> Inr (min_default times 0))"

definition phase_data :: "event list \<Rightarrow> (int \<times> event list \<times> (nat \<times> int \<times> int) list) res" where
  "phase_data events =
     (let phases = filter is_phase events in
      res_bind (phase_origin phases) (\<lambda>origin.
      res_bind (collect_cycles phases [] []) (\<lambda>(starts, ends).
      res_bind (res_map (\<lambda>e. py_intv (dict_get e ''timestamp_ns'' (PInt 0))) events) (\<lambda>times.
      Inr (origin, phases,
           cycle_bounds (max_default times origin) ends (sort_key fst starts))))))"

text \<open>\<open>^cycle_\d+_(.+)$\<close>: the rest of the name, which a final newline may follow.\<close>

definition phase_suffix :: "string \<Rightarrow> string option" where
  "phase_suffix name =
     (let rest = drop 6 name; ds = takeWhile is_digit rest; tl' = dropWhile is_digit rest;
          body = (if tl' \<noteq> [] \<and> last tl' = CHR 0x0A then butlast tl' else tl')
      in if prefix ''cycle_'' name \<and> ds \<noteq> [] \<and> prefix ''_'' tl' \<and> length body > 1 \<and>
            CHR 0x0A \<notin> set body
         then Some (drop 1 body) else None)"

definition classify_uvc_phase :: "string \<Rightarrow> string" where
  "classify_uvc_phase phase_name =
     (case phase_suffix phase_name of
        None \<Rightarrow> ''other''
      | Some ending \<Rightarrow>
          if ending \<in> set [''begin'', ''before_context'', ''after_context'',
               ''before_pipeline_construction'', ''after_pipeline_construction'',
               ''before_pipeline_start'']
          then ''startup''
          else if ending \<in> set [''after_pipeline_start'', ''first_frame''] then ''streaming''
          else if ending \<in> set [''frames_complete'', ''before_pipeline_stop'', ''after_pipeline_stop'',
               ''before_object_destruction'', ''after_object_destruction'',
               ''threads_joined'', ''thread_join_timeout'', ''end'']
          then ''teardown''
          else ''other'')"

definition cycle_at :: "int option \<Rightarrow> (nat \<times> int \<times> int) list \<Rightarrow> nat" where
  "cycle_at timestamp bounds =
     (case timestamp of
        None \<Rightarrow> 0
      | Some t \<Rightarrow>
          (case find (\<lambda>(cycle, b, e). b \<le> t \<and> t \<le> e) (sort_key fst bounds) of
             Some (cycle, _) \<Rightarrow> cycle | None \<Rightarrow> 0))"

subsection \<open>Thread signatures\<close>

definition get_or :: "event \<Rightarrow> string \<Rightarrow> pyval \<Rightarrow> pyval" where
  "get_or e k v = py_or (dict_get e k PNone) v"

definition file_name :: "string \<Rightarrow> string" where
  "file_name s = path_name (path_parts s)"

definition STEADY_PROBE :: string where
  "STEADY_PROBE = ''realsense_steady_probe''"

fun signature_frames :: "string \<Rightarrow> nat \<Rightarrow> pyval list \<Rightarrow> string list" where
  "signature_frames entry_module included [] = []"
| "signature_frames entry_module included (PDict frame # fs) =
     (let module = file_name (py_str (get_or frame ''module'' (PStr []))) in
      if module = [] \<or> py_contains ''libtrace_pthreads.so'' module \<or> module = entry_module
      then signature_frames entry_module included fs
      else
        (let offset = py_str (get_or frame ''module_offset'' (get_or frame ''address'' (PStr ''0x0'')));
             part = (if module = STEADY_PROBE then module else module @ ''@'' @ offset)
         in if included + 1 = 6 then [part]
            else part # signature_frames entry_module (included + 1) fs))"
| "signature_frames entry_module included (_ # fs) = signature_frames entry_module included fs"

definition thread_signature :: "event \<Rightarrow> string res" where
  "thread_signature e =
     (let explicit = py_str (get_or e ''signature'' (PStr [])) in
      if explicit \<noteq> [] then Inr explicit
      else
        (let entry_module = file_name (py_str (get_or e ''entry_module'' (PStr [])));
             entry_offset = py_str (get_or e ''entry_module_offset''
               (get_or e ''entry_address'' (PStr ''0x0'')));
             entry = (if entry_module = STEADY_PROBE then ''entry='' @ entry_module
                      else ''entry='' @ entry_module @ ''@'' @ entry_offset)
         in res_bind (py_iter (dict_get e ''stack'' (PList []))) (\<lambda>frames.
            Inr (py_join ''|'' (entry # signature_frames entry_module 0 frames)))))"

subsection \<open>Thread lifecycles\<close>

record thread_record =
  tr_tid :: "int option"
  tr_tgid :: "int option"
  tr_pthread_value :: string
  tr_name :: pyval
  tr_parent_tid :: pyval
  tr_created_ns :: "int option"
  tr_started_ns :: "int option"
  tr_exited_ns :: "int option"
  tr_joined_ns :: "int option"
  tr_joined_by :: pyval
  tr_detached_by :: pyval
  tr_cycle :: nat
  tr_creation_sequence :: pyval
  tr_signature :: pyval
  tr_entry_module :: pyval
  tr_entry_module_offset :: pyval

text \<open>The store: the list of records and the three indexes, which hold positions in it.\<close>

record lifecycle =
  lc_records :: "thread_record list"
  lc_by_create :: "((string \<times> int) \<times> nat) list"
  lc_by_tid :: "(int \<times> nat list) list"
  lc_by_pthread :: "(string \<times> nat list) list"

definition blank_record :: thread_record where
  "blank_record = \<lparr>tr_tid = None, tr_tgid = None, tr_pthread_value = [], tr_name = PStr [],
     tr_parent_tid = PNone, tr_created_ns = None, tr_started_ns = None, tr_exited_ns = None,
     tr_joined_ns = None, tr_joined_by = PNone, tr_detached_by = PNone, tr_cycle = 0,
     tr_creation_sequence = PNone, tr_signature = PStr [], tr_entry_module = PStr [],
     tr_entry_module_offset = PStr []\<rparr>"

definition lc_empty :: lifecycle where
  "lc_empty = \<lparr>lc_records = [], lc_by_create = [], lc_by_tid = [], lc_by_pthread = []\<rparr>"

text \<open>\<open>d[k].append(v)\<close> of a \<open>defaultdict(list)\<close>\<close>

definition dict_append :: "'k \<Rightarrow> 'v \<Rightarrow> ('k \<times> 'v list) list \<Rightarrow> ('k \<times> 'v list) list" where
  "dict_append k v d = dict_set k (dict_get d k [] @ [v]) d"

definition new_record :: "thread_record \<Rightarrow> lifecycle \<Rightarrow> lifecycle" where
  "new_record r lc =
     lc\<lparr>lc_records := lc_records lc @ [r],
        lc_by_pthread := (if tr_pthread_value r \<noteq> []
          then dict_append (tr_pthread_value r) (length (lc_records lc)) (lc_by_pthread lc)
          else lc_by_pthread lc)\<rparr>"

definition update_record :: "nat \<Rightarrow> (thread_record \<Rightarrow> thread_record) \<Rightarrow> lifecycle \<Rightarrow> lifecycle" where
  "update_record i f lc = lc\<lparr>lc_records := (lc_records lc)[i := f (lc_records lc ! i)]\<rparr>"

text \<open>\<open>next((r['tgid'] for r in records if r.get('tgid')), None)\<close>\<close>

definition first_tgid :: "thread_record list \<Rightarrow> int option" where
  "first_tgid rs =
     (case find (\<lambda>r. tr_tgid r \<noteq> None \<and> tr_tgid r \<noteq> Some 0) rs of Some r \<Rightarrow> tr_tgid r | None \<Rightarrow> None)"

definition register_main :: "event list \<Rightarrow> lifecycle res" where
  "register_main events =
     (case find (\<lambda>e. is_phase e \<and> has_name ''process_start'' e) events of
        None \<Rightarrow> Inr lc_empty
      | Some e \<Rightarrow>
          if e = [] then Inr lc_empty
          else
          res_bind (ev_int e ''tid'') (\<lambda>tid.
          res_bind (ev_int e ''timestamp_ns'') (\<lambda>t.
          let lc = new_record (blank_record\<lparr>tr_tid := Some tid, tr_tgid := Some tid,
                tr_name := PStr ''main'', tr_created_ns := Some t, tr_started_ns := Some t\<rparr>) lc_empty
          in Inr (lc\<lparr>lc_by_tid := dict_append tid 0 (lc_by_tid lc)\<rparr>))))"

definition ev_timestamp :: "event \<Rightarrow> int option" where
  "ev_timestamp e = as_int (dict_get e ''timestamp_ns'' PNone)"

definition ev_pthread :: "event \<Rightarrow> string" where
  "ev_pthread e = py_str (get_or e ''pthread_value'' (PStr []))"

definition on_create :: "(nat \<times> int \<times> int) list \<Rightarrow> event \<Rightarrow> lifecycle \<Rightarrow> lifecycle res" where
  "on_create bounds e lc =
     res_bind (thread_signature e) (\<lambda>signature.
     let t = ev_timestamp e;
         r = blank_record\<lparr>tr_pthread_value := ev_pthread e,
               tr_parent_tid := dict_get e ''caller_tid'' PNone, tr_created_ns := t,
               tr_cycle := cycle_at t bounds,
               tr_creation_sequence := dict_get e ''creation_sequence'' PNone,
               tr_signature := PStr signature,
               tr_entry_module := dict_get e ''entry_module'' (PStr []),
               tr_entry_module_offset := dict_get e ''entry_module_offset'' (PStr [])\<rparr>;
         key = (ev_pthread e, case t of None \<Rightarrow> 0 | Some x \<Rightarrow> x)
     in Inr ((new_record r lc)\<lparr>lc_by_create := dict_set key (length (lc_records lc)) (lc_by_create lc)\<rparr>))"

text \<open>The record of a starting thread: the one its creation registered, or a new one.\<close>

definition find_created ::
    "(nat \<times> int \<times> int) list \<Rightarrow> event \<Rightarrow> int \<Rightarrow> lifecycle \<Rightarrow> nat \<times> lifecycle" where
  "find_created bounds e create_timestamp lc =
     (case map_of (lc_by_create lc) (ev_pthread e, create_timestamp) of
        Some i \<Rightarrow> (i, lc)
      | None \<Rightarrow>
          (let created = (if create_timestamp \<noteq> 0 then Some create_timestamp else ev_timestamp e);
               r = blank_record\<lparr>tr_pthread_value := ev_pthread e, tr_created_ns := created,
                     tr_cycle := cycle_at created bounds\<rparr>;
               lc' = new_record r lc
           in (length (lc_records lc),
               lc'\<lparr>lc_by_create := dict_set (ev_pthread e, create_timestamp) (length (lc_records lc))
                     (lc_by_create lc')\<rparr>)))"

definition started_record :: "event \<Rightarrow> int \<Rightarrow> int option \<Rightarrow> string \<Rightarrow> thread_record \<Rightarrow> thread_record" where
  "started_record e tid tgid signature r =
     r\<lparr>tr_tid := Some tid, tr_tgid := tgid,
       tr_parent_tid := dict_get e ''parent_tid'' (tr_parent_tid r),
       tr_started_ns := ev_timestamp e,
       tr_name := py_or (dict_get e ''name'' (PStr [])) (tr_name r),
       tr_creation_sequence := dict_get e ''creation_sequence'' (tr_creation_sequence r),
       tr_signature := py_or (dict_get e ''signature'' (PStr [])) (py_or (tr_signature r) (PStr signature)),
       tr_entry_module := dict_get e ''entry_module'' (tr_entry_module r),
       tr_entry_module_offset := dict_get e ''entry_module_offset'' (tr_entry_module_offset r)\<rparr>"

text \<open>\<open>thread_signature(event)\<close> is the last operand of an \<open>or\<close>, evaluated only if reached.\<close>

definition late_signature :: "event \<Rightarrow> thread_record \<Rightarrow> string res" where
  "late_signature e r =
     (if truthy (dict_get e ''signature'' (PStr [])) \<or> truthy (tr_signature r) then Inr []
      else thread_signature e)"

definition on_start :: "(nat \<times> int \<times> int) list \<Rightarrow> event \<Rightarrow> lifecycle \<Rightarrow> lifecycle res" where
  "on_start bounds e lc =
     res_bind (py_intv (dict_get e ''create_timestamp_ns'' (PInt 0))) (\<lambda>create_timestamp.
     let (i, lc') = find_created bounds e create_timestamp lc in
     res_bind (ev_int e ''tid'') (\<lambda>tid.
     res_bind (late_signature e (lc_records lc' ! i)) (\<lambda>signature.
     let lc'' = update_record i (started_record e tid (first_tgid (lc_records lc')) signature) lc'
     in Inr (lc''\<lparr>lc_by_tid := dict_append tid i (lc_by_tid lc'')\<rparr>))))"

definition named :: "event \<Rightarrow> thread_record \<Rightarrow> thread_record" where
  "named e r = r\<lparr>tr_name := py_or (dict_get e ''name'' (PStr [])) (tr_name r)\<rparr>"

definition on_name :: "event \<Rightarrow> lifecycle \<Rightarrow> lifecycle res" where
  "on_name e lc =
     res_bind (case dict_get e ''caller_tid'' PNone of
                 PNone \<Rightarrow> Inr []
               | v \<Rightarrow> res_bind (py_intv v) (\<lambda>tid. Inr (dict_get (lc_by_tid lc) tid []))) (\<lambda>by_caller.
     let candidates = (if by_caller = [] then dict_get (lc_by_pthread lc) (ev_pthread e) [] else by_caller)
     in Inr (if candidates = [] then lc else update_record (last candidates) (named e) lc))"

definition on_exit :: "event \<Rightarrow> lifecycle \<Rightarrow> lifecycle res" where
  "on_exit e lc =
     res_bind (ev_int e ''tid'') (\<lambda>tid.
     let candidates = filter (\<lambda>i. tr_exited_ns (lc_records lc ! i) = None) (dict_get (lc_by_tid lc) tid [])
     in Inr (if candidates = [] then lc
             else update_record (last candidates)
                    (\<lambda>r. named e (r\<lparr>tr_exited_ns := ev_timestamp e\<rparr>)) lc))"

definition created_before :: "int option \<Rightarrow> thread_record \<Rightarrow> bool" where
  "created_before t r =
     (case (tr_created_ns r, t) of (Some c, Some x) \<Rightarrow> c \<le> x | _ \<Rightarrow> True)"

definition on_join_or_detach :: "bool \<Rightarrow> event \<Rightarrow> lifecycle \<Rightarrow> lifecycle" where
  "on_join_or_detach joined e lc =
     (let t = ev_timestamp e;
          candidates = filter (\<lambda>i. created_before t (lc_records lc ! i))
            (dict_get (lc_by_pthread lc) (ev_pthread e) []);
          ok = eq_zero (dict_get e ''result'' (PInt 0));
          by = dict_get e ''caller_tid'' PNone
      in if candidates = [] \<or> \<not> ok then lc
         else update_record (last candidates)
           (if joined then (\<lambda>r. r\<lparr>tr_joined_ns := t, tr_joined_by := by\<rparr>)
            else (\<lambda>r. r\<lparr>tr_detached_by := by\<rparr>)) lc)"

definition on_process_end :: "event \<Rightarrow> lifecycle \<Rightarrow> lifecycle" where
  "on_process_end e lc =
     lc\<lparr>lc_records := map (\<lambda>r. if tr_tid r = tr_tgid r then r\<lparr>tr_exited_ns := ev_timestamp e\<rparr> else r)
          (lc_records lc)\<rparr>"

definition create_succeeded :: "event \<Rightarrow> bool" where
  "create_succeeded e =
     truthy (dict_get e ''success'' (PBool (eq_zero (dict_get e ''result'' PNone))))"

definition lifecycle_step :: "(nat \<times> int \<times> int) list \<Rightarrow> event \<Rightarrow> lifecycle \<Rightarrow> lifecycle res" where
  "lifecycle_step bounds e lc =
     (let kind = dict_get e ''event'' PNone in
      if kind = PStr ''pthread_create'' \<and> create_succeeded e then on_create bounds e lc
      else if kind = PStr ''thread_start'' then on_start bounds e lc
      else if kind = PStr ''thread_name'' then on_name e lc
      else if kind = PStr ''thread_exit'' then on_exit e lc
      else if kind = PStr ''pthread_join_end'' then Inr (on_join_or_detach True e lc)
      else if kind = PStr ''pthread_detach'' then Inr (on_join_or_detach False e lc)
      else if kind = PStr ''phase_marker'' \<and> (has_name ''process_exit'' e \<or> has_name ''process_error'' e)
      then Inr (on_process_end e lc)
      else Inr lc)"

fun lifecycle_steps :: "(nat \<times> int \<times> int) list \<Rightarrow> event list \<Rightarrow> lifecycle \<Rightarrow> lifecycle res" where
  "lifecycle_steps bounds [] lc = Inr lc"
| "lifecycle_steps bounds (e # es) lc = res_bind (lifecycle_step bounds e lc) (lifecycle_steps bounds es)"

definition finish_record :: "(nat \<times> int \<times> int) list \<Rightarrow> int option \<Rightarrow> thread_record \<Rightarrow> thread_record" where
  "finish_record bounds tgid r =
     r\<lparr>tr_tgid := tgid,
       tr_cycle := (if tr_cycle r = 0 then cycle_at (tr_created_ns r) bounds else tr_cycle r)\<rparr>"

definition lifecycle_records ::
    "event list \<Rightarrow> (nat \<times> int \<times> int) list \<Rightarrow> (thread_record list \<times> ((string \<times> int) \<times> nat) list) res" where
  "lifecycle_records events bounds =
     res_bind (register_main events) (\<lambda>lc0.
     res_bind (lifecycle_steps bounds events lc0) (\<lambda>lc.
     Inr (map (finish_record bounds (first_tgid (lc_records lc))) (lc_records lc), lc_by_create lc)))"

subsection \<open>Scheduler events\<close>

record lime_event =
  le_ts :: int
  le_event :: pyval
  le_cpu :: "pyval option"
  le_state :: "pyval option"
  le_policy :: string
  le_priority :: string
  le_task_version :: string

definition lime_event_of :: "string \<times> string \<Rightarrow> string \<Rightarrow> pyval \<Rightarrow> lime_event option" where
  "lime_event_of policy task_id v =
     (case v of
        PDict d \<Rightarrow>
          (case as_int (dict_get d ''ts'' PNone) of
             Some ts \<Rightarrow> Some \<lparr>le_ts = ts, le_event = dict_get d ''event'' (PStr []),
                          le_cpu = map_of d ''cpu'', le_state = map_of d ''state'',
                          le_policy = fst policy, le_priority = snd policy, le_task_version = task_id\<rparr>
           | None \<Rightarrow> None)
      | _ \<Rightarrow> None)"

type_synonym lime_tables = "(int \<times> lime_event list) list \<times> (int \<times> (string \<times> string) list) list"

definition INFO_SUFFIX :: string where
  "INFO_SUFFIX = ''.infos.json''"

definition read_json :: "'w host \<Rightarrow> path \<Rightarrow> 'w \<Rightarrow> pyval res" where
  "read_json h p w = of_host (h_read_json h p w)"

text \<open>One \<open>*.infos.json\<close> file and the event file beside it.\<close>

definition load_task ::
    "'w host \<Rightarrow> (pyval \<Rightarrow> string) \<Rightarrow> path \<Rightarrow> int option \<Rightarrow> 'w \<Rightarrow> string \<Rightarrow> lime_tables \<Rightarrow> lime_tables res" where
  "load_task h dumps lime_dir app_tgid w file tables =
     (let task_id = take (length file - length INFO_SUFFIX) file;
          event_path = lime_dir @ [task_id @ ''.events.json'']
      in
      res_bind (read_json h (lime_dir @ [file]) w) (\<lambda>info.
      res_bind (py_get info ''pid'' (PStr (takeWhile (\<lambda>c. c \<noteq> CHR ''-'') task_id))) (\<lambda>pid.
      res_bind (py_intv pid) (\<lambda>tid.
      res_bind (py_get info ''tgid'' (PInt tid)) (\<lambda>tgid_value.
      res_bind (py_intv tgid_value) (\<lambda>tgid.
      if app_tgid \<noteq> None \<and> app_tgid \<noteq> Some tgid then Inr tables
      else
      res_bind (py_get info ''policy'' PNone) (\<lambda>policy_value.
      let policy = policy_fields dumps policy_value;
          known = dict_get (snd tables) tid [];
          policies = dict_set tid (if policy \<in> set known then known else known @ [policy]) (snd tables)
      in
      if \<not> h_exists h event_path w then Inr (fst tables, policies)
      else
      res_bind (read_json h event_path w) (\<lambda>values.
      case values of
        PList vs \<Rightarrow>
          (let new = List.map_filter (lime_event_of policy task_id) vs;
               events = (if new = [] then fst tables
                         else dict_set tid (dict_get (fst tables) tid [] @ new) (fst tables))
           in Inr (events, policies))
      | _ \<Rightarrow> value_error (path_str event_path @ '' does not contain a JSON event array'')))))))))"

fun load_tasks ::
    "'w host \<Rightarrow> (pyval \<Rightarrow> string) \<Rightarrow> path \<Rightarrow> int option \<Rightarrow> 'w \<Rightarrow> string list \<Rightarrow> lime_tables \<Rightarrow> lime_tables res" where
  "load_tasks h dumps lime_dir app_tgid w [] tables = Inr tables"
| "load_tasks h dumps lime_dir app_tgid w (f # fs) tables =
     res_bind (load_task h dumps lime_dir app_tgid w f tables) (load_tasks h dumps lime_dir app_tgid w fs)"

definition load_lime ::
    "'w host \<Rightarrow> (pyval \<Rightarrow> string) \<Rightarrow> path \<Rightarrow> int option \<Rightarrow> 'w \<Rightarrow> lime_tables res" where
  "load_lime h dumps lime_dir app_tgid w =
     res_bind (load_tasks h dumps lime_dir app_tgid w
       (sort (filter (\<lambda>n. endswith n INFO_SUFFIX) (h_entries h lime_dir w))) ([], [])) (\<lambda>(events, policies).
     Inr (map (\<lambda>(tid, es). (tid, sort_key le_ts es)) events, policies))"

text \<open>\<open>a or b\<close> for optional times: zero counts as missing.\<close>

definition time_or :: "int option \<Rightarrow> int option \<Rightarrow> int option" where
  "time_or a b = (case a of Some t \<Rightarrow> if t \<noteq> 0 then a else b | None \<Rightarrow> b)"

definition event_window :: "thread_record \<Rightarrow> int \<Rightarrow> int \<times> int" where
  "event_window r trace_end =
     (case time_or (tr_created_ns r) (time_or (tr_started_ns r) (Some 0)) of None \<Rightarrow> 0 | Some b \<Rightarrow> b,
      case time_or (tr_exited_ns r) (time_or (tr_joined_ns r) (Some trace_end)) of None \<Rightarrow> 0 | Some e \<Rightarrow> e)"

subsection \<open>Scheduler intervals\<close>

definition BLOCKING_EVENTS :: "string list" where
  "BLOCKING_EVENTS = [
    ''enter_accept'', ''enter_clock_nano_sleep'', ''enter_epoll_pwait'', ''enter_futex'',
    ''enter_mq_timedreceive'', ''enter_msgrcv'', ''enter_nanosleep'', ''enter_pause'',
    ''enter_poll'', ''enter_pselect6'', ''enter_read_blk'', ''enter_read_chr'',
    ''enter_read_fifo'', ''enter_read_sock'', ''enter_recv'', ''enter_recvfrom'',
    ''enter_recvmsg'', ''enter_recvmmsg'', ''enter_rt_sigsuspend'', ''enter_select'',
    ''enter_semop'', ''enter_sig_timed_wait'']"

record interval =
  iv_cycle :: nat
  iv_tid :: int
  iv_name :: string
  iv_state :: string
  iv_start_ns :: int
  iv_end_ns :: int
  iv_start_ms :: rat
  iv_end_ms :: rat
  iv_duration_ms :: rat
  iv_cpu :: pyval
  iv_reason :: string

text \<open>The local variables of \<open>scheduler_intervals\<close>.\<close>

record sched =
  sd_intervals :: "interval list"
  sd_state :: "string option"
  sd_start :: "int option"
  sd_cpu :: pyval
  sd_reason :: string
  sd_blocking :: string
  sd_first_run :: "int option"
  sd_first_sleep :: "int option"

definition sched_init :: sched where
  "sched_init = \<lparr>sd_intervals = [], sd_state = None, sd_start = None, sd_cpu = PStr [], sd_reason = [],
     sd_blocking = [], sd_first_run = None, sd_first_sleep = None\<rparr>"

record sched_thread =
  st_cycle :: nat
  st_tid :: int
  st_name :: string
  st_origin :: int

definition sched_close :: "sched_thread \<Rightarrow> int \<Rightarrow> sched \<Rightarrow> sched" where
  "sched_close th t sd =
     (case (sd_state sd, sd_start sd) of
        (Some state, Some start) \<Rightarrow>
          if t < start then sd
          else sd\<lparr>sd_intervals := sd_intervals sd @
                 [\<lparr>iv_cycle = st_cycle th, iv_tid = st_tid th, iv_name = st_name th, iv_state = state,
                   iv_start_ns = start, iv_end_ns = t,
                   iv_start_ms = ms_between start (st_origin th), iv_end_ms = ms_between t (st_origin th),
                   iv_duration_ms = ms_between t start, iv_cpu = sd_cpu sd, iv_reason = sd_reason sd\<rparr>],
                 sd_state := None, sd_start := None\<rparr>
      | _ \<Rightarrow> sd)"

definition switched_in :: "sched_thread \<Rightarrow> lime_event \<Rightarrow> sched \<Rightarrow> sched" where
  "switched_in th e sd =
     (sched_close th (le_ts e) sd)\<lparr>
       sd_state := Some ''running'', sd_start := Some (le_ts e),
       sd_cpu := (case le_cpu e of None \<Rightarrow> PStr [] | Some c \<Rightarrow> c), sd_reason := [],
       sd_first_run := (case sd_first_run sd of None \<Rightarrow> Some (le_ts e) | Some t \<Rightarrow> Some t)\<rparr>"

definition switched_out :: "sched_thread \<Rightarrow> lime_event \<Rightarrow> int \<Rightarrow> sched \<Rightarrow> sched" where
  "switched_out th e state sd =
     (sched_close th (le_ts e) sd)\<lparr>
       sd_state := Some (if state = 0 then ''ready'' else ''sleeping''), sd_start := Some (le_ts e),
       sd_cpu := (case le_cpu e of None \<Rightarrow> sd_cpu sd | Some c \<Rightarrow> c),
       sd_reason := (if state = 0 then ''preempted''
                     else str_or (sd_blocking sd) (''task_state_'' @ str_int state)),
       sd_first_sleep := (if state \<noteq> 0 \<and> sd_first_sleep sd = None then Some (le_ts e) else sd_first_sleep sd)\<rparr>"

definition woken :: "sched_thread \<Rightarrow> lime_event \<Rightarrow> string \<Rightarrow> sched \<Rightarrow> sched" where
  "woken th e kind sd =
     (let sd' = (if sd_state sd = Some ''sleeping'' then sched_close th (le_ts e) sd else sd)
      in if sd_state sd' = None
         then sd'\<lparr>sd_state := Some ''ready'', sd_start := Some (le_ts e),
                sd_cpu := (case le_cpu e of None \<Rightarrow> PStr [] | Some c \<Rightarrow> c), sd_reason := kind\<rparr>
         else sd')"

definition sched_step :: "sched_thread \<Rightarrow> lime_event \<Rightarrow> sched \<Rightarrow> sched res" where
  "sched_step th e sd =
     (let kind = py_str (le_event e) in
      if kind \<in> set BLOCKING_EVENTS then Inr (sd\<lparr>sd_blocking := kind\<rparr>)
      else if kind = ''sched_switched_in'' then Inr (switched_in th e sd)
      else if kind = ''sched_switched_out''
      then res_bind (py_intv (case le_state e of None \<Rightarrow> PInt 0 | Some v \<Rightarrow> v)) (\<lambda>state.
             Inr (switched_out th e state sd))
      else if kind = ''sched_wake_up'' \<or> kind = ''sched_wake_up_new'' then Inr (woken th e kind sd)
      else if kind = ''sched_process_exit'' then Inr (sched_close th (le_ts e) sd)
      else Inr sd)"

fun sched_steps :: "sched_thread \<Rightarrow> lime_event list \<Rightarrow> sched \<Rightarrow> sched res" where
  "sched_steps th [] sd = Inr sd"
| "sched_steps th (e # es) sd = res_bind (sched_step th e sd) (sched_steps th es)"

definition relevant_events :: "int \<Rightarrow> int \<Rightarrow> lime_event list \<Rightarrow> lime_event list" where
  "relevant_events b e events = filter (\<lambda>ev. b \<le> le_ts ev \<and> le_ts ev \<le> e) events"

definition scheduler_intervals ::
    "lime_event list \<Rightarrow> int \<Rightarrow> int \<Rightarrow> nat \<Rightarrow> int \<Rightarrow> string \<Rightarrow> int
      \<Rightarrow> (interval list \<times> int option \<times> int option) res" where
  "scheduler_intervals events b e cycle tid name origin =
     (let th = \<lparr>st_cycle = cycle, st_tid = tid, st_name = name, st_origin = origin\<rparr> in
      res_bind (sched_steps th (relevant_events b e events) sched_init) (\<lambda>sd.
      let sd' = sched_close th e sd
      in Inr (sd_intervals sd', sd_first_run sd', sd_first_sleep sd')))"

subsection \<open>Timing rows\<close>

text \<open>
  A row of \<open>thread_timing.csv\<close>; an empty cell is \<open>None\<close>. Durations are exact rationals where the code
  adds floats.
\<close>

record timing_row =
  tm_cycle :: nat
  tm_tid :: int
  tm_tgid :: "int option"
  tm_pthread_value :: string
  tm_name :: pyval
  tm_parent_tid :: pyval
  tm_policy :: string
  tm_priority :: string
  tm_created_ns :: "int option"
  tm_created_ms :: "rat option"
  tm_started_ns :: "int option"
  tm_started_ms :: "rat option"
  tm_first_run_ns :: "int option"
  tm_first_run_ms :: "rat option"
  tm_first_sleep_ns :: "int option"
  tm_first_sleep_ms :: "rat option"
  tm_exited_ns :: "int option"
  tm_exited_ms :: "rat option"
  tm_joined_ns :: "int option"
  tm_joined_ms :: "rat option"
  tm_create_to_start_ms :: "rat option"
  tm_execution_ms :: rat
  tm_sleep_ms :: rat
  tm_ready_ms :: rat
  tm_lifetime_ms :: "rat option"
  tm_running_intervals :: nat
  tm_sleep_intervals :: nat
  tm_ready_intervals :: nat
  tm_joined_by :: pyval
  tm_detached_by :: pyval
  tm_status :: string

definition totals :: "interval list \<Rightarrow> string \<Rightarrow> rat" where
  "totals ivs st = sum_list (map iv_duration_ms (filter (\<lambda>i. iv_state i = st) ivs))"

definition counts :: "interval list \<Rightarrow> string \<Rightarrow> nat" where
  "counts ivs st = length (filter (\<lambda>i. iv_state i = st) ivs)"

definition thread_status :: "thread_record \<Rightarrow> string" where
  "thread_status r =
     (if tr_joined_ns r \<noteq> None then ''joined''
      else if tr_detached_by r \<noteq> PNone \<and> tr_exited_ns r \<noteq> None then ''detached_and_exited''
      else if tr_detached_by r \<noteq> PNone then ''detached_unobserved_exit''
      else if tr_exited_ns r \<noteq> None then ''exited''
      else ''unobserved_exit'')"

definition relative :: "int \<Rightarrow> int option \<Rightarrow> rat option" where
  "relative origin timestamp = map_option (\<lambda>t. ms_between t origin) timestamp"

definition span :: "int option \<Rightarrow> int option \<Rightarrow> rat option" where
  "span later earlier = (case (later, earlier) of (Some l, Some e) \<Rightarrow> Some (ms_between l e) | _ \<Rightarrow> None)"

definition thread_policy :: "(string \<times> string) list \<Rightarrow> string \<times> string" where
  "thread_policy policy_values =
     (str_or (py_join ''|'' (map fst policy_values)) ''UNKNOWN'',
      py_join ''|'' (filter (\<lambda>p. p \<noteq> []) (map snd policy_values)))"

definition timing_row_of ::
    "int \<Rightarrow> (string \<times> string) list \<Rightarrow> thread_record \<Rightarrow> int
      \<Rightarrow> interval list \<times> int option \<times> int option \<Rightarrow> timing_row" where
  "timing_row_of origin policy_values r tid = (\<lambda>(ivs, first_run, first_sleep).
     \<lparr>tm_cycle = tr_cycle r, tm_tid = tid, tm_tgid = tr_tgid r, tm_pthread_value = tr_pthread_value r,
      tm_name = tr_name r, tm_parent_tid = tr_parent_tid r,
      tm_policy = fst (thread_policy policy_values), tm_priority = snd (thread_policy policy_values),
      tm_created_ns = tr_created_ns r, tm_created_ms = relative origin (tr_created_ns r),
      tm_started_ns = tr_started_ns r, tm_started_ms = relative origin (tr_started_ns r),
      tm_first_run_ns = first_run, tm_first_run_ms = relative origin first_run,
      tm_first_sleep_ns = first_sleep, tm_first_sleep_ms = relative origin first_sleep,
      tm_exited_ns = tr_exited_ns r, tm_exited_ms = relative origin (tr_exited_ns r),
      tm_joined_ns = tr_joined_ns r, tm_joined_ms = relative origin (tr_joined_ns r),
      tm_create_to_start_ms = span (tr_started_ns r) (tr_created_ns r),
      tm_execution_ms = totals ivs ''running'', tm_sleep_ms = totals ivs ''sleeping'',
      tm_ready_ms = totals ivs ''ready'',
      tm_lifetime_ms = span (tr_exited_ns r) (tr_started_ns r),
      tm_running_intervals = counts ivs ''running'', tm_sleep_intervals = counts ivs ''sleeping'',
      tm_ready_intervals = counts ivs ''ready'',
      tm_joined_by = tr_joined_by r, tm_detached_by = tr_detached_by r, tm_status = thread_status r\<rparr>)"

definition thread_timing ::
    "lime_tables \<Rightarrow> int \<Rightarrow> int \<Rightarrow> thread_record \<Rightarrow> (timing_row list \<times> interval list) res" where
  "thread_timing lime origin trace_end r =
     (case tr_tid r of
        None \<Rightarrow> Inr ([], [])
      | Some tid \<Rightarrow>
          (let (b, e) = event_window r trace_end in
           res_bind (scheduler_intervals (dict_get (fst lime) tid []) b e (tr_cycle r) tid
             (py_str (py_or (tr_name r) (PStr []))) origin) (\<lambda>(ivs, fr, fs).
           Inr ([timing_row_of origin (dict_get (snd lime) tid []) r tid (ivs, fr, fs)], ivs))))"

fun timing_rows ::
    "lime_tables \<Rightarrow> int \<Rightarrow> int \<Rightarrow> thread_record list \<Rightarrow> (timing_row list \<times> interval list) res" where
  "timing_rows lime origin trace_end [] = Inr ([], [])"
| "timing_rows lime origin trace_end (r # rs) =
     res_bind (thread_timing lime origin trace_end r) (\<lambda>(rows, ivs).
     res_bind (timing_rows lime origin trace_end rs) (\<lambda>(rows', ivs').
     Inr (rows @ rows', ivs @ ivs')))"

subsection \<open>The timeline\<close>

record timeline_row =
  tl_cycle :: nat
  tl_tid :: pyval
  tl_source :: string
  tl_event :: pyval
  tl_timestamp_ns :: int
  tl_timestamp_ms :: rat
  tl_cpu :: pyval
  tl_state :: pyval
  tl_detail :: pyval

definition opt_int :: "int option \<Rightarrow> pyval" where
  "opt_int t = (case t of None \<Rightarrow> PNone | Some i \<Rightarrow> PInt i)"

text \<open>The record a creation event belongs to: the last one with its handle and creation time.\<close>

definition record_for_create :: "thread_record list \<Rightarrow> string \<times> int \<Rightarrow> thread_record option" where
  "record_for_create records key =
     map_of (rev (map (\<lambda>r. ((tr_pthread_value r, case tr_created_ns r of None \<Rightarrow> 0 | Some t \<Rightarrow> t), r)) records)) key"

definition pthread_row ::
    "int \<Rightarrow> (nat \<times> int \<times> int) list \<Rightarrow> thread_record list \<Rightarrow> event \<Rightarrow> timeline_row option" where
  "pthread_row origin bounds records e =
     (case ev_timestamp e of
        None \<Rightarrow> None
      | Some t \<Rightarrow>
          (let own = dict_get e ''tid'' (dict_get e ''caller_tid'' (PStr []));
               tid = (if dict_get e ''event'' PNone = PStr ''pthread_create''
                      then (case record_for_create records (ev_pthread e, t) of
                              Some r \<Rightarrow> opt_int (tr_tid r) | None \<Rightarrow> own)
                      else own)
           in Some \<lparr>tl_cycle = cycle_at (Some t) bounds, tl_tid = tid, tl_source = ''pthread'',
                tl_event = dict_get e ''event'' (PStr []), tl_timestamp_ns = t,
                tl_timestamp_ms = ms_between t origin, tl_cpu = PStr [],
                tl_state = dict_get e ''state'' (PStr []), tl_detail = dict_get e ''name'' (PStr [])\<rparr>))"

definition lime_row :: "int \<Rightarrow> (nat \<times> int \<times> int) list \<Rightarrow> int \<Rightarrow> lime_event \<Rightarrow> timeline_row" where
  "lime_row origin bounds tid e =
     \<lparr>tl_cycle = cycle_at (Some (le_ts e)) bounds, tl_tid = PInt tid, tl_source = ''lime_ebpf'',
      tl_event = le_event e, tl_timestamp_ns = le_ts e, tl_timestamp_ms = ms_between (le_ts e) origin,
      tl_cpu = (case le_cpu e of None \<Rightarrow> PStr [] | Some c \<Rightarrow> c),
      tl_state = (case le_state e of None \<Rightarrow> PStr [] | Some s \<Rightarrow> s),
      tl_detail = PStr (le_task_version e)\<rparr>"

definition timeline ::
    "int \<Rightarrow> (nat \<times> int \<times> int) list \<Rightarrow> thread_record list \<Rightarrow> event list
      \<Rightarrow> (int \<times> lime_event list) list \<Rightarrow> timeline_row list" where
  "timeline origin bounds records events lime_events =
     sort_key (\<lambda>row. (tl_timestamp_ns row, tl_source row))
       (List.map_filter (pthread_row origin bounds records) events @
        concat (map (\<lambda>(tid, es). map (lime_row origin bounds tid) es) lime_events))"

subsection \<open>The rows of one run\<close>

definition trace_end_of :: "int \<Rightarrow> event list \<Rightarrow> (int \<times> lime_event list) list \<Rightarrow> int res" where
  "trace_end_of origin events lime_events =
     res_bind (res_map (\<lambda>e. py_intv (dict_get e ''timestamp_ns'' (PInt 0))) events) (\<lambda>times.
     Inr (max_default (times @ concat (map (map le_ts \<circ> snd) lime_events) @ [origin]) 0))"

record parsed_trace =
  pt_timing :: "timing_row list"
  pt_intervals :: "interval list"
  pt_timeline :: "timeline_row list"
  pt_bounds :: "(nat \<times> int \<times> int) list"

text \<open>The tables that \<open>parse_startup_trace\<close> writes, from the files it reads.\<close>

definition parse_rows ::
    "'w host \<Rightarrow> (string \<Rightarrow> pyval res) \<Rightarrow> (pyval \<Rightarrow> string) \<Rightarrow> path \<Rightarrow> path \<Rightarrow> 'w \<Rightarrow> parsed_trace res" where
  "parse_rows h loads dumps lifecycle_path lime_dir w =
     res_bind (read_jsonl h loads lifecycle_path w) (\<lambda>events.
     res_bind (phase_data events) (\<lambda>(origin, phases, bounds).
     res_bind (lifecycle_records events bounds) (\<lambda>(records, by_create).
     res_bind (load_lime h dumps lime_dir (first_tgid records) w) (\<lambda>lime.
     res_bind (trace_end_of origin events (fst lime)) (\<lambda>trace_end.
     res_bind (timing_rows lime origin trace_end records) (\<lambda>(rows, ivs).
     Inr \<lparr>pt_timing = rows, pt_intervals = ivs,
          pt_timeline = timeline origin bounds records events (fst lime), pt_bounds = bounds\<rparr>))))))"

section \<open>Lemmas\<close>

subsection \<open>Chains of intervals\<close>

text \<open>
  \<open>ivs_ordered lo hi ivs\<close>: the intervals lie between \<open>lo\<close> and \<open>hi\<close>, each starts no earlier than
  its predecessor ends, and each records its own duration. \<open>ivs_tile\<close> asks in addition that they
  leave no gap.
\<close>

definition iv_wf :: "interval \<Rightarrow> bool" where
  "iv_wf i \<longleftrightarrow> iv_start_ns i \<le> iv_end_ns i \<and>
     iv_duration_ms i = ms_between (iv_end_ns i) (iv_start_ns i) \<and>
     iv_state i \<in> {''running'', ''ready'', ''sleeping''}"

fun ivs_ordered :: "int \<Rightarrow> int \<Rightarrow> interval list \<Rightarrow> bool" where
  "ivs_ordered lo hi [] \<longleftrightarrow> lo \<le> hi"
| "ivs_ordered lo hi (i # is) \<longleftrightarrow> lo \<le> iv_start_ns i \<and> iv_wf i \<and> ivs_ordered (iv_end_ns i) hi is"

fun ivs_tile :: "int \<Rightarrow> int \<Rightarrow> interval list \<Rightarrow> bool" where
  "ivs_tile lo hi [] \<longleftrightarrow> lo = hi"
| "ivs_tile lo hi (i # is) \<longleftrightarrow> lo = iv_start_ns i \<and> iv_wf i \<and> ivs_tile (iv_end_ns i) hi is"

lemma ms_between_nonneg: "a \<le> b \<Longrightarrow> 0 \<le> ms_between b a"
  by (simp add: ms_between_def NS_PER_MS_def)

lemma ms_between_split: "ms_between c a = ms_between c b + ms_between b a"
  by (simp add: ms_between_def diff_divide_distrib)

lemma ms_between_self [simp]: "ms_between a a = 0"
  by (simp add: ms_between_def)

lemma ivs_ordered_append:
  "ivs_ordered lo hi (is @ [i]) \<longleftrightarrow> ivs_ordered lo (iv_start_ns i) is \<and> iv_wf i \<and> iv_end_ns i \<le> hi"
  by (induction "is" arbitrary: lo) auto

lemma ivs_tile_append:
  "ivs_tile lo hi (is @ [i]) \<longleftrightarrow> ivs_tile lo (iv_start_ns i) is \<and> iv_wf i \<and> iv_end_ns i = hi"
  by (induction "is" arbitrary: lo) auto

lemma ivs_ordered_le: "ivs_ordered lo hi is \<Longrightarrow> lo \<le> hi"
  by (induction "is" arbitrary: lo) (force simp: iv_wf_def)+

lemma ivs_ordered_mono: "ivs_ordered lo hi is \<Longrightarrow> hi \<le> hi' \<Longrightarrow> ivs_ordered lo hi' is"
  by (induction "is" arbitrary: lo) auto

lemma ivs_ordered_total: "ivs_ordered lo hi is \<Longrightarrow> sum_list (map iv_duration_ms is) \<le> ms_between hi lo"
proof (induction "is" arbitrary: lo)
  case Nil
  then show ?case by (simp add: ms_between_nonneg)
next
  case (Cons i "is")
  then have "sum_list (map iv_duration_ms is) \<le> ms_between hi (iv_end_ns i)" by simp
  moreover have "iv_duration_ms i = ms_between (iv_end_ns i) (iv_start_ns i)"
    "0 \<le> ms_between (iv_start_ns i) lo" using Cons.prems by (auto simp: iv_wf_def intro: ms_between_nonneg)
  ultimately show ?case
    using ms_between_split [of hi lo "iv_end_ns i"] ms_between_split [of "iv_end_ns i" lo "iv_start_ns i"]
    by simp
qed

lemma ivs_tile_total: "ivs_tile lo hi is \<Longrightarrow> sum_list (map iv_duration_ms is) = ms_between hi lo"
proof (induction "is" arbitrary: lo)
  case (Cons i "is")
  then show ?case
    using ms_between_split [of hi lo "iv_end_ns i"] by (simp add: iv_wf_def)
qed simp

lemma ivs_ordered_sorted: "ivs_ordered lo hi is \<Longrightarrow> sorted (map iv_start_ns is) \<and> (\<forall>i \<in> set is. lo \<le> iv_start_ns i)"
proof (induction "is" arbitrary: lo)
  case (Cons i "is")
  then have "sorted (map iv_start_ns is)" "\<forall>j \<in> set is. iv_end_ns i \<le> iv_start_ns j"
    "lo \<le> iv_start_ns i" "iv_start_ns i \<le> iv_end_ns i" by (auto simp: iv_wf_def)
  then show ?case by force
qed simp

subsection \<open>The interval state machine\<close>

definition sched_inv :: "int \<Rightarrow> int \<Rightarrow> sched \<Rightarrow> bool" where
  "sched_inv b t sd \<longleftrightarrow>
     (case (sd_state sd, sd_start sd) of
        (None, None) \<Rightarrow> ivs_ordered b t (sd_intervals sd)
      | (Some st, Some s) \<Rightarrow> st \<in> {''running'', ''ready'', ''sleeping''} \<and> s \<le> t \<and> ivs_ordered b s (sd_intervals sd)
      | _ \<Rightarrow> False)"

lemma sched_inv_cases:
  assumes "sched_inv b t sd"
  obtains (idle) "sd_state sd = None" "sd_start sd = None" "ivs_ordered b t (sd_intervals sd)"
  | (busy) st s where "sd_state sd = Some st" "sd_start sd = Some s" "st \<in> {''running'', ''ready'', ''sleeping''}"
      "s \<le> t" "ivs_ordered b s (sd_intervals sd)"
  using assms unfolding sched_inv_def by (auto split: option.splits)

lemma sched_close_inv:
  assumes "sched_inv b t sd" "t \<le> t'"
  shows "sd_state (sched_close th t' sd) = None" "sd_start (sched_close th t' sd) = None"
    "ivs_ordered b t' (sd_intervals (sched_close th t' sd))"
  using assms(1)
  by (cases rule: sched_inv_cases;
      use assms(2) in \<open>auto simp: sched_close_def ivs_ordered_append iv_wf_def intro: ivs_ordered_mono\<close>)+

lemma sched_close_inv': "sched_inv b t sd \<Longrightarrow> t \<le> t' \<Longrightarrow> sched_inv b t' (sched_close th t' sd)"
  unfolding sched_inv_def [of b t' "sched_close th t' sd"] by (simp add: sched_close_inv)

lemma sched_inv_mono: "sched_inv b t sd \<Longrightarrow> t \<le> t' \<Longrightarrow> sched_inv b t' sd"
  by (auto simp: sched_inv_def intro: ivs_ordered_mono split: option.splits)

lemma sched_inv_idle: "sched_inv b t sd \<Longrightarrow> sd_state sd = None \<Longrightarrow> ivs_ordered b t (sd_intervals sd)"
  by (auto simp: sched_inv_def split: option.splits)

lemma woken_inv:
  assumes "sched_inv b t sd" "t \<le> le_ts e"
  shows "sched_inv b (le_ts e) (woken th e kind sd)"
proof -
  show ?thesis
  proof (cases "sd_state sd = Some ''sleeping''")
    case True
    then show ?thesis
      using sched_close_inv [OF assms, of th] by (simp add: woken_def Let_def sched_inv_def)
  next
    case False
    then show ?thesis
      using sched_inv_mono [OF assms] sched_inv_idle [OF sched_inv_mono [OF assms]]
      by (cases "sd_state sd") (auto simp: woken_def Let_def sched_inv_def)
  qed
qed

lemma sched_step_inv:
  assumes inv: "sched_inv b t sd" and le: "t \<le> le_ts e" and step: "sched_step th e sd = Inr sd'"
  shows "sched_inv b (le_ts e) sd'"
proof -
  note close = sched_close_inv [OF inv le]
  have in': "sched_inv b (le_ts e) (switched_in th e sd)"
    using close by (simp add: switched_in_def sched_inv_def)
  have out: "sched_inv b (le_ts e) (switched_out th e st sd)" for st
    using close by (simp add: switched_out_def sched_inv_def)
  have block: "sched_inv b (le_ts e) (sd\<lparr>sd_blocking := k\<rparr>)" for k
    using sched_inv_mono [OF inv le] by (simp add: sched_inv_def split: option.splits)
  show ?thesis
    using step sched_close_inv' [OF inv le] sched_inv_mono [OF inv le] woken_inv [OF inv le] in' out block
    by (auto simp: sched_step_def Let_def res_bind_Inr_iff split: if_splits)
qed

lemma sched_steps_inv:
  assumes "sched_inv b t sd" "sorted (t # map le_ts es)" "sched_steps th es sd = Inr sd'"
  shows "\<exists>t'. sched_inv b t' sd' \<and> t' \<in> set (t # map le_ts es)"
  using assms
proof (induction es arbitrary: t sd)
  case (Cons e es)
  then obtain sd1 where sd1: "sched_step th e sd = Inr sd1" "sched_steps th es sd1 = Inr sd'"
    by (auto simp: res_bind_Inr_iff)
  have "sched_inv b (le_ts e) sd1"
    using sched_step_inv [OF Cons.prems(1) _ sd1(1)] Cons.prems(2) by simp
  from Cons.IH [OF this _ sd1(2)] Cons.prems(2) show ?case by auto
qed auto

lemma sorted_relevant: "sorted (map le_ts es) \<Longrightarrow> sorted (map le_ts (relevant_events b e es))"
  by (simp add: relevant_events_def sorted_filter)

lemma scheduler_intervals_ordered:
  assumes "sorted (map le_ts es)" "b \<le> e"
    and "scheduler_intervals es b e cycle tid name origin = Inr (ivs, fr, fs)"
  shows "ivs_ordered b e ivs"
proof -
  let ?th = "\<lparr>st_cycle = cycle, st_tid = tid, st_name = name, st_origin = origin\<rparr>"
  let ?rel = "relevant_events b e es"
  obtain sd where sd: "sched_steps ?th ?rel sched_init = Inr sd" "ivs = sd_intervals (sched_close ?th e sd)"
    using assms(3) by (auto simp: scheduler_intervals_def Let_def res_bind_Inr_iff)
  have init: "sched_inv b b sched_init" by (simp add: sched_inv_def sched_init_def)
  have "sorted (b # map le_ts ?rel)" using sorted_relevant [OF assms(1)] by (auto simp: relevant_events_def)
  from sched_steps_inv [OF init this sd(1)] obtain t where "sched_inv b t sd" "t \<in> set (b # map le_ts ?rel)" by blast
  then have "sched_inv b t sd" "t \<le> e" using assms(2) by (auto simp: relevant_events_def)
  from sched_close_inv(3) [OF this] show ?thesis by (simp add: sd(2))
qed


subsection \<open>Tiling\<close>

text \<open>
  As long as the process has not exited, the machine is idle only before its first transition;
  from then on the intervals leave no gap.
\<close>

definition tile_inv :: "sched \<Rightarrow> bool" where
  "tile_inv sd \<longleftrightarrow>
     (case (sd_state sd, sd_start sd) of
        (None, _) \<Rightarrow> sd_intervals sd = []
      | (Some st, Some s) \<Rightarrow> ivs_tile (case sd_intervals sd of [] \<Rightarrow> s | i # _ \<Rightarrow> iv_start_ns i) s (sd_intervals sd)
      | _ \<Rightarrow> False)"

definition is_exit :: "lime_event \<Rightarrow> bool" where
  "is_exit e \<longleftrightarrow> py_str (le_event e) = ''sched_process_exit''"

lemma sched_close_tile:
  assumes "tile_inv sd" "sched_inv b t sd" "t \<le> t'"
  shows "ivs_tile (case sd_intervals (sched_close th t' sd) of [] \<Rightarrow> t' | i # _ \<Rightarrow> iv_start_ns i) t'
    (sd_intervals (sched_close th t' sd))"
  using assms(2)
proof (cases rule: sched_inv_cases)
  case idle
  then show ?thesis using assms(1) by (simp add: tile_inv_def sched_close_def)
next
  case (busy st s)
  then have tile: "ivs_tile (case sd_intervals sd of [] \<Rightarrow> s | i # _ \<Rightarrow> iv_start_ns i) s (sd_intervals sd)"
    using assms(1) by (simp add: tile_inv_def)
  have "\<not> t' < s" using busy assms(3) by simp
  then show ?thesis
    using busy tile by (cases "sd_intervals sd") (auto simp: sched_close_def ivs_tile_append iv_wf_def)
qed

lemma tile_inv_restart:
  assumes "tile_inv sd" "sched_inv b t sd" "t \<le> t'"
    "sd_intervals sd' = sd_intervals (sched_close th t' sd)" "sd_state sd' = Some st" "sd_start sd' = Some t'"
  shows "tile_inv sd'"
  using sched_close_tile [OF assms(1-3), of th] assms(4-6) by (simp add: tile_inv_def)

lemma sched_step_tile:
  assumes tile: "tile_inv sd" and inv: "sched_inv b t sd" and le: "t \<le> le_ts e"
    and step: "sched_step th e sd = Inr sd'" and stay: "\<not> is_exit e"
  shows "tile_inv sd'"
proof -
  note restart = tile_inv_restart [OF tile inv le, of _ th]
  have in': "tile_inv (switched_in th e sd)" by (rule restart) (simp_all add: switched_in_def)
  have out: "tile_inv (switched_out th e st sd)" for st by (rule restart) (simp_all add: switched_out_def)
  have block: "tile_inv (sd\<lparr>sd_blocking := k\<rparr>)" for k
    using tile by (simp add: tile_inv_def split: option.splits)
  have wake: "tile_inv (woken th e kind sd)" for kind
  proof (cases "sd_state sd = Some ''sleeping''")
    case True
    show ?thesis
      by (rule restart) (use True sched_close_inv [OF inv le, of th] in \<open>simp_all add: woken_def Let_def\<close>)
  next
    case False
    show ?thesis
    proof (cases "sd_state sd")
      case None
      then have "sd_intervals sd = []" using tile by (simp add: tile_inv_def)
      then show ?thesis using None by (simp add: woken_def Let_def tile_inv_def)
    qed (use False tile in \<open>simp add: woken_def Let_def\<close>)
  qed
  show ?thesis
    using step stay tile in' out block wake
    by (auto simp: sched_step_def Let_def res_bind_Inr_iff is_exit_def split: if_splits)
qed

lemma sched_steps_tile:
  assumes "tile_inv sd" "sched_inv b t sd" "sorted (t # map le_ts es)" "sched_steps th es sd = Inr sd'"
    "\<forall>e \<in> set es. \<not> is_exit e"
  shows "tile_inv sd'"
  using assms
proof (induction es arbitrary: t sd)
  case (Cons e es)
  then obtain sd1 where sd1: "sched_step th e sd = Inr sd1" "sched_steps th es sd1 = Inr sd'"
    by (auto simp: res_bind_Inr_iff)
  have "tile_inv sd1" "sched_inv b (le_ts e) sd1"
    using sched_step_tile [OF Cons.prems(1,2) _ sd1(1)] sched_step_inv [OF Cons.prems(2) _ sd1(1)] Cons.prems by auto
  from Cons.IH [OF this _ sd1(2)] Cons.prems(3,5) show ?case by auto
qed simp

lemma scheduler_intervals_tile:
  assumes "sorted (map le_ts es)" "b \<le> e" "\<forall>ev \<in> set (relevant_events b e es). \<not> is_exit ev"
    and "scheduler_intervals es b e cycle tid name origin = Inr (ivs, fr, fs)" "ivs \<noteq> []"
  shows "ivs_tile (iv_start_ns (hd ivs)) e ivs"
proof -
  let ?th = "\<lparr>st_cycle = cycle, st_tid = tid, st_name = name, st_origin = origin\<rparr>"
  let ?rel = "relevant_events b e es"
  obtain sd where sd: "sched_steps ?th ?rel sched_init = Inr sd" "ivs = sd_intervals (sched_close ?th e sd)"
    using assms(4) by (auto simp: scheduler_intervals_def Let_def res_bind_Inr_iff)
  have init: "sched_inv b b sched_init" "tile_inv sched_init"
    by (simp_all add: sched_inv_def sched_init_def tile_inv_def assms(2))
  have sorted: "sorted (b # map le_ts ?rel)" using sorted_relevant [OF assms(1)] by (auto simp: relevant_events_def)
  from sched_steps_inv [OF init(1) sorted sd(1)] obtain t where t: "sched_inv b t sd" "t \<in> set (b # map le_ts ?rel)" by blast
  have tile: "tile_inv sd" by (rule sched_steps_tile [OF init(2,1) sorted sd(1) assms(3)])
  have "t \<le> e" using t(2) assms(2) by (auto simp: relevant_events_def)
  from sched_close_tile [OF tile t(1) this, of ?th] assms(5) show ?thesis by (cases ivs) (auto simp: sd(2))
qed

subsection \<open>The lifecycle store\<close>

definition joined_after_created :: "thread_record \<Rightarrow> bool" where
  "joined_after_created r \<longleftrightarrow>
     (case (tr_created_ns r, tr_joined_ns r) of (Some c, Some j) \<Rightarrow> c \<le> j | _ \<Rightarrow> True)"

text \<open>
  Every reference of an index is a position of the store, the references filed under a pthread
  handle belong to records with that handle, and no thread is joined before it was created.
\<close>

definition lc_ok :: "lifecycle \<Rightarrow> bool" where
  "lc_ok lc \<longleftrightarrow>
     (\<forall>((p, t), i) \<in> set (lc_by_create lc). i < length (lc_records lc) \<and> tr_pthread_value (lc_records lc ! i) = p) \<and>
     (\<forall>(tid, is) \<in> set (lc_by_tid lc). \<forall>i \<in> set is. i < length (lc_records lc)) \<and>
     (\<forall>(p, is) \<in> set (lc_by_pthread lc). \<forall>i \<in> set is. i < length (lc_records lc) \<and> tr_pthread_value (lc_records lc ! i) = p) \<and>
     (\<forall>r \<in> set (lc_records lc). joined_after_created r)"

lemma dict_get_setD: "i \<in> set (dict_get d k []) \<Longrightarrow> \<exists>is. (k, is) \<in> set d \<and> i \<in> set is"
  by (cases "map_of d k") (auto simp: dict_get_def dest: map_of_SomeD)

lemma lc_okD:
  assumes "lc_ok lc"
  shows "map_of (lc_by_create lc) (p, t) = Some i \<Longrightarrow> i < length (lc_records lc) \<and> tr_pthread_value (lc_records lc ! i) = p"
    and "i \<in> set (dict_get (lc_by_tid lc) tid []) \<Longrightarrow> i < length (lc_records lc)"
    and "i \<in> set (dict_get (lc_by_pthread lc) q []) \<Longrightarrow> i < length (lc_records lc) \<and> tr_pthread_value (lc_records lc ! i) = q"
    and "i < length (lc_records lc) \<Longrightarrow> joined_after_created (lc_records lc ! i)"
  using assms unfolding lc_ok_def
  by (fastforce dest!: map_of_SomeD, blast dest!: dict_get_setD, fastforce dest!: dict_get_setD, simp)

lemma set_dict_set: "set (dict_set k v d) \<subseteq> insert (k, v) (set d)"
  by (induction d) auto

lemma set_dict_append: "(k', is) \<in> set (dict_append k v d) \<Longrightarrow> i \<in> set is \<Longrightarrow>
   (k' = k \<and> i = v) \<or> (\<exists>is'. (k', is') \<in> set d \<and> i \<in> set is')"
proof -
  assume "(k', is) \<in> set (dict_append k v d)" and i: "i \<in> set is"
  then have "(k', is) = (k, dict_get d k [] @ [v]) \<or> (k', is) \<in> set d"
    using set_dict_set [of k "dict_get d k [] @ [v]" d] by (auto simp: dict_append_def)
  then show ?thesis
    using i by (auto simp: dict_get_def split: option.splits dest: map_of_SomeD)
qed

lemma new_record_ok:
  assumes "lc_ok lc" "joined_after_created r"
  shows "lc_ok (new_record r lc)"
  using assms unfolding lc_ok_def new_record_def
  by (auto simp: nth_append dest!: set_dict_append split: if_splits) (fastforce simp: nth_append)+

lemma update_record_ok:
  assumes ok: "lc_ok lc" and i: "i < length (lc_records lc)"
    and f: "tr_pthread_value (f (lc_records lc ! i)) = tr_pthread_value (lc_records lc ! i)"
      "joined_after_created (f (lc_records lc ! i))"
  shows "lc_ok (update_record i f lc)"
proof -
  have pth: "tr_pthread_value ((lc_records lc)[i := f (lc_records lc ! i)] ! j) = tr_pthread_value (lc_records lc ! j)" for j
    using i f by (cases "j = i") auto
  have "\<forall>r \<in> set ((lc_records lc)[i := f (lc_records lc ! i)]). joined_after_created r"
    using ok f i set_update_subset_insert [of "lc_records lc" i "f (lc_records lc ! i)"] by (auto simp: lc_ok_def)
  then show ?thesis using ok unfolding lc_ok_def update_record_def by (auto simp: pth)
qed

lemma by_tid_ok:
  "lc_ok lc \<Longrightarrow> i < length (lc_records lc) \<Longrightarrow> lc_ok (lc\<lparr>lc_by_tid := dict_append tid i (lc_by_tid lc)\<rparr>)"
  unfolding lc_ok_def by (auto dest!: set_dict_append)

lemma by_create_ok:
  "lc_ok lc \<Longrightarrow> i < length (lc_records lc) \<Longrightarrow> tr_pthread_value (lc_records lc ! i) = p \<Longrightarrow>
     lc_ok (lc\<lparr>lc_by_create := dict_set (p, t) i (lc_by_create lc)\<rparr>)"
  unfolding lc_ok_def using set_dict_set [of "(p, t)" i "lc_by_create lc"] by fastforce

lemma new_record_facts [simp]:
  "length (lc_records (new_record r lc)) = Suc (length (lc_records lc))"
  "lc_records (new_record r lc) ! length (lc_records lc) = r"
  "lc_by_create (new_record r lc) = lc_by_create lc"
  by (simp_all add: new_record_def)

lemma joined_blank [simp]:
  "joined_after_created (blank_record\<lparr>tr_pthread_value := p, tr_created_ns := c, tr_cycle := k\<rparr>)"
  "joined_after_created (blank_record\<lparr>tr_pthread_value := p, tr_parent_tid := a, tr_created_ns := c, tr_cycle := k,
     tr_creation_sequence := s, tr_signature := g, tr_entry_module := m, tr_entry_module_offset := x\<rparr>)"
  "joined_after_created (blank_record\<lparr>tr_tid := i, tr_tgid := j, tr_name := n, tr_created_ns := c, tr_started_ns := c'\<rparr>)"
  by (simp_all add: joined_after_created_def blank_record_def split: option.splits)

lemma on_create_ok: "lc_ok lc \<Longrightarrow> on_create bounds e lc = Inr lc' \<Longrightarrow> lc_ok lc'"
proof -
  assume ok: "lc_ok lc" and run: "on_create bounds e lc = Inr lc'"
  from run obtain r t where lc': "lc' = (new_record r lc)\<lparr>lc_by_create :=
        dict_set (ev_pthread e, t) (length (lc_records lc)) (lc_by_create (new_record r lc))\<rparr>"
    and r: "tr_pthread_value r = ev_pthread e" "joined_after_created r"
    by (auto simp: on_create_def Let_def res_bind_Inr_iff)
  show "lc_ok lc'" unfolding lc' by (rule by_create_ok) (simp_all add: new_record_ok ok r)
qed

lemma find_created_ok:
  assumes ok: "lc_ok lc" and run: "find_created bounds e t lc = (i, lc')"
  shows "lc_ok lc'" "i < length (lc_records lc')"
proof -
  have "lc_ok lc' \<and> i < length (lc_records lc')"
  proof (cases "map_of (lc_by_create lc) (ev_pthread e, t)")
    case None
    then obtain c where i: "i = length (lc_records lc)" and lc': "lc' = (let lc1 = new_record (blank_record\<lparr>tr_pthread_value := ev_pthread e,
        tr_created_ns := c, tr_cycle := cycle_at c bounds\<rparr>) lc
        in lc1\<lparr>lc_by_create := dict_set (ev_pthread e, t) i (lc_by_create lc1)\<rparr>)"
      using run unfolding find_created_def Let_def by (auto simp del: new_record_facts)
    have "lc_ok lc'" unfolding lc' Let_def
      by (rule by_create_ok) (simp_all add: new_record_ok ok i)
    then show ?thesis by (simp add: lc' Let_def i)
  next
    case (Some j)
    then show ?thesis using run lc_okD(1) [OF ok] ok by (auto simp: find_created_def)
  qed
  then show "lc_ok lc'" "i < length (lc_records lc')" by auto
qed

lemma on_start_ok: "lc_ok lc \<Longrightarrow> on_start bounds e lc = Inr lc' \<Longrightarrow> lc_ok lc'"
proof -
  assume ok: "lc_ok lc" and run: "on_start bounds e lc = Inr lc'"
  from run obtain t i lc1 tid sg where find: "find_created bounds e t lc = (i, lc1)"
    and lc': "lc' = (let lc2 = update_record i (started_record e tid (first_tgid (lc_records lc1)) sg) lc1
                     in lc2\<lparr>lc_by_tid := dict_append tid i (lc_by_tid lc2)\<rparr>)"
    unfolding on_start_def Let_def res_bind_Inr_iff case_prod_unfold
    by (metis prod.collapse sum.inject(2))
  note f = find_created_ok [OF ok find]
  have "lc_ok (update_record i (started_record e tid g sg) lc1)" for g
    by (rule update_record_ok [OF f]) (use lc_okD(4) [OF f] in \<open>auto simp: started_record_def joined_after_created_def\<close>)
  then show "lc_ok lc'" unfolding lc' Let_def by (rule by_tid_ok) (simp add: update_record_def f)
qed

lemma last_candidate: "filter P xs \<noteq> [] \<Longrightarrow> last (filter P xs) \<in> set xs \<and> P (last (filter P xs))"
  using last_in_set [of "filter P xs"] by auto

lemma on_name_ok: "lc_ok lc \<Longrightarrow> on_name e lc = Inr lc' \<Longrightarrow> lc_ok lc'"
proof -
  assume ok: "lc_ok lc" and run: "on_name e lc = Inr lc'"
  have upd: "lc_ok (update_record i (named e) lc)" if "i < length (lc_records lc)" for i
    by (rule update_record_ok [OF ok that])
      (use lc_okD(4) [OF ok that] in \<open>auto simp: named_def joined_after_created_def\<close>)
  have "lc_ok (if xs = [] then lc else update_record (last xs) (named e) lc)"
    if "\<And>i. i \<in> set xs \<Longrightarrow> i < length (lc_records lc)" for xs
    using ok upd that by auto
  note upd' = this
  from run obtain xs where
    xs: "(case dict_get e ''caller_tid'' PNone of PNone \<Rightarrow> Inr []
       | v \<Rightarrow> res_bind (py_intv v) (\<lambda>tid. Inr (dict_get (lc_by_tid lc) tid []))) = Inr xs"
    and lc': "(let c = (if xs = [] then dict_get (lc_by_pthread lc) (ev_pthread e) [] else xs)
      in if c = [] then lc else update_record (last c) (named e) lc) = lc'"
    unfolding on_name_def res_bind_Inr_iff by (elim exE conjE) (rule that, assumption, simp only: Let_def sum.inject)
  have "i < length (lc_records lc)" if "i \<in> set xs" for i
  proof -
    from xs that obtain tid where "xs = dict_get (lc_by_tid lc) tid []"
      by (cases "dict_get e ''caller_tid'' PNone") (auto simp: res_bind_Inr_iff simp del: py_intv.simps)
    with that show ?thesis using lc_okD(2) [OF ok] by blast
  qed
  then show "lc_ok lc'"
    unfolding lc' [symmetric] Let_def by (intro upd') (auto split: if_splits dest: lc_okD(3) [OF ok])
qed

lemma update_last_ok:
  assumes "lc_ok lc" "\<And>i. i \<in> set xs \<Longrightarrow> i < length (lc_records lc)"
    "\<And>i. i < length (lc_records lc) \<Longrightarrow> P i \<Longrightarrow> lc_ok (update_record i f lc)"
  shows "lc_ok (if filter P xs = [] then lc else update_record (last (filter P xs)) f lc)"
  using assms last_candidate [of P xs] by auto

lemma on_exit_ok: "lc_ok lc \<Longrightarrow> on_exit e lc = Inr lc' \<Longrightarrow> lc_ok lc'"
proof -
  assume ok: "lc_ok lc" and run: "on_exit e lc = Inr lc'"
  have upd: "lc_ok (update_record i (\<lambda>r. named e (r\<lparr>tr_exited_ns := t\<rparr>)) lc)" if "i < length (lc_records lc)" for i t
    by (rule update_record_ok [OF ok that])
      (use lc_okD(4) [OF ok that] in \<open>auto simp: named_def joined_after_created_def\<close>)
  from run obtain tid where lc': "lc' = (let c = filter (\<lambda>i. tr_exited_ns (lc_records lc ! i) = None) (dict_get (lc_by_tid lc) tid [])
      in if c = [] then lc else update_record (last c) (\<lambda>r. named e (r\<lparr>tr_exited_ns := ev_timestamp e\<rparr>)) lc)"
    unfolding on_exit_def Let_def res_bind_Inr_iff by auto
  show "lc_ok lc'"
    unfolding lc' Let_def by (rule update_last_ok [OF ok]) (use upd lc_okD(2) [OF ok] in auto)
qed

lemma on_join_or_detach_ok: "lc_ok lc \<Longrightarrow> lc_ok (on_join_or_detach joined e lc)"
proof -
  assume ok: "lc_ok lc"
  let ?P = "\<lambda>i. created_before (ev_timestamp e) (lc_records lc ! i)"
  let ?f = "if joined then (\<lambda>r. r\<lparr>tr_joined_ns := ev_timestamp e, tr_joined_by := dict_get e ''caller_tid'' PNone\<rparr>)
            else (\<lambda>r. r\<lparr>tr_detached_by := dict_get e ''caller_tid'' PNone\<rparr>)"
  have upd: "lc_ok (update_record i ?f lc)" if "i < length (lc_records lc)" "?P i" for i
    by (rule update_record_ok [OF ok that(1)])
      (use that lc_okD(4) [OF ok that(1)] in \<open>auto simp: joined_after_created_def created_before_def split: option.splits\<close>)
  have "lc_ok (if filter ?P xs = [] then lc else update_record (last (filter ?P xs)) ?f lc)"
    if "xs = dict_get (lc_by_pthread lc) (ev_pthread e) []" for xs
    by (rule update_last_ok [OF ok _ upd]) (use lc_okD(3) [OF ok] that in auto)
  note upd' = this [OF refl]
  show ?thesis
  proof (cases "eq_zero (dict_get e ''result'' (PInt 0))")
    case True
    then show ?thesis using upd' unfolding on_join_or_detach_def Let_def by (simp only: not_True_eq_False simp_thms)
  qed (simp add: on_join_or_detach_def Let_def ok)
qed

lemma on_process_end_ok: "lc_ok lc \<Longrightarrow> lc_ok (on_process_end e lc)"
proof -
  assume ok: "lc_ok lc"
  let ?f = "\<lambda>r. if tr_tid r = tr_tgid r then r\<lparr>tr_exited_ns := ev_timestamp e\<rparr> else r"
  have keep: "tr_pthread_value (?f r) = tr_pthread_value r" "joined_after_created (?f r) = joined_after_created r" for r
    by (auto simp: joined_after_created_def split: option.splits)
  define rs where "rs = map ?f (lc_records lc)"
  have rs: "length rs = length (lc_records lc)" "\<And>i. i < length rs \<Longrightarrow> tr_pthread_value (rs ! i) = tr_pthread_value (lc_records lc ! i)"
    "(\<forall>r \<in> set rs. joined_after_created r) = (\<forall>r \<in> set (lc_records lc). joined_after_created r)"
    using keep by (simp_all only: rs_def length_map nth_map set_map ball_simps)
  have "on_process_end e lc = lc\<lparr>lc_records := rs\<rparr>" by (simp add: on_process_end_def rs_def)
  then show ?thesis using ok rs unfolding lc_ok_def by auto
qed

lemma register_main_ok: "register_main es = Inr lc \<Longrightarrow> lc_ok lc"
proof -
  assume run: "register_main es = Inr lc"
  have empty: "lc_ok lc_empty" by (simp add: lc_ok_def lc_empty_def)
  have "lc_ok ((new_record r lc_empty)\<lparr>lc_by_tid := dict_append tid 0 (lc_by_tid (new_record r lc_empty))\<rparr>)"
    if "joined_after_created r" for r tid
    by (rule by_tid_ok) (simp_all add: new_record_ok empty that)
  with run empty show ?thesis
    by (auto simp: register_main_def Let_def res_bind_Inr_iff split: option.splits if_splits)
qed

lemma lifecycle_step_ok: "lc_ok lc \<Longrightarrow> lifecycle_step bounds e lc = Inr lc' \<Longrightarrow> lc_ok lc'"
  by (auto simp: lifecycle_step_def Let_def on_join_or_detach_ok on_process_end_ok split: if_splits
      dest: on_create_ok on_start_ok on_name_ok on_exit_ok)

lemma lifecycle_steps_ok: "lc_ok lc \<Longrightarrow> lifecycle_steps bounds es lc = Inr lc' \<Longrightarrow> lc_ok lc'"
  by (induction es arbitrary: lc) (auto simp: res_bind_Inr_iff dest: lifecycle_step_ok)

subsection \<open>Totals\<close>

lemma ivs_ordered_wf: "ivs_ordered lo hi is \<Longrightarrow> \<forall>i \<in> set is. iv_wf i"
  by (induction "is" arbitrary: lo) auto

lemma totals_nonneg: "\<forall>i \<in> set is. iv_wf i \<Longrightarrow> 0 \<le> totals is st"
  unfolding totals_def by (rule sum_list_nonneg) (auto simp: iv_wf_def intro: ms_between_nonneg)

lemma totals_sum:
  "\<forall>i \<in> set is. iv_wf i \<Longrightarrow>
     totals is ''running'' + totals is ''sleeping'' + totals is ''ready'' = sum_list (map iv_duration_ms is)"
  by (induction "is") (auto simp: totals_def iv_wf_def)

lemma counts_sum:
  "\<forall>i \<in> set is. iv_wf i \<Longrightarrow> counts is ''running'' + counts is ''sleeping'' + counts is ''ready'' = length is"
  by (induction "is") (auto simp: counts_def iv_wf_def)

lemma scheduler_intervals_empty_window:
  assumes "\<not> b \<le> e" "scheduler_intervals es b e cycle tid name origin = Inr (ivs, fr, fs)"
  shows "ivs = []"
proof -
  have "relevant_events b e es = []" using assms(1) by (auto simp: relevant_events_def filter_empty_conv)
  with assms(2) show ?thesis by (simp add: scheduler_intervals_def Let_def sched_init_def sched_close_def)
qed

text \<open>The three totals of a thread, whatever its window.\<close>

lemma scheduler_intervals_totals:
  assumes "sorted (map le_ts es)" "scheduler_intervals es b e cycle tid name origin = Inr (ivs, fr, fs)"
  shows "\<forall>i \<in> set ivs. iv_wf i"
    and "totals ivs ''running'' + totals ivs ''sleeping'' + totals ivs ''ready'' \<le> max 0 (ms_between e b)"
proof -
  have "(\<forall>i \<in> set ivs. iv_wf i) \<and> sum_list (map iv_duration_ms ivs) \<le> max 0 (ms_between e b)"
  proof (cases "b \<le> e")
    case True
    from scheduler_intervals_ordered [OF assms(1) True assms(2)] show ?thesis
      using ivs_ordered_wf ivs_ordered_total by (meson max.coboundedI2)
  next
    case False
    from scheduler_intervals_empty_window [OF False assms(2)] show ?thesis by simp
  qed
  then show "\<forall>i \<in> set ivs. iv_wf i"
    and "totals ivs ''running'' + totals ivs ''sleeping'' + totals ivs ''ready'' \<le> max 0 (ms_between e b)"
    by (simp_all add: totals_sum)
qed

lemma load_lime_sorted:
  "load_lime h dumps lime_dir tgid w = Inr lime \<Longrightarrow> sorted (map le_ts (dict_get (fst lime) tid []))"
proof -
  assume "load_lime h dumps lime_dir tgid w = Inr lime"
  then obtain evs where "fst lime = map (\<lambda>(tid, es). (tid, sort_key le_ts es)) evs"
    by (auto simp: load_lime_def res_bind_Inr_iff)
  then have "map_of (fst lime) tid = map_option (sort_key le_ts) (map_of evs tid)"
    by (simp add: map_of_map)
  then show ?thesis by (auto simp: dict_get_def split: option.splits)
qed

definition row_budget :: "timing_row \<Rightarrow> bool" where
  "row_budget row \<longleftrightarrow>
     0 \<le> tm_execution_ms row \<and> 0 \<le> tm_sleep_ms row \<and> 0 \<le> tm_ready_ms row \<and>
     (\<forall>c x. tm_created_ns row = Some c \<longrightarrow> c \<noteq> 0 \<longrightarrow> tm_exited_ns row = Some x \<longrightarrow> x \<noteq> 0 \<longrightarrow>
        tm_execution_ms row + tm_sleep_ms row + tm_ready_ms row \<le> max 0 (ms_between x c))"

lemma thread_timing_budget:
  assumes sorted: "\<And>tid. sorted (map le_ts (dict_get (fst lime) tid []))"
    and run: "thread_timing lime origin trace_end r = Inr (rows, ivs)" and row: "row \<in> set rows"
  shows "row_budget row"
proof -
  from run row obtain tid b e fr fs where
    sched: "scheduler_intervals (dict_get (fst lime) tid []) b e (tr_cycle r) tid
      (py_str (py_or (tr_name r) (PStr []))) origin = Inr (ivs, fr, fs)"
    and win: "event_window r trace_end = (b, e)"
    and row: "row = timing_row_of origin (dict_get (snd lime) tid []) r tid (ivs, fr, fs)"
    by (auto simp: thread_timing_def res_bind_Inr_iff split: option.splits prod.splits)
  note t = scheduler_intervals_totals [OF sorted sched]
  have "b = c \<and> e = x" if "tr_created_ns r = Some c" "c \<noteq> 0" "tr_exited_ns r = Some x" "x \<noteq> 0" for c x
    using win that by (auto simp: event_window_def time_or_def)
  with t totals_nonneg [OF t(1)] show ?thesis by (auto simp: row_budget_def row timing_row_of_def)
qed

lemma timing_rows_budget:
  assumes "\<And>tid. sorted (map le_ts (dict_get (fst lime) tid []))"
    "timing_rows lime origin trace_end rs = Inr (rows, ivs)"
  shows "\<forall>row \<in> set rows. row_budget row"
  using assms(2)
proof (induction rs arbitrary: rows ivs)
  case (Cons r rs)
  then show ?case using thread_timing_budget [OF assms(1)] by (fastforce simp: res_bind_Inr_iff split: prod.splits)
qed simp

lemma parse_rows_cases:
  assumes "parse_rows h loads dumps lp ld w = Inr pt"
  obtains events origin phases bounds records by_create lime trace_end where
    "read_jsonl h loads lp w = Inr events" "phase_data events = Inr (origin, phases, bounds)"
    "lifecycle_records events bounds = Inr (records, by_create)"
    "load_lime h dumps ld (first_tgid records) w = Inr lime"
    "timing_rows lime origin trace_end records = Inr (pt_timing pt, pt_intervals pt)"
    "pt_timeline pt = timeline origin bounds records events (fst lime)" "pt_bounds pt = bounds"
proof -
  from assms obtain events ph rb lime trace_end ti where
    run: "read_jsonl h loads lp w = Inr events" "phase_data events = Inr ph"
      "lifecycle_records events (snd (snd ph)) = Inr rb" "load_lime h dumps ld (first_tgid (fst rb)) w = Inr lime"
      "timing_rows lime (fst ph) trace_end (fst rb) = Inr ti"
    and pt: "pt = \<lparr>pt_timing = fst ti, pt_intervals = snd ti,
        pt_timeline = timeline (fst ph) (snd (snd ph)) (fst rb) events (fst lime), pt_bounds = snd (snd ph)\<rparr>"
    unfolding parse_rows_def res_bind_Inr_iff case_prod_unfold by auto
  show ?thesis
    by (rule that [of events "fst ph" "fst (snd ph)" "snd (snd ph)" "fst rb" "snd rb" lime trace_end])
      (simp_all add: run pt)
qed

text \<open>
  In the table of thread timings that the parser writes, no thread has a negative execution,
  sleep or ready time, and the three add up to at most the time between its creation and its exit,
  for any trace the parser accepts.
\<close>

lemma parse_rows_time_budget:
  assumes "parse_rows h loads dumps lp ld w = Inr pt" "row \<in> set (pt_timing pt)"
  shows "0 \<le> tm_execution_ms row \<and> 0 \<le> tm_sleep_ms row \<and> 0 \<le> tm_ready_ms row \<and>
     (\<forall>c x. tm_created_ns row = Some c \<longrightarrow> c \<noteq> 0 \<longrightarrow> tm_exited_ns row = Some x \<longrightarrow> x \<noteq> 0 \<longrightarrow>
        tm_execution_ms row + tm_sleep_ms row + tm_ready_ms row \<le> max 0 (ms_between x c))"
  using assms(1)
proof (cases rule: parse_rows_cases)
  case (1 events origin phases bounds records by_create lime trace_end)
  from timing_rows_budget [OF load_lime_sorted [OF 1(4)] 1(5)] assms(2)
  show ?thesis by (simp add: row_budget_def)
qed

text \<open>A trace of one worker thread, which sleeps once and is switched in twice.\<close>

definition demo_line :: "string \<Rightarrow> int \<Rightarrow> pydict \<Rightarrow> pydict" where
  "demo_line ev t d = (''event'', PStr ev) # (''timestamp_ns'', PInt t) # d"

definition demo_lines :: "(string \<times> pydict) list" where
  "demo_lines = [
     (''1'', demo_line ''phase_marker'' 100 [(''name'', PStr ''process_start''), (''tid'', PInt 10)]),
     (''2'', demo_line ''phase_marker'' 150 [(''name'', PStr ''cycle_1_begin'')]),
     (''3'', demo_line ''pthread_create'' 200 [(''pthread_value'', PStr ''p''), (''result'', PInt 0), (''caller_tid'', PInt 10)]),
     (''4'', demo_line ''thread_start'' 210 [(''pthread_value'', PStr ''p''), (''tid'', PInt 11), (''create_timestamp_ns'', PInt 200)]),
     (''5'', demo_line ''thread_exit'' 900 [(''tid'', PInt 11)]),
     (''6'', demo_line ''pthread_join_end'' 950 [(''pthread_value'', PStr ''p''), (''caller_tid'', PInt 10)])]"

definition demo_loads :: "string \<Rightarrow> pyval res" where
  "demo_loads line = (case map_of demo_lines line of Some d \<Rightarrow> Inr (PDict d) | None \<Rightarrow> Inl (Exn JSONDecodeError line))"

definition demo_event :: "string \<Rightarrow> int \<Rightarrow> int \<Rightarrow> pyval" where
  "demo_event ev ts st = PDict [(''event'', PStr ev), (''ts'', PInt ts), (''cpu'', PInt 2), (''state'', PInt st)]"

definition demo_trace :: sim where
  "demo_trace = sim_empty\<lparr>
     sim_files := [([''t'', ''lifecycle.jsonl''],
         concat (map (\<lambda>(n, _). n @ [CHR 0x0A]) demo_lines)),
       ([''t'', ''lime'', ''11-1.infos.json''], []), ([''t'', ''lime'', ''11-1.events.json''], [])],
     sim_json := [
       ([''t'', ''lime'', ''11-1.infos.json''], PDict [(''pid'', PInt 11), (''tgid'', PInt 10), (''policy'', PStr ''SCHED_OTHER'')]),
       ([''t'', ''lime'', ''11-1.events.json''], PList [demo_event ''sched_switched_in'' 300 0,
          demo_event ''sched_switched_out'' 500 1, demo_event ''sched_switched_in'' 650 0, demo_event ''sched_wake_up'' 600 0])]\<rparr>"

abbreviation demo_rows :: "parsed_trace res" where
  "demo_rows \<equiv> parse_rows sim_host demo_loads (\<lambda>_. []) [''t'', ''lifecycle.jsonl''] [''t'', ''lime''] demo_trace"

lemma demo_rows_run:
  "case demo_rows of
     Inr pt \<Rightarrow> (case pt_timing pt of
         [a, row] \<Rightarrow> tm_created_ns row = Some 200 \<and> tm_exited_ns row = Some 900 \<and> tm_joined_ns row = Some 950 \<and>
           (tm_execution_ms row, tm_sleep_ms row, tm_ready_ms row) = (450 / 1000000, 100 / 1000000, 50 / 1000000)
       | _ \<Rightarrow> False)
   | Inl _ \<Rightarrow> False"
  by code_simp

subsection \<open>Properties\<close>

text \<open>
  C11. When no exit of the thread is seen in its window, its intervals leave no gap: they tile the
  time from its first scheduler transition to the end of the window, and the running, sleeping and
  ready times add up to exactly that time.
\<close>

theorem scheduler_intervals_conserve:
  assumes "sorted (map le_ts es)" "b \<le> e" "\<forall>ev \<in> set (relevant_events b e es). \<not> is_exit ev"
    and "scheduler_intervals es b e cycle tid name origin = Inr (ivs, fr, fs)" "ivs \<noteq> []"
  shows "ivs_tile (iv_start_ns (hd ivs)) e ivs \<and>
    totals ivs ''running'' + totals ivs ''sleeping'' + totals ivs ''ready'' = ms_between e (iv_start_ns (hd ivs))"
  using scheduler_intervals_tile [OF assms] ivs_tile_total
    totals_sum [OF scheduler_intervals_totals(1) [OF assms(1,4)]] by simp

definition demo_sched_events :: "lime_event list" where
  "demo_sched_events = List.map_filter (lime_event_of (''SCHED_OTHER'', []) ''11-1'')
     [demo_event ''sched_wake_up_new'' 250 0, demo_event ''sched_switched_in'' 300 0, demo_event ''enter_futex'' 400 0,
      demo_event ''sched_switched_out'' 500 1, demo_event ''sched_wake_up'' 600 0]"

theorem scheduler_intervals_conserve_witness:
  "\<exists>ivs fr fs. scheduler_intervals demo_sched_events 200 700 1 11 ''w'' 0 = Inr (ivs, fr, fs) \<and>
     map iv_state ivs = [''ready'', ''running'', ''sleeping'', ''ready''] \<and>
     totals ivs ''running'' + totals ivs ''sleeping'' + totals ivs ''ready'' = ms_between 700 250"
proof -
  have "case scheduler_intervals demo_sched_events 200 700 1 11 ''w'' 0 of Inr (ivs, fr, fs) \<Rightarrow>
      map iv_state ivs = [''ready'', ''running'', ''sleeping'', ''ready''] \<and> iv_start_ns (hd ivs) = 250 | Inl _ \<Rightarrow> False"
    by code_simp
  then obtain ivs fr fs where run: "scheduler_intervals demo_sched_events 200 700 1 11 ''w'' 0 = Inr (ivs, fr, fs)"
    and ivs: "map iv_state ivs = [''ready'', ''running'', ''sleeping'', ''ready'']" "iv_start_ns (hd ivs) = 250"
    by (auto split: sum.splits)
  have s: "sorted (map le_ts demo_sched_events)"
    "\<forall>ev \<in> set (relevant_events 200 700 demo_sched_events). \<not> is_exit ev" by code_simp+
  have "ivs \<noteq> []" using ivs(1) by auto
  with scheduler_intervals_conserve [OF s(1) _ s(2) run] ivs run show ?thesis by simp
qed

text \<open>
  C12. The thread records built from a lifecycle trace are consistent: every entry of the creation
  index is the position of a record with that pthread handle, no thread is joined before it was
  created, and all records belong to one process.
\<close>

theorem lifecycle_records_consistent:
  assumes "lifecycle_records events bounds = Inr (records, by_create)"
  shows "(\<forall>((p, t), i) \<in> set by_create. i < length records \<and> tr_pthread_value (records ! i) = p) \<and>
    (\<forall>r \<in> set records. \<forall>c j. tr_created_ns r = Some c \<longrightarrow> tr_joined_ns r = Some j \<longrightarrow> c \<le> j) \<and>
    (\<forall>r \<in> set records. \<forall>r' \<in> set records. tr_tgid r = tr_tgid r')"
proof -
  from assms obtain lc0 lc where run: "register_main events = Inr lc0" "lifecycle_steps bounds events lc0 = Inr lc"
    and out: "records = map (finish_record bounds (first_tgid (lc_records lc))) (lc_records lc)" "by_create = lc_by_create lc"
    by (auto simp: lifecycle_records_def res_bind_Inr_iff)
  have ok: "lc_ok lc" by (rule lifecycle_steps_ok [OF register_main_ok [OF run(1)] run(2)])
  then have "\<forall>((p, t), i) \<in> set by_create. i < length records \<and> tr_pthread_value (records ! i) = p"
    unfolding lc_ok_def by (auto simp: out finish_record_def)
  moreover have "\<forall>r \<in> set records. \<forall>c j. tr_created_ns r = Some c \<longrightarrow> tr_joined_ns r = Some j \<longrightarrow> c \<le> j"
    using ok unfolding lc_ok_def by (auto simp: out finish_record_def joined_after_created_def)
  ultimately show ?thesis by (simp add: out finish_record_def)
qed

theorem lifecycle_records_consistent_witness:
  "\<exists>records by_create. lifecycle_records (map snd demo_lines) [(1, 150, 1000)] = Inr (records, by_create) \<and>
     by_create = [((''p'', 200), 1)] \<and> tr_pthread_value (records ! 1) = ''p'' \<and>
     (\<forall>r \<in> set records. \<forall>r' \<in> set records. tr_tgid r = tr_tgid r')"
proof -
  have "case lifecycle_records (map snd demo_lines) [(1, 150, 1000)] of Inr (records, by_create) \<Rightarrow>
      by_create = [((''p'', 200), 1)] | Inl _ \<Rightarrow> False"
    by code_simp
  then obtain records where run: "lifecycle_records (map snd demo_lines) [(1, 150, 1000)] = Inr (records, [((''p'', 200), 1)])"
    by (auto split: sum.splits)
  note ok = lifecycle_records_consistent [OF run]
  from ok have "tr_pthread_value (records ! 1) = ''p''" by simp
  with ok run show ?thesis by blast
qed

text \<open>
  The merged timeline is in chronological order and holds exactly one row per lifecycle event
  that has a time and one per scheduler event, with the time and the source of the event.
\<close>

lemma timeline_complete:
  "sorted (map tl_timestamp_ns (timeline origin bounds records events lime_events)) \<and>
   mset (map (\<lambda>row. (tl_source row, tl_timestamp_ns row)) (timeline origin bounds records events lime_events)) =
     mset (map (Pair ''pthread'') (List.map_filter ev_timestamp events)) +
     mset (concat (map (\<lambda>(tid, es). map (\<lambda>e. (''lime_ebpf'', le_ts e)) es) lime_events))"
proof
  have "sorted (map (\<lambda>row. (tl_timestamp_ns row, tl_source row)) (timeline origin bounds records events lime_events))"
    unfolding timeline_def by (rule sorted_sort_key)
  then show "sorted (map tl_timestamp_ns (timeline origin bounds records events lime_events))"
    by (auto simp: sorted_map intro: sorted_wrt_mono_rel [rotated])
next
  have p: "map (\<lambda>row. (tl_source row, tl_timestamp_ns row)) (List.map_filter (pthread_row origin bounds records) events) =
      map (Pair ''pthread'') (List.map_filter ev_timestamp events)"
    by (induction events) (auto simp: List.map_filter_def pthread_row_def Let_def split: option.splits)
  have l: "map (\<lambda>row. (tl_source row, tl_timestamp_ns row))
        (concat (map (\<lambda>(tid, es). map (lime_row origin bounds tid) es) lime_events)) =
      concat (map (\<lambda>(tid, es). map (\<lambda>e. (''lime_ebpf'', le_ts e)) es) lime_events)"
    by (induction lime_events) (auto simp: lime_row_def)
  show "mset (map (\<lambda>row. (tl_source row, tl_timestamp_ns row)) (timeline origin bounds records events lime_events)) =
     mset (map (Pair ''pthread'') (List.map_filter ev_timestamp events)) +
     mset (concat (map (\<lambda>(tid, es). map (\<lambda>e. (''lime_ebpf'', le_ts e)) es) lime_events))"
    unfolding timeline_def mset_map mset_sort mset_append image_mset_union
    by (simp only: mset_map [symmetric] p l)
qed

subsection \<open>Cycles\<close>

lemma map_fst_cycle_bounds: "map fst (cycle_bounds te ends starts) = map fst starts"
  by (induction te ends starts rule: cycle_bounds.induct) (auto simp: Let_def)

lemma phase_data_sorted: "phase_data events = Inr (origin, phases, bounds) \<Longrightarrow> sorted (map fst bounds)"
  by (auto simp: phase_data_def Let_def res_bind_Inr_iff map_fst_cycle_bounds)

lemma find_sorted_least:
  assumes "sorted (map fst bounds)" "find P bounds = Some x" "y \<in> set bounds" "P y"
  shows "x \<in> set bounds \<and> P x \<and> fst x \<le> fst y"
  using assms by (induction bounds) (auto split: if_splits)

text \<open>
  An instant is attributed to a cycle exactly when it lies between the begin and the end of that
  cycle and of no cycle with a smaller number.
\<close>

lemma cycle_at_spec:
  assumes "phase_data events = Inr (origin, phases, bounds)" "c \<noteq> 0"
  shows "cycle_at (Some t) bounds = c \<longleftrightarrow>
     (\<exists>b e. (c, b, e) \<in> set bounds \<and> b \<le> t \<and> t \<le> e) \<and>
     (\<forall>(c', b', e') \<in> set bounds. b' \<le> t \<and> t \<le> e' \<longrightarrow> c \<le> c')"
proof -
  note sorted = phase_data_sorted [OF assms(1)]
  let ?P = "\<lambda>(c, b, e). b \<le> t \<and> t \<le> (e :: int)"
  have at: "cycle_at (Some t) bounds = (case find ?P bounds of Some (c, _) \<Rightarrow> c | None \<Rightarrow> 0)"
    using sorted by (simp add: cycle_at_def sort_key_id_if_sorted)
  show ?thesis
  proof (cases "find ?P bounds")
    case None
    then have "\<not> (\<exists>b e. (c, b, e) \<in> set bounds \<and> b \<le> t \<and> t \<le> e)" by (auto simp: find_None_iff)
    then show ?thesis using None at assms(2) by simp
  next
    case (Some x)
    obtain c0 b0 e0 where x: "x = (c0, b0, e0)" by (cases x)
    have in': "x \<in> set bounds" "?P x" using Some unfolding find_Some_iff by (metis nth_mem, metis)
    note least = find_sorted_least [OF sorted Some]
    show ?thesis using Some at x in' least by fastforce
  qed
qed

end
