(* ===== verification/Statistics.thy ===== *)
theory Statistics
  imports Json
begin

text \<open>
  Sample statistics. The scripts compute percentiles by linear interpolation, in several
  textual variants: one each of \<open>parse_steady_trace.py\<close>, \<open>compare_usb_irq_pressure.py\<close>,
  \<open>build_startup_model.py\<close> and \<open>paper_metrics.py\<close> is modelled as written, with the
  exceptions its list accesses can raise. The locale \<open>percentile_estimator\<close> states what the
  callers rely on (the value is the interpolated quantile of the sorted sample); each variant is
  interpreted in it. Floats are exact rationals.
\<close>

section \<open>Definitions\<close>

text \<open>\<open>xs[i]\<close>: negative positions count from the end, positions out of range raise.\<close>

definition py_index :: "'a list \<Rightarrow> int \<Rightarrow> 'a res" where
  "py_index xs i =
     (let j = (if i < 0 then i + int (length xs) else i) in
      if 0 \<le> j \<and> j < int (length xs) then Inr (xs ! nat j)
      else Inl (Exn IndexError ''list index out of range''))"

definition percentile :: "rat list \<Rightarrow> rat \<Rightarrow> rat res" where
  "percentile values quantile =
     (let ordered = sort values in
      if ordered = [] then Inr 0
      else if length ordered = 1 then py_index ordered 0
      else
        (let position = quantile * of_nat (length ordered - 1);
             low = rat_trunc position;
             high = min (low + 1) (int (length ordered) - 1)
         in
         res_bind (py_index ordered low) (\<lambda>a.
         res_bind (py_index ordered high) (\<lambda>b.
         Inr (a + (b - a) * (position - of_int low))))))"

text \<open>The variant without a case for a single sample, which weights the two neighbours.\<close>

definition percentile_weighted :: "rat list \<Rightarrow> rat \<Rightarrow> rat res" where
  "percentile_weighted values quantile =
     (let ordered = sort values in
      if ordered = [] then Inr 0
      else
        (let position = quantile * of_nat (length ordered - 1);
             lower = rat_trunc position;
             upper = min (lower + 1) (int (length ordered) - 1);
             fraction = position - of_int lower
         in
         res_bind (py_index ordered lower) (\<lambda>a.
         res_bind (py_index ordered upper) (\<lambda>b.
         Inr (a * (1 - fraction) + b * fraction)))))"

text \<open>The variant of the startup model: missing samples are skipped, no sample gives \<open>None\<close>.\<close>

definition percentile_opt :: "rat option list \<Rightarrow> rat \<Rightarrow> rat option res" where
  "percentile_opt values fraction =
     (let ordered = sort (List.map_filter id values) in
      if ordered = [] then Inr None
      else if length ordered = 1 then res_bind (py_index ordered 0) (\<lambda>a. Inr (Some a))
      else
        (let position = of_nat (length ordered - 1) * fraction;
             lower = \<lfloor>position\<rfloor>;
             upper = \<lceil>position\<rceil>
         in
         if lower = upper then res_bind (py_index ordered lower) (\<lambda>a. Inr (Some a))
         else
           (let weight = position - of_int lower in
            res_bind (py_index ordered lower) (\<lambda>a.
            res_bind (py_index ordered upper) (\<lambda>b.
            Inr (Some (a * (1 - weight) + b * weight)))))))"

text \<open>The variant of the paper metrics, for which an empty sample is an error.\<close>

definition percentile_strict :: "rat list \<Rightarrow> rat \<Rightarrow> rat res" where
  "percentile_strict values quantile =
     (let ordered = sort values in
      if ordered = [] then value_error ''Cannot compute a percentile of an empty sample''
      else
        (let position = quantile * of_nat (length ordered - 1);
             low = rat_trunc position;
             high = min (low + 1) (int (length ordered) - 1)
         in
         res_bind (py_index ordered low) (\<lambda>a.
         res_bind (py_index ordered high) (\<lambda>b.
         Inr (a + (b - a) * (position - of_int low))))))"

definition fmean :: "rat list \<Rightarrow> rat" where
  "fmean xs = sum_list xs / of_nat (length xs)"

record distr =
  ds_n :: nat
  ds_min :: rat
  ds_mean :: rat
  ds_p50 :: rat
  ds_p90 :: rat
  ds_p99 :: rat
  ds_p999 :: rat
  ds_max :: rat

definition distr_empty :: distr where
  "distr_empty = \<lparr>ds_n = 0, ds_min = 0, ds_mean = 0, ds_p50 = 0, ds_p90 = 0, ds_p99 = 0, ds_p999 = 0, ds_max = 0\<rparr>"

definition distribution :: "rat list \<Rightarrow> distr res" where
  "distribution samples =
     (if samples = [] then Inr distr_empty
      else
        res_bind (percentile samples (50 / 100)) (\<lambda>p50.
        res_bind (percentile samples (90 / 100)) (\<lambda>p90.
        res_bind (percentile samples (99 / 100)) (\<lambda>p99.
        res_bind (percentile samples (999 / 1000)) (\<lambda>p999.
        Inr \<lparr>ds_n = length samples, ds_min = foldl min (hd samples) (tl samples), ds_mean = fmean samples,
             ds_p50 = p50, ds_p90 = p90, ds_p99 = p99, ds_p999 = p999,
             ds_max = foldl max (hd samples) (tl samples)\<rparr>)))))"

text \<open>\<open>statistics.median\<close>, which raises on no data.\<close>

definition median :: "rat list \<Rightarrow> rat res" where
  "median values =
     (let ordered = sort values; n = length ordered in
      if n = 0 then Inl (Exn StatisticsError ''no median for empty data'')
      else if odd n then Inr (ordered ! (n div 2))
      else Inr ((ordered ! (n div 2 - 1) + ordered ! (n div 2)) / 2))"

text \<open>\<open>round(x)\<close>: to the nearest integer, halves to the even one.\<close>

definition py_round :: "rat \<Rightarrow> int" where
  "py_round x =
     (let f = \<lfloor>x\<rfloor>; d = x - of_int f in
      if d < 1 / 2 then f
      else if d > 1 / 2 then f + 1
      else if even f then f else f + 1)"

section \<open>Lemmas\<close>

lemma foldl_min_Min: "foldl min x xs = Min (set (x # xs))" for x :: "'a :: linorder"
proof (induction xs arbitrary: x)
  case (Cons a xs)
  then show ?case by (cases "xs = []") (simp_all add: min.assoc)
qed simp

lemma foldl_max_Max: "foldl max x xs = Max (set (x # xs))" for x :: "'a :: linorder"
proof (induction xs arbitrary: x)
  case (Cons a xs)
  then show ?case by (cases "xs = []") (simp_all add: max.assoc)
qed simp

subsection \<open>Interpolation in a sorted list\<close>

text \<open>The value at a fractional position of a list.\<close>

definition interp :: "rat list \<Rightarrow> rat \<Rightarrow> rat" where
  "interp xs p =
     (let k = nat \<lfloor>p\<rfloor>; k' = min (k + 1) (length xs - 1) in xs ! k + (xs ! k' - xs ! k) * (p - of_nat k))"

definition quantile_of :: "rat list \<Rightarrow> rat \<Rightarrow> rat" where
  "quantile_of xs q = interp (sort xs) (q * of_nat (length xs - 1))"

lemma floor_position:
  fixes p :: rat
  assumes "0 \<le> p" "p \<le> of_nat (length xs - 1)" "xs \<noteq> []"
  shows "nat \<lfloor>p\<rfloor> < length xs" "of_nat (nat \<lfloor>p\<rfloor>) \<le> p" "p < of_nat (nat \<lfloor>p\<rfloor>) + 1"
proof -
  have "\<lfloor>p\<rfloor> \<le> int (length xs - 1)" using assms(2) by (simp add: floor_le_iff)
  then show "nat \<lfloor>p\<rfloor> < length xs" using assms(3) by (cases xs) auto
  have "(of_nat (nat \<lfloor>p\<rfloor>) :: rat) = of_int \<lfloor>p\<rfloor>" using assms(1) by simp
  then show "of_nat (nat \<lfloor>p\<rfloor>) \<le> p" "p < of_nat (nat \<lfloor>p\<rfloor>) + 1" by (simp_all only: of_int_floor_le) linarith
qed

lemma interp_between:
  assumes "sorted xs" "xs \<noteq> []" "0 \<le> p" "p \<le> of_nat (length xs - 1)"
  shows "xs ! nat \<lfloor>p\<rfloor> \<le> interp xs p" "interp xs p \<le> xs ! min (nat \<lfloor>p\<rfloor> + 1) (length xs - 1)"
proof -
  let ?k = "nat \<lfloor>p\<rfloor>" let ?k' = "min (?k + 1) (length xs - 1)"
  note pos = floor_position [OF assms(3,4,2)]
  have d: "0 \<le> xs ! ?k' - xs ! ?k"
    using assms(1) pos(1) by (auto intro!: sorted_nth_mono simp: min_def)
  have f: "0 \<le> p - of_nat ?k" "p - of_nat ?k \<le> 1" using pos(2,3) by linarith+
  have "0 \<le> (xs ! ?k' - xs ! ?k) * (p - of_nat ?k)" using d f by simp
  moreover have "(xs ! ?k' - xs ! ?k) * (p - of_nat ?k) \<le> xs ! ?k' - xs ! ?k" using d f by (simp add: mult_left_le)
  ultimately show "xs ! ?k \<le> interp xs p" "interp xs p \<le> xs ! ?k'" by (simp_all add: interp_def Let_def)
qed

lemma interp_mono:
  assumes "sorted xs" "xs \<noteq> []" "0 \<le> p" "p \<le> p'" "p' \<le> of_nat (length xs - 1)"
  shows "interp xs p \<le> interp xs p'"
proof (cases "nat \<lfloor>p\<rfloor> = nat \<lfloor>p'\<rfloor>")
  case True
  let ?k = "nat \<lfloor>p\<rfloor>" let ?k' = "min (?k + 1) (length xs - 1)"
  have "?k < length xs" using floor_position(1) [OF assms(3) _ assms(2)] assms(4,5) by simp
  then have "0 \<le> xs ! ?k' - xs ! ?k" using assms(1) by (auto intro!: sorted_nth_mono simp: min_def)
  then have "(xs ! ?k' - xs ! ?k) * (p - of_nat ?k) \<le> (xs ! ?k' - xs ! ?k) * (p' - of_nat ?k)"
    using assms(4) by (intro mult_left_mono) simp_all
  then show ?thesis by (simp add: interp_def Let_def True [symmetric])
next
  case False
  have le: "p \<le> of_nat (length xs - 1)" "0 \<le> p'" using assms by linarith+
  have "nat \<lfloor>p\<rfloor> \<le> nat \<lfloor>p'\<rfloor>" using assms(4) by (simp add: floor_mono nat_mono)
  with False have lt: "nat \<lfloor>p\<rfloor> + 1 \<le> nat \<lfloor>p'\<rfloor>" by simp
  have k': "nat \<lfloor>p'\<rfloor> < length xs" by (rule floor_position(1) [OF le(2) assms(5,2)])
  have "interp xs p \<le> xs ! min (nat \<lfloor>p\<rfloor> + 1) (length xs - 1)" by (rule interp_between(2) [OF assms(1-3) le(1)])
  also have "\<dots> \<le> xs ! nat \<lfloor>p'\<rfloor>" using assms(1) lt k' by (intro sorted_nth_mono) auto
  also have "\<dots> \<le> interp xs p'" by (rule interp_between(1) [OF assms(1,2) le(2) assms(5)])
  finally show ?thesis .
qed

lemma interp_ends:
  assumes "xs \<noteq> []"
  shows "interp xs 0 = xs ! 0" "interp xs (of_nat (length xs - 1)) = last xs"
  using assms by (simp_all add: interp_def Let_def last_conv_nth)

lemma sort_eq_Nil_iff [simp]: "sort xs = [] \<longleftrightarrow> xs = []"
  by (metis length_0_conv length_sort)

lemma sort_ends:
  fixes xs :: "'a :: linorder list"
  assumes "xs \<noteq> []"
  shows "sort xs ! 0 = Min (set xs)" "last (sort xs) = Max (set xs)"
proof -
  have len: "0 < length (sort xs)" using assms by simp
  have nth: "sort xs ! 0 \<le> y \<and> y \<le> last (sort xs)" if y: "y \<in> set xs" for y
  proof -
    obtain i where i: "i < length (sort xs)" "sort xs ! i = y" using y by (metis in_set_conv_nth set_sort)
    have "sort xs ! 0 \<le> sort xs ! i" "sort xs ! i \<le> sort xs ! (length (sort xs) - 1)"
      using i(1) by (auto intro!: sorted_nth_mono)
    then show ?thesis using i(2) assms by (simp add: last_conv_nth)
  qed
  have "sort xs ! 0 \<in> set (sort xs)" "last (sort xs) \<in> set (sort xs)" using len assms by (simp_all only: nth_mem last_in_set sort_eq_Nil_iff not_False_eq_True)
  then have "sort xs ! 0 \<in> set xs" "last (sort xs) \<in> set xs" by simp_all
  with nth show "sort xs ! 0 = Min (set xs)" "last (sort xs) = Max (set xs)"
    by (auto intro!: Min_eqI [symmetric] Max_eqI [symmetric])
qed

subsection \<open>The estimators\<close>

text \<open>
  What the callers of a percentile function rely on: for a non-empty sample and a quantile between
  0 and 1 it raises nothing and returns the interpolated quantile of the sorted sample.
\<close>

locale percentile_estimator =
  fixes pct :: "rat list \<Rightarrow> rat \<Rightarrow> rat res"
  assumes interpolates: "xs \<noteq> [] \<Longrightarrow> 0 \<le> q \<Longrightarrow> q \<le> 1 \<Longrightarrow> pct xs q = Inr (quantile_of xs q)"
begin

lemma position_bounds:
  assumes "0 \<le> q" "q \<le> (1 :: rat)"
  shows "0 \<le> q * of_nat n" "q * of_nat n \<le> of_nat n"
  using assms by (simp_all add: mult_left_le_one_le)

lemma pct_mono:
  assumes "xs \<noteq> []" "0 \<le> q" "q \<le> q'" "q' \<le> 1" "pct xs q = Inr a" "pct xs q' = Inr b"
  shows "a \<le> b"
proof -
  have q: "q \<le> 1" "0 \<le> q'" using assms by linarith+
  have "q * of_nat (length xs - 1) \<le> q' * of_nat (length xs - 1)" using assms(3) by (simp add: mult_right_mono)
  then have "quantile_of xs q \<le> quantile_of xs q'"
    unfolding quantile_of_def
    using assms(1) position_bounds [OF assms(2) q(1)] position_bounds [OF q(2) assms(4)]
    by (intro interp_mono) simp_all
  with interpolates [OF assms(1,2) q(1)] interpolates [OF assms(1) q(2) assms(4)] assms(5,6) show ?thesis by simp
qed

lemma pct_bounds:
  assumes "xs \<noteq> []" "0 \<le> q" "q \<le> 1" "pct xs q = Inr a"
  shows "Min (set xs) \<le> a" "a \<le> Max (set xs)"
proof -
  have ne: "sort xs \<noteq> []" using assms(1) by simp
  have ends: "pct xs 0 = Inr (Min (set xs))" "pct xs 1 = Inr (Max (set xs))"
    using interpolates [OF assms(1), of 0] interpolates [OF assms(1), of 1] interp_ends [OF ne] sort_ends [OF assms(1)]
    by (simp_all add: quantile_of_def)
  show "Min (set xs) \<le> a" by (rule pct_mono [OF assms(1) _ assms(2,3) ends(1) assms(4)]) simp
  show "a \<le> Max (set xs)" by (rule pct_mono [OF assms(1,2,3) _ assms(4) ends(2)]) simp
qed

lemma pct_defined:
  assumes "xs \<noteq> []" "0 \<le> q" "q \<le> 1"
  obtains a where "pct xs q = Inr a" "Min (set xs) \<le> a" "a \<le> Max (set xs)"
  using interpolates [OF assms] pct_bounds [OF assms] by blast

end

lemma py_index_ok: "0 \<le> i \<Longrightarrow> i < int (length xs) \<Longrightarrow> py_index xs i = Inr (xs ! nat i)"
  by (simp add: py_index_def)

lemma interp_indices:
  assumes "xs \<noteq> []" "0 \<le> p" "p \<le> of_nat (length xs - 1)"
  shows "py_index xs (rat_trunc p) = Inr (xs ! nat \<lfloor>p\<rfloor>)"
    and "py_index xs (min (rat_trunc p + 1) (int (length xs) - 1)) = Inr (xs ! min (nat \<lfloor>p\<rfloor> + 1) (length xs - 1))"
    and "of_int (rat_trunc p) = (of_nat (nat \<lfloor>p\<rfloor>) :: rat)"
proof -
  have t: "rat_trunc p = int (nat \<lfloor>p\<rfloor>)" using assms(2) by (simp add: rat_trunc_def)
  note k = floor_position(1) [OF assms(2,3,1)]
  show "py_index xs (rat_trunc p) = Inr (xs ! nat \<lfloor>p\<rfloor>)" using k assms(2) by (simp add: t py_index_ok)
  have "min (rat_trunc p + 1) (int (length xs) - 1) = int (min (nat \<lfloor>p\<rfloor> + 1) (length xs - 1))"
    using k unfolding t by linarith
  then show "py_index xs (min (rat_trunc p + 1) (int (length xs) - 1)) = Inr (xs ! min (nat \<lfloor>p\<rfloor> + 1) (length xs - 1))"
    using k by (simp add: py_index_ok del: of_nat_min)
  show "of_int (rat_trunc p) = (of_nat (nat \<lfloor>p\<rfloor>) :: rat)" by (simp add: t)
qed

text \<open>The four texts compute the same quantile.\<close>

lemma quantile_single: "length xs = 1 \<Longrightarrow> quantile_of xs q = sort xs ! 0"
  by (cases xs) (simp_all add: quantile_of_def interp_def Let_def)

lemma weighted_form: "a * (1 - f) + b * f = a + (b - a) * f" for a b f :: rat
  by (simp add: algebra_simps)

lemma sorted_position:
  assumes "xs \<noteq> []" "0 \<le> q" "q \<le> (1 :: rat)"
  shows "0 \<le> q * of_nat (length (sort xs) - 1)" "q * of_nat (length (sort xs) - 1) \<le> of_nat (length (sort xs) - 1)"
  using assms by (simp_all add: mult_left_le_one_le)

lemma percentile_strict_interpolates:
  assumes "xs \<noteq> []" "0 \<le> q" "q \<le> 1"
  shows "percentile_strict xs q = Inr (quantile_of xs q)"
  using interp_indices [OF _ sorted_position [OF assms]] assms(1)
  by (simp add: percentile_strict_def quantile_of_def interp_def Let_def)

lemma percentile_as_strict:
  assumes "xs \<noteq> []" "0 \<le> q" "q \<le> 1"
  shows "percentile xs q = percentile_strict xs q"
proof (cases "length xs = 1")
  case True
  then have "percentile xs q = Inr (quantile_of xs q)"
    by (simp add: percentile_def quantile_single py_index_ok assms(1))
  then show ?thesis by (simp add: percentile_strict_interpolates [OF assms])
qed (simp add: percentile_def percentile_strict_def assms(1))

lemma percentile_weighted_as_strict:
  "xs \<noteq> [] \<Longrightarrow> percentile_weighted xs q = percentile_strict xs q"
  by (simp add: percentile_weighted_def percentile_strict_def Let_def weighted_form)

interpretation steady: percentile_estimator percentile
  by unfold_locales (simp add: percentile_as_strict percentile_strict_interpolates)

interpretation hardware: percentile_estimator percentile_weighted
  by unfold_locales (simp add: percentile_weighted_as_strict percentile_strict_interpolates)

interpretation paper: percentile_estimator percentile_strict
  by unfold_locales (rule percentile_strict_interpolates)

lemma ceiling_index:
  assumes "xs \<noteq> []" "0 \<le> p" "p \<le> of_nat (length xs - 1)" "\<lfloor>p\<rfloor> \<noteq> \<lceil>p\<rceil>"
  shows "py_index xs \<lceil>p\<rceil> = Inr (xs ! min (nat \<lfloor>p\<rfloor> + 1) (length xs - 1))"
proof -
  have up: "\<lceil>p\<rceil> = \<lfloor>p\<rfloor> + 1" using assms(4) by (metis ceiling_altdef)
  have le: "\<lceil>p\<rceil> \<le> int (length xs - 1)" using assms(3) by (simp only: ceiling_le_iff of_int_of_nat_eq)
  have "0 \<le> \<lfloor>p\<rfloor>" using assms(2) by simp
  with up le have "nat \<lceil>p\<rceil> = min (nat \<lfloor>p\<rfloor> + 1) (length xs - 1)" by linarith
  moreover have "0 \<le> \<lceil>p\<rceil>" "\<lceil>p\<rceil> < int (length xs)" using up le \<open>0 \<le> \<lfloor>p\<rfloor>\<close> assms(1) by (cases xs; simp)+
  ultimately show ?thesis by (simp add: py_index_ok)
qed

lemma percentile_opt_interpolates:
  assumes "xs \<noteq> []" "0 \<le> q" "q \<le> 1"
  shows "percentile_opt (map Some xs) q = Inr (Some (quantile_of xs q))"
proof -
  define s p where "s = sort xs" and "p = q * of_nat (length s - 1)"
  have xs: "List.map_filter id (map Some xs) = xs" by (induction xs) (auto simp: List.map_filter_def)
  have ne: "s \<noteq> []" using assms(1) by (simp add: s_def)
  have pos: "0 \<le> p" "p \<le> of_nat (length s - 1)" using sorted_position [OF assms] by (simp_all add: p_def s_def)
  have q: "quantile_of xs q = interp s p" by (simp add: quantile_of_def p_def s_def)
  note ix = interp_indices [OF ne pos]
  have t: "rat_trunc p = \<lfloor>p\<rfloor>" using pos(1) by (simp add: rat_trunc_def)
  have opt: "percentile_opt (map Some xs) q =
     (if length s = 1 then Inr (Some (s ! 0))
      else if \<lfloor>p\<rfloor> = \<lceil>p\<rceil> then Inr (Some (s ! nat \<lfloor>p\<rfloor>))
      else res_bind (py_index s \<lceil>p\<rceil>) (\<lambda>b. Inr (Some (s ! nat \<lfloor>p\<rfloor> * (1 - (p - of_int \<lfloor>p\<rfloor>)) + b * (p - of_int \<lfloor>p\<rfloor>)))))"
    using ne ix(1) unfolding percentile_opt_def xs s_def [symmetric] Let_def mult.commute [of _ q] p_def [symmetric] t
    by (cases "\<lfloor>p\<rfloor> = \<lceil>p\<rceil>") (simp_all add: py_index_ok)
  have single: "quantile_of xs q = s ! 0" if "length s = 1" using that by (simp add: quantile_single s_def)
  have whole: "interp s p = s ! nat \<lfloor>p\<rfloor>" if "\<lfloor>p\<rfloor> = \<lceil>p\<rceil>"
  proof -
    have "of_int \<lfloor>p\<rfloor> = p" using that by (metis ceiling_correct floor_correct order_antisym)
    then have "p - of_nat (nat \<lfloor>p\<rfloor>) = 0" using pos(1) by fastforce
    then show ?thesis by (simp add: interp_def Let_def)
  qed
  show ?thesis
    using single whole ceiling_index [OF ne pos] ix(3) unfolding opt
    by (auto simp: q weighted_form interp_def Let_def t)
qed

subsection \<open>Properties\<close>

text \<open>
  The four percentile functions of the scripts are the same estimator: on every non-empty
  sample and every quantile between 0 and 1 none of them raises and all return the value
  interpolated linearly in the sorted sample.
\<close>

lemma percentile_variants_agree:
  assumes "xs \<noteq> []" "0 \<le> q" "q \<le> 1"
  shows "percentile xs q = Inr (quantile_of xs q) \<and> percentile_weighted xs q = Inr (quantile_of xs q) \<and>
    percentile_strict xs q = Inr (quantile_of xs q) \<and> percentile_opt (map Some xs) q = Inr (Some (quantile_of xs q))"
  using steady.interpolates [OF assms] hardware.interpolates [OF assms] paper.interpolates [OF assms]
    percentile_opt_interpolates [OF assms] by simp

lemma fmean_bounds:
  assumes "xs \<noteq> []"
  shows "Min (set xs) \<le> fmean xs" "fmean xs \<le> Max (set xs)"
proof -
  have n: "0 < (of_nat (length xs) :: rat)" using assms by simp
  have "sum_list xs = sum_list (map (\<lambda>x. x) xs)" by simp
  have "sum_list (map (\<lambda>_. Min (set xs)) xs) \<le> sum_list (map (\<lambda>x. x) xs)" by (rule sum_list_mono) simp
  then have "of_nat (length xs) * Min (set xs) \<le> sum_list xs" by (simp add: sum_list_triv)
  then show "Min (set xs) \<le> fmean xs" using n by (simp add: fmean_def field_simps)
  have "sum_list (map (\<lambda>x. x) xs) \<le> sum_list (map (\<lambda>_. Max (set xs)) xs)" by (rule sum_list_mono) simp
  then have "sum_list xs \<le> of_nat (length xs) * Max (set xs)" by (simp add: sum_list_triv)
  then show "fmean xs \<le> Max (set xs)" using n by (simp add: fmean_def field_simps)
qed

text \<open>
  The distribution of a sample is always computed: its size is the size of the sample, its
  minimum, percentiles and maximum are in ascending order, the mean lies between the extremes,
  and the extremes are samples.
\<close>

lemma distribution_ordered:
  "\<exists>d. distribution xs = Inr d \<and> ds_n d = length xs \<and>
     sorted [ds_min d, ds_p50 d, ds_p90 d, ds_p99 d, ds_p999 d, ds_max d] \<and>
     ds_min d \<le> ds_mean d \<and> ds_mean d \<le> ds_max d \<and>
     (xs = [] \<or> ds_min d = Min (set xs) \<and> ds_max d = Max (set xs))"
proof (cases "xs = []")
  case True
  then show ?thesis by (simp add: distribution_def distr_empty_def)
next
  case False
  have ext: "foldl min (hd xs) (tl xs) = Min (set xs)" "foldl max (hd xs) (tl xs) = Max (set xs)"
    using False by (simp_all add: foldl_min_Min foldl_max_Max)
  obtain a where a: "percentile xs (50 / 100) = Inr a" "Min (set xs) \<le> a"
    by (rule steady.pct_defined [OF False, of "50 / 100"]) simp_all
  obtain b where b: "percentile xs (90 / 100) = Inr b" by (rule steady.pct_defined [OF False, of "90 / 100"]) simp_all
  obtain c where c: "percentile xs (99 / 100) = Inr c" by (rule steady.pct_defined [OF False, of "99 / 100"]) simp_all
  obtain e where e: "percentile xs (999 / 1000) = Inr e" "e \<le> Max (set xs)"
    by (rule steady.pct_defined [OF False, of "999 / 1000"]) simp_all
  have "a \<le> b" by (rule steady.pct_mono [OF False _ _ _ a(1) b]) auto
  moreover have "b \<le> c" by (rule steady.pct_mono [OF False _ _ _ b c]) auto
  moreover have "c \<le> e" by (rule steady.pct_mono [OF False _ _ _ c e(1)]) auto
  ultimately show ?thesis
    using False a b c e fmean_bounds [OF False] by (simp add: distribution_def ext)
qed

end
