(* ===== verification/Steady_Trace.thy ===== *)
theory Steady_Trace
  imports Startup_Trace Statistics
begin

text \<open>
  \<open>tools/realsense_steady_bench/parse_steady_trace.py\<close>: the activations of each thread in the
  steady-state window, cut out of the scheduler intervals of \<open>Startup_Trace\<close>. The locale
  \<open>interval_source\<close> is what the parser relies on of \<open>scheduler_intervals\<close>; the facts on
  activations are proved in it and reach the parser by its interpretation. The output files are
  not modelled.
\<close>

section \<open>Definitions\<close>

definition MAIN_THREAD_SIGNATURE :: string where
  "MAIN_THREAD_SIGNATURE = ''process-main''"

definition marker_time :: "event list \<Rightarrow> string \<Rightarrow> int res" where
  "marker_time events name =
     res_bind (res_map (\<lambda>e. ev_int e ''timestamp_ns'') (filter (\<lambda>e. is_phase e \<and> has_name name e) events)) (\<lambda>matches.
     case matches of
       [t] \<Rightarrow> Inr t
     | _ \<Rightarrow> value_error (''Expected one '' @ py_repr name @ '' phase marker, found '' @ str_nat (length matches)))"

subsection \<open>Activations\<close>

text \<open>The dictionary \<open>current\<close> while an activation is open, and a finished row.\<close>

record open_activation =
  oa_release_ns :: int
  oa_first_run_ns :: "int option"
  oa_execution_ms :: rat
  oa_ready_ms :: rat
  oa_partial_start :: bool

record activation =
  ac_tid :: int
  ac_name :: string
  ac_release_ns :: int
  ac_first_run_ns :: "int option"
  ac_execution_ms :: rat
  ac_ready_ms :: rat
  ac_partial_start :: bool
  ac_completion_ns :: int
  ac_response_ms :: rat
  ac_partial_end :: bool
  ac_activation :: nat
  ac_period_ms :: "rat option"

record act_state =
  as_rows :: "activation list"
  as_current :: "open_activation option"
  as_slept :: bool

definition act_close :: "int \<Rightarrow> string \<Rightarrow> int \<Rightarrow> bool \<Rightarrow> act_state \<Rightarrow> act_state" where
  "act_close tid name completion_ns partial_end st =
     (case as_current st of
        None \<Rightarrow> st
      | Some c \<Rightarrow>
          st\<lparr>as_rows := as_rows st @
               [\<lparr>ac_tid = tid, ac_name = name, ac_release_ns = oa_release_ns c,
                 ac_first_run_ns = oa_first_run_ns c, ac_execution_ms = oa_execution_ms c,
                 ac_ready_ms = oa_ready_ms c, ac_partial_start = oa_partial_start c,
                 ac_completion_ns = completion_ns,
                 ac_response_ms = ms_between completion_ns (oa_release_ns c),
                 ac_partial_end = partial_end, ac_activation = 0, ac_period_ms = None\<rparr>],
             as_current := None\<rparr>)"

definition act_open :: "int \<Rightarrow> act_state \<Rightarrow> open_activation" where
  "act_open start_ns st =
     (case as_current st of
        Some c \<Rightarrow> c
      | None \<Rightarrow> \<lparr>oa_release_ns = start_ns, oa_first_run_ns = None, oa_execution_ms = 0, oa_ready_ms = 0,
                  oa_partial_start = (\<not> as_slept st)\<rparr>)"

definition act_add :: "interval \<Rightarrow> open_activation \<Rightarrow> open_activation" where
  "act_add i c =
     (if iv_state i = ''running''
      then c\<lparr>oa_execution_ms := oa_execution_ms c + iv_duration_ms i,
             oa_first_run_ns := (if oa_first_run_ns c = None then Some (iv_start_ns i) else oa_first_run_ns c)\<rparr>
      else c\<lparr>oa_ready_ms := oa_ready_ms c + iv_duration_ms i\<rparr>)"

definition act_step :: "int \<Rightarrow> string \<Rightarrow> interval \<Rightarrow> act_state \<Rightarrow> act_state" where
  "act_step tid name i st =
     (if iv_state i = ''sleeping'' then (act_close tid name (iv_start_ns i) False st)\<lparr>as_slept := True\<rparr>
      else if iv_state i \<noteq> ''ready'' \<and> iv_state i \<noteq> ''running'' then st
      else st\<lparr>as_current := Some (act_add i (act_open (iv_start_ns i) st)),
              as_slept := (if as_current st = None then False else as_slept st)\<rparr>)"

fun act_steps :: "int \<Rightarrow> string \<Rightarrow> interval list \<Rightarrow> act_state \<Rightarrow> act_state" where
  "act_steps tid name [] st = st"
| "act_steps tid name (i # is) st = act_steps tid name is (act_step tid name i st)"

fun number_rows :: "nat \<Rightarrow> int option \<Rightarrow> activation list \<Rightarrow> activation list" where
  "number_rows index previous [] = []"
| "number_rows index previous (r # rs) =
     r\<lparr>ac_activation := index, ac_period_ms := map_option (ms_between (ac_release_ns r)) previous\<rparr>
       # number_rows (index + 1) (Some (ac_release_ns r)) rs"

definition activations_from_intervals :: "interval list \<Rightarrow> int \<Rightarrow> string \<Rightarrow> int \<Rightarrow> activation list" where
  "activations_from_intervals intervals tid name window_end =
     (let st = act_steps tid name (sort_key iv_start_ns intervals)
                 \<lparr>as_rows = [], as_current = None, as_slept = False\<rparr>
      in number_rows 1 None (as_rows (act_close tid name window_end True st)))"

subsection \<open>Threads of the window\<close>

definition record_key :: "thread_record \<Rightarrow> int" where
  "record_key r = (case time_or (tr_started_ns r) (time_or (tr_created_ns r) (Some 0)) of None \<Rightarrow> 0 | Some t \<Rightarrow> t)"

definition record_name :: "thread_record \<Rightarrow> string" where
  "record_name r = py_str (py_or (tr_name r) (PStr []))"

definition record_signature :: "thread_record \<Rightarrow> string" where
  "record_signature r =
     (if record_name r = ''main'' then MAIN_THREAD_SIGNATURE else py_str (py_or (tr_signature r) (PStr [])))"

text \<open>The part of the window in which the thread lives: \<open>(begin, end)\<close>.\<close>

definition steady_window :: "int \<Rightarrow> int \<Rightarrow> thread_record \<Rightarrow> int \<times> int" where
  "steady_window sb se r =
     (max sb (case time_or (tr_started_ns r) (time_or (tr_created_ns r) (Some sb)) of None \<Rightarrow> 0 | Some t \<Rightarrow> t),
      min se (case time_or (tr_exited_ns r) (Some se) of None \<Rightarrow> 0 | Some t \<Rightarrow> t))"

definition profiled :: "int \<Rightarrow> int \<Rightarrow> thread_record \<Rightarrow> bool" where
  "profiled sb se r \<longleftrightarrow> tr_tid r \<noteq> None \<and> record_signature r \<noteq> [] \<and>
     fst (steady_window sb se r) < snd (steady_window sb se r)"

fun count_instances ::
    "int \<Rightarrow> int \<Rightarrow> thread_record list \<Rightarrow> (string \<times> nat) list \<Rightarrow> (int \<times> nat) list \<Rightarrow> (int \<times> nat) list" where
  "count_instances sb se [] tally instances = instances"
| "count_instances sb se (r # rs) tally instances =
     (case tr_tid r of
        Some tid \<Rightarrow>
          if profiled sb se r
          then (let n = dict_get tally (record_signature r) 0 + 1
                in count_instances sb se rs (dict_set (record_signature r) n tally) (dict_set tid n instances))
          else count_instances sb se rs tally instances
      | None \<Rightarrow> count_instances sb se rs tally instances)"

definition profile_instances :: "int \<Rightarrow> int \<Rightarrow> thread_record list \<Rightarrow> (int \<times> nat) list" where
  "profile_instances sb se records = count_instances sb se (sort_key record_key records) [] []"

record thread_row =
  tw_tid :: int
  tw_name :: string
  tw_signature :: string
  tw_profile_instance :: nat
  tw_creation_sequence :: pyval
  tw_entry_module :: string
  tw_entry_module_offset :: string
  tw_policy :: string
  tw_priority :: string
  tw_lifetime_in_window_ms :: rat
  tw_running_ms :: rat
  tw_ready_ms :: rat
  tw_sleeping_ms :: rat
  tw_trace_coverage_ms :: rat
  tw_unobserved_ms :: rat
  tw_lime_event_count :: nat
  tw_activation_count :: nat
  tw_complete_activation_count :: nat
  tw_execution_ms :: distr
  tw_ready_per_activation_ms :: distr
  tw_response_ms :: distr
  tw_period_ms :: distr
  tw_cpus :: "int list"

definition complete_activations :: "activation list \<Rightarrow> activation list" where
  "complete_activations acts = filter (\<lambda>a. \<not> ac_partial_start a \<and> \<not> ac_partial_end a) acts"

definition seen_policies :: "lime_event list \<Rightarrow> (string \<times> string) list" where
  "seen_policies events = foldl (\<lambda>ps e. if (le_policy e, le_priority e) \<in> set ps then ps
     else ps @ [(le_policy e, le_priority e)]) [] events"

definition interval_cpus :: "interval list \<Rightarrow> int list res" where
  "interval_cpus ivs =
     res_bind (res_map (\<lambda>i. py_intv (iv_cpu i)) (filter (\<lambda>i. py_isdigit (py_str (iv_cpu i))) ivs)) (\<lambda>cpus.
     Inr (sort (remdups cpus)))"

definition steady_row ::
    "lime_tables \<Rightarrow> (int \<times> nat) list \<Rightarrow> thread_record \<Rightarrow> int \<Rightarrow> int \<Rightarrow> int
      \<Rightarrow> interval list \<Rightarrow> activation list \<Rightarrow> thread_row res" where
  "steady_row lime instances r tid b e ivs acts =
     (let complete = complete_activations acts;
          source = (if complete \<noteq> [] then complete else acts);
          running = totals ivs ''running''; ready = totals ivs ''ready''; sleeping = totals ivs ''sleeping'';
          lifetime = ms_between e b;
          seen = seen_policies (relevant_events b e (dict_get (fst lime) tid []));
          policy_values = (if seen \<noteq> [] then seen else dict_get (snd lime) tid [])
      in
      res_bind (distribution (map ac_execution_ms source)) (\<lambda>execution.
      res_bind (distribution (map ac_ready_ms source)) (\<lambda>ready_per_activation.
      res_bind (distribution (map ac_response_ms source)) (\<lambda>response.
      res_bind (distribution (List.map_filter ac_period_ms source)) (\<lambda>period.
      res_bind (interval_cpus ivs) (\<lambda>cpus.
      Inr \<lparr>tw_tid = tid, tw_name = record_name r, tw_signature = record_signature r,
           tw_profile_instance = dict_get instances tid 0, tw_creation_sequence = tr_creation_sequence r,
           tw_entry_module = py_str (py_or (tr_entry_module r) (PStr [])),
           tw_entry_module_offset = py_str (py_or (tr_entry_module_offset r) (PStr [])),
           tw_policy = fst (thread_policy policy_values), tw_priority = snd (thread_policy policy_values),
           tw_lifetime_in_window_ms = lifetime,
           tw_running_ms = running, tw_ready_ms = ready, tw_sleeping_ms = sleeping,
           tw_trace_coverage_ms = running + ready + sleeping,
           tw_unobserved_ms = max 0 (lifetime - running - ready - sleeping),
           tw_lime_event_count = length (dict_get (fst lime) tid []),
           tw_activation_count = length acts, tw_complete_activation_count = length complete,
           tw_execution_ms = execution, tw_ready_per_activation_ms = ready_per_activation,
           tw_response_ms = response, tw_period_ms = period, tw_cpus = cpus\<rparr>))))))"

record steady_trace =
  sy_begin_ns :: int
  sy_end_ns :: int
  sy_duration_ms :: rat
  sy_threads :: "thread_row list"
  sy_intervals :: "interval list"
  sy_activations :: "activation list"

definition steady_thread ::
    "lime_tables \<Rightarrow> (int \<times> nat) list \<Rightarrow> int \<Rightarrow> int \<Rightarrow> thread_record
      \<Rightarrow> (thread_row list \<times> interval list \<times> activation list) res" where
  "steady_thread lime instances sb se r =
     (case tr_tid r of
        None \<Rightarrow> Inr ([], [], [])
      | Some tid \<Rightarrow>
          (let (b, e) = steady_window sb se r in
           if e \<le> b then Inr ([], [], [])
           else
             res_bind (scheduler_intervals (dict_get (fst lime) tid []) b e 0 tid (record_name r) sb) (\<lambda>(ivs, _, _).
             let acts = activations_from_intervals ivs tid (record_name r) e in
             res_bind (steady_row lime instances r tid b e ivs acts) (\<lambda>row.
             Inr ([row], ivs, acts)))))"

fun steady_threads ::
    "lime_tables \<Rightarrow> (int \<times> nat) list \<Rightarrow> int \<Rightarrow> int \<Rightarrow> thread_record list
      \<Rightarrow> (thread_row list \<times> interval list \<times> activation list) res" where
  "steady_threads lime instances sb se [] = Inr ([], [], [])"
| "steady_threads lime instances sb se (r # rs) =
     res_bind (steady_thread lime instances sb se r) (\<lambda>(rows, ivs, acts).
     res_bind (steady_threads lime instances sb se rs) (\<lambda>(rows', ivs', acts').
     Inr (rows @ rows', ivs @ ivs', acts @ acts')))"

definition steady_tgid :: "thread_record list \<Rightarrow> int option" where
  "steady_tgid rs = (case find (\<lambda>r. tr_tgid r \<noteq> None) rs of Some r \<Rightarrow> tr_tgid r | None \<Rightarrow> None)"

definition parse_steady_trace ::
    "'w host \<Rightarrow> (string \<Rightarrow> pyval res) \<Rightarrow> (pyval \<Rightarrow> string) \<Rightarrow> path \<Rightarrow> path \<Rightarrow> 'w \<Rightarrow> steady_trace res" where
  "parse_steady_trace h loads dumps lifecycle_path lime_dir w =
     res_bind (read_jsonl h loads lifecycle_path w) (\<lambda>events.
     res_bind (marker_time events ''steady_state_begin'') (\<lambda>sb.
     res_bind (marker_time events ''steady_state_end'') (\<lambda>se.
     if se \<le> sb then value_error ''steady_state_end must be after steady_state_begin''
     else
     res_bind (lifecycle_records events []) (\<lambda>(records, _).
     res_bind (load_lime h dumps lime_dir (steady_tgid records) w) (\<lambda>lime.
     res_bind (steady_threads lime (profile_instances sb se records) sb se records) (\<lambda>(rows, ivs, acts).
     Inr \<lparr>sy_begin_ns = sb, sy_end_ns = se, sy_duration_ms = ms_between se sb,
          sy_threads = rows, sy_intervals = ivs, sy_activations = acts\<rparr>))))))"

section \<open>Lemmas\<close>

subsection \<open>Chains of activations\<close>

text \<open>
  A chain of intervals, with gaps allowed or not, and the chain of activations cut out of it: an
  activation ends no earlier than it was released, the next one is released no earlier than it
  ended, and its execution and ready time fit into its response time, exactly if the intervals
  leave no gap.
\<close>

definition ivs_chain :: "bool \<Rightarrow> int \<Rightarrow> int \<Rightarrow> interval list \<Rightarrow> bool" where
  "ivs_chain exact lo hi is \<longleftrightarrow> (if exact then ivs_tile lo hi is else ivs_ordered lo hi is)"

definition act_fits :: "bool \<Rightarrow> rat \<Rightarrow> rat \<Rightarrow> rat \<Rightarrow> bool" where
  "act_fits exact execution ready response \<longleftrightarrow> 0 \<le> execution \<and> 0 \<le> ready \<and>
     (if exact then execution + ready = response else execution + ready \<le> response)"

definition act_wf :: "bool \<Rightarrow> activation \<Rightarrow> bool" where
  "act_wf exact a \<longleftrightarrow> ac_release_ns a \<le> ac_completion_ns a \<and>
     ac_response_ms a = ms_between (ac_completion_ns a) (ac_release_ns a) \<and>
     act_fits exact (ac_execution_ms a) (ac_ready_ms a) (ac_response_ms a)"

fun act_chain :: "bool \<Rightarrow> int \<Rightarrow> int \<Rightarrow> activation list \<Rightarrow> bool" where
  "act_chain exact lo hi [] \<longleftrightarrow> lo \<le> hi"
| "act_chain exact lo hi (a # as) \<longleftrightarrow>
     lo \<le> ac_release_ns a \<and> act_wf exact a \<and> act_chain exact (ac_completion_ns a) hi as"

lemma act_chain_append:
  "act_chain exact lo hi (as @ [a]) \<longleftrightarrow>
     act_chain exact lo (ac_release_ns a) as \<and> act_wf exact a \<and> ac_completion_ns a \<le> hi"
  by (induction "as" arbitrary: lo) auto

lemma act_chain_mono: "act_chain exact lo hi as \<Longrightarrow> hi \<le> hi' \<Longrightarrow> act_chain exact lo hi' as"
  by (induction "as" arbitrary: lo) auto

lemma act_chain_wf: "act_chain exact lo hi as \<Longrightarrow> a \<in> set as \<Longrightarrow> act_wf exact a"
  by (induction "as" arbitrary: lo) auto

lemma ivs_chain_Cons:
  "ivs_chain exact lo hi (i # is) \<Longrightarrow>
     lo \<le> iv_start_ns i \<and> (exact \<longrightarrow> lo = iv_start_ns i) \<and> iv_wf i \<and> ivs_chain exact (iv_end_ns i) hi is"
  by (auto simp: ivs_chain_def split: if_splits)

lemma ivs_tile_ordered: "ivs_tile lo hi is \<Longrightarrow> ivs_ordered lo hi is"
  by (induction "is" arbitrary: lo) auto

lemma ivs_chain_ordered: "ivs_chain exact lo hi is \<Longrightarrow> ivs_ordered lo hi is"
  by (auto simp: ivs_chain_def ivs_tile_ordered split: if_splits)

text \<open>The state of the scan after the intervals up to \<open>t\<close>.\<close>

definition act_inv :: "bool \<Rightarrow> int \<Rightarrow> int \<Rightarrow> act_state \<Rightarrow> bool" where
  "act_inv exact b t st \<longleftrightarrow>
     (case as_current st of
        None \<Rightarrow> act_chain exact b t (as_rows st)
      | Some c \<Rightarrow> oa_release_ns c \<le> t \<and> act_chain exact b (oa_release_ns c) (as_rows st) \<and>
          act_fits exact (oa_execution_ms c) (oa_ready_ms c) (ms_between t (oa_release_ns c)))"

lemma act_fits_later:
  assumes "act_fits exact x y (ms_between t r)" "t \<le> t'" "exact \<longrightarrow> t = t'"
  shows "act_fits exact x y (ms_between t' r)"
proof (cases exact)
  case False
  have "ms_between t r \<le> ms_between t' r"
    using ms_between_split [of t' r t] ms_between_nonneg [OF assms(2)] by linarith
  with False assms(1) show ?thesis by (simp add: act_fits_def)
qed (use assms in simp)

lemma act_close_inv:
  assumes inv: "act_inv exact b t st" and t': "t \<le> t'" "exact \<longrightarrow> t = t'"
  shows "as_current (act_close tid name t' p st) = None" "act_chain exact b t' (as_rows (act_close tid name t' p st))"
proof -
  have "as_current (act_close tid name t' p st) = None \<and> act_chain exact b t' (as_rows (act_close tid name t' p st))"
  proof (cases "as_current st")
    case None
    then show ?thesis using inv t'(1) by (simp add: act_inv_def act_close_def act_chain_mono)
  next
    case (Some c)
    then have "oa_release_ns c \<le> t" "act_chain exact b (oa_release_ns c) (as_rows st)"
      "act_fits exact (oa_execution_ms c) (oa_ready_ms c) (ms_between t (oa_release_ns c))"
      using inv by (simp_all add: act_inv_def)
    then show ?thesis
      using Some t' act_fits_later [OF _ t'] by (simp add: act_close_def act_chain_append act_wf_def)
  qed
  then show "as_current (act_close tid name t' p st) = None"
    "act_chain exact b t' (as_rows (act_close tid name t' p st))" by auto
qed

lemma act_step_inv:
  assumes inv: "act_inv exact b t st" and i: "t \<le> iv_start_ns i" "exact \<longrightarrow> t = iv_start_ns i" "iv_wf i"
  shows "act_inv exact b (iv_end_ns i) (act_step tid name i st)"
proof (cases "iv_state i = ''sleeping''")
  case True
  have "iv_start_ns i \<le> iv_end_ns i" using i(3) by (simp add: iv_wf_def)
  then show ?thesis
    using True act_close_inv [OF inv i(1,2), of tid name False]
    by (auto simp: act_step_def act_inv_def intro: act_chain_mono)
next
  case False
  let ?c = "act_open (iv_start_ns i) st"
  have dur: "iv_duration_ms i = ms_between (iv_end_ns i) (iv_start_ns i)" "0 \<le> iv_duration_ms i"
    and le: "iv_start_ns i \<le> iv_end_ns i" and st: "iv_state i = ''running'' \<or> iv_state i = ''ready''"
    using i(3) False by (auto simp: iv_wf_def ms_between_nonneg)
  have c: "oa_release_ns ?c \<le> iv_start_ns i \<and> act_chain exact b (oa_release_ns ?c) (as_rows st) \<and>
      act_fits exact (oa_execution_ms ?c) (oa_ready_ms ?c) (ms_between (iv_start_ns i) (oa_release_ns ?c))"
    using inv i(1) act_fits_later [OF _ i(1,2)]
    by (auto simp: act_open_def act_inv_def act_fits_def [of _ 0] intro: act_chain_mono split: option.splits)
  have "act_fits exact (oa_execution_ms (act_add i ?c)) (oa_ready_ms (act_add i ?c))
      (ms_between (iv_end_ns i) (oa_release_ns ?c))"
    using c dur st ms_between_split [of "iv_end_ns i" "oa_release_ns ?c" "iv_start_ns i"]
    by (auto simp: act_add_def act_fits_def split: if_splits)
  moreover have "oa_release_ns (act_add i ?c) = oa_release_ns ?c" by (simp add: act_add_def)
  ultimately show ?thesis using False st c le by (auto simp: act_step_def act_inv_def)
qed

lemma act_steps_inv:
  "act_inv exact b t st \<Longrightarrow> ivs_chain exact t e is \<Longrightarrow> \<exists>t' \<le> e. (exact \<longrightarrow> t' = e) \<and> act_inv exact b t' (act_steps tid name is st)"
proof (induction "is" arbitrary: t st)
  case Nil
  then show ?case by (auto simp: ivs_chain_def split: if_splits)
next
  case (Cons i "is")
  from ivs_chain_Cons [OF Cons.prems(2)] have i: "t \<le> iv_start_ns i" "exact \<longrightarrow> t = iv_start_ns i" "iv_wf i"
    and rest: "ivs_chain exact (iv_end_ns i) e is" by auto
  from Cons.IH [OF act_step_inv [OF Cons.prems(1) i] rest] show ?case by simp
qed

lemma act_chain_number: "act_chain exact lo hi (number_rows n p as) = act_chain exact lo hi as"
  by (induction "as" arbitrary: lo n p) (auto simp: act_wf_def)

text \<open>Nothing but the numbers and the periods is changed by the numbering.\<close>

lemma number_rows_facts:
  "map ac_activation (number_rows n p as) = [n ..< n + length as]"
  "map ac_execution_ms (number_rows n p as) = map ac_execution_ms as"
  "map ac_ready_ms (number_rows n p as) = map ac_ready_ms as"
  "length (number_rows n p as) = length as"
proof (induction "as" arbitrary: n p)
  case (Cons a "as")
  { case 1 show ?case using Cons(1) by (simp add: upt_rec) }
qed simp_all

lemma activations_chain:
  assumes "ivs_chain exact b e ivs"
  shows "act_chain exact b e (activations_from_intervals ivs tid name e)"
proof -
  have "sort_key iv_start_ns ivs = ivs"
    using ivs_ordered_sorted [OF ivs_chain_ordered [OF assms]] by (simp add: sort_key_id_if_sorted)
  moreover have "act_inv exact b b \<lparr>as_rows = [], as_current = None, as_slept = False\<rparr>"
    by (simp add: act_inv_def)
  from act_steps_inv [OF this assms, of tid name]
  obtain t where "t \<le> e" "exact \<longrightarrow> t = e"
    "act_inv exact b t (act_steps tid name ivs \<lparr>as_rows = [], as_current = None, as_slept = False\<rparr>)" by blast
  from act_close_inv(2) [OF this(3,1,2)] have "act_chain exact b e (as_rows (act_close tid name e True
      (act_steps tid name ivs \<lparr>as_rows = [], as_current = None, as_slept = False\<rparr>)))" .
  ultimately show ?thesis by (simp add: activations_from_intervals_def act_chain_number)
qed

subsection \<open>Conservation\<close>

definition exec_sum :: "act_state \<Rightarrow> rat" where
  "exec_sum st = sum_list (map ac_execution_ms (as_rows st)) + (case as_current st of None \<Rightarrow> 0 | Some c \<Rightarrow> oa_execution_ms c)"

definition ready_sum :: "act_state \<Rightarrow> rat" where
  "ready_sum st = sum_list (map ac_ready_ms (as_rows st)) + (case as_current st of None \<Rightarrow> 0 | Some c \<Rightarrow> oa_ready_ms c)"

lemma act_close_sums:
  "exec_sum (act_close tid name t p st) = exec_sum st" "ready_sum (act_close tid name t p st) = ready_sum st"
  by (simp_all add: act_close_def exec_sum_def ready_sum_def split: option.splits)

lemma act_step_sums:
  "exec_sum (act_step tid name i st) = exec_sum st + totals [i] ''running''"
  "ready_sum (act_step tid name i st) = ready_sum st + totals [i] ''ready''"
  using act_close_sums [of tid name "iv_start_ns i" False st]
  by (auto simp: act_step_def act_add_def act_open_def exec_sum_def ready_sum_def totals_def split: option.splits)

lemma totals_Cons: "totals (i # is) st = totals [i] st + totals is st"
  by (simp add: totals_def)

lemma act_steps_sums:
  "exec_sum (act_steps tid name is st) = exec_sum st + totals is ''running''"
  "ready_sum (act_steps tid name is st) = ready_sum st + totals is ''ready''"
proof (induction "is" arbitrary: st)
  case (Cons i "is")
  { case 1 show ?case using Cons(1) totals_Cons [of i "is"] by (simp add: act_step_sums) }
  { case 2 show ?case using Cons(2) totals_Cons [of i "is"] by (simp add: act_step_sums) }
qed (simp_all add: totals_def)

lemma totals_sort: "totals (sort_key k is) st = totals is st"
proof -
  have "mset (map iv_duration_ms (filter (\<lambda>i. iv_state i = st) (sort_key k is))) =
      mset (map iv_duration_ms (filter (\<lambda>i. iv_state i = st) is))" by (simp add: mset_filter)
  then show ?thesis unfolding totals_def by (metis sum_mset_sum_list)
qed

lemma activations_sums:
  "sum_list (map ac_execution_ms (activations_from_intervals ivs tid name e)) = totals ivs ''running''"
  "sum_list (map ac_ready_ms (activations_from_intervals ivs tid name e)) = totals ivs ''ready''"
proof -
  let ?st = "act_steps tid name (sort_key iv_start_ns ivs) \<lparr>as_rows = [], as_current = None, as_slept = False\<rparr>"
  let ?st' = "act_close tid name e True ?st"
  have none: "as_current ?st' = None" by (simp add: act_close_def split: option.splits)
  have "exec_sum ?st' = totals ivs ''running''" "ready_sum ?st' = totals ivs ''ready''"
    unfolding act_close_sums act_steps_sums totals_sort by (simp_all add: exec_sum_def ready_sum_def)
  then show "sum_list (map ac_execution_ms (activations_from_intervals ivs tid name e)) = totals ivs ''running''"
    "sum_list (map ac_ready_ms (activations_from_intervals ivs tid name e)) = totals ivs ''ready''"
    using none by (simp_all add: activations_from_intervals_def number_rows_facts exec_sum_def ready_sum_def)
qed

lemma activations_numbered:
  "map ac_activation (activations_from_intervals ivs tid name e) =
     [1 ..< Suc (length (activations_from_intervals ivs tid name e))]"
  by (simp add: activations_from_intervals_def number_rows_facts Let_def)

subsection \<open>The interval source\<close>

locale interval_source =
  fixes produce :: "lime_event list \<Rightarrow> int \<Rightarrow> int \<Rightarrow> nat \<Rightarrow> int \<Rightarrow> string \<Rightarrow> int
      \<Rightarrow> (interval list \<times> int option \<times> int option) res"
  assumes ordered: "sorted (map le_ts es) \<Longrightarrow> b \<le> e \<Longrightarrow> produce es b e c t n u = Inr (ivs, fr, fs) \<Longrightarrow> ivs_ordered b e ivs"
    and tiled: "sorted (map le_ts es) \<Longrightarrow> b \<le> e \<Longrightarrow> \<forall>ev \<in> set (relevant_events b e es). \<not> is_exit ev \<Longrightarrow>
      produce es b e c t n u = Inr (ivs, fr, fs) \<Longrightarrow> ivs \<noteq> [] \<Longrightarrow> ivs_tile (iv_start_ns (hd ivs)) e ivs"
begin

lemma activations_ordered:
  assumes "sorted (map le_ts es)" "b \<le> e" "produce es b e c t n u = Inr (ivs, fr, fs)"
  shows "act_chain False b e (activations_from_intervals ivs tid name e)"
  using ordered [OF assms] by (intro activations_chain) (simp add: ivs_chain_def)

lemma activations_exact:
  assumes "sorted (map le_ts es)" "b \<le> e" "\<forall>ev \<in> set (relevant_events b e es). \<not> is_exit ev"
    "produce es b e c t n u = Inr (ivs, fr, fs)" "a \<in> set (activations_from_intervals ivs tid name e)"
  shows "act_wf True a"
proof (cases "ivs = []")
  case True
  then show ?thesis using assms(5) by (simp add: activations_from_intervals_def act_close_def)
next
  case False
  have "ivs_chain True (iv_start_ns (hd ivs)) e ivs" using tiled [OF assms(1-4) False] by (simp add: ivs_chain_def)
  from act_chain_wf [OF activations_chain [OF this] assms(5)] show ?thesis .
qed

lemma coverage_bound:
  assumes "sorted (map le_ts es)" "b \<le> e" "produce es b e c t n u = Inr (ivs, fr, fs)"
  shows "0 \<le> totals ivs st" "totals ivs ''running'' + totals ivs ''ready'' + totals ivs ''sleeping'' \<le> ms_between e b"
proof -
  note chain = ordered [OF assms]
  show "0 \<le> totals ivs st" by (rule totals_nonneg [OF ivs_ordered_wf [OF chain]])
  show "totals ivs ''running'' + totals ivs ''ready'' + totals ivs ''sleeping'' \<le> ms_between e b"
    using totals_sum [OF ivs_ordered_wf [OF chain]] ivs_ordered_total [OF chain] by linarith
qed

end

interpretation sched_source: interval_source scheduler_intervals
  by unfold_locales (rule scheduler_intervals_ordered scheduler_intervals_tile; assumption)+

subsection \<open>Properties\<close>

text \<open>
  C13. The activations of a thread lie in the window in chronological order without overlap, are
  numbered from 1, and account for its time: each one's execution and ready time fit into its
  response time, and over all activations they add up to the running and the ready time of the
  thread.
\<close>

theorem steady_activations_sound:
  assumes "sorted (map le_ts es)" "b \<le> e" "scheduler_intervals es b e c tid n u = Inr (ivs, fr, fs)"
  shows "act_chain False b e (activations_from_intervals ivs tid n e) \<and>
    map ac_activation (activations_from_intervals ivs tid n e) = [1 ..< Suc (length (activations_from_intervals ivs tid n e))] \<and>
    sum_list (map ac_execution_ms (activations_from_intervals ivs tid n e)) = totals ivs ''running'' \<and>
    sum_list (map ac_ready_ms (activations_from_intervals ivs tid n e)) = totals ivs ''ready''"
  using sched_source.activations_ordered [OF assms] activations_sums activations_numbered by blast

lemma demo_sched_runs:
  obtains ivs fr fs where "scheduler_intervals demo_sched_events 200 700 0 11 ''w'' 0 = Inr (ivs, fr, fs)"
    "map ac_release_ns (activations_from_intervals ivs 11 ''w'' 700) = [250, 600]"
    "map ac_partial_start (activations_from_intervals ivs 11 ''w'' 700) = [True, False]"
proof -
  have "case scheduler_intervals demo_sched_events 200 700 0 11 ''w'' 0 of Inr (ivs, fr, fs) \<Rightarrow>
      map ac_release_ns (activations_from_intervals ivs 11 ''w'' 700) = [250, 600] \<and>
      map ac_partial_start (activations_from_intervals ivs 11 ''w'' 700) = [True, False] | Inl _ \<Rightarrow> False"
    by code_simp
  then show ?thesis using that by (auto split: sum.splits)
qed

lemma demo_sched_sorted:
  "sorted (map le_ts demo_sched_events)" "\<forall>ev \<in> set (relevant_events 200 700 demo_sched_events). \<not> is_exit ev"
  by code_simp+

theorem steady_activations_sound_witness:
  "\<exists>ivs fr fs. scheduler_intervals demo_sched_events 200 700 0 11 ''w'' 0 = Inr (ivs, fr, fs) \<and>
     map ac_release_ns (activations_from_intervals ivs 11 ''w'' 700) = [250, 600] \<and>
     act_chain False 200 700 (activations_from_intervals ivs 11 ''w'' 700)"
proof -
  obtain ivs fr fs where run: "scheduler_intervals demo_sched_events 200 700 0 11 ''w'' 0 = Inr (ivs, fr, fs)"
    "map ac_release_ns (activations_from_intervals ivs 11 ''w'' 700) = [250, 600]" by (rule demo_sched_runs)
  from steady_activations_sound [OF demo_sched_sorted(1) _ run(1)] run show ?thesis by auto
qed

text \<open>
  C14. For a thread that does not exit in the window, the response time of every activation is
  exactly its execution time plus the time it was ready but not running.
\<close>

theorem steady_response_decomposes:
  assumes "sorted (map le_ts es)" "b \<le> e" "\<forall>ev \<in> set (relevant_events b e es). \<not> is_exit ev"
    "scheduler_intervals es b e c tid n u = Inr (ivs, fr, fs)" "a \<in> set (activations_from_intervals ivs tid n e)"
  shows "ac_response_ms a = ac_execution_ms a + ac_ready_ms a \<and>
    ac_response_ms a = ms_between (ac_completion_ns a) (ac_release_ns a) \<and> 0 \<le> ac_execution_ms a \<and> 0 \<le> ac_ready_ms a"
  using sched_source.activations_exact [OF assms] by (simp add: act_wf_def act_fits_def)

theorem steady_response_decomposes_witness:
  "\<exists>ivs fr fs. scheduler_intervals demo_sched_events 200 700 0 11 ''w'' 0 = Inr (ivs, fr, fs) \<and>
     activations_from_intervals ivs 11 ''w'' 700 \<noteq> [] \<and>
     ac_response_ms (hd (activations_from_intervals ivs 11 ''w'' 700)) =
       ac_execution_ms (hd (activations_from_intervals ivs 11 ''w'' 700)) + ac_ready_ms (hd (activations_from_intervals ivs 11 ''w'' 700))"
proof -
  obtain ivs fr fs where run: "scheduler_intervals demo_sched_events 200 700 0 11 ''w'' 0 = Inr (ivs, fr, fs)"
    "map ac_release_ns (activations_from_intervals ivs 11 ''w'' 700) = [250, 600]" by (rule demo_sched_runs)
  then have ne: "activations_from_intervals ivs 11 ''w'' 700 \<noteq> []" by auto
  from steady_response_decomposes [OF demo_sched_sorted(1) _ demo_sched_sorted(2) run(1) hd_in_set [OF ne]]
  show ?thesis using run(1) ne by auto
qed

definition row_account :: "rat \<Rightarrow> thread_row \<Rightarrow> bool" where
  "row_account duration row \<longleftrightarrow>
     tw_running_ms row + tw_ready_ms row + tw_sleeping_ms row + tw_unobserved_ms row = tw_lifetime_in_window_ms row \<and>
     0 \<le> tw_running_ms row \<and> 0 \<le> tw_ready_ms row \<and> 0 \<le> tw_sleeping_ms row \<and> 0 \<le> tw_unobserved_ms row \<and>
     0 < tw_lifetime_in_window_ms row \<and> tw_lifetime_in_window_ms row \<le> duration"

lemma ms_between_mono: "b' \<le> b \<Longrightarrow> e \<le> e' \<Longrightarrow> ms_between e b \<le> ms_between e' b'"
  by (simp add: ms_between_def NS_PER_MS_def divide_right_mono)

lemma ms_between_pos: "b < e \<Longrightarrow> 0 < ms_between e b"
  by (simp add: ms_between_def NS_PER_MS_def)

lemma steady_row_times:
  assumes "steady_row lime instances r tid b e ivs acts = Inr row"
  shows "tw_running_ms row = totals ivs ''running''" "tw_ready_ms row = totals ivs ''ready''"
    "tw_sleeping_ms row = totals ivs ''sleeping''" "tw_lifetime_in_window_ms row = ms_between e b"
    "tw_unobserved_ms row = max 0 (ms_between e b - totals ivs ''running'' - totals ivs ''ready'' - totals ivs ''sleeping'')"
  using assms by (auto simp: steady_row_def Let_def res_bind_Inr_iff)

lemma steady_thread_row:
  assumes sorted: "\<And>tid. sorted (map le_ts (dict_get (fst lime) tid []))"
    and run: "steady_thread lime instances sb se r = Inr (rows, ivs, acts)" "row \<in> set rows"
  shows "row_account (ms_between se sb) row"
proof -
  obtain b e where win: "steady_window sb se r = (b, e)" by fastforce
  from run win obtain tid fr fs where lt: "b < e"
    and sched: "scheduler_intervals (dict_get (fst lime) tid []) b e 0 tid (record_name r) sb = Inr (ivs, fr, fs)"
    and row: "steady_row lime instances r tid b e ivs acts = Inr row"
    by (auto simp: steady_thread_def Let_def res_bind_Inr_iff split: option.splits if_splits)
  have "sb \<le> b" "e \<le> se" using win by (auto simp: steady_window_def)
  note t = sched_source.coverage_bound [OF sorted less_imp_le [OF lt] sched]
  have "totals ivs ''running'' + totals ivs ''ready'' + totals ivs ''sleeping'' \<le> ms_between e b" by (rule t(2))
  then show ?thesis
    using t(1) ms_between_pos [OF lt] ms_between_mono [OF \<open>sb \<le> b\<close> \<open>e \<le> se\<close>]
    by (simp add: row_account_def steady_row_times [OF row])
qed

lemma steady_threads_row:
  "steady_threads lime instances sb se rs = Inr (rows, ivs, acts) \<Longrightarrow> row \<in> set rows \<Longrightarrow>
     \<exists>r rows' ivs' acts'. steady_thread lime instances sb se r = Inr (rows', ivs', acts') \<and> row \<in> set rows'"
proof (induction rs arbitrary: rows ivs acts)
  case (Cons r rs)
  then show ?case by (fastforce simp: res_bind_Inr_iff)
qed simp

lemma parse_steady_cases:
  assumes "parse_steady_trace h loads dumps lp ld w = Inr tr"
  obtains events sb se records lime where
    "read_jsonl h loads lp w = Inr events" "lifecycle_records events [] = Inr records" "sb < se"
    "load_lime h dumps ld (steady_tgid (fst records)) w = Inr lime"
    "steady_threads lime (profile_instances sb se (fst records)) sb se (fst records) =
       Inr (sy_threads tr, sy_intervals tr, sy_activations tr)"
    "sy_duration_ms tr = ms_between se sb"
proof -
  from assms obtain events sb se records lime out where
    run: "read_jsonl h loads lp w = Inr events" "lifecycle_records events [] = Inr records"
      "load_lime h dumps ld (steady_tgid (fst records)) w = Inr lime" "\<not> se \<le> sb"
      "steady_threads lime (profile_instances sb se (fst records)) sb se (fst records) = Inr out"
    and tr: "tr = \<lparr>sy_begin_ns = sb, sy_end_ns = se, sy_duration_ms = ms_between se sb,
          sy_threads = fst out, sy_intervals = fst (snd out), sy_activations = snd (snd out)\<rparr>"
    unfolding parse_steady_trace_def res_bind_Inr_iff case_prod_unfold
    by (auto simp: res_bind_Inr_iff split: if_splits)
  show ?thesis by (rule that [of events records sb se lime]) (use run in \<open>simp_all add: tr\<close>)
qed

text \<open>
  C15. Every thread row of the steady-state summary accounts for the whole life of the thread in the
  window: no duration is negative, and the running, ready, sleeping and unobserved times add up to
  the life time, so the clipping of the unobserved time at zero never takes effect.
\<close>

theorem steady_coverage:
  assumes "parse_steady_trace h loads dumps lp ld w = Inr tr" "row \<in> set (sy_threads tr)"
  shows "tw_running_ms row + tw_ready_ms row + tw_sleeping_ms row + tw_unobserved_ms row = tw_lifetime_in_window_ms row \<and>
    0 \<le> tw_running_ms row \<and> 0 \<le> tw_ready_ms row \<and> 0 \<le> tw_sleeping_ms row \<and> 0 \<le> tw_unobserved_ms row \<and>
    0 < tw_lifetime_in_window_ms row \<and> tw_lifetime_in_window_ms row \<le> sy_duration_ms tr"
  using assms(1)
proof (cases rule: parse_steady_cases)
  case (1 events sb se records lime)
  from steady_threads_row [OF 1(5) assms(2)] obtain r rows ivs acts where
    "steady_thread lime (profile_instances sb se (fst records)) sb se r = Inr (rows, ivs, acts)" "row \<in> set rows" by blast
  from steady_thread_row [OF load_lime_sorted [OF 1(4)] this] show ?thesis by (simp add: row_account_def 1(6))
qed

definition steady_demo_lines :: "(string \<times> pydict) list" where
  "steady_demo_lines = demo_lines @ [
     (''7'', demo_line ''phase_marker'' 250 [(''name'', PStr ''steady_state_begin'')]),
     (''8'', demo_line ''phase_marker'' 800 [(''name'', PStr ''steady_state_end'')])]"

definition steady_demo_loads :: "string \<Rightarrow> pyval res" where
  "steady_demo_loads line =
     (case map_of steady_demo_lines line of Some d \<Rightarrow> Inr (PDict d) | None \<Rightarrow> Inl (Exn JSONDecodeError line))"

definition steady_demo_trace :: sim where
  "steady_demo_trace = demo_trace\<lparr>sim_files := dict_set [''t'', ''lifecycle.jsonl'']
     (concat (map (\<lambda>(n, _). n @ [CHR 0x0A]) steady_demo_lines)) (sim_files demo_trace)\<rparr>"

abbreviation steady_demo :: "steady_trace res" where
  "steady_demo \<equiv> parse_steady_trace sim_host steady_demo_loads (\<lambda>_. []) [''t'', ''lifecycle.jsonl''] [''t'', ''lime''] steady_demo_trace"

lemma steady_demo_run:
  "case steady_demo of
     Inr tr \<Rightarrow> (case sy_threads tr of
         [a, row] \<Rightarrow> tw_tid row = 11 \<and> tw_profile_instance row = 1 \<and> tw_cpus row = [2] \<and> tw_activation_count row = 2 \<and>
           (tw_running_ms row, tw_ready_ms row, tw_sleeping_ms row, tw_unobserved_ms row) =
           (350 / 1000000, 50 / 1000000, 100 / 1000000, 50 / 1000000)
       | _ \<Rightarrow> False)
   | Inl _ \<Rightarrow> False"
  by code_simp

theorem steady_coverage_witness:
  "\<exists>tr row. steady_demo = Inr tr \<and> row \<in> set (sy_threads tr) \<and> tw_running_ms row = 350 / 1000000 \<and>
     tw_running_ms row + tw_ready_ms row + tw_sleeping_ms row + tw_unobserved_ms row = tw_lifetime_in_window_ms row"
proof -
  obtain tr a row where tr: "steady_demo = Inr tr" "sy_threads tr = [a, row]" "tw_running_ms row = 350 / 1000000"
    using steady_demo_run by (auto split: sum.splits list.splits)
  have "row \<in> set (sy_threads tr)" by (simp add: tr(2))
  from steady_coverage [OF tr(1) this] this tr(1,3) show ?thesis by blast
qed

subsection \<open>Profile instances\<close>

lemma count_instances_keep:
  "\<forall>r \<in> set rs. profiled sb se r \<longrightarrow> tr_tid r \<noteq> Some tid \<Longrightarrow>
     map_of (count_instances sb se rs tally inst) tid = map_of inst tid"
  by (induction rs arbitrary: tally inst) (auto simp: Let_def split: option.splits)

lemma count_instances_split:
  assumes "profiled sb se r" "tr_tid r = Some tid" "\<forall>x \<in> set ys. profiled sb se x \<longrightarrow> tr_tid x \<noteq> Some tid"
  shows "map_of (count_instances sb se (xs @ r # ys) tally inst) tid =
    Some (dict_get tally (record_signature r) 0
      + length (filter (\<lambda>x. profiled sb se x \<and> record_signature x = record_signature r) xs) + 1)"
proof (induction xs arbitrary: tally inst)
  case Nil
  then show ?case using assms by (simp add: Let_def count_instances_keep)
next
  case (Cons x xs)
  show ?case
  proof (cases "profiled sb se x")
    case True
    then obtain t where "tr_tid x = Some t" by (auto simp: profiled_def)
    then show ?thesis using True by (auto simp: Let_def Cons.IH dict_get_def map_of_eq_None_iff update_conv')
  next
    case False
    then show ?thesis by (auto simp: Cons.IH split: option.splits)
  qed
qed

text \<open>
  Threads that share a signature are told apart by their start order: the instance number of a
  profiled thread is one more than the number of profiled threads with the same signature that
  started before it, unless the kernel reuses its TID later in the window.
\<close>

lemma profile_instances_spec:
  assumes "sort_key record_key records = xs @ r # ys" "profiled sb se r" "tr_tid r = Some tid"
    "\<forall>x \<in> set ys. profiled sb se x \<longrightarrow> tr_tid x \<noteq> Some tid"
  shows "map_of (profile_instances sb se records) tid =
    Some (length (filter (\<lambda>x. profiled sb se x \<and> record_signature x = record_signature r) xs) + 1)"
  unfolding profile_instances_def assms(1) using count_instances_split [OF assms(2-4)] by (simp add: dict_get_def)

end
