(* ===== verification/Csv.thy ===== *)
theory Csv
  imports Json
begin

text \<open>
  The part of the standard \<open>csv\<close> module that the tools use, in its default dialect: \<open>DictWriter\<close>
  with minimal quoting and CRLF line ends, and \<open>DictReader\<close> over a file opened with
  \<open>newline=''\<close>. Cells are strings. The reader is the state machine of the module; a record longer
  than the header keeps its surplus under a key no tool reads, which is left out, and the limit on
  the size of a field is not modelled.
\<close>

section \<open>Definitions\<close>

definition CR :: char where "CR = CHR 0x0D"
definition LF :: char where "LF = CHR 0x0A"
definition QUOTE :: char where "QUOTE = CHR 0x22"
definition COMMA :: char where "COMMA = CHR 0x2C"

definition is_newline :: "char \<Rightarrow> bool" where
  "is_newline c \<longleftrightarrow> c = LF \<or> c = CR"

subsection \<open>Writing\<close>

definition needs_quotes :: "string \<Rightarrow> bool" where
  "needs_quotes field = list_ex (\<lambda>c. c = COMMA \<or> c = QUOTE \<or> is_newline c) field"

definition double_quotes :: "string \<Rightarrow> string" where
  "double_quotes field = concat (map (\<lambda>c. if c = QUOTE then [QUOTE, QUOTE] else [c]) field)"

definition quoted_field :: "string \<Rightarrow> string" where
  "quoted_field field = QUOTE # double_quotes field @ [QUOTE]"

definition csv_field :: "string \<Rightarrow> string" where
  "csv_field field = (if needs_quotes field then quoted_field field else field)"

text \<open>A row that consists of one empty cell is written as a pair of quotes.\<close>

definition csv_row :: "string list \<Rightarrow> string" where
  "csv_row fields =
     (if fields = [[]] then quoted_field [] else py_join [COMMA] (map csv_field fields)) @ [CR, LF]"

definition csv_text :: "string list list \<Rightarrow> string" where
  "csv_text rows = concat (map csv_row rows)"

text \<open>\<open>DictWriter\<close>: the header, then the cells of each row in the order of the header.\<close>

definition write_csv_text :: "string list \<Rightarrow> (string \<times> string) list list \<Rightarrow> string" where
  "write_csv_text fields rows = csv_text (fields # map (\<lambda>row. map (\<lambda>f. dict_get row f []) fields) rows)"

subsection \<open>Reading\<close>

datatype csv_mode = StartRecord | StartField | InField | InQuoted | QuoteInQuoted

definition after_newline :: "char \<Rightarrow> string \<Rightarrow> string" where
  "after_newline c cs = (if c = CR then (case cs of d # ds \<Rightarrow> if d = LF then ds else cs | [] \<Rightarrow> []) else cs)"

lemma length_after_newline [simp]: "length (after_newline c cs) \<le> length cs"
  by (auto simp: after_newline_def split: list.splits)

function csv_scan :: "csv_mode \<Rightarrow> string \<Rightarrow> string list \<Rightarrow> string \<Rightarrow> string list list" where
  "csv_scan mode field row [] = (if mode = StartRecord then [] else [row @ [field]])"
| "csv_scan mode field row (c # cs) =
     (if mode = InQuoted then
        (if c = QUOTE then csv_scan QuoteInQuoted field row cs
         else csv_scan InQuoted (field @ [c]) row cs)
      else if mode = StartRecord \<and> is_newline c then [] # csv_scan StartRecord [] [] (after_newline c cs)
      else if is_newline c then (row @ [field]) # csv_scan StartRecord [] [] (after_newline c cs)
      else if c = COMMA then csv_scan StartField [] (row @ [field]) cs
      else if c = QUOTE \<and> mode \<noteq> InField then
        (if mode = QuoteInQuoted then csv_scan InQuoted (field @ [QUOTE]) row cs
         else csv_scan InQuoted field row cs)
      else csv_scan InField (field @ [c]) row cs)"
  by pat_completeness auto
termination
  by (relation "measure (\<lambda>(_, _, _, cs). length cs)") (auto simp: le_imp_less_Suc)

definition csv_records :: "string \<Rightarrow> string list list" where
  "csv_records text = csv_scan StartRecord [] [] text"

text \<open>\<open>dict(zip(fieldnames, row))\<close>, where a missing cell is \<open>None\<close>.\<close>

definition dict_row :: "string list \<Rightarrow> string list \<Rightarrow> pydict" where
  "dict_row names row =
     dict_update (dict_update [] (zip names (map PStr row)))
       (map (\<lambda>n. (n, PNone)) (drop (length row) names))"

definition dict_reader :: "string \<Rightarrow> pydict list" where
  "dict_reader text =
     (case csv_records text of
        [] \<Rightarrow> []
      | names # rows \<Rightarrow> map (dict_row names) (filter (\<lambda>r. r \<noteq> []) rows))"

section \<open>Lemmas\<close>

lemma csv_chars [simp]:
  "COMMA \<noteq> QUOTE" "QUOTE \<noteq> COMMA" "CR \<noteq> QUOTE" "QUOTE \<noteq> CR" "LF \<noteq> QUOTE" "QUOTE \<noteq> LF"
  "COMMA \<noteq> CR" "CR \<noteq> COMMA" "COMMA \<noteq> LF" "LF \<noteq> COMMA" "CR \<noteq> LF" "LF \<noteq> CR"
  "is_newline CR" "is_newline LF" "\<not> is_newline COMMA" "\<not> is_newline QUOTE"
  by (simp_all add: COMMA_def QUOTE_def CR_def LF_def is_newline_def)

lemma scan_plain:
  "\<not> needs_quotes f \<Longrightarrow> mode \<in> {StartRecord, StartField, InField} \<Longrightarrow> f \<noteq> [] \<Longrightarrow>
     csv_scan mode g row (f @ cs) = csv_scan InField (g @ f) row cs"
proof (induction f arbitrary: mode g)
  case (Cons c f)
  then show ?case by (cases "f = []") (auto simp: needs_quotes_def)
qed simp

lemma scan_quoted:
  "csv_scan InQuoted g row (double_quotes f @ QUOTE # cs) = csv_scan QuoteInQuoted (g @ f) row cs"
  by (induction f arbitrary: g) (auto simp: double_quotes_def)

lemma scan_quoted_field:
  "mode \<in> {StartRecord, StartField} \<Longrightarrow>
     csv_scan mode [] row (quoted_field f @ cs) = csv_scan QuoteInQuoted f row cs"
  using scan_quoted [of "[]" row f cs] by (auto simp: quoted_field_def)

text \<open>The end of a field looks the same from every mode a field can end in.\<close>

lemma scan_field_end:
  "mode \<in> {StartField, InField, QuoteInQuoted} \<Longrightarrow>
     csv_scan mode f row (COMMA # cs) = csv_scan StartField [] (row @ [f]) cs"
  "mode \<in> {StartField, InField, QuoteInQuoted} \<Longrightarrow>
     csv_scan mode f row (CR # LF # cs) = (row @ [f]) # csv_scan StartRecord [] [] cs"
  by (auto simp: after_newline_def)

lemma scan_field:
  assumes "mode = StartField \<or> mode = StartRecord \<and> f \<noteq> []"
  obtains mode' where "mode' \<in> {StartField, InField, QuoteInQuoted}"
    "\<And>cs. csv_scan mode [] row (csv_field f @ cs) = csv_scan mode' f row cs"
proof -
  consider "needs_quotes f" | "\<not> needs_quotes f" "f \<noteq> []" | "f = []" "mode = StartField" using assms by auto
  then show ?thesis
  proof cases
    case 1
    then show ?thesis using assms that [of QuoteInQuoted] scan_quoted_field [of mode row f] by (auto simp: csv_field_def)
  next
    case 2
    then show ?thesis using assms that [of InField] scan_plain [of f mode "[]" row] by (auto simp: csv_field_def)
  next
    case 3
    then show ?thesis using that [of StartField] by (simp add: csv_field_def needs_quotes_def)
  qed
qed

lemma scan_fields:
  "mode = StartField \<or> mode = StartRecord \<and> (f \<noteq> [] \<or> fs \<noteq> []) \<Longrightarrow>
     csv_scan mode [] row (py_join [COMMA] (map csv_field (f # fs)) @ CR # LF # cs) =
       (row @ f # fs) # csv_scan StartRecord [] [] cs"
proof (induction fs arbitrary: f mode row)
  case Nil
  then obtain mode' where "mode' \<in> {StartField, InField, QuoteInQuoted}"
    "\<And>cs. csv_scan mode [] row (csv_field f @ cs) = csv_scan mode' f row cs" using scan_field [of mode f row] by auto
  then show ?case using scan_field_end(2) by simp
next
  case (Cons g fs)
  show ?case
  proof (cases "mode = StartRecord \<and> f = []")
    case True
    then show ?thesis using Cons.IH [of StartField g "row @ [[]]"] by (simp add: csv_field_def needs_quotes_def)
  next
    case False
    then obtain mode' where "mode' \<in> {StartField, InField, QuoteInQuoted}"
      "\<And>cs. csv_scan mode [] row (csv_field f @ cs) = csv_scan mode' f row cs" using scan_field [of mode f row] Cons.prems by auto
    then show ?thesis using scan_field_end(1) Cons.IH [of StartField g "row @ [f]"] by simp
  qed
qed

lemma scan_row:
  assumes "fields \<noteq> []"
  shows "csv_scan StartRecord [] [] (csv_row fields @ cs) = fields # csv_scan StartRecord [] [] cs"
proof (cases "fields = [[]]")
  case True
  then show ?thesis using scan_quoted_field [of StartRecord "[]" "[]" "CR # LF # cs"] scan_field_end(2) [of QuoteInQuoted]
    by (simp add: csv_row_def)
next
  case False
  obtain f fs where "fields = f # fs" using assms by (cases fields) auto
  with False scan_fields [of StartRecord f fs "[]" cs] show ?thesis by (auto simp: csv_row_def)
qed

lemma csv_roundtrip: "\<forall>r \<in> set rows. r \<noteq> [] \<Longrightarrow> csv_records (csv_text rows) = rows"
  unfolding csv_records_def csv_text_def by (induction rows) (simp_all add: scan_row)

lemma dict_row_get:
  assumes "distinct names" "length row = length names" "i < length names"
  shows "map_of (dict_row names row) (names ! i) = Some (PStr (row ! i))"
proof -
  have keys: "distinct (map fst (zip names (map PStr row)))" using assms by simp
  have "map_of (dict_update [] (zip names (map PStr row))) (names ! i) = map_of (zip names (map PStr row)) (names ! i)"
  proof -
    have "distinct (map fst (rev (zip names (map PStr row))))" using keys by (simp only: rev_map [symmetric] distinct_rev)
    from map_of_inject_set [OF this keys] have "map_of (rev (zip names (map PStr row))) = map_of (zip names (map PStr row))" by simp
    then show ?thesis by (simp only: map_of_dict_update) (simp split: option.splits)
  qed
  also have "\<dots> = Some (PStr (row ! i))" using assms by (simp add: map_of_zip_nth)
  finally show ?thesis using assms by (simp add: dict_row_def)
qed



end
