(* ===== verification/Deadline_Profile.thy ===== *)
theory Deadline_Profile
  imports Steady_Trace Csv
begin

text \<open>
  \<open>tools/realsense_steady_bench/generate_deadline_profile.py\<close>: the \<open>SCHED_DEADLINE\<close> parameters of each
  worker thread, derived from traces of the same workload under \<open>SCHED_OTHER\<close>. Activations are
  grouped into logical jobs, the stable periods and the largest demand of the jobs are measured,
  and runtime, deadline and period are set per thread role. The burst threshold, a square root, is
  kept as its square. The checksum of the input and the output files are not modelled.
\<close>

section \<open>Definitions\<close>

subsection \<open>Inputs\<close>

definition read_limit :: "'w host \<Rightarrow> path \<Rightarrow> int \<Rightarrow> 'w \<Rightarrow> int res" where
  "read_limit h p fallback w =
     (case res_bind (of_host (h_read_text h p w)) (\<lambda>t. py_int (strip t)) of
        Inr n \<Rightarrow> Inr n
      | Inl e \<Rightarrow> if exn_kind e \<in> {OSError, ValueError, JSONDecodeError} then Inr fallback else Inl e)"

definition selected_attempt :: "'w host \<Rightarrow> path \<Rightarrow> 'w \<Rightarrow> path res" where
  "selected_attempt h p w =
     (let failure = value_error (path_str p @ '' is neither a trace attempt nor a logical run with selected_attempt.txt'') in
      if h_is_file h (p @ [''thread_lifecycle.jsonl'']) w then Inr p
      else if h_is_file h (p @ [''selected_attempt.txt'']) w
      then res_bind (of_host (h_read_text h (p @ [''selected_attempt.txt'']) w)) (\<lambda>t.
           res_bind (py_int (strip t)) (\<lambda>attempt.
           let selected = p @ [''attempt-'' @ str_int attempt]
           in if h_is_dir h selected w then Inr selected else failure))
      else failure)"

text \<open>\<open>_bool(value)\<close>; \<open>None\<close>, the value of a missing cell, has no \<open>strip\<close>.\<close>

fun flag :: "pyval \<Rightarrow> bool res" where
  "flag (PStr s) = Inr (py_lower (strip s) \<in> {''1'', ''true'', ''yes''})"
| "flag _ = Inl (Exn AttributeError ''strip'')"

type_synonym identity = "string \<times> nat \<times> string"

definition identity_live :: "int \<Rightarrow> int \<Rightarrow> thread_record \<Rightarrow> bool" where
  "identity_live b e r \<longleftrightarrow> record_name r \<noteq> ''main'' \<and> profiled b e r"

fun collect_identities ::
    "int \<Rightarrow> int \<Rightarrow> thread_record list \<Rightarrow> (string \<times> nat) list \<Rightarrow> (int \<times> identity) list \<Rightarrow> (int \<times> identity) list" where
  "collect_identities b e [] tally ids = ids"
| "collect_identities b e (r # rs) tally ids =
     (case tr_tid r of
        Some tid \<Rightarrow>
          if identity_live b e r
          then (let n = dict_get tally (record_signature r) 0 + 1
                in collect_identities b e rs (dict_set (record_signature r) n tally)
                     (dict_set tid (record_signature r, n, record_name r) ids))
          else collect_identities b e rs tally ids
      | None \<Rightarrow> collect_identities b e rs tally ids)"

definition thread_identities ::
    "'w host \<Rightarrow> (string \<Rightarrow> pyval res) \<Rightarrow> path \<Rightarrow> 'w \<Rightarrow> ((int \<times> identity) list \<times> int \<times> int) res" where
  "thread_identities h loads lifecycle_path w =
     res_bind (read_jsonl h loads lifecycle_path w) (\<lambda>events.
     res_bind (marker_time events ''steady_state_begin'') (\<lambda>b.
     res_bind (marker_time events ''steady_state_end'') (\<lambda>e.
     res_bind (lifecycle_records events []) (\<lambda>(records, _).
     Inr (collect_identities b e (sort_key record_key records) [] [], b, e)))))"

subsection \<open>Logical jobs\<close>

fun adjacent_deltas :: "int list \<Rightarrow> int list" where
  "adjacent_deltas (a # b # xs) = (b - a) # adjacent_deltas (b # xs)"
| "adjacent_deltas _ = []"

text \<open>The first position with the largest ratio of neighbours above 1, with that ratio.\<close>

fun best_gap :: "nat \<Rightarrow> int list \<Rightarrow> rat \<times> int \<Rightarrow> rat \<times> int" where
  "best_gap index (a # b # xs) best =
     (if a \<le> 0 then best_gap (index + 1) (b # xs) best
      else
        (let ratio = of_int b / of_int a
         in best_gap (index + 1) (b # xs) (if ratio > fst best then (ratio, int index) else best)))"
| "best_gap index _ best = best"

text \<open>The square of the threshold that separates bursts from the gaps between jobs.\<close>

definition burst_threshold :: "int list \<Rightarrow> int option" where
  "burst_threshold deltas =
     (let positive = sort (filter (\<lambda>d. d > 0) deltas); n = length positive;
          (ratio, index) = best_gap 0 positive (1, -1);
          upper_count = int n - index - 1;
          upper_fraction = of_int upper_count / of_nat n
      in if n \<ge> 4 \<and> ratio \<ge> 4 \<and> upper_count \<ge> 2 \<and> (5 / 100 :: rat) \<le> upper_fraction \<and> upper_fraction \<le> 90 / 100
         then Some (positive ! nat index * positive ! nat (index + 1)) else None)"

definition starts_job :: "int option \<Rightarrow> int \<Rightarrow> bool" where
  "starts_job threshold delta = (case threshold of None \<Rightarrow> True | Some sq \<Rightarrow> 0 \<le> delta \<and> sq \<le> delta * delta)"

fun group_jobs :: "int option \<Rightarrow> (int \<times> 'r) list \<Rightarrow> (int \<times> 'r) \<Rightarrow> (int \<times> 'r) list list" where
  "group_jobs threshold [] a = [[a]]"
| "group_jobs threshold (b # bs) a =
     (let rest = group_jobs threshold bs b
      in if starts_job threshold (fst b - fst a) then [a] # rest
         else (case rest of g # gs \<Rightarrow> (a # g) # gs | [] \<Rightarrow> [[a]]))"

definition jobs_of :: "(int \<times> 'r) list \<Rightarrow> (int \<times> 'r) list list \<times> int option" where
  "jobs_of ordered =
     (case ordered of
        [] \<Rightarrow> ([], None)
      | a # bs \<Rightarrow> (let threshold = burst_threshold (adjacent_deltas (map fst ordered))
                   in (group_jobs threshold bs a, threshold)))"

definition split_logical_jobs :: "pydict list \<Rightarrow> ((int \<times> pydict) list list \<times> int option) res" where
  "split_logical_jobs activations =
     res_bind (res_map (\<lambda>row. ev_int row ''release_ns'') activations) (\<lambda>releases.
     Inr (jobs_of (sort_key fst (zip releases activations))))"

definition stable_periods :: "(int \<times> 'r) list list \<Rightarrow> int list res" where
  "stable_periods groups =
     (let releases = map (\<lambda>g. fst (hd g)) (filter (\<lambda>g. g \<noteq> []) groups);
          periods = filter (\<lambda>p. p > 0) (adjacent_deltas releases)
      in if length periods < 2 then value_error ''fewer than three complete logical jobs''
         else
           res_bind (median (map of_int periods)) (\<lambda>m.
           let stable = filter (\<lambda>p. 80 / 100 * m \<le> of_int p \<and> of_int p \<le> 120 / 100 * m) periods
           in if int (length stable) < max 2 \<lceil>of_nat (length periods) * (50 / 100 :: rat)\<rceil>
              then value_error ''logical period is not stable enough to model''
              else Inr stable))"

definition row_execution_ns :: "pydict \<Rightarrow> int res" where
  "row_execution_ns row =
     res_bind (py_item (PDict row) ''execution_ms'') (\<lambda>v.
     res_bind (py_floatv v) (\<lambda>ms. Inr (py_round (ms * 1000000))))"

definition maximum_job_execution :: "(int \<times> pydict) list list \<Rightarrow> int res" where
  "maximum_job_execution groups =
     res_bind (res_map (\<lambda>g. res_bind (res_map (\<lambda>a. row_execution_ns (snd a)) g) (\<lambda>ns. Inr (sum_list ns)))
       (filter (\<lambda>g. g \<noteq> []) groups)) (\<lambda>demands.
     if demands = [] \<or> max_default demands 0 \<le> 0 then value_error ''no positive execution demand was observed''
     else Inr (max_default demands 0))"

subsection \<open>The workers of one trace\<close>

record worker =
  wk_name :: string
  wk_period_ns :: int
  wk_principal_period_ns :: int
  wk_execution_ns :: int
  wk_activation_count :: nat
  wk_logical_job_count :: nat
  wk_burst_threshold :: "int option"

definition required_artifacts :: "'w host \<Rightarrow> path list \<Rightarrow> 'w \<Rightarrow> unit res" where
  "required_artifacts h ps w =
     (case find (\<lambda>p. \<not> h_is_file h p w) ps of
        Some p \<Rightarrow> value_error (''required trace artifact is missing: '' @ path_str p)
      | None \<Rightarrow> Inr ())"

fun index_threads :: "pyval list \<Rightarrow> (int \<times> pyval) list \<Rightarrow> (int \<times> pyval) list res" where
  "index_threads [] acc = Inr acc"
| "index_threads (t # ts) acc =
     res_bind (py_get t ''tid'' PNone) (\<lambda>v.
     if v = PNone then index_threads ts acc
     else res_bind (py_intv v) (\<lambda>tid. index_threads ts (dict_set tid t acc)))"

fun rows_by_tid :: "pydict list \<Rightarrow> (int \<times> pydict list) list \<Rightarrow> (int \<times> pydict list) list res" where
  "rows_by_tid [] acc = Inr acc"
| "rows_by_tid (row # rows) acc =
     res_bind (flag (dict_get row ''partial_start'' (PStr []))) (\<lambda>partial_start.
     res_bind (if partial_start then Inr True else flag (dict_get row ''partial_end'' (PStr []))) (\<lambda>partial.
     if partial then rows_by_tid rows acc
     else res_bind (ev_int row ''tid'') (\<lambda>tid. rows_by_tid rows (dict_append tid row acc))))"

text \<open>\<open>f(x)\<close> under \<open>try ... except ValueError as error: raise ValueError(f"{text}: {error}")\<close>\<close>

definition rewrap :: "string \<Rightarrow> 'a res \<Rightarrow> 'a res" where
  "rewrap context_text m =
     (case m of
        Inl e \<Rightarrow> if exn_kind e \<in> {ValueError, JSONDecodeError, StatisticsError}
                  then value_error (context_text @ '': '' @ exn_msg e) else Inl e
      | Inr a \<Rightarrow> Inr a)"

definition job_parameters :: "(int \<times> pydict) list list \<Rightarrow> (int list \<times> int) res" where
  "job_parameters groups =
     res_bind (stable_periods groups) (\<lambda>stable.
     res_bind (maximum_job_execution groups) (\<lambda>execution.
     Inr (stable, execution)))"

definition model_worker ::
    "(int \<times> pyval) list \<Rightarrow> (int \<times> pydict list) list \<Rightarrow> bool \<Rightarrow> int \<Rightarrow> identity \<Rightarrow> worker res" where
  "model_worker summaries rows require_sched_other tid = (\<lambda>(signature, _, lifecycle_name).
     case map_of summaries tid of
       None \<Rightarrow> value_error (''TID '' @ str_int tid @ '' has no LiME steady-state summary'')
     | Some summary \<Rightarrow>
         if \<not> truthy summary then value_error (''TID '' @ str_int tid @ '' has no LiME steady-state summary'')
         else
         res_bind (py_get summary ''policy'' PNone) (\<lambda>policy_value.
         let policy = py_str (py_or policy_value (PStr [])) in
         if require_sched_other \<and> (\<not> py_contains ''SCHED_OTHER'' policy \<or> py_contains ''|'' policy)
         then value_error (''TID '' @ str_int tid @ '' source policy is '' @ py_repr policy @ '', not a pure SCHED_OTHER trace'')
         else
         res_bind (split_logical_jobs (dict_get rows tid [])) (\<lambda>(groups, threshold).
         res_bind (rewrap (''cannot model TID '' @ str_int tid @ '' ('' @ lifecycle_name @ '', '' @ signature @ '')'')
           (job_parameters groups)) (\<lambda>(stable, execution).
         res_bind (py_get summary ''name'' PNone) (\<lambda>name_value.
         res_bind (median (map of_int stable)) (\<lambda>m.
         Inr \<lparr>wk_name = py_str (py_or name_value (PStr lifecycle_name)),
              wk_period_ns = min_default stable 0, wk_principal_period_ns = py_round m,
              wk_execution_ns = execution, wk_activation_count = length (dict_get rows tid []),
              wk_logical_job_count = length groups, wk_burst_threshold = threshold\<rparr>))))))"

type_synonym workers = "((string \<times> nat) \<times> worker) list"

fun model_workers ::
    "(int \<times> pyval) list \<Rightarrow> (int \<times> pydict list) list \<Rightarrow> bool \<Rightarrow> (int \<times> identity) list \<Rightarrow> workers \<Rightarrow> workers res" where
  "model_workers summaries rows req [] acc = Inr acc"
| "model_workers summaries rows req ((tid, ident) # ids) acc =
     res_bind (model_worker summaries rows req tid ident) (\<lambda>wk.
     let key = (fst ident, fst (snd ident)) in
     if key \<in> fst ` set acc
     then value_error (''duplicate live-thread identity: ('' @ py_repr (fst key) @ '', '' @ str_nat (snd key) @ '')'')
     else model_workers summaries rows req ids (acc @ [(key, wk)]))"

record trace_source =
  ts_input :: path
  ts_attempt :: path
  ts_begin_ns :: int
  ts_end_ns :: int
  ts_duration_ms :: rat
  ts_thread_count :: nat

definition trace_threads ::
    "'w host \<Rightarrow> (string \<Rightarrow> pyval res) \<Rightarrow> path \<Rightarrow> bool \<Rightarrow> 'w \<Rightarrow> (workers \<times> trace_source) res" where
  "trace_threads h loads p require_sched_other w =
     res_bind (selected_attempt h (h_resolve h p w) w) (\<lambda>attempt.
     let lifecycle_path = attempt @ [''thread_lifecycle.jsonl''];
         activations_path = attempt @ [''thread_steady_activations.csv''];
         summary_path = attempt @ [''thread_steady_summary.json'']
     in
     res_bind (required_artifacts h [lifecycle_path, activations_path, summary_path] w) (\<lambda>_.
     res_bind (read_json h summary_path w) (\<lambda>summary.
     res_bind (thread_identities h loads lifecycle_path w) (\<lambda>(identities, b, e).
     res_bind (py_get summary ''threads'' (PList [])) (\<lambda>threads_value.
     res_bind (py_iter threads_value) (\<lambda>threads.
     res_bind (index_threads threads []) (\<lambda>summaries.
     res_bind (of_host (h_read_text h activations_path w)) (\<lambda>text.
     res_bind (rows_by_tid (dict_reader text) []) (\<lambda>rows.
     res_bind (model_workers summaries rows require_sched_other identities []) (\<lambda>workers.
     Inr (workers, \<lparr>ts_input = h_resolve h p w, ts_attempt = attempt, ts_begin_ns = b, ts_end_ns = e,
       ts_duration_ms = ms_between e b, ts_thread_count = length workers\<rparr>)))))))))))"

subsection \<open>The profile\<close>

record profile_row =
  pr_signature :: string
  pr_instance :: nat
  pr_name :: string
  pr_runtime_ns :: int
  pr_deadline_ns :: int
  pr_period_ns :: int

record profile_detail =
  pd_row :: profile_row
  pd_observed_execution_max_ns :: int
  pd_observed_logical_period_min_ns :: int
  pd_role_instance_count :: nat
  pd_role_observed_execution_max_ns :: int
  pd_role_observed_logical_period_min_ns :: int
  pd_runtime_was_clamped :: bool
  pd_period_was_clamped :: bool
  pd_utilization :: rat
  pd_observations :: "worker list"

record excluded_thread =
  ex_signature :: string
  ex_instance :: nat
  ex_name :: string
  ex_execution_max_ns :: int
  ex_period_min_ns :: int
  ex_observations :: "worker list"

record profile_options =
  po_runtime_margin :: rat
  po_period_scale :: rat
  po_minimum_runtime_us :: int
  po_maximum_period_us :: int
  po_maximum_modeled_period_us :: "int option"

record profile =
  pf_rows :: "profile_row list"
  pf_detail :: "profile_detail list"
  pf_excluded :: "excluded_thread list"
  pf_source_thread_count :: nat
  pf_total_utilization :: rat
  pf_sources :: "trace_source list"

definition observations :: "workers list \<Rightarrow> string \<times> nat \<Rightarrow> worker list res" where
  "observations per_run key =
     res_map (\<lambda>threads. case map_of threads key of Some wk \<Rightarrow> Inr wk | None \<Rightarrow> Inl (Exn KeyError (py_repr (fst key)))) per_run"

text \<open>The instances of a role, each with what was observed of it, in ascending order.\<close>

definition role_observations :: "workers list \<Rightarrow> (string \<times> nat) list \<Rightarrow> string \<Rightarrow> (nat \<times> worker list) list res" where
  "role_observations per_run expected signature =
     res_map (\<lambda>n. res_bind (observations per_run (signature, n)) (\<lambda>obs. Inr (n, obs)))
       (sort (map snd (filter (\<lambda>k. fst k = signature) expected)))"

definition runtime_of :: "profile_options \<Rightarrow> int \<Rightarrow> int" where
  "runtime_of opts execution = max (po_minimum_runtime_us opts * 1000) \<lceil>of_int execution * po_runtime_margin opts\<rceil>"

definition period_of :: "profile_options \<Rightarrow> int \<Rightarrow> int" where
  "period_of opts period = min (po_maximum_period_us opts * 1000) \<lfloor>of_int period * po_period_scale opts\<rfloor>"

definition too_slow :: "profile_options \<Rightarrow> int \<Rightarrow> bool" where
  "too_slow opts period = (case po_maximum_modeled_period_us opts of Some m \<Rightarrow> m * 1000 < period | None \<Rightarrow> False)"

definition first_name :: "worker list \<Rightarrow> string res" where
  "first_name obs = res_bind (py_index obs 0) (\<lambda>wk. Inr (wk_name wk))"

definition excluded_of :: "string \<Rightarrow> int \<Rightarrow> int \<Rightarrow> nat \<times> worker list \<Rightarrow> excluded_thread res" where
  "excluded_of signature execution period = (\<lambda>(n, obs).
     res_bind (first_name obs) (\<lambda>name.
     Inr \<lparr>ex_signature = signature, ex_instance = n, ex_name = name, ex_execution_max_ns = execution,
          ex_period_min_ns = period, ex_observations = obs\<rparr>))"

definition detail_of ::
    "profile_options \<Rightarrow> string \<Rightarrow> nat \<Rightarrow> int \<Rightarrow> int \<Rightarrow> nat \<times> worker list \<Rightarrow> profile_detail res" where
  "detail_of opts signature instance_count execution period = (\<lambda>(n, obs).
     let runtime = runtime_of opts execution; per = period_of opts period in
     res_bind (first_name obs) (\<lambda>name.
     if per = 0 then Inl (Exn ZeroDivisionError ''division by zero'')
     else
     Inr \<lparr>pd_row = \<lparr>pr_signature = signature, pr_instance = n, pr_name = name, pr_runtime_ns = runtime,
            pr_deadline_ns = per, pr_period_ns = per\<rparr>,
          pd_observed_execution_max_ns = max_default (map wk_execution_ns obs) 0,
          pd_observed_logical_period_min_ns = min_default (map wk_period_ns obs) 0,
          pd_role_instance_count = instance_count,
          pd_role_observed_execution_max_ns = execution, pd_role_observed_logical_period_min_ns = period,
          pd_runtime_was_clamped = (runtime = po_minimum_runtime_us opts * 1000 \<and>
            of_int execution * po_runtime_margin opts < of_int (po_minimum_runtime_us opts * 1000)),
          pd_period_was_clamped = (per = po_maximum_period_us opts * 1000 \<and>
            of_int (po_maximum_period_us opts * 1000) < of_int period * po_period_scale opts),
          pd_utilization = of_int runtime / of_int per, pd_observations = obs\<rparr>))"

definition model_role ::
    "profile_options \<Rightarrow> workers list \<Rightarrow> (string \<times> nat) list \<Rightarrow> string
      \<Rightarrow> (profile_detail list \<times> excluded_thread list) res" where
  "model_role opts per_run expected signature =
     res_bind (role_observations per_run expected signature) (\<lambda>insts.
     let obs = concat (map snd insts);
         execution = max_default (map wk_execution_ns obs) 0;
         period = min_default (map wk_period_ns obs) 0
     in
     if too_slow opts period
     then res_bind (res_map (excluded_of signature execution period) insts) (\<lambda>ex. Inr ([], ex))
     else if runtime_of opts execution > period_of opts period
     then value_error (''runtime exceeds deadline for thread role '' @ signature @ '': runtime='' @
       str_int (runtime_of opts execution) @ '', period='' @ str_int (period_of opts period))
     else res_bind (res_map (detail_of opts signature (length insts) execution period) insts) (\<lambda>ds. Inr (ds, [])))"

fun model_roles ::
    "profile_options \<Rightarrow> workers list \<Rightarrow> (string \<times> nat) list \<Rightarrow> string list
      \<Rightarrow> (profile_detail list \<times> excluded_thread list) res" where
  "model_roles opts per_run expected [] = Inr ([], [])"
| "model_roles opts per_run expected (s # ss) =
     res_bind (model_role opts per_run expected s) (\<lambda>(ds, ex).
     res_bind (model_roles opts per_run expected ss) (\<lambda>(ds', ex').
     Inr (ds @ ds', ex @ ex')))"

definition keys_repr :: "(string \<times> nat) list \<Rightarrow> string" where
  "keys_repr ks = ''['' @ py_join '', '' (map (\<lambda>(s, n). ''('' @ py_repr s @ '', '' @ str_nat n @ '')'') (sort ks)) @ '']''"

fun check_runs :: "(string \<times> nat) list \<Rightarrow> nat \<Rightarrow> workers list \<Rightarrow> unit res" where
  "check_runs expected index [] = Inr ()"
| "check_runs expected index (threads # rest) =
     (let keys = map fst threads in
      if set keys \<noteq> set expected
      then value_error (''trace run '' @ str_nat index @ '' has a different live-thread set; missing='' @
        keys_repr (filter (\<lambda>k. k \<notin> set keys) expected) @ '', extra='' @
        keys_repr (filter (\<lambda>k. k \<notin> set expected) keys))
      else check_runs expected (index + 1) rest)"

text \<open>The computation of \<open>generate_profile\<close> once the traces are read.\<close>

definition build_profile :: "profile_options \<Rightarrow> (workers \<times> trace_source) list \<Rightarrow> profile res" where
  "build_profile opts runs =
     (let per_run = map fst runs; expected = map fst (hd per_run) in
      res_bind (check_runs expected 2 (tl per_run)) (\<lambda>_.
      res_bind (model_roles opts per_run expected (sort (remdups (map fst expected)))) (\<lambda>(ds, ex).
      if ds = [] then value_error ''modeled-period filter excluded every live worker''
      else Inr \<lparr>pf_rows = map pd_row ds, pf_detail = ds, pf_excluded = ex,
             pf_source_thread_count = length expected,
             pf_total_utilization = sum_list (map (\<lambda>r. of_int (pr_runtime_ns r) / of_int (pr_period_ns r)) (map pd_row ds)),
             pf_sources = map snd runs\<rparr>)))"

definition generate_profile ::
    "'w host \<Rightarrow> (string \<Rightarrow> pyval res) \<Rightarrow> profile_options \<Rightarrow> path list \<Rightarrow> 'w \<Rightarrow> profile res" where
  "generate_profile h loads opts trace_runs w =
     (if po_runtime_margin opts < 1 then value_error ''runtime margin must be at least 1.0''
      else if \<not> (0 < po_period_scale opts \<and> po_period_scale opts \<le> 1) then value_error ''period scale must be in (0, 1]''
      else if trace_runs = [] then value_error ''at least one SCHED_OTHER trace run is required''
      else res_bind (res_map (\<lambda>p. trace_threads h loads p True w) trace_runs) (build_profile opts))"

section \<open>Lemmas\<close>

subsection \<open>Logical jobs\<close>

text \<open>
  A grouping of releases: inside a group no gap starts a job, between two groups the gap does.
\<close>

fun jobs_ok :: "int option \<Rightarrow> (int \<times> 'r) list list \<Rightarrow> bool" where
  "jobs_ok threshold (g # h # gs) \<longleftrightarrow>
     g \<noteq> [] \<and> list_all (\<lambda>d. \<not> starts_job threshold d) (adjacent_deltas (map fst g)) \<and>
     h \<noteq> [] \<and> starts_job threshold (fst (hd h) - fst (last g)) \<and> jobs_ok threshold (h # gs)"
| "jobs_ok threshold [g] \<longleftrightarrow> g \<noteq> [] \<and> list_all (\<lambda>d. \<not> starts_job threshold d) (adjacent_deltas (map fst g))"
| "jobs_ok threshold [] \<longleftrightarrow> True"

lemma group_jobs_ok:
  "concat (group_jobs threshold bs a) = a # bs \<and> jobs_ok threshold (group_jobs threshold bs a)"
proof (induction bs arbitrary: a)
  case (Cons b bs)
  note IH = Cons.IH [of b]
  obtain g gs where rest: "group_jobs threshold bs b = g # gs" using IH by (cases "group_jobs threshold bs b") auto
  have ne: "g \<noteq> []" using IH rest by (cases gs) auto
  then have hd: "hd g = b" using IH rest by (cases g) auto
  obtain g' where g: "g = b # g'" using ne hd by (cases g) auto
  show ?case
  proof (cases "starts_job threshold (fst b - fst a)")
    case True
    then show ?thesis using IH rest g by simp
  next
    case False
    then show ?thesis using IH rest g by (cases gs) auto
  qed
qed simp

subsection \<open>The burst threshold\<close>

lemma best_gap_cases:
  "best_gap index xs best = best \<or>
   (\<exists>k. Suc k < length xs \<and> 0 < xs ! k \<and> best_gap index xs best = (of_int (xs ! Suc k) / of_int (xs ! k), int (index + k)))"
proof (induction index xs best rule: best_gap.induct)
  case (1 index a b xs best)
  show ?case
  proof (cases "a \<le> 0")
    case True
    from 1(1) [OF True] show ?thesis
    proof
      assume "\<exists>k. Suc k < length (b # xs) \<and> 0 < (b # xs) ! k \<and>
        best_gap (index + 1) (b # xs) best = (of_int ((b # xs) ! Suc k) / of_int ((b # xs) ! k), int (index + 1 + k))"
      then obtain k where "Suc (Suc k) < length (a # b # xs)" "0 < (a # b # xs) ! Suc k"
        "best_gap (index + 1) (b # xs) best = (of_int ((a # b # xs) ! Suc (Suc k)) / of_int ((a # b # xs) ! Suc k), int (index + Suc k))" by auto
      with True show ?thesis by (metis best_gap.simps(1))
    qed (use True in simp)
  next
    case False
    let ?best = "if of_int b / of_int a > fst best then (of_int b / of_int a, int index) else best"
    have eq: "best_gap index (a # b # xs) best = best_gap (index + 1) (b # xs) ?best" using False by (simp add: Let_def)
    from 1(2) [OF False refl] have "best_gap (index + 1) (b # xs) ?best = ?best \<or>
      (\<exists>k. Suc k < length (b # xs) \<and> 0 < (b # xs) ! k \<and>
        best_gap (index + 1) (b # xs) ?best = (of_int ((b # xs) ! Suc k) / of_int ((b # xs) ! k), int (index + 1 + k)))" .
    then show ?thesis
    proof
      assume "best_gap (index + 1) (b # xs) ?best = ?best"
      then show ?thesis using False eq by (cases "of_int b / of_int a > fst best") (auto intro!: exI [of _ 0])
    next
      assume "\<exists>k. Suc k < length (b # xs) \<and> 0 < (b # xs) ! k \<and>
        best_gap (index + 1) (b # xs) ?best = (of_int ((b # xs) ! Suc k) / of_int ((b # xs) ! k), int (index + 1 + k))"
      then obtain k where "Suc (Suc k) < length (a # b # xs)" "0 < (a # b # xs) ! Suc k"
        "best_gap (index + 1) (b # xs) ?best = (of_int ((a # b # xs) ! Suc (Suc k)) / of_int ((a # b # xs) ! Suc k), int (index + Suc k))" by auto
      then show ?thesis unfolding eq by blast
    qed
  qed
qed simp_all

lemma burst_threshold_gap:
  assumes "burst_threshold deltas = Some sq"
  obtains lo hi where "0 < lo" "4 * lo \<le> hi" "sq = lo * hi" "lo \<in> set deltas" "hi \<in> set deltas"
    "\<forall>d \<in> set deltas. d \<le> lo \<or> hi \<le> d" "2 \<le> length (filter (\<lambda>d. hi \<le> d) deltas)"
proof -
  define ps where "ps = sort (filter (\<lambda>d. d > 0) deltas)"
  obtain r i where best: "best_gap 0 ps (1, -1) = (r, i)" by fastforce
  from assms best have n: "4 \<le> r" "2 \<le> int (length ps) - i - 1" and sq: "sq = ps ! nat i * ps ! nat (i + 1)"
    by (auto simp: burst_threshold_def Let_def ps_def split: if_splits)
  from best_gap_cases [of 0 ps "(1, -1)"] best n(1) obtain k where
    k: "Suc k < length ps" "0 < ps ! k" "r = of_int (ps ! Suc k) / of_int (ps ! k)" "i = int k" by auto
  have sorted: "sorted ps" by (simp add: ps_def)
  have mem: "ps ! k \<in> set deltas" "ps ! Suc k \<in> set deltas"
    using nth_mem [OF k(1)] nth_mem [of k ps] k(1) by (auto simp: ps_def)
  have "(4 :: rat) * of_int (ps ! k) \<le> of_int (ps ! Suc k)" using n(1) k(2,3) by (simp add: field_simps)
  then have four: "4 * ps ! k \<le> ps ! Suc k" by linarith
  have apart: "\<forall>d \<in> set deltas. d \<le> ps ! k \<or> ps ! Suc k \<le> d"
  proof
    fix d assume d: "d \<in> set deltas"
    show "d \<le> ps ! k \<or> ps ! Suc k \<le> d"
    proof (cases "d > 0")
      case True
      then have "d \<in> set ps" using d by (simp add: ps_def)
      then obtain j where j: "j < length ps" "ps ! j = d" by (auto simp: in_set_conv_nth)
      show ?thesis using sorted_nth_mono [OF sorted] j k(1) by (metis Suc_leI Suc_lessD not_le)
    qed (use k(2) in linarith)
  qed
  have "length (filter (\<lambda>d. ps ! Suc k \<le> d) deltas) = length (filter (\<lambda>d. ps ! Suc k \<le> d) ps)"
  proof -
    have "mset (filter (\<lambda>d. c \<le> d) ps) = mset (filter (\<lambda>d. c \<le> d) (filter (\<lambda>d. d > 0) deltas))" for c
      unfolding ps_def by (simp only: mset_filter mset_sort)
    note this [of "ps ! Suc k"]
    moreover have "filter (\<lambda>d. ps ! Suc k \<le> d) (filter (\<lambda>d. d > 0) deltas) = filter (\<lambda>d. ps ! Suc k \<le> d) deltas"
      using four k(2) by (auto intro!: filter_cong simp: filter_filter)
    ultimately show ?thesis by (metis size_mset)
  qed
  also have "\<dots> \<ge> length (drop (Suc k) ps)"
  proof -
    have "filter (\<lambda>d. ps ! Suc k \<le> d) (drop (Suc k) ps) = drop (Suc k) ps"
      using sorted_nth_mono [OF sorted] k(1) by (auto simp: filter_id_conv in_set_conv_nth)
    then show ?thesis by (metis append_take_drop_id filter_append le_add2 length_append)
  qed
  finally have "2 \<le> length (filter (\<lambda>d. ps ! Suc k \<le> d) deltas)" using n(2) k(1,4) by simp
  then show ?thesis using that [OF k(2) four _ mem apart] sq k(4) by (simp add: nat_add_distrib)
qed

lemma starts_job_gap:
  assumes "0 < lo" "4 * lo \<le> hi" "d \<le> lo \<or> hi \<le> d"
  shows "starts_job (Some (lo * hi)) d \<longleftrightarrow> hi \<le> d"
proof
  assume s: "starts_job (Some (lo * hi)) d"
  show "hi \<le> d"
  proof (rule ccontr)
    assume "\<not> hi \<le> d"
    with assms(3) s have "0 \<le> d" "d \<le> lo" "lo * hi \<le> d * d" by (auto simp: starts_job_def)
    moreover have "d * d \<le> lo * lo" using \<open>0 \<le> d\<close> \<open>d \<le> lo\<close> by (intro mult_mono) auto
    moreover have "lo * lo < lo * hi" using assms(1,2) by simp
    ultimately show False by linarith
  qed
next
  assume "hi \<le> d"
  have "lo * hi \<le> d * d" by (rule mult_mono) (use assms(1,2) \<open>hi \<le> d\<close> in linarith)+
  then show "starts_job (Some (lo * hi)) d" using assms(1,2) \<open>hi \<le> d\<close> by (simp add: starts_job_def)
qed

text \<open>
  The activations of a thread are cut into logical jobs without losing or reordering any: the
  jobs, put together, are the activations in the order of release; without a burst threshold every
  activation is a job of its own; with one, the gaps between releases fall into two classes at
  least a factor of four apart, gaps of the lower class stay inside a job, gaps of the upper class,
  of which there are at least two, separate jobs.
\<close>

lemma logical_jobs_sound:
  assumes "jobs_of ordered = (groups, threshold)"
  shows "concat groups = ordered \<and> jobs_ok threshold groups \<and>
    (case threshold of
       None \<Rightarrow> \<forall>d. starts_job threshold d
     | Some _ \<Rightarrow> \<exists>lo hi. 0 < lo \<and> 4 * lo \<le> hi \<and> 2 \<le> length (filter (\<lambda>d. hi \<le> d) (adjacent_deltas (map fst ordered))) \<and>
         (\<forall>d \<in> set (adjacent_deltas (map fst ordered)). (d \<le> lo \<or> hi \<le> d) \<and> (starts_job threshold d \<longleftrightarrow> hi \<le> d)))"
proof (cases ordered)
  case Nil
  then show ?thesis using assms by (auto simp: jobs_of_def starts_job_def)
next
  case (Cons a bs)
  then have g: "groups = group_jobs threshold bs a" and t: "threshold = burst_threshold (adjacent_deltas (map fst ordered))"
    using assms by (auto simp: jobs_of_def Let_def)
  have ok: "concat groups = ordered" "jobs_ok threshold groups" using group_jobs_ok [of threshold bs a] Cons by (auto simp: g)
  show ?thesis
  proof (cases threshold)
    case None
    then show ?thesis using ok by (auto simp: starts_job_def)
  next
    case (Some sq)
    from burst_threshold_gap [OF t [symmetric, unfolded Some]] obtain lo hi where
      "0 < lo" "4 * lo \<le> hi" "sq = lo * hi" "\<forall>d \<in> set (adjacent_deltas (map fst ordered)). d \<le> lo \<or> hi \<le> d"
      "2 \<le> length (filter (\<lambda>d. hi \<le> d) (adjacent_deltas (map fst ordered)))" by metis
    then have "\<exists>lo hi. 0 < lo \<and> 4 * lo \<le> hi \<and> 2 \<le> length (filter (\<lambda>d. hi \<le> d) (adjacent_deltas (map fst ordered))) \<and>
         (\<forall>d \<in> set (adjacent_deltas (map fst ordered)). (d \<le> lo \<or> hi \<le> d) \<and> (starts_job threshold d \<longleftrightarrow> hi \<le> d))"
      using Some starts_job_gap by (intro exI [of _ lo] exI [of _ hi]) auto
    with ok Some show ?thesis by simp
  qed
qed

definition demo_releases :: "(int \<times> nat) list" where
  "demo_releases = zip [0, 10, 1000, 1010, 2000, 2011, 3000] [0 ..< 7]"

subsection \<open>Stable periods\<close>

lemma stable_periods_cases:
  assumes "stable_periods groups = Inr ps"
  obtains periods m where "periods = filter (\<lambda>p. p > 0) (adjacent_deltas (map (\<lambda>g. fst (hd g)) (filter (\<lambda>g. g \<noteq> []) groups)))"
    "median (map of_int periods) = Inr m"
    "ps = filter (\<lambda>p. 80 / 100 * m \<le> of_int p \<and> of_int p \<le> 120 / 100 * m) periods"
    "max 2 \<lceil>of_nat (length periods) * (50 / 100 :: rat)\<rceil> \<le> int (length ps)"
  using assms unfolding stable_periods_def Let_def
  by (auto simp: res_bind_Inr_iff not_less split: if_splits)

text \<open>
  A period model is accepted only on consistent evidence: at least two periods, and at least
  half of the positive distances between the starts of consecutive jobs, lie within a fifth of
  their median; hence the accepted periods are positive and no two of them differ by more than
  half of the smaller one.
\<close>

lemma stable_periods_consistent:
  assumes "stable_periods groups = Inr ps"
  shows "2 \<le> length ps \<and>
    length (filter (\<lambda>p. p > 0) (adjacent_deltas (map (\<lambda>g. fst (hd g)) (filter (\<lambda>g. g \<noteq> []) groups)))) \<le> 2 * length ps \<and>
    (\<forall>p \<in> set ps. 0 < p \<and> (\<forall>q \<in> set ps. 2 * p \<le> 3 * q))"
  using assms
proof (cases rule: stable_periods_cases)
  case (1 periods m)
  have "\<lceil>of_nat (length periods) * (50 / 100 :: rat)\<rceil> \<le> int (length ps)" using 1(4) by simp
  then have "of_nat (length periods) * (50 / 100 :: rat) \<le> of_nat (length ps)" by (simp add: ceiling_le_iff)
  then have "(of_nat (length periods) :: rat) \<le> of_nat (2 * length ps)" by simp
  then have half: "length periods \<le> 2 * length ps" by (simp only: of_nat_le_iff)
  have "2 * p \<le> 3 * q" if "p \<in> set ps" "q \<in> set ps" for p q
  proof -
    have "of_int p \<le> 120 / 100 * m" "80 / 100 * m \<le> of_int q" using that 1(3) by auto
    then have "(of_int (2 * p) :: rat) \<le> of_int (3 * q)" by simp
    then show ?thesis by (simp only: of_int_le_iff)
  qed
  moreover have "0 < p" if "p \<in> set ps" for p using that 1(1,3) by auto
  ultimately show ?thesis using 1(1,4) half by auto
qed

subsection \<open>Identities\<close>

text \<open>Every identity handed out so far carries a number no larger than the tally of its signature.\<close>

definition ids_ok :: "(string \<times> nat) list \<Rightarrow> (int \<times> identity) list \<Rightarrow> bool" where
  "ids_ok tally ids \<longleftrightarrow> distinct (map fst ids) \<and>
     inj_on (\<lambda>(tid, s, n, _). (s, n)) (set ids) \<and> (\<forall>(tid, s, n, _) \<in> set ids. n \<le> dict_get tally s 0)"

lemma ids_ok_add:
  assumes "ids_ok tally ids"
  shows "ids_ok (dict_set s (dict_get tally s 0 + 1) tally) (dict_set tid (s, dict_get tally s 0 + 1, name) ids)"
proof -
  let ?n = "dict_get tally s 0 + 1"
  have ids: "distinct (map fst ids)" "inj_on (\<lambda>(tid, s, n, _). (s, n)) (set ids)" "\<forall>(tid, s, n, _) \<in> set ids. n \<le> dict_get tally s 0"
    using assms by (auto simp: ids_ok_def)
  have sub: "set (dict_set tid (s, ?n, name) ids) \<subseteq> insert (tid, s, ?n, name) (set ids)" by (rule set_dict_set)
  have "inj_on (\<lambda>(tid, s, n, _). (s, n)) (insert (tid, s, ?n, name) (set ids))"
    using ids(2,3) by (auto simp: inj_on_insert)
  from inj_on_subset [OF this sub] have "inj_on (\<lambda>(tid, s, n, _). (s, n)) (set (dict_set tid (s, ?n, name) ids))" .
  moreover have "\<forall>(tid, s', n, _) \<in> set (dict_set tid (s, ?n, name) ids). n \<le> dict_get (dict_set s ?n tally) s' 0"
    using sub ids(3) by (fastforce simp: dict_get_set)
  ultimately show ?thesis using ids(1) by (simp add: ids_ok_def distinct_update)
qed

lemma collect_identities_ok: "ids_ok tally ids \<Longrightarrow> \<exists>tally'. ids_ok tally' (collect_identities b e rs tally ids)"
proof (induction rs arbitrary: tally ids)
  case (Cons r rs)
  then show ?case using ids_ok_add [OF Cons.prems] by (auto simp: Let_def split: option.splits)
qed auto

text \<open>
  The identity of a worker thread, its signature with its instance number, is unique in a trace:
  no two thread ids get the same one, so the check for duplicates in the profile generator never
  fires.
\<close>

lemma identities_unique:
  assumes "thread_identities h loads p w = Inr (ids, b, e)"
  shows "distinct (map (\<lambda>(tid, s, n, _). (s, n)) ids)"
proof -
  from assms obtain records where ids: "ids = collect_identities b e (sort_key record_key records) [] []"
    by (auto simp: thread_identities_def res_bind_Inr_iff)
  have "ids_ok [] []" by (simp add: ids_ok_def)
  from collect_identities_ok [OF this] obtain tally where "ids_ok tally ids" unfolding ids by blast
  then have "distinct ids" "inj_on (\<lambda>(tid, s, n, _). (s, n)) (set ids)" by (auto simp: ids_ok_def distinct_map)
  then show ?thesis by (simp add: distinct_map)
qed

subsection \<open>Workers\<close>

lemma max_default_ge: "x \<in> set xs \<Longrightarrow> x \<le> max_default xs d"
  by (cases xs) (auto simp: max_default_def foldl_max_Max)

lemma min_default_le: "x \<in> set xs \<Longrightarrow> min_default xs d \<le> x"
  by (cases xs) (auto simp: min_default_def foldl_min_Min)

lemma max_default_in: "xs \<noteq> [] \<Longrightarrow> max_default xs d \<in> set xs"
  using Max_in [of "set xs"] by (cases xs) (auto simp: max_default_def foldl_max_Max)

lemma rewrap_Inr [simp]: "rewrap t m = Inr a \<longleftrightarrow> m = Inr a"
  by (cases m) (auto simp: rewrap_def)

lemma model_worker_positive: "model_worker summaries rows req tid ident = Inr wk \<Longrightarrow> 0 < wk_execution_ns wk"
  by (auto simp: model_worker_def job_parameters_def maximum_job_execution_def Let_def res_bind_Inr_iff
      split: option.splits prod.splits if_splits)

definition workers_ok :: "workers \<Rightarrow> bool" where
  "workers_ok ws \<longleftrightarrow> distinct (map fst ws) \<and> (\<forall>(k, wk) \<in> set ws. 0 < wk_execution_ns wk)"

lemma model_workers_ok: "workers_ok acc \<Longrightarrow> model_workers summaries rows req ids acc = Inr ws \<Longrightarrow> workers_ok ws"
proof (induction ids arbitrary: acc)
  case (Cons i ids)
  obtain tid ident where i: "i = (tid, ident)" by (cases i)
  from Cons.prems(2) obtain wk where wk: "model_worker summaries rows req tid ident = Inr wk"
    and new: "(fst ident, fst (snd ident)) \<notin> fst ` set acc"
    and rest: "model_workers summaries rows req ids (acc @ [((fst ident, fst (snd ident)), wk)]) = Inr ws"
    by (auto simp: i Let_def res_bind_Inr_iff split: if_splits)
  have "workers_ok (acc @ [((fst ident, fst (snd ident)), wk)])"
    using Cons.prems(1) new model_worker_positive [OF wk] by (auto simp: workers_ok_def)
  from Cons.IH [OF this rest] show ?case .
qed simp

lemma trace_threads_ok: "trace_threads h loads p req w = Inr (ws, src) \<Longrightarrow> workers_ok ws"
proof -
  assume "trace_threads h loads p req w = Inr (ws, src)"
  then obtain summaries rows ids where "model_workers summaries rows req ids [] = Inr ws"
    unfolding trace_threads_def Let_def res_bind_Inr_iff by (auto simp: res_bind_Inr_iff)
  from model_workers_ok [OF _ this] show ?thesis by (simp add: workers_ok_def)
qed

lemma check_runs_keys: "check_runs expected n runs = Inr () \<Longrightarrow> ws \<in> set runs \<Longrightarrow> set (map fst ws) = set expected"
  by (induction expected n runs rule: check_runs.induct) (auto simp: Let_def split: if_splits)

subsection \<open>Roles\<close>

lemma role_observations_mem:
  assumes "role_observations per_run expected s = Inr insts" "(s, n) \<in> set expected" "ws \<in> set per_run" "workers_ok ws"
    "((s, n), wk) \<in> set ws"
  shows "wk \<in> set (concat (map snd insts))"
proof -
  have n: "n \<in> set (sort (map snd (filter (\<lambda>k. fst k = s) expected)))" using assms(2) by force
  from res_map_mem [OF assms(1) [unfolded role_observations_def] n] obtain obs where
    obs: "observations per_run (s, n) = Inr obs" "(n, obs) \<in> set insts" by (auto simp: res_bind_Inr_iff)
  have "map_of ws (s, n) = Some wk" using assms(4,5) by (simp add: workers_ok_def)
  with res_map_mem [OF obs(1) [unfolded observations_def] assms(3)] have "wk \<in> set obs" by auto
  with obs(2) show ?thesis by force
qed

lemma role_observations_from:
  assumes "role_observations per_run expected s = Inr insts" "wk \<in> set (concat (map snd insts))"
  shows "\<exists>ws \<in> set per_run. \<exists>n. ((s, n), wk) \<in> set ws"
proof -
  from assms(2) obtain i where i: "i \<in> set insts" "wk \<in> set (snd i)" by auto
  from res_map_from [OF assms(1) [unfolded role_observations_def] i(1)] i(2) obtain n obs where
    obs: "observations per_run (s, n) = Inr obs" "wk \<in> set obs" by (auto simp: res_bind_Inr_iff)
  from res_map_from [OF obs(1) [unfolded observations_def] obs(2)] obtain ws where
    "ws \<in> set per_run" "map_of ws (s, n) = Some wk" by (auto split: option.splits)
  then show ?thesis by (auto dest: map_of_SomeD)
qed

text \<open>What a modelled role guarantees of its rows.\<close>

definition row_ok :: "profile_options \<Rightarrow> workers list \<Rightarrow> profile_row \<Rightarrow> bool" where
  "row_ok opts per_run row \<longleftrightarrow>
     pr_deadline_ns row = pr_period_ns row \<and> 0 < pr_runtime_ns row \<and> pr_runtime_ns row \<le> pr_period_ns row \<and>
     po_minimum_runtime_us opts * 1000 \<le> pr_runtime_ns row \<and> pr_period_ns row \<le> po_maximum_period_us opts * 1000 \<and>
     (\<forall>ws \<in> set per_run. \<forall>n wk. ((pr_signature row, n), wk) \<in> set ws \<longrightarrow>
        of_int (wk_execution_ns wk) * po_runtime_margin opts \<le> of_int (pr_runtime_ns row) \<and>
        of_int (pr_period_ns row) \<le> of_int (wk_period_ns wk) * po_period_scale opts)"

lemma runtime_of_ge:
  assumes "1 \<le> po_runtime_margin opts" "x \<le> execution"
  shows "of_int x * po_runtime_margin opts \<le> of_int (runtime_of opts execution)"
proof -
  have "of_int x * po_runtime_margin opts \<le> of_int execution * po_runtime_margin opts"
    using assms by (intro mult_right_mono) simp_all
  also have "\<dots> \<le> of_int \<lceil>of_int execution * po_runtime_margin opts\<rceil>" by simp
  also have "\<dots> \<le> of_int (runtime_of opts execution)" by (simp only: of_int_le_iff runtime_of_def max.cobounded2)
  finally show ?thesis .
qed

lemma period_of_le:
  assumes "0 < po_period_scale opts" "period \<le> x"
  shows "of_int (period_of opts period) \<le> of_int x * po_period_scale opts"
proof -
  have "(of_int (period_of opts period) :: rat) \<le> of_int \<lfloor>of_int period * po_period_scale opts\<rfloor>"
    by (simp only: of_int_le_iff period_of_def min.cobounded2)
  also have "\<dots> \<le> of_int period * po_period_scale opts" by simp
  also have "\<dots> \<le> of_int x * po_period_scale opts" using assms by (intro mult_right_mono) simp_all
  finally show ?thesis .
qed

lemma model_role_rows:
  assumes run: "model_role opts per_run expected s = Inr (ds, ex)" and d: "d \<in> set ds"
    and margin: "1 \<le> po_runtime_margin opts" "0 < po_period_scale opts"
    and ok: "\<forall>ws \<in> set per_run. workers_ok ws \<and> set (map fst ws) = set expected"
  shows "row_ok opts per_run (pd_row d)" "pr_signature (pd_row d) = s"
proof -
  from run d obtain insts where insts: "role_observations per_run expected s = Inr insts"
    by (auto simp: model_role_def res_bind_Inr_iff)
  let ?obs = "concat (map snd insts)"
  let ?exec = "max_default (map wk_execution_ns ?obs) 0" let ?per = "min_default (map wk_period_ns ?obs) 0"
  from run d insts have le: "runtime_of opts ?exec \<le> period_of opts ?per"
    and ds: "res_map (detail_of opts s (length insts) ?exec ?per) insts = Inr ds"
    by (auto simp: model_role_def res_bind_Inr_iff Let_def split: if_splits)
  from res_map_from [OF ds d] obtain n obs where i: "(n, obs) \<in> set insts" "obs \<noteq> []"
    and row: "pr_signature (pd_row d) = s" "pr_runtime_ns (pd_row d) = runtime_of opts ?exec"
      "pr_deadline_ns (pd_row d) = period_of opts ?per" "pr_period_ns (pd_row d) = period_of opts ?per"
    by (auto simp: detail_of_def Let_def first_name_def res_bind_Inr_iff py_index_def split: if_splits)
  have "?obs \<noteq> []" using i by force
  then have "?exec \<in> set (map wk_execution_ns ?obs)" by (intro max_default_in) simp
  then obtain wk where wk: "wk \<in> set ?obs" "?exec = wk_execution_ns wk" by auto
  from role_observations_from [OF insts wk(1)] ok have "0 < ?exec" unfolding wk(2) by (fastforce simp: workers_ok_def)
  then have "0 < of_int ?exec * po_runtime_margin opts" using margin(1) by simp
  then have pos: "0 < runtime_of opts ?exec"
    using runtime_of_ge [OF margin(1) order_refl, of ?exec] by linarith
  have "?exec \<ge> wk_execution_ns wk \<and> ?per \<le> wk_period_ns wk" if "ws \<in> set per_run" "((s, n), wk) \<in> set ws" for ws n wk
  proof -
    have "(s, n) \<in> set expected" using ok that by force
    from role_observations_mem [OF insts this that(1) _ that(2)] ok that(1) have "wk \<in> set ?obs" by blast
    then show ?thesis by (intro conjI max_default_ge min_default_le) (simp_all only: set_map imageI)
  qed
  then show "row_ok opts per_run (pd_row d)"
    using le pos runtime_of_ge [OF margin(1)] period_of_le [OF margin(2)]
    by (auto simp: row_ok_def row runtime_of_def period_of_def)
  show "pr_signature (pd_row d) = s" by (rule row(1))
qed

lemma model_roles_rows:
  assumes "model_roles opts per_run expected ss = Inr (ds, ex)" "d \<in> set ds"
  shows "\<exists>s ds' ex'. model_role opts per_run expected s = Inr (ds', ex') \<and> d \<in> set ds'"
  using assms
proof (induction ss arbitrary: ds ex)
  case (Cons s ss)
  then show ?case by (fastforce simp: res_bind_Inr_iff)
qed simp

lemma generate_profile_cases:
  assumes "generate_profile h loads opts runs w = Inr pf"
  obtains rs ds where "res_map (\<lambda>p. trace_threads h loads p True w) runs = Inr rs"
    "1 \<le> po_runtime_margin opts" "0 < po_period_scale opts" "po_period_scale opts \<le> 1" "rs \<noteq> []"
    "\<forall>ws \<in> set (map fst rs). workers_ok ws \<and> set (map fst ws) = set (map fst (fst (hd rs)))"
    "model_roles opts (map fst rs) (map fst (fst (hd rs))) (sort (remdups (map fst (map fst (fst (hd rs)))))) = Inr (ds, pf_excluded pf)"
    "pf_rows pf = map pd_row ds" "pf_detail pf = ds" "ds \<noteq> []" "pf_source_thread_count pf = length (fst (hd rs))"
    "pf_total_utilization pf = sum_list (map (\<lambda>r. of_int (pr_runtime_ns r) / of_int (pr_period_ns r)) (pf_rows pf))"
proof -
  from assms obtain rs where rs: "res_map (\<lambda>p. trace_threads h loads p True w) runs = Inr rs" and run: "build_profile opts rs = Inr pf"
    and o: "1 \<le> po_runtime_margin opts" "0 < po_period_scale opts" "po_period_scale opts \<le> 1" "runs \<noteq> []"
    by (auto simp: generate_profile_def res_bind_Inr_iff not_less split: if_splits)
  have ne: "rs \<noteq> []" using rs o(4) by (cases runs) (auto simp: res_bind_Inr_iff)
  then have hd: "hd (map fst rs) = fst (hd rs)" by (simp add: hd_map)
  from run obtain ds ex where chk: "check_runs (map fst (fst (hd rs))) 2 (tl (map fst rs)) = Inr ()"
    and roles: "model_roles opts (map fst rs) (map fst (fst (hd rs))) (sort (remdups (map fst (map fst (fst (hd rs)))))) = Inr (ds, ex)"
    and pf: "ds \<noteq> []" "pf = \<lparr>pf_rows = map pd_row ds, pf_detail = ds, pf_excluded = ex,
             pf_source_thread_count = length (map fst (fst (hd rs))),
             pf_total_utilization = sum_list (map (\<lambda>r. of_int (pr_runtime_ns r) / of_int (pr_period_ns r)) (map pd_row ds)),
             pf_sources = map snd rs\<rparr>"
    unfolding build_profile_def Let_def hd res_bind_Inr_iff by (auto split: if_splits)
  have "workers_ok (fst r)" if "r \<in> set rs" for r
    using res_map_from [OF rs that] by (metis prod.collapse trace_threads_ok)
  moreover have "set (map fst ws) = set (map fst (fst (hd rs)))" if "ws \<in> set (map fst rs)" for ws
  proof -
    have "ws = fst (hd rs) \<or> ws \<in> set (tl (map fst rs))" using that ne by (cases rs) auto
    then show ?thesis using check_runs_keys [OF chk] by blast
  qed
  ultimately show ?thesis using that [OF rs o(1-3) ne] roles pf by auto
qed

text \<open>
  C16. Every row of a generated profile is admissible for the kernel and safe for what was observed:
  the deadline is the period, the runtime is positive and at most the period, both respect the
  kernel's limits, and for every worker of that role in every trace the runtime covers its largest
  demand with the margin and the period is at most its smallest stable period scaled down.
\<close>

theorem profile_rows_safe:
  assumes "generate_profile h loads opts runs w = Inr pf"
  shows "\<exists>rs. res_map (\<lambda>p. trace_threads h loads p True w) runs = Inr rs \<and>
    (\<forall>row \<in> set (pf_rows pf). row_ok opts (map fst rs) row)"
  using assms
proof (cases rule: generate_profile_cases)
  case (1 rs ds)
  have "row_ok opts (map fst rs) row" if "row \<in> set (pf_rows pf)" for row
  proof -
    from that 1(8) obtain d where d: "d \<in> set ds" "row = pd_row d" by auto
    from model_roles_rows [OF 1(7) d(1)] obtain s ds' ex' where
      "model_role opts (map fst rs) (map fst (fst (hd rs))) s = Inr (ds', ex')" "d \<in> set ds'" by blast
    from model_role_rows(1) [OF this 1(2,3,6)] show ?thesis by (simp add: d(2))
  qed
  with 1(1) show ?thesis by blast
qed

definition demo_activations :: "(string \<times> string) list list" where
  "demo_activations = map (\<lambda>t. [(''tid'', ''11''), (''release_ns'', str_int t), (''execution_ms'', ''0.00004''),
     (''partial_start'', ''False''), (''partial_end'', ''False'')]) [0, 100, 200, 300]"

definition profile_demo_trace :: sim where
  "profile_demo_trace = steady_demo_trace\<lparr>
     sim_files := [
       ([''t'', ''thread_lifecycle.jsonl''], concat (map (\<lambda>(n, _). n @ [CHR 0x0A]) steady_demo_lines)),
       ([''t'', ''thread_steady_activations.csv''],
         write_csv_text [''tid'', ''release_ns'', ''execution_ms'', ''partial_start'', ''partial_end''] demo_activations),
       ([''t'', ''thread_steady_summary.json''], [])],
     sim_json := [([''t'', ''thread_steady_summary.json''], PDict [(''threads'',
       PList [PDict [(''tid'', PInt 11), (''policy'', PStr ''SCHED_OTHER''), (''name'', PStr ''uvc'')]])])]\<rparr>"

definition demo_options :: profile_options where
  "demo_options = \<lparr>po_runtime_margin = 120 / 100, po_period_scale = 91 / 100, po_minimum_runtime_us = 0,
     po_maximum_period_us = 4194304, po_maximum_modeled_period_us = None\<rparr>"

abbreviation demo_profile :: "profile res" where
  "demo_profile \<equiv> generate_profile sim_host steady_demo_loads demo_options [[''t'']] profile_demo_trace"

lemma demo_profile_run:
  obtains pf where "demo_profile = Inr pf"
    "map (\<lambda>r. (pr_instance r, pr_runtime_ns r, pr_period_ns r)) (pf_rows pf) = [(1, 48, 91)]"
proof -
  have "case demo_profile of Inr pf \<Rightarrow>
      map (\<lambda>r. (pr_instance r, pr_runtime_ns r, pr_period_ns r)) (pf_rows pf) = [(1, 48, 91)] | Inl _ \<Rightarrow> False"
    by code_simp
  then show ?thesis using that by (auto split: sum.splits)
qed

theorem profile_rows_safe_witness:
  "\<exists>pf rs. demo_profile = Inr pf \<and>
     res_map (\<lambda>p. trace_threads sim_host steady_demo_loads p True profile_demo_trace) [[''t'']] = Inr rs \<and>
     map (\<lambda>r. (pr_instance r, pr_runtime_ns r, pr_period_ns r)) (pf_rows pf) = [(1, 48, 91)] \<and>
     (\<forall>row \<in> set (pf_rows pf). row_ok demo_options (map fst rs) row)"
proof -
  obtain pf where pf: "demo_profile = Inr pf"
    "map (\<lambda>r. (pr_instance r, pr_runtime_ns r, pr_period_ns r)) (pf_rows pf) = [(1, 48, 91)]" by (rule demo_profile_run)
  from profile_rows_safe [OF pf(1)] obtain rs where
    rs: "res_map (\<lambda>p. trace_threads sim_host steady_demo_loads p True profile_demo_trace) [[''t'']] = Inr rs"
    "\<forall>row \<in> set (pf_rows pf). row_ok demo_options (map fst rs) row" by (elim exE conjE) (rule that)
  show ?thesis by (intro exI [of _ pf] exI [of _ rs] conjI pf rs)
qed

subsection \<open>Completeness\<close>

definition row_key :: "profile_row \<Rightarrow> string \<times> nat" where
  "row_key r = (pr_signature r, pr_instance r)"

definition excluded_key :: "excluded_thread \<Rightarrow> string \<times> nat" where
  "excluded_key x = (ex_signature x, ex_instance x)"

lemma model_role_keys:
  assumes "model_role opts per_run expected s = Inr (ds, ex)"
  shows "map row_key (map pd_row ds) @ map excluded_key ex = map (Pair s) (sort (map snd (filter (\<lambda>k. fst k = s) expected)))"
proof -
  from assms obtain insts where insts: "role_observations per_run expected s = Inr insts" by (auto simp: model_role_def res_bind_Inr_iff)
  have n: "map fst insts = map id (sort (map snd (filter (\<lambda>k. fst k = s) expected)))"
    by (rule res_map_projection [OF insts [unfolded role_observations_def]]) (auto simp: res_bind_Inr_iff)
  from assms insts obtain execution period where
    "ds = [] \<and> res_map (excluded_of s execution period) insts = Inr ex \<or>
     ex = [] \<and> res_map (detail_of opts s (length insts) execution period) insts = Inr ds"
    by (auto simp: model_role_def res_bind_Inr_iff Let_def split: if_splits)
  then have "map row_key (map pd_row ds) @ map excluded_key ex = map (\<lambda>i. (s, fst i)) insts"
  proof
    assume "ds = [] \<and> res_map (excluded_of s execution period) insts = Inr ex"
    moreover from this have "map excluded_key ex = map (\<lambda>i. (s, fst i)) insts"
      by (intro res_map_projection [of "excluded_of s execution period"]) (auto simp: excluded_of_def excluded_key_def res_bind_Inr_iff)
    ultimately show ?thesis by simp
  next
    assume "ex = [] \<and> res_map (detail_of opts s (length insts) execution period) insts = Inr ds"
    moreover from this have "map (\<lambda>d. row_key (pd_row d)) ds = map (\<lambda>i. (s, fst i)) insts"
      by (intro res_map_projection [of "detail_of opts s (length insts) execution period"])
        (auto simp: detail_of_def row_key_def res_bind_Inr_iff Let_def split: if_splits)
    ultimately show ?thesis by (simp add: comp_def)
  qed
  also have "\<dots> = map (Pair s) (map fst insts)" by simp
  finally show ?thesis by (simp only: n list.map_id)
qed

lemma filter_fst_mset: "mset (map (Pair s) (sort (map snd (filter (\<lambda>k. fst k = s) ks)))) = filter_mset (\<lambda>k. fst k = s) (mset ks)"
  by (induction ks) (auto simp: sort_key_const)

lemma model_roles_keys:
  "model_roles opts per_run expected ss = Inr (ds, ex) \<Longrightarrow> distinct ss \<Longrightarrow>
     mset (map row_key (map pd_row ds)) + mset (map excluded_key ex) = filter_mset (\<lambda>k. fst k \<in> set ss) (mset expected)"
proof (induction ss arbitrary: ds ex)
  case (Cons s ss)
  from Cons.prems(1) obtain ds1 ex1 ds2 ex2 where run: "model_role opts per_run expected s = Inr (ds1, ex1)"
    "model_roles opts per_run expected ss = Inr (ds2, ex2)" "ds = ds1 @ ds2" "ex = ex1 @ ex2"
    by (auto simp: res_bind_Inr_iff)
  have one: "mset (map row_key (map pd_row ds1)) + mset (map excluded_key ex1) = filter_mset (\<lambda>k. fst k = s) (mset expected)"
    unfolding filter_fst_mset [symmetric] model_role_keys [OF run(1), symmetric] by (simp only: mset_append)
  have two: "mset (map row_key (map pd_row ds2)) + mset (map excluded_key ex2) = filter_mset (\<lambda>k. fst k \<in> set ss) (mset expected)"
    using Cons.IH [OF run(2)] Cons.prems(2) by simp
  have "filter_mset (\<lambda>k. fst k \<in> set (s # ss)) (mset expected) =
      filter_mset (\<lambda>k. fst k = s) (mset expected) + filter_mset (\<lambda>k. fst k \<in> set ss) (mset expected)"
    using Cons.prems(2) by (induction expected) auto
  with one two show ?case by (simp add: run(3,4) ac_simps)
qed simp

text \<open>
  A profile accounts for every worker thread of the traces exactly once: the rows and the
  excluded threads together are the threads of the first trace, each of them once, and at least
  one is a row.
\<close>

lemma profile_complete:
  assumes "generate_profile h loads opts runs w = Inr pf"
  shows "\<exists>rs. res_map (\<lambda>p. trace_threads h loads p True w) runs = Inr rs \<and>
    mset (map row_key (pf_rows pf)) + mset (map excluded_key (pf_excluded pf)) = mset (map fst (fst (hd rs))) \<and>
    distinct (map row_key (pf_rows pf) @ map excluded_key (pf_excluded pf)) \<and>
    pf_source_thread_count pf = length (pf_rows pf) + length (pf_excluded pf) \<and> pf_rows pf \<noteq> []"
  using assms
proof (cases rule: generate_profile_cases)
  case (1 rs ds)
  let ?expected = "map fst (fst (hd rs))"
  have all: "filter_mset (\<lambda>k. fst k \<in> set (sort (remdups (map fst ks)))) (mset ks) = mset ks" for ks :: "(string \<times> nat) list"
  proof -
    have "filter (\<lambda>k. fst k \<in> set (sort (remdups (map fst ks)))) ks = ks" by (simp add: filter_id_conv)
    then show ?thesis by (metis mset_filter)
  qed
  have keys: "mset (map row_key (pf_rows pf)) + mset (map excluded_key (pf_excluded pf)) = mset ?expected"
    unfolding 1(8) using model_roles_keys [OF 1(7)] all [of ?expected] by (simp only: distinct_sort distinct_remdups)
  have "workers_ok (fst (hd rs))" using 1(5,6) by (cases rs) auto
  then have dist: "distinct ?expected" by (simp add: workers_ok_def)
  have "mset (map row_key (pf_rows pf) @ map excluded_key (pf_excluded pf)) = mset ?expected" using keys by simp
  with dist have "distinct (map row_key (pf_rows pf) @ map excluded_key (pf_excluded pf))" by (metis mset_eq_imp_distinct_iff)
  moreover have "length (pf_rows pf) + length (pf_excluded pf) = length (fst (hd rs))"
    using arg_cong [OF keys, of size] by simp
  ultimately show ?thesis using 1(1,8,10,11) keys by (intro exI [of _ rs]) simp
qed

end
