(* ===== verification/Timerlat_Parser.thy ===== *)
theory Timerlat_Parser
  imports Startup_Trace
begin

text \<open>
  \<open>tools/realsense_timerlat_bench/timerlat_parser.py\<close>: the histogram that \<open>rtla timerlat hist\<close> prints,
  read line by line into per-column buckets, summary and overflow counts, and the quantiles by
  nearest rank. The rounding constant of the rank is the decimal of the source.
\<close>

section \<open>Definitions\<close>

definition SUMMARY_KEYS :: "string list" where
  "SUMMARY_KEYS = [''count'', ''min'', ''avg'', ''max'']"

definition integers :: "string list \<Rightarrow> int list res" where
  "integers tokens = res_map py_int tokens"

type_synonym buckets = "(nat \<times> int) list"

fun rank_scan :: "int \<Rightarrow> int \<Rightarrow> buckets \<Rightarrow> nat option" where
  "rank_scan target cumulative [] = None"
| "rank_scan target cumulative ((latency_us, n) # rest) =
     (if target \<le> cumulative + n then Some latency_us else rank_scan target (cumulative + n) rest)"

definition rank_target :: "int \<Rightarrow> rat \<Rightarrow> int" where
  "rank_target samples quantile = max 1 (rat_trunc (of_int samples * quantile + 999999999 / 1000000000))"

definition nearest_rank :: "buckets \<Rightarrow> int \<Rightarrow> rat \<Rightarrow> nat option" where
  "nearest_rank bs samples quantile =
     (if samples \<le> 0 then None else rank_scan (rank_target samples quantile) 0 (sort_key fst bs))"

definition maximum_known :: "nat option list \<Rightarrow> nat option" where
  "maximum_known vs =
     (if vs = [] then Some 0
      else if None \<in> set vs then None
      else Some (foldl max (the (hd vs)) (map the (tl vs))))"

subsection \<open>Lines\<close>

record timerlat_state =
  th_columns :: "string list"
  th_histograms :: "(string \<times> buckets) list"
  th_summary :: "(string \<times> (string \<times> int) list) list"
  th_overflow :: "(string \<times> int) list"

definition th_init :: timerlat_state where
  "th_init = \<lparr>th_columns = [], th_histograms = [], th_summary = [], th_overflow = []\<rparr>"

text \<open>A stripped line of the form \<open>key: values\<close>, and one of the form \<open>digits values\<close>.\<close>

definition keyed_line :: "string \<Rightarrow> string \<Rightarrow> string option" where
  "keyed_line key line =
     (let rest = drop (length key + 1) line in
      if prefix (key @ '':'') line \<and> rest \<noteq> [] \<and> is_ws (hd rest) \<and> lstrip rest \<noteq> [] then Some (lstrip rest) else None)"

definition bucket_line :: "string \<Rightarrow> (nat \<times> string) option" where
  "bucket_line line =
     (let ds = takeWhile is_digit line; rest = dropWhile is_digit line in
      if ds \<noteq> [] \<and> rest \<noteq> [] \<and> is_ws (hd rest) \<and> lstrip rest \<noteq> [] then Some (dec_nat ds, lstrip rest) else None)"

definition header_step :: "string \<Rightarrow> timerlat_state" where
  "header_step line =
     (let columns = tl (split_ws line) in
      \<lparr>th_columns = columns, th_histograms = map (\<lambda>c. (c, [])) (remdups columns),
       th_summary = map (\<lambda>c. (c, [])) (remdups columns), th_overflow = map (\<lambda>c. (c, 0)) (remdups columns)\<rparr>)"

fun set_summary :: "string \<Rightarrow> (string \<times> int) list \<Rightarrow> (string \<times> (string \<times> int) list) list \<Rightarrow> (string \<times> (string \<times> int) list) list" where
  "set_summary key [] d = d"
| "set_summary key ((column, v) # cvs) d = set_summary key cvs (dict_set column (dict_set key v (dict_get d column [])) d)"

fun set_buckets :: "nat \<Rightarrow> (string \<times> int) list \<Rightarrow> (string \<times> buckets) list \<Rightarrow> (string \<times> buckets) list" where
  "set_buckets latency [] d = d"
| "set_buckets latency ((column, v) # cvs) d =
     set_buckets latency cvs
       (if v \<noteq> 0 then dict_set column (dict_set latency v (dict_get d column [])) d else d)"

definition column_values :: "timerlat_state \<Rightarrow> string \<Rightarrow> string \<Rightarrow> (string \<times> int) list res" where
  "column_values st what text =
     res_bind (integers (split_ws text)) (\<lambda>vs.
     if length vs \<noteq> length (th_columns st) then value_error (''Timerlat '' @ what @ '' column count does not match header'')
     else Inr (zip (th_columns st) vs))"

definition summary_line :: "string \<Rightarrow> (string \<times> string) option" where
  "summary_line line =
     (case List.map_filter (\<lambda>k. map_option (Pair k) (keyed_line k line)) SUMMARY_KEYS of kv # _ \<Rightarrow> Some kv | [] \<Rightarrow> None)"

definition timerlat_line :: "string \<Rightarrow> timerlat_state \<Rightarrow> timerlat_state res" where
  "timerlat_line raw st =
     (let line = strip raw in
      if line = [] \<or> prefix ''#'' line then Inr st
      else if prefix ''Index '' line then Inr (header_step line)
      else if th_columns st = [] then Inr st
      else
        (case summary_line line of
           Some (key, text) \<Rightarrow>
             res_bind (column_values st key text) (\<lambda>cvs. Inr (st\<lparr>th_summary := set_summary key cvs (th_summary st)\<rparr>))
         | None \<Rightarrow>
             (case keyed_line ''over'' line of
                Some text \<Rightarrow>
                  res_bind (column_values st ''overflow'' text) (\<lambda>cvs. Inr (st\<lparr>th_overflow := dict_update [] cvs\<rparr>))
              | None \<Rightarrow>
                  (case bucket_line line of
                     Some (latency, text) \<Rightarrow>
                       res_bind (column_values st ''histogram'' text) (\<lambda>cvs.
                       Inr (st\<lparr>th_histograms := set_buckets latency cvs (th_histograms st)\<rparr>))
                   | None \<Rightarrow> Inr st))))"

fun timerlat_lines :: "string list \<Rightarrow> timerlat_state \<Rightarrow> timerlat_state res" where
  "timerlat_lines [] st = Inr st"
| "timerlat_lines (l # ls) st = res_bind (timerlat_line l st) (timerlat_lines ls)"

subsection \<open>The report\<close>

record timerlat_context =
  cx_summary :: "(string \<times> int) list"
  cx_over :: int
  cx_histogram_count :: int
  cx_p50 :: "nat option"
  cx_p99 :: "nat option"
  cx_p999 :: "nat option"
  cx_p9999 :: "nat option"

definition missing_summary :: "timerlat_state \<Rightarrow> string list" where
  "missing_summary st =
     concat (map (\<lambda>c. map (\<lambda>k. c @ '':'' @ k)
       (filter (\<lambda>k. map_of (dict_get (th_summary st) c []) k = None) SUMMARY_KEYS)) (th_columns st))"

definition context_of :: "timerlat_state \<Rightarrow> string \<Rightarrow> timerlat_context res" where
  "context_of st column =
     (let bs = dict_get (th_histograms st) column []; summary = dict_get (th_summary st) column [];
          in_range = sum_list (map snd bs); over = dict_get (th_overflow st) column 0;
          samples = dict_get summary ''count'' 0
      in if in_range + over \<noteq> samples
         then value_error (''Timerlat sample count mismatch for '' @ column @ '': histogram='' @ str_int in_range @
           '', over='' @ str_int over @ '', count='' @ str_int samples)
         else Inr \<lparr>cx_summary = summary, cx_over = over, cx_histogram_count = in_range,
                cx_p50 = nearest_rank bs samples (50 / 100), cx_p99 = nearest_rank bs samples (99 / 100),
                cx_p999 = nearest_rank bs samples (999 / 1000), cx_p9999 = nearest_rank bs samples (9999 / 10000)\<rparr>)"

fun contexts_of :: "timerlat_state \<Rightarrow> string list \<Rightarrow> (string \<times> timerlat_context) list \<Rightarrow> (string \<times> timerlat_context) list res" where
  "contexts_of st [] acc = Inr acc"
| "contexts_of st (c # cs) acc = res_bind (context_of st c) (\<lambda>cx. contexts_of st cs (dict_set c cx acc))"

record timerlat_report =
  rp_columns :: "string list"
  rp_contexts :: "(string \<times> timerlat_context) list"
  rp_irq_max_us :: int
  rp_thread_max_us :: int
  rp_irq_p999_us_max_cpu :: "nat option"
  rp_thread_p999_us_max_cpu :: "nat option"
  rp_overflow_samples :: int

definition with_prefix :: "string \<Rightarrow> (string \<times> timerlat_context) list \<Rightarrow> timerlat_context list" where
  "with_prefix p cxs = map snd (filter (\<lambda>(k, _). prefix p k) cxs)"

definition parse_timerlat_histogram :: "string \<Rightarrow> timerlat_report res" where
  "parse_timerlat_histogram text =
     res_bind (timerlat_lines (splitlines text) th_init) (\<lambda>st.
     if th_columns st = [] then value_error ''Timerlat histogram header was not found''
     else if missing_summary st \<noteq> [] then value_error (''Timerlat summary is incomplete: '' @ py_join '', '' (missing_summary st))
     else
     res_bind (contexts_of st (th_columns st) []) (\<lambda>cxs.
     let irq = with_prefix ''IRQ-'' cxs; thr = with_prefix ''Thr-'' cxs in
     Inr \<lparr>rp_columns = th_columns st, rp_contexts = cxs,
          rp_irq_max_us = max_default (map (\<lambda>cx. dict_get (cx_summary cx) ''max'' 0) irq) 0,
          rp_thread_max_us = max_default (map (\<lambda>cx. dict_get (cx_summary cx) ''max'' 0) thr) 0,
          rp_irq_p999_us_max_cpu = maximum_known (map cx_p999 irq),
          rp_thread_p999_us_max_cpu = maximum_known (map cx_p999 thr),
          rp_overflow_samples = sum_list (map snd (th_overflow st))\<rparr>))"

section \<open>Lemmas\<close>

subsection \<open>Nearest rank\<close>

text \<open>The number of samples with a latency of at most \<open>l\<close>.\<close>

definition count_upto :: "buckets \<Rightarrow> nat \<Rightarrow> int" where
  "count_upto bs l = sum_list (map snd (filter (\<lambda>b. fst b \<le> l) bs))"

definition is_rank :: "buckets \<Rightarrow> int \<Rightarrow> nat option \<Rightarrow> bool" where
  "is_rank bs target r \<longleftrightarrow>
     (case r of
        Some l \<Rightarrow> l \<in> fst ` set bs \<and> target \<le> count_upto bs l \<and> (\<forall>l' \<in> fst ` set bs. l' < l \<longrightarrow> count_upto bs l' < target)
      | None \<Rightarrow> \<forall>l \<in> fst ` set bs. count_upto bs l < target)"

lemma count_upto_Cons:
  "count_upto (b # bs) l = (if fst b \<le> l then snd b else 0) + count_upto bs l"
  by (simp add: count_upto_def)

lemma count_upto_below: "\<forall>b \<in> set bs. l < fst b \<Longrightarrow> count_upto bs l = 0"
  by (induction bs) (auto simp: count_upto_def)

lemma rank_scan_is_rank:
  "sorted_wrt (<) (map fst bs) \<Longrightarrow> is_rank bs (target - c) (rank_scan target c bs)"
proof (induction bs arbitrary: c)
  case Nil
  then show ?case by (simp add: is_rank_def)
next
  case (Cons b bs)
  obtain a n where b: "b = (a, n)" by (cases b)
  have above: "\<forall>b' \<in> set bs. a < fst b'" and sorted: "sorted_wrt (<) (map fst bs)" using Cons.prems by (auto simp: b)
  have here: "count_upto (b # bs) a = n" using count_upto_below [of bs a] above by (simp add: count_upto_Cons b)
  have later: "count_upto (b # bs) l = n + count_upto bs l" if "l \<in> fst ` set bs" for l
    using that above by (auto simp: count_upto_Cons b)
  show ?case
  proof (cases "target \<le> c + n")
    case True
    then show ?thesis using here above by (auto simp: b is_rank_def) 
  next
    case False
    then have scan: "rank_scan target c (b # bs) = rank_scan target (c + n) bs" by (simp add: b)
    show ?thesis
      using Cons.IH [OF sorted, of "c + n"] False here later above unfolding scan
      by (auto simp: is_rank_def b split: option.splits; fastforce)
  qed
qed

lemma sort_key_strict:
  "distinct (map fst bs) \<Longrightarrow> sorted_wrt (<) (map fst (sort_key fst bs))" for bs :: buckets
  by (simp add: strict_sorted_iff distinct_map)

lemma count_upto_sort: "count_upto (sort_key fst bs) l = count_upto bs l"
proof -
  have "mset (map snd (filter (\<lambda>b. fst b \<le> l) (sort_key fst bs))) = mset (map snd (filter (\<lambda>b. fst b \<le> l) bs))"
    by (simp add: mset_filter)
  then show ?thesis unfolding count_upto_def by (metis sum_mset_sum_list)
qed

lemma nearest_rank_is_rank:
  assumes "distinct (map fst bs)" "0 < samples"
  shows "is_rank bs (rank_target samples q) (nearest_rank bs samples q)"
  using rank_scan_is_rank [OF sort_key_strict [OF assms(1)], of "rank_target samples q" 0] assms(2)
  by (auto simp: nearest_rank_def is_rank_def count_upto_sort split: option.splits)

text \<open>A quantile beyond the last bucket is unknown; unknown is the largest value.\<close>

definition rank_le :: "nat option \<Rightarrow> nat option \<Rightarrow> bool" where
  "rank_le a b \<longleftrightarrow> (case (a, b) of (_, None) \<Rightarrow> True | (Some x, Some y) \<Rightarrow> x \<le> y | (None, Some _) \<Rightarrow> False)"

lemma is_rank_mono:
  assumes "is_rank bs t a" "is_rank bs t' b" "t \<le> t'"
  shows "rank_le a b"
proof (cases b)
  case (Some y)
  then have y: "y \<in> fst ` set bs" "t' \<le> count_upto bs y" using assms(2) by (auto simp: is_rank_def)
  then obtain x where "a = Some x" using assms(1,3) by (cases a) (fastforce simp: is_rank_def)+
  moreover have "\<not> y < x" using assms(1,3) y \<open>a = Some x\<close> by (fastforce simp: is_rank_def)
  ultimately show ?thesis using Some by (simp add: rank_le_def)
qed (simp add: rank_le_def split: option.splits)

lemma rat_trunc_mono: "x \<le> y \<Longrightarrow> rat_trunc x \<le> rat_trunc y"
proof -
  assume le: "x \<le> y"
  have t: "rat_trunc z = (if z < 0 then \<lceil>z\<rceil> else \<lfloor>z\<rfloor>)" for z by (simp add: rat_trunc_def ceiling_def)
  have "\<lceil>x\<rceil> \<le> \<lfloor>y\<rfloor>" if "x < 0" "0 \<le> y"
  proof -
    have "\<lceil>x\<rceil> \<le> 0" "0 \<le> \<lfloor>y\<rfloor>" using that by simp_all
    then show ?thesis by linarith
  qed
  then show ?thesis using le floor_mono [OF le] ceiling_mono [OF le] by (simp add: t not_less)
qed

lemma rank_target_mono: "0 \<le> samples \<Longrightarrow> q \<le> q' \<Longrightarrow> rank_target samples q \<le> rank_target samples q'"
  unfolding rank_target_def by (intro max.mono rat_trunc_mono) (simp_all add: mult_left_mono)

lemma nearest_rank_mono:
  assumes "distinct (map fst bs)" "q \<le> q'"
  shows "rank_le (nearest_rank bs samples q) (nearest_rank bs samples q')"
proof (cases "0 < samples")
  case True
  show ?thesis
    by (rule is_rank_mono [OF nearest_rank_is_rank nearest_rank_is_rank rank_target_mono]) (use assms True in auto)
qed (simp add: nearest_rank_def rank_le_def)

subsection \<open>Lines\<close>

definition histograms_ok :: "timerlat_state \<Rightarrow> bool" where
  "histograms_ok st \<longleftrightarrow> (\<forall>c. distinct (map fst (dict_get (th_histograms st) c [])))"

lemma set_buckets_ok:
  "\<forall>c. distinct (map fst (dict_get d c [])) \<Longrightarrow> \<forall>c. distinct (map fst (dict_get (set_buckets latency cvs d) c []))"
  by (induction latency cvs d rule: set_buckets.induct) (auto simp: distinct_update)

lemma dict_get_empty_rows: "dict_get (map (\<lambda>c. (c, [])) cs) c [] = []"
  by (induction cs) (auto simp: dict_get_def)

lemma timerlat_line_ok: "histograms_ok st \<Longrightarrow> timerlat_line raw st = Inr st' \<Longrightarrow> histograms_ok st'"
  unfolding timerlat_line_def Let_def
  by (auto simp: histograms_ok_def header_step_def Let_def dict_get_empty_rows res_bind_Inr_iff set_buckets_ok
      split: if_splits option.splits prod.splits)

lemma timerlat_lines_ok: "histograms_ok st \<Longrightarrow> timerlat_lines ls st = Inr st' \<Longrightarrow> histograms_ok st'"
  by (induction ls arbitrary: st) (auto simp: res_bind_Inr_iff dest: timerlat_line_ok)

lemma contexts_of_get:
  assumes "contexts_of st cs acc = Inr cxs"
  shows "c \<in> set cs \<Longrightarrow> \<exists>cx. map_of cxs c = Some cx \<and> context_of st c = Inr cx"
    and "c \<notin> set cs \<Longrightarrow> map_of cxs c = map_of acc c"
  using assms
proof (induction cs arbitrary: acc)
  case (Cons a cs)
  { case 1 then show ?case using Cons.IH by (cases "c \<in> set cs") (fastforce simp: res_bind_Inr_iff)+ }
  { case 2 then show ?case using Cons.IH by (fastforce simp: res_bind_Inr_iff) }
qed auto

text \<open>
  C18. A timerlat histogram is accepted only if its books balance, and then every column of the header
  has a report in which the number of samples is the sum over the buckets plus the overflow, and
  the median, the 99th, 99.9th and 99.99th percentiles do not decrease, where a percentile that
  lies beyond the last bucket is unknown.
\<close>

theorem timerlat_report_sound:
  assumes "parse_timerlat_histogram text = Inr rp"
  shows "rp_columns rp \<noteq> [] \<and> (\<forall>c \<in> set (rp_columns rp). \<exists>cx. map_of (rp_contexts rp) c = Some cx \<and>
    map_of (cx_summary cx) ''count'' = Some (cx_histogram_count cx + cx_over cx) \<and>
    rank_le (cx_p50 cx) (cx_p99 cx) \<and> rank_le (cx_p99 cx) (cx_p999 cx) \<and> rank_le (cx_p999 cx) (cx_p9999 cx))"
proof -
  from assms obtain st where run: "timerlat_lines (splitlines text) th_init = Inr st" "th_columns st \<noteq> []" "missing_summary st = []"
      "contexts_of st (th_columns st) [] = Inr (rp_contexts rp)" and cols: "rp_columns rp = th_columns st"
    by (auto simp: parse_timerlat_histogram_def res_bind_Inr_iff Let_def split: if_splits)
  have "histograms_ok th_init" by (simp add: histograms_ok_def th_init_def dict_get_def)
  from timerlat_lines_ok [OF this run(1)] have ok: "distinct (map fst (dict_get (th_histograms st) c []))" for c
    by (simp add: histograms_ok_def)
  have "\<exists>cx. map_of (rp_contexts rp) c = Some cx \<and>
    map_of (cx_summary cx) ''count'' = Some (cx_histogram_count cx + cx_over cx) \<and>
    rank_le (cx_p50 cx) (cx_p99 cx) \<and> rank_le (cx_p99 cx) (cx_p999 cx) \<and> rank_le (cx_p999 cx) (cx_p9999 cx)" if c: "c \<in> set (th_columns st)" for c
  proof -
    from contexts_of_get(1) [OF run(4) c] obtain cx where cx: "map_of (rp_contexts rp) c = Some cx" "context_of st c = Inr cx" by blast
    have "map_of (dict_get (th_summary st) c []) ''count'' \<noteq> None"
      using run(3) c by (force simp: missing_summary_def SUMMARY_KEYS_def split: if_splits)
    then obtain n where n: "map_of (dict_get (th_summary st) c []) ''count'' = Some n" by auto
    then show ?thesis using cx nearest_rank_mono [OF ok]
      by (auto simp: context_of_def Let_def dict_get_def [of "dict_get (th_summary st) c []"] split: if_splits)
  qed
  with run(2) cols show ?thesis by simp
qed

definition demo_hist :: string where
  "demo_hist = concat (map (\<lambda>l. l @ [CHR 0x0A]) [''# RTLA timerlat histogram'', ''Index   IRQ-000   Thr-000'',
     ''0           3        0'', ''2           1        3'', ''over:       0        1'',
     ''count:      4        4'', ''min:        0        2'', ''avg:        0        2'', ''max:        2        9''])"

theorem timerlat_report_sound_witness:
  "\<exists>rp cx. parse_timerlat_histogram demo_hist = Inr rp \<and> rp_overflow_samples rp = 1 \<and>
     map_of (rp_contexts rp) ''Thr-000'' = Some cx \<and> map_of (cx_summary cx) ''count'' = Some (cx_histogram_count cx + cx_over cx)"
proof -
  have "case parse_timerlat_histogram demo_hist of
      Inr rp \<Rightarrow> rp_columns rp = [''IRQ-000'', ''Thr-000''] \<and> rp_overflow_samples rp = 1 \<and> rp_thread_p999_us_max_cpu rp = None
    | Inl _ \<Rightarrow> False" by code_simp
  then obtain rp where rp: "parse_timerlat_histogram demo_hist = Inr rp" "rp_columns rp = [''IRQ-000'', ''Thr-000'']"
    "rp_overflow_samples rp = 1" by (auto split: sum.splits)
  from timerlat_report_sound [OF rp(1)] have "\<exists>cx. map_of (rp_contexts rp) ''Thr-000'' = Some cx \<and>
      map_of (cx_summary cx) ''count'' = Some (cx_histogram_count cx + cx_over cx)" using rp(2) by auto
  with rp(1,3) show ?thesis by blast
qed

text \<open>
  C19. The quantile of a histogram is the smallest recorded latency at or below which at least the
  required number of samples lies; it is unknown exactly when even all recorded samples together
  are too few, that is, when it falls into the overflow.
\<close>

theorem nearest_rank_spec:
  assumes "distinct (map fst bs)" "0 < samples"
  shows "nearest_rank bs samples q = Some l \<longleftrightarrow>
    l \<in> fst ` set bs \<and> rank_target samples q \<le> count_upto bs l \<and>
    (\<forall>l' \<in> fst ` set bs. l' < l \<longrightarrow> count_upto bs l' < rank_target samples q)"
proof
  assume "nearest_rank bs samples q = Some l"
  with nearest_rank_is_rank [OF assms, of q] show "l \<in> fst ` set bs \<and> rank_target samples q \<le> count_upto bs l \<and>
    (\<forall>l' \<in> fst ` set bs. l' < l \<longrightarrow> count_upto bs l' < rank_target samples q)" by (simp add: is_rank_def)
next
  assume l: "l \<in> fst ` set bs \<and> rank_target samples q \<le> count_upto bs l \<and>
    (\<forall>l' \<in> fst ` set bs. l' < l \<longrightarrow> count_upto bs l' < rank_target samples q)"
  then have "is_rank bs (rank_target samples q) (Some l)" by (simp add: is_rank_def)
  from is_rank_mono [OF this nearest_rank_is_rank [OF assms] order_refl]
    is_rank_mono [OF nearest_rank_is_rank [OF assms] this order_refl]
  show "nearest_rank bs samples q = Some l" by (auto simp: rank_le_def split: option.splits)
qed

theorem nearest_rank_spec_witness:
  "nearest_rank [(0, 3), (5, 1)] 5 (70 / 100) = Some 5 \<and>
   rank_target 5 (70 / 100) \<le> count_upto [(0, 3), (5, 1)] 5 \<and> count_upto [(0, 3), (5, 1)] 0 < rank_target 5 (70 / 100)"
proof -
  have "nearest_rank [(0, 3), (5, 1)] 5 (70 / 100) = Some 5" by code_simp
  with nearest_rank_spec [of "[(0, 3), (5, 1)]" 5 "70 / 100" 5] show ?thesis by simp
qed

end
