(* ===== verification/Noise_Workloads.thy ===== *)
theory Noise_Workloads
  imports Json Host_Sim
begin

text \<open>
  \<open>tools/realsense_steady_bench/noise_workloads.py\<close>: the four interference workloads, their
  processes and the suite that starts and stops them. \<open>ManagedNoiseProcess\<close> and its subclasses are
  one set of methods indexed by \<open>workload\<close>; the suite object holds the process handle of each.
  Child processes, block devices and checksums are the parameter \<open>procs\<close>, beside the host; the
  decoder of the \<open>lsblk\<close> report is the parameter \<open>loads\<close>. Console output is left out.
\<close>

section \<open>Definitions\<close>

subsection \<open>Configuration\<close>

record cpu_noise_config =
  cn_executable :: path
  cn_modes :: "string list"
  cn_workers :: int
  cn_warmup_seconds :: rat
  cn_ready_timeout_seconds :: rat
  cn_cpu_affinity :: "string option"

record memory_noise_config =
  mn_executable :: path
  mn_modes :: "string list"
  mn_workers :: int
  mn_buffer_size_mib :: int
  mn_copy_chunk_kib :: int
  mn_target_memory_mib_per_second :: rat
  mn_warmup_seconds :: rat
  mn_ready_timeout_seconds :: rat
  mn_cpu_affinity :: "string option"

record usb_storage_noise_config =
  un_executable :: path
  un_modes :: "string list"
  un_device :: "path option"
  un_warmup_seconds :: rat
  un_block_size_kib :: int
  un_ready_timeout_seconds :: rat
  un_use_sudo :: bool

record gpu_noise_config =
  gn_executable :: path
  gn_modes :: "string list"
  gn_model_param :: path
  gn_gpu_device :: int
  gn_warmup_iterations :: int
  gn_ready_timeout_seconds :: rat
  gn_cpu_affinity :: "string option"
  gn_vulkan_icd :: "path option"

record noise_config =
  nc_cpu :: cpu_noise_config
  nc_memory :: memory_noise_config
  nc_usb :: usb_storage_noise_config
  nc_gpu :: gpu_noise_config

datatype workload = CpuNoise | MemoryNoise | UsbStorageNoise | GpuNoise

definition WORKLOADS :: "workload list" where
  "WORKLOADS = [CpuNoise, MemoryNoise, UsbStorageNoise, GpuNoise]"

fun noise_prefix :: "workload \<Rightarrow> string" where
  "noise_prefix CpuNoise = ''cpu_noise''"
| "noise_prefix MemoryNoise = ''memory_noise''"
| "noise_prefix UsbStorageNoise = ''usb_storage_noise''"
| "noise_prefix GpuNoise = ''gpu_noise''"

fun noise_label :: "workload \<Rightarrow> string" where
  "noise_label CpuNoise = ''CPU-NOISE''"
| "noise_label MemoryNoise = ''MEMORY-NOISE''"
| "noise_label UsbStorageNoise = ''USB-STORAGE-NOISE''"
| "noise_label GpuNoise = ''GPU-NOISE''"

fun supported_mode :: "workload \<Rightarrow> string" where
  "supported_mode CpuNoise = ''busy_loop''"
| "supported_mode MemoryNoise = ''fixed_copy''"
| "supported_mode UsbStorageNoise = ''sequential_read''"
| "supported_mode GpuNoise = ''mobilenet_v2_vulkan''"

fun build_target :: "workload \<Rightarrow> string" where
  "build_target CpuNoise = ''realsense_cpu_noise''"
| "build_target MemoryNoise = ''realsense_memory_noise''"
| "build_target UsbStorageNoise = ''realsense_usb_storage_noise''"
| "build_target GpuNoise = ''realsense_gpu_noise''"

fun noise_modes :: "noise_config \<Rightarrow> workload \<Rightarrow> string list" where
  "noise_modes cfg CpuNoise = cn_modes (nc_cpu cfg)"
| "noise_modes cfg MemoryNoise = mn_modes (nc_memory cfg)"
| "noise_modes cfg UsbStorageNoise = un_modes (nc_usb cfg)"
| "noise_modes cfg GpuNoise = gn_modes (nc_gpu cfg)"

fun ready_timeout_seconds :: "noise_config \<Rightarrow> workload \<Rightarrow> rat" where
  "ready_timeout_seconds cfg CpuNoise = cn_ready_timeout_seconds (nc_cpu cfg)"
| "ready_timeout_seconds cfg MemoryNoise = mn_ready_timeout_seconds (nc_memory cfg)"
| "ready_timeout_seconds cfg UsbStorageNoise = un_ready_timeout_seconds (nc_usb cfg)"
| "ready_timeout_seconds cfg GpuNoise = gn_ready_timeout_seconds (nc_gpu cfg)"

definition noise_enabled :: "noise_config \<Rightarrow> workload \<Rightarrow> bool" where
  "noise_enabled cfg wl = list_ex (\<lambda>m. m \<noteq> ''none'') (noise_modes cfg wl)"

subsection \<open>Processes and devices\<close>

record 'w procs =
  p_spawn :: "string list \<Rightarrow> (string \<times> string) list \<Rightarrow> 'w \<Rightarrow> (host_error + nat) \<times> 'w"
  p_poll :: "nat \<Rightarrow> 'w \<Rightarrow> int option \<times> 'w"
  p_terminate :: "nat \<Rightarrow> 'w \<Rightarrow> 'w"
  p_kill :: "nat \<Rightarrow> 'w \<Rightarrow> 'w"
  p_wait :: "nat \<Rightarrow> rat \<Rightarrow> 'w \<Rightarrow> (host_error + int) \<times> 'w"
  p_uid :: nat
  p_gid :: nat
  p_resolve_strict :: "path \<Rightarrow> 'w \<Rightarrow> path option"
  p_block_device :: "path \<Rightarrow> 'w \<Rightarrow> (nat \<times> nat) option"
  p_sha256 :: "path \<Rightarrow> 'w \<Rightarrow> host_error + string"

text \<open>The suite: the process handle of each workload, and the identity of the USB storage device.\<close>

record noise_obj =
  no_process :: "workload \<Rightarrow> nat option"
  no_identity :: pydict

definition noise_init :: noise_obj where
  "noise_init = \<lparr>no_process = (\<lambda>_. None), no_identity = []\<rparr>"

definition set_process :: "workload \<Rightarrow> nat option \<Rightarrow> noise_obj \<Rightarrow> noise_obj" where
  "set_process wl p ob = ob\<lparr>no_process := (no_process ob)(wl := p)\<rparr>"

definition do_spawn :: "'w procs \<Rightarrow> string list \<Rightarrow> (string \<times> string) list \<Rightarrow> ('o \<times> 'w, nat) py" where
  "do_spawn p cmd env = (\<lambda>(ob, w). let (r, w') = p_spawn p cmd env w in (of_host r, (ob, w')))"

definition do_poll :: "'w procs \<Rightarrow> nat \<Rightarrow> ('o \<times> 'w, int option) py" where
  "do_poll p pid = (\<lambda>(ob, w). let (r, w') = p_poll p pid w in (Inr r, (ob, w')))"

definition do_signal :: "('w \<Rightarrow> 'w) \<Rightarrow> ('o \<times> 'w, unit) py" where
  "do_signal f = (\<lambda>(ob, w). (Inr (), (ob, f w)))"

definition do_wait :: "'w procs \<Rightarrow> nat \<Rightarrow> rat \<Rightarrow> ('o \<times> 'w, int) py" where
  "do_wait p pid t = (\<lambda>(ob, w). let (r, w') = p_wait p pid t w in (of_host r, (ob, w')))"

subsection \<open>The USB storage device\<close>

text \<open>The value \<open>v\<close> equals the string, the integer; \<open>bool(v)\<close> of \<open>d.get(k)\<close>.\<close>

definition get_is :: "pyval \<Rightarrow> string \<Rightarrow> string \<Rightarrow> bool res" where
  "get_is d k s = res_bind (py_get d k PNone) (\<lambda>v. Inr (v = PStr s))"

definition get_true :: "pyval \<Rightarrow> string \<Rightarrow> bool res" where
  "get_true d k = res_bind (py_get d k PNone) (\<lambda>v. Inr (truthy v))"

fun num_of :: "pyval \<Rightarrow> rat option" where
  "num_of (PInt i) = Some (of_int i)"
| "num_of (PBool b) = Some (if b then 1 else 0)"
| "num_of (PFloat r) = Some r"
| "num_of _ = None"

definition get_int_is :: "pyval \<Rightarrow> string \<Rightarrow> int \<Rightarrow> bool res" where
  "get_int_is d k n = res_bind (py_get d k PNone) (\<lambda>v. Inr (num_of v = Some (of_int n)))"

text \<open>A conjunction that is evaluated from the left and stops at the first false part.\<close>

fun all_of :: "(unit \<Rightarrow> bool res) list \<Rightarrow> bool res" where
  "all_of [] = Inr True"
| "all_of (c # cs) = res_bind (c ()) (\<lambda>b. if b then all_of cs else Inr False)"

lemma size_child: "map_of d k = Some (PList vs) \<Longrightarrow> v \<in> set vs \<Longrightarrow> size v < size (PDict d)"
proof -
  assume d: "map_of d k = Some (PList vs)" and v: "v \<in> set vs"
  have "size v \<le> size_list size vs" using v by (rule size_list_estimation') simp
  then have "size v < size (PList vs)" by simp
  also have "size (PList vs) \<le> size_list (size_prod (\<lambda>_. 0) size) d"
    using map_of_SomeD [OF d] by (rule size_list_estimation') simp
  finally show ?thesis by simp
qed

fun py_lenv :: "pyval \<Rightarrow> nat res" where
  "py_lenv (PList vs) = Inr (length vs)"
| "py_lenv (PDict d) = Inr (length d)"
| "py_lenv (PStr s) = Inr (length s)"
| "py_lenv _ = Inl (Exn TypeError ''object has no len()'')"

text \<open>\<open>v[0]\<close>\<close>

fun py_first :: "pyval \<Rightarrow> pyval res" where
  "py_first (PList (v # _)) = Inr v"
| "py_first (PStr (c # _)) = Inr (PStr [c])"
| "py_first (PDict _) = Inl (Exn KeyError ''0'')"
| "py_first (PList []) = Inl (Exn IndexError ''list index out of range'')"
| "py_first (PStr []) = Inl (Exn IndexError ''string index out of range'')"
| "py_first _ = Inl (Exn TypeError ''object is not subscriptable'')"

text \<open>The loop over \<open>pending\<close>: the last node is taken, and its children are appended.\<close>

definition node_children :: "pyval \<Rightarrow> pyval list res" where
  "node_children node = res_bind (py_get node ''children'' (PList [])) py_iter"

lemma children_smaller:
  assumes "node_children v = Inr vs"
  shows "sum_list (map size vs) < size v"
proof -
  obtain d c where v: "v = PDict d" and c: "c = dict_get d ''children'' (PList [])" and it: "py_iter c = Inr vs"
    using assms by (cases v) (auto simp: node_children_def)
  have items: "sum_list (map size vs) \<le> size c"
    using it by (cases c) (auto simp: o_def size_list_conv_sum_list intro!: sum_list_mono)
  show ?thesis
  proof (cases "map_of d ''children''")
    case None
    then show ?thesis using it by (simp add: v c dict_get_def)
  next
    case (Some x)
    then have "size c \<le> size_list (size_prod (\<lambda>_. 0) size) d"
      using map_of_SomeD [OF Some] unfolding c dict_get_def
      by (auto intro: size_list_estimation')
    then show ?thesis using items v by simp
  qed
qed

function walk_nodes :: "pyval list \<Rightarrow> pyval list \<Rightarrow> pyval list res" where
  "walk_nodes pending seen =
     (if pending = [] then Inr seen
      else case node_children (last pending) of
          Inl e \<Rightarrow> Inl e
        | Inr cs \<Rightarrow> walk_nodes (butlast pending @ cs) (seen @ [last pending]))"
  by pat_completeness auto
termination
proof (relation "measure (\<lambda>(p, _). sum_list (map size p))", goal_cases)
  case (2 pending seen cs)
  have "sum_list (map size (butlast pending @ [last pending])) = sum_list (map size (butlast pending)) + size (last pending)"
    by simp
  then have "sum_list (map size pending) = sum_list (map size (butlast pending)) + size (last pending)"
    using 2(1) by simp
  then show ?case using children_smaller [OF 2(2)] by simp
qed simp

declare walk_nodes.simps [simp del]

text \<open>\<open>mounted\<close>: the mountpoints of a node that are not empty.\<close>

definition mount_texts :: "pyval \<Rightarrow> string list res" where
  "mount_texts node =
     res_bind (py_get node ''mountpoints'' PNone) (\<lambda>m.
     let m' = py_or m (PList []) in
     res_bind (case m' of PStr _ \<Rightarrow> Inr [m'] | _ \<Rightarrow> py_iter m') (\<lambda>ms.
     res_map (\<lambda>mp. res_bind (py_get node ''name'' PNone) (\<lambda>nm. Inr (py_str nm @ '':'' @ py_str mp)))
       (filter truthy ms)))"

definition udev_properties :: "string \<Rightarrow> (string \<times> string) list" where
  "udev_properties text =
     foldl (\<lambda>d line. case split_once CHR ''='' line of (k, v) \<Rightarrow> dict_set k v d) []
       (filter (\<lambda>line. CHR ''='' \<in> set line) (splitlines text))"

text \<open>The whole disk of an \<open>lsblk\<close> report, refused when a node of it is mounted.\<close>

definition unmounted_disk :: "pyval \<Rightarrow> pyval res" where
  "unmounted_disk report =
     res_bind (py_get report ''blockdevices'' (PList [])) (\<lambda>devs.
     res_bind (py_lenv devs) (\<lambda>n.
     res_bind (if n \<noteq> 1 then Inr False
               else res_bind (py_first devs) (\<lambda>d. get_is d ''type'' ''disk'')) (\<lambda>disk.
     if \<not> disk
     then runtime_error ''USB storage noise requires a whole disk, preferably /dev/disk/by-id/...''
     else res_bind (py_first devs) (\<lambda>root.
          res_bind (walk_nodes [root] []) (\<lambda>nodes.
          res_bind (res_map mount_texts nodes) (\<lambda>mss.
          if concat mss \<noteq> []
          then runtime_error (''refusing mounted USB storage device: '' @ py_join '', '' (concat mss))
          else Inr root))))))"

definition usb_identity ::
  "path \<Rightarrow> path \<Rightarrow> nat \<times> nat \<Rightarrow> pyval \<Rightarrow> (string \<times> string) list \<Rightarrow> path \<Rightarrow> pydict res" where
  "usb_identity requested resolved num disk props sysfs =
     res_bind (res_map (\<lambda>(field, key, dflt). res_bind (py_get disk key dflt) (\<lambda>v. Inr (field, v)))
       [(''size_bytes'', ''size'', PInt 0), (''transport'', ''tran'', PStr []), (''model'', ''model'', PStr []),
        (''serial'', ''serial'', PStr []), (''vendor'', ''vendor'', PStr []), (''removable'', ''rm'', PBool False),
        (''read_only_device'', ''ro'', PBool False)]) (\<lambda>fields.
     Inr ([(''requested_device'', PStr (path_str requested)), (''resolved_device'', PStr (path_str resolved)),
           (''major'', PInt (int (fst num))), (''minor'', PInt (int (snd num)))]
       @ fields
       @ [(''id_bus'', PStr (dict_get props ''ID_BUS'' [])), (''id_path'', PStr (dict_get props ''ID_PATH'' [])),
          (''id_serial'', PStr (dict_get props ''ID_SERIAL'' [])), (''sysfs_path'', PStr (path_str sysfs))]))"

definition lsblk_command :: "path \<Rightarrow> string list" where
  "lsblk_command dev =
     [''lsblk'', ''--json'', ''--bytes'', ''--paths'', ''--output'',
      ''NAME,TYPE,TRAN,SIZE,RO,RM,MOUNTPOINTS,MODEL,SERIAL,VENDOR'', path_str dev]"

definition udevadm_command :: "path \<Rightarrow> string list" where
  "udevadm_command dev = [''udevadm'', ''info'', ''--query=property'', ''--name='' @ path_str dev]"

definition require_utility :: "'w host \<Rightarrow> string \<Rightarrow> ('o \<times> 'w, unit) py" where
  "require_utility h utility =
     py_bind (ask (h_which h utility)) (\<lambda>found.
     if found then py_skip
     else py_raise (Exn RuntimeError (utility @ '' is required for USB storage safety checks'')))"

definition checked_output :: "'w host \<Rightarrow> string list \<Rightarrow> string \<Rightarrow> ('o \<times> 'w, string) py" where
  "checked_output h cmd what =
     py_bind (do_run h (command_request cmd)) (\<lambda>c.
     if returncode c \<noteq> 0
     then py_raise (Exn RuntimeError (what @ '' failed for USB storage device: '' @ failure_detail c))
     else py_return (stdout c))"

definition validate_device ::
  "'w host \<Rightarrow> 'w procs \<Rightarrow> (string \<Rightarrow> host_error + pyval) \<Rightarrow> usb_storage_noise_config \<Rightarrow> ('o \<times> 'w, pydict) py" where
  "validate_device h p loads cfg =
     (case un_device cfg of
        None \<Rightarrow> py_raise (Exn RuntimeError
          ''--usb-storage-device is required when sequential-read noise is enabled'')
      | Some dev \<Rightarrow>
          py_seq (py_for [''lsblk'', ''udevadm''] (require_utility h))
         (py_bind (ask (p_resolve_strict p dev)) (\<lambda>res.
          case res of
            None \<Rightarrow> py_raise (Exn RuntimeError (''USB storage device does not exist: '' @ path_str dev))
          | Some resolved \<Rightarrow>
          py_bind (ask (p_block_device p resolved)) (\<lambda>num.
          case num of
            None \<Rightarrow> py_raise (Exn RuntimeError (''USB storage noise requires a block device: '' @ path_str resolved))
          | Some num' \<Rightarrow>
          py_bind (checked_output h (lsblk_command resolved) ''lsblk'') (\<lambda>out.
          py_bind (py_res (res_bind (of_host (loads out)) unmounted_disk)) (\<lambda>root.
          py_bind (checked_output h (udevadm_command resolved) ''udevadm'') (\<lambda>uout.
          py_bind (py_res (get_is root ''tran'' ''usb'')) (\<lambda>usb.
          let props = udev_properties uout in
          if \<not> usb \<and> map_of props ''ID_BUS'' \<noteq> Some ''usb''
          then py_raise (Exn RuntimeError (''refusing non-USB block device: '' @ path_str resolved))
          else py_bind (ask (h_resolve h [''sys'', ''dev'', ''block'',
                 str_nat (fst num') @ '':'' @ str_nat (snd num')])) (\<lambda>sysfs.
               py_res (usb_identity dev resolved num' root props sysfs))))))))))"


subsection \<open>One workload\<close>

text \<open>\<open>validate_environment\<close> of each class.\<close>

definition affinity_set :: "string option \<Rightarrow> bool" where
  "affinity_set a = (case a of None \<Rightarrow> False | Some s \<Rightarrow> s \<noteq> [])"

definition require_taskset :: "'w host \<Rightarrow> string option \<Rightarrow> string \<Rightarrow> ('o \<times> 'w, unit) py" where
  "require_taskset h affinity option_name =
     py_bind (ask (h_which h ''taskset'')) (\<lambda>found.
     py_when (affinity_set affinity \<and> \<not> found)
       (py_raise (Exn RuntimeError (''taskset is required for '' @ option_name))))"

definition gpu_validate_environment :: "'w host \<Rightarrow> gpu_noise_config \<Rightarrow> ('o \<times> 'w, unit) py" where
  "gpu_validate_environment h cfg =
     py_bind (ask (h_is_file h (gn_model_param cfg))) (\<lambda>graph.
     if \<not> graph
     then py_raise (Exn RuntimeError
       ''The pinned ncnn MobileNetV2 graph is missing; initialize deps/ncnn recursively'')
     else py_seq
       (case gn_vulkan_icd cfg of
          None \<Rightarrow> py_skip
        | Some icd \<Rightarrow> py_bind (ask (h_is_file h icd)) (\<lambda>found.
            py_when (\<not> found)
              (py_raise (Exn RuntimeError (''Vulkan ICD file does not exist: '' @ path_str icd)))))
       (require_taskset h (gn_cpu_affinity cfg) ''--gpu-noise-cpu-affinity''))"

definition cpu_validate_environment :: "'w host \<Rightarrow> noise_config \<Rightarrow> (noise_obj \<times> 'w, unit) py" where
  "cpu_validate_environment h cfg =
     py_when (noise_enabled cfg CpuNoise)
       (require_taskset h (cn_cpu_affinity (nc_cpu cfg)) ''--cpu-noise-cpu-affinity'')"

definition memory_validate_environment :: "'w host \<Rightarrow> noise_config \<Rightarrow> (noise_obj \<times> 'w, unit) py" where
  "memory_validate_environment h cfg =
     py_when (noise_enabled cfg MemoryNoise)
       (require_taskset h (mn_cpu_affinity (nc_memory cfg)) ''--memory-noise-cpu-affinity'')"

definition usb_storage_validate_environment ::
  "'w host \<Rightarrow> 'w procs \<Rightarrow> (string \<Rightarrow> host_error + pyval) \<Rightarrow> noise_config \<Rightarrow> (noise_obj \<times> 'w, unit) py" where
  "usb_storage_validate_environment h p loads cfg =
     py_when (noise_enabled cfg UsbStorageNoise)
       (py_bind (validate_device h p loads (nc_usb cfg)) (\<lambda>d. self_upd (no_identity_update (\<lambda>_. d))))"

fun workload_validate_environment ::
  "'w host \<Rightarrow> 'w procs \<Rightarrow> (string \<Rightarrow> host_error + pyval) \<Rightarrow> noise_config \<Rightarrow> workload \<Rightarrow> (noise_obj \<times> 'w, unit) py" where
  "workload_validate_environment h p loads cfg CpuNoise = cpu_validate_environment h cfg"
| "workload_validate_environment h p loads cfg MemoryNoise = memory_validate_environment h cfg"
| "workload_validate_environment h p loads cfg UsbStorageNoise = usb_storage_validate_environment h p loads cfg"
| "workload_validate_environment h p loads cfg GpuNoise =
     py_when (noise_enabled cfg GpuNoise) (gpu_validate_environment h (nc_gpu cfg))"

text \<open>\<open>_before_start\<close>\<close>

definition before_start ::
  "'w host \<Rightarrow> 'w procs \<Rightarrow> (string \<Rightarrow> host_error + pyval) \<Rightarrow> noise_config \<Rightarrow> workload \<Rightarrow> (noise_obj \<times> 'w, unit) py" where
  "before_start h p loads cfg wl =
     (if wl = UsbStorageNoise
      then py_bind (validate_device h p loads (nc_usb cfg)) (\<lambda>d. self_upd (no_identity_update (\<lambda>_. d)))
      else py_skip)"

definition opt_str :: "string option \<Rightarrow> pyval" where
  "opt_str a = (case a of None \<Rightarrow> PNone | Some s \<Rightarrow> PStr s)"

definition opt_path :: "path option \<Rightarrow> pyval" where
  "opt_path a = (case a of None \<Rightarrow> PNone | Some q \<Rightarrow> PStr (path_str q))"

text \<open>\<open>sha256_file(model_param) if mode != ''none'' else dflt\<close>\<close>

definition model_digest :: "'w procs \<Rightarrow> gpu_noise_config \<Rightarrow> string \<Rightarrow> pyval \<Rightarrow> (noise_obj \<times> 'w, pyval) py" where
  "model_digest p cfg mode dflt =
     (if mode \<noteq> ''none''
      then py_bind (ask_res (\<lambda>w. of_host (p_sha256 p (gn_model_param cfg) w))) (\<lambda>s. py_return (PStr s))
      else py_return dflt)"

definition cpu_manifest ::
  "cpu_noise_config \<Rightarrow> string \<Rightarrow> (noise_obj \<times> 'w, pydict) py" where
  "cpu_manifest cfg mode = py_return
     [(''mode'', PStr mode), (''workers'', PInt (cn_workers cfg)),
      (''warmup_seconds'', PFloat (cn_warmup_seconds cfg)),
      (''cpu_affinity'', opt_str (cn_cpu_affinity cfg)),
      (''working_set'', PStr ''register_only''), (''process_policy'', PStr ''SCHED_OTHER'')]"

definition memory_manifest ::
  "memory_noise_config \<Rightarrow> string \<Rightarrow> (noise_obj \<times> 'w, pydict) py" where
  "memory_manifest cfg mode = py_return
     [(''mode'', PStr mode), (''workers'', PInt (mn_workers cfg)),
      (''buffer_size_mib'', PInt (mn_buffer_size_mib cfg)),
      (''copy_chunk_kib'', PInt (mn_copy_chunk_kib cfg)),
      (''target_memory_mib_per_second'', PFloat (mn_target_memory_mib_per_second cfg)),
      (''buffers_per_worker'', PInt 2),
      (''warmup_seconds'', PFloat (mn_warmup_seconds cfg)),
      (''cpu_affinity'', opt_str (mn_cpu_affinity cfg)),
      (''memory_access'', PStr ''thread_private_memcpy_read_write''),
      (''process_policy'', PStr ''SCHED_OTHER'')]"

definition usb_storage_manifest ::
  "usb_storage_noise_config \<Rightarrow> string \<Rightarrow> (noise_obj \<times> 'w, pydict) py" where
  "usb_storage_manifest cfg mode =
     py_bind (self_get no_identity) (\<lambda>identity. py_return
     [(''mode'', PStr mode), (''device'', opt_path (un_device cfg)),
      (''warmup_seconds'', PFloat (un_warmup_seconds cfg)),
      (''block_size_kib'', PInt (un_block_size_kib cfg)),
      (''identity'', PDict identity), (''access'', PStr ''read_only''), (''direct_io'', PBool True)])"

definition gpu_manifest ::
  "'w procs \<Rightarrow> gpu_noise_config \<Rightarrow> string \<Rightarrow> (noise_obj \<times> 'w, pydict) py" where
  "gpu_manifest p cfg mode =
     py_bind (model_digest p cfg mode PNone) (\<lambda>digest. py_return
     [(''mode'', PStr mode), (''gpu_device'', PInt (gn_gpu_device cfg)),
      (''warmup_iterations'', PInt (gn_warmup_iterations cfg)),
      (''cpu_affinity'', opt_str (gn_cpu_affinity cfg)),
      (''vulkan_icd'', opt_path (gn_vulkan_icd cfg)),
      (''model_param'', PStr (path_str (gn_model_param cfg))),
      (''model_param_sha256'', digest)])"

fun workload_manifest :: "'w procs \<Rightarrow> noise_config \<Rightarrow> workload \<Rightarrow> string \<Rightarrow> (noise_obj \<times> 'w, pydict) py" where
  "workload_manifest p cfg CpuNoise mode = cpu_manifest (nc_cpu cfg) mode"
| "workload_manifest p cfg MemoryNoise mode = memory_manifest (nc_memory cfg) mode"
| "workload_manifest p cfg UsbStorageNoise mode = usb_storage_manifest (nc_usb cfg) mode"
| "workload_manifest p cfg GpuNoise mode = gpu_manifest p (nc_gpu cfg) mode"

text \<open>\<open>_command\<close>; \<open>use_sudo\<close> prefixes the command of the storage reader and appends the ids to drop to.\<close>

definition chrt_taskset :: "string option \<Rightarrow> string list" where
  "chrt_taskset affinity = [''chrt'', ''--other'', ''0''] @
     (case affinity of None \<Rightarrow> [] | Some a \<Rightarrow> if a = [] then [] else [''taskset'', ''--cpu-list'', a])"

definition cpu_command ::
  "cpu_noise_config \<Rightarrow> path \<Rightarrow> path \<Rightarrow> string list res" where
  "cpu_command cfg ready_path summary_path = Inr
     (chrt_taskset (cn_cpu_affinity cfg) @
      [path_str (cn_executable cfg), ''--ready-file'', path_str ready_path,
       ''--summary-output'', path_str summary_path, ''--workers'', str_int (cn_workers cfg),
       ''--warmup-seconds'', str_rat (cn_warmup_seconds cfg)])"

definition memory_command ::
  "memory_noise_config \<Rightarrow> path \<Rightarrow> path \<Rightarrow> string list res" where
  "memory_command cfg ready_path summary_path = Inr
     (chrt_taskset (mn_cpu_affinity cfg) @
      [path_str (mn_executable cfg), ''--ready-file'', path_str ready_path,
       ''--summary-output'', path_str summary_path, ''--workers'', str_int (mn_workers cfg),
       ''--buffer-size-mib'', str_int (mn_buffer_size_mib cfg),
       ''--copy-chunk-kib'', str_int (mn_copy_chunk_kib cfg),
       ''--warmup-seconds'', str_rat (mn_warmup_seconds cfg),
       ''--target-memory-mib-per-second'', str_rat (mn_target_memory_mib_per_second cfg)])"

definition usb_storage_command ::
  "'w procs \<Rightarrow> usb_storage_noise_config \<Rightarrow> path \<Rightarrow> path \<Rightarrow> string list res" where
  "usb_storage_command p cfg ready_path summary_path =
     (case un_device cfg of
        None \<Rightarrow> Inl (Exn AssertionError [])
      | Some dev \<Rightarrow>
          let command =
            [''chrt'', ''--other'', ''0'', path_str (un_executable cfg), ''--device'', path_str dev,
             ''--ready-file'', path_str ready_path, ''--summary-output'', path_str summary_path,
             ''--block-size-kib'', str_int (un_block_size_kib cfg),
             ''--warmup-seconds'', str_rat (un_warmup_seconds cfg)]
          in Inr (if un_use_sudo cfg
                  then [''sudo'', ''--non-interactive''] @ command @
                       [''--drop-uid'', str_nat (p_uid p), ''--drop-gid'', str_nat (p_gid p)]
                  else command))"

definition gpu_command ::
  "gpu_noise_config \<Rightarrow> path \<Rightarrow> path \<Rightarrow> string list res" where
  "gpu_command cfg ready_path summary_path = Inr
     (chrt_taskset (gn_cpu_affinity cfg) @
      [path_str (gn_executable cfg), ''--model-param'', path_str (gn_model_param cfg),
       ''--ready-file'', path_str ready_path, ''--summary-output'', path_str summary_path,
       ''--gpu-device'', str_int (gn_gpu_device cfg),
       ''--warmup-iterations'', str_int (gn_warmup_iterations cfg), ''--num-threads'', ''1''])"

fun workload_command :: "'w procs \<Rightarrow> noise_config \<Rightarrow> workload \<Rightarrow> path \<Rightarrow> path \<Rightarrow> string list res" where
  "workload_command p cfg CpuNoise ready_path summary_path = cpu_command (nc_cpu cfg) ready_path summary_path"
| "workload_command p cfg MemoryNoise ready_path summary_path = memory_command (nc_memory cfg) ready_path summary_path"
| "workload_command p cfg UsbStorageNoise ready_path summary_path = usb_storage_command p (nc_usb cfg) ready_path summary_path"
| "workload_command p cfg GpuNoise ready_path summary_path = gpu_command (nc_gpu cfg) ready_path summary_path"

text \<open>\<open>_environment\<close>: what is added to the inherited environment.\<close>

definition workload_environment :: "noise_config \<Rightarrow> workload \<Rightarrow> (string \<times> string) list" where
  "workload_environment cfg wl =
     (if wl = GpuNoise
      then (case gn_vulkan_icd (nc_gpu cfg) of None \<Rightarrow> [] | Some icd \<Rightarrow> [(''VK_DRIVER_FILES'', path_str icd)])
      else [])"

definition decorate_base :: "pydict \<Rightarrow> string list \<Rightarrow> pydict" where
  "decorate_base ready command =
     dict_set ''command'' (PList (map PStr command)) (dict_set ''enabled'' (PBool True) ready)"

definition cpu_decorate_ready ::
  "cpu_noise_config \<Rightarrow> pydict \<Rightarrow> string list \<Rightarrow> (noise_obj \<times> 'w, pydict) py" where
  "cpu_decorate_ready cfg ready command = py_return
     (dict_set ''cpu_affinity'' (py_or (opt_str (cn_cpu_affinity cfg)) (PStr []))
        (decorate_base ready command))"

definition memory_decorate_ready ::
  "memory_noise_config \<Rightarrow> pydict \<Rightarrow> string list \<Rightarrow> (noise_obj \<times> 'w, pydict) py" where
  "memory_decorate_ready cfg ready command = py_return
     (dict_set ''cpu_affinity'' (py_or (opt_str (mn_cpu_affinity cfg)) (PStr []))
        (decorate_base ready command))"

definition usb_storage_decorate_ready ::
  "usb_storage_noise_config \<Rightarrow> pydict \<Rightarrow> string list \<Rightarrow> (noise_obj \<times> 'w, pydict) py" where
  "usb_storage_decorate_ready cfg ready command =
     py_bind (self_get no_identity) (\<lambda>identity. py_return
       (dict_set ''identity'' (PDict identity) (decorate_base ready command)))"

definition gpu_decorate_ready ::
  "'w procs \<Rightarrow> gpu_noise_config \<Rightarrow> pydict \<Rightarrow> string list \<Rightarrow> (noise_obj \<times> 'w, pydict) py" where
  "gpu_decorate_ready p cfg ready command =
     py_bind (ask_res (\<lambda>w. of_host (p_sha256 p (gn_model_param cfg) w))) (\<lambda>digest. py_return
       (dict_set ''cpu_affinity'' (py_or (opt_str (gn_cpu_affinity cfg)) (PStr []))
       (dict_set ''vulkan_icd'' (py_or (opt_path (gn_vulkan_icd cfg)) (PStr []))
       (dict_set ''model_param_sha256'' (PStr digest) (decorate_base ready command)))))"

fun decorate_ready ::
  "'w procs \<Rightarrow> noise_config \<Rightarrow> workload \<Rightarrow> pydict \<Rightarrow> string list \<Rightarrow> (noise_obj \<times> 'w, pydict) py" where
  "decorate_ready p cfg CpuNoise ready command = cpu_decorate_ready (nc_cpu cfg) ready command"
| "decorate_ready p cfg MemoryNoise ready command = memory_decorate_ready (nc_memory cfg) ready command"
| "decorate_ready p cfg UsbStorageNoise ready command = usb_storage_decorate_ready (nc_usb cfg) ready command"
| "decorate_ready p cfg GpuNoise ready command = gpu_decorate_ready p (nc_gpu cfg) ready command"

text \<open>
  \<open>_ready_message\<close>: the text is printed; the model keeps the exceptions of its fixed-point fields.
\<close>

fun format_fixed :: "pyval \<Rightarrow> unit res" where
  "format_fixed (PStr s) = value_error ''Unknown format code for object of type str''"
| "format_fixed (PInt i) = Inr ()"
| "format_fixed (PBool b) = Inr ()"
| "format_fixed (PFloat r) = Inr ()"
| "format_fixed _ = Inl (Exn TypeError ''unsupported format string'')"

definition ready_message :: "workload \<Rightarrow> pydict \<Rightarrow> unit res" where
  "ready_message wl ready = format_fixed (dict_get ready
     (case wl of CpuNoise \<Rightarrow> ''warmup_cpu_equivalents''
       | MemoryNoise \<Rightarrow> ''warmup_estimated_memory_mib_per_second''
       | UsbStorageNoise \<Rightarrow> ''warmup_mib_per_second''
       | GpuNoise \<Rightarrow> ''startup_ms'') (PInt 0))"

text \<open>\<open>_summary_valid\<close>\<close>

definition get_float_pos :: "pyval \<Rightarrow> string \<Rightarrow> bool res" where
  "get_float_pos d k = res_bind (py_get d k (PInt 0)) (\<lambda>v. res_bind (py_floatv v) (\<lambda>x. Inr (0 < x)))"

definition is_close :: "rat \<Rightarrow> rat \<Rightarrow> rat \<Rightarrow> rat \<Rightarrow> bool" where
  "is_close a b rel_tol abs_tol = (\<bar>a - b\<bar> \<le> max (rel_tol * max \<bar>a\<bar> \<bar>b\<bar>) abs_tol)"

definition cpu_summary_valid ::
  "cpu_noise_config \<Rightarrow> pyval \<Rightarrow> bool res" where
  "cpu_summary_valid cfg s = all_of
     [\<lambda>_. get_true s ''success'', \<lambda>_. get_is s ''working_set'' ''register_only'',
      \<lambda>_. get_int_is s ''workers'' (cn_workers cfg),
      \<lambda>_. get_float_pos s ''measurement_cpu_equivalents'']"

definition memory_summary_valid ::
  "memory_noise_config \<Rightarrow> pyval \<Rightarrow> bool res" where
  "memory_summary_valid cfg s = all_of
     [\<lambda>_. get_true s ''success'', \<lambda>_. get_is s ''memory_access'' ''thread_private_memcpy_read_write'',
      \<lambda>_. get_int_is s ''workers'' (mn_workers cfg),
      \<lambda>_. get_int_is s ''buffer_size_mib'' (mn_buffer_size_mib cfg),
      \<lambda>_. get_int_is s ''copy_chunk_kib'' (mn_copy_chunk_kib cfg),
      \<lambda>_. res_bind (py_get s ''target_memory_mib_per_second'' (PFloat (- 1))) (\<lambda>v.
          res_bind (py_floatv v) (\<lambda>x.
          Inr (is_close x (mn_target_memory_mib_per_second cfg) (1 / 10 ^ 9) (1 / 10 ^ 6)))),
      \<lambda>_. res_bind (py_get s ''payload_bytes_copied'' (PInt 0)) (\<lambda>v.
          res_bind (py_intv v) (\<lambda>i. Inr (0 < i))),
      \<lambda>_. get_float_pos s ''estimated_memory_mib_per_second'']"

definition usb_storage_summary_valid ::
  "usb_storage_noise_config \<Rightarrow> pyval \<Rightarrow> bool res" where
  "usb_storage_summary_valid cfg s = all_of
     [\<lambda>_. get_true s ''success'', \<lambda>_. get_is s ''access'' ''read_only'', \<lambda>_. get_true s ''direct_io'']"

definition gpu_summary_valid ::
  "gpu_noise_config \<Rightarrow> pyval \<Rightarrow> bool res" where
  "gpu_summary_valid cfg s = get_true s ''success''"

fun summary_valid :: "noise_config \<Rightarrow> workload \<Rightarrow> pyval \<Rightarrow> bool res" where
  "summary_valid cfg CpuNoise s = cpu_summary_valid (nc_cpu cfg) s"
| "summary_valid cfg MemoryNoise s = memory_summary_valid (nc_memory cfg) s"
| "summary_valid cfg UsbStorageNoise s = usb_storage_summary_valid (nc_usb cfg) s"
| "summary_valid cfg GpuNoise s = gpu_summary_valid (nc_gpu cfg) s"

definition noise_path :: "workload \<Rightarrow> path \<Rightarrow> string \<Rightarrow> path" where
  "noise_path wl record_dir name = record_dir @ [noise_prefix wl @ ''_'' @ name]"

definition write_process :: "'w host \<Rightarrow> workload \<Rightarrow> path \<Rightarrow> int \<Rightarrow> bool \<Rightarrow> ('o \<times> 'w, unit) py" where
  "write_process h wl record_dir rc forced_kill =
     do_write_json h (noise_path wl record_dir ''process.json'')
       (PDict [(''returncode'', PInt rc), (''forced_kill'', PBool forced_kill)])"

text \<open>\<open>_read_json\<close>: an absent file is an empty document.\<close>

definition read_json :: "'w host \<Rightarrow> path \<Rightarrow> ('o \<times> 'w, pyval) py" where
  "read_json h q =
     py_bind (ask (h_is_file h q)) (\<lambda>found.
     if found then ask_res (\<lambda>w. of_host (h_read_json h q w)) else py_return (PDict []))"

text \<open>
  \<open>stop\<close>: the handle is dropped first; a process that does not end within ten seconds of the
  request is killed.
\<close>

definition noise_stop :: "'w host \<Rightarrow> 'w procs \<Rightarrow> workload \<Rightarrow> path option \<Rightarrow> (noise_obj \<times> 'w, unit) py" where
  "noise_stop h p wl record_dir =
     py_bind (self_get (\<lambda>ob. no_process ob wl)) (\<lambda>process.
     case process of
       None \<Rightarrow> py_skip
     | Some pid \<Rightarrow>
         py_seq (self_upd (set_process wl None))
        (py_bind (do_poll p pid) (\<lambda>polled.
         py_bind
           (case polled of
              Some rc \<Rightarrow> py_return (rc, False)
            | None \<Rightarrow>
                py_seq (do_signal (p_terminate p pid))
                  (py_except [TimeoutExpired]
                    (py_bind (do_wait p pid 10) (\<lambda>rc. py_return (rc, False)))
                    (\<lambda>_. py_seq (do_signal (p_kill p pid))
                          (py_bind (do_wait p pid 5) (\<lambda>rc. py_return (rc, True))))))
           (\<lambda>(rc, forced).
            case record_dir of None \<Rightarrow> py_skip | Some rd \<Rightarrow> write_process h wl rd rc forced))))"

text \<open>
  One round of the wait for the ready file: \<open>Some (Some r)\<close> returns \<open>r\<close>, \<open>Some None\<close> is the end
  of the loop at the deadline.
\<close>

definition ready_round ::
  "'w host \<Rightarrow> 'w procs \<Rightarrow> noise_config \<Rightarrow> workload \<Rightarrow> path \<Rightarrow> string list \<Rightarrow> rat \<Rightarrow>
   (noise_obj \<times> 'w, pydict option option) py" where
  "ready_round h p cfg wl record_dir command deadline =
     py_bind (do_monotonic h) (\<lambda>t.
     if \<not> t < deadline then py_return (Some None)
     else
       py_bind (self_get (\<lambda>ob. no_process ob wl)) (\<lambda>process.
       case process of
         None \<Rightarrow> py_raise (Exn AssertionError [])
       | Some pid \<Rightarrow>
           py_bind (do_poll p pid) (\<lambda>polled.
           case polled of
             Some rc \<Rightarrow>
               py_seq (self_upd (set_process wl None))
              (py_seq (write_process h wl record_dir rc False)
              (py_bind (do_read h (noise_path wl record_dir ''stderr.txt'')) (\<lambda>detail.
               py_raise (Exn RuntimeError (noise_label wl @ '' exited before ready with code ''
                 @ str_int rc @ '': '' @ strip detail)))))
           | None \<Rightarrow>
               py_bind (ask (h_is_file h (noise_path wl record_dir ''ready.json''))) (\<lambda>found.
               if \<not> found then py_seq (do_sleep h (5 / 100)) (py_return None)
               else
                 py_bind (py_except [JSONDecodeError]
                   (py_bind (read_json h (noise_path wl record_dir ''ready.json'')) (\<lambda>v. py_return (Some v)))
                   (\<lambda>_. py_seq (do_sleep h (1 / 100)) (py_return None))) (\<lambda>doc.
                 case doc of
                   None \<Rightarrow> py_return None
                 | Some v \<Rightarrow>
                     (case v of
                        PDict ready \<Rightarrow>
                          if truthy (dict_get ready ''ready'' PNone)
                          then py_bind (decorate_ready p cfg wl ready command) (\<lambda>ready'.
                               py_seq (py_res (ready_message wl ready')) (py_return (Some (Some ready'))))
                          else py_seq (do_sleep h (5 / 100)) (py_return None)
                      | _ \<Rightarrow> py_raise (Exn AttributeError ''get'')))))))"

definition ready_fuel :: "noise_config \<Rightarrow> workload \<Rightarrow> nat" where
  "ready_fuel cfg wl = Suc (quanta_left (1 / 100) (ready_timeout_seconds cfg wl))"

text \<open>The output files and the process: \<open>launch\<close> answers the deadline of the wait.\<close>

definition noise_launch ::
  "'w host \<Rightarrow> 'w procs \<Rightarrow> noise_config \<Rightarrow> workload \<Rightarrow> path \<Rightarrow> string list \<Rightarrow> (noise_obj \<times> 'w, rat) py" where
  "noise_launch h p cfg wl record_dir command =
     py_bind (do_monotonic h) (\<lambda>started.
     py_seq (do_write_text h (noise_path wl record_dir ''stdout.txt'') [])
    (py_seq (do_write_text h (noise_path wl record_dir ''stderr.txt'') [])
    (py_bind (do_spawn p command (workload_environment cfg wl)) (\<lambda>pid.
     py_seq (self_upd (set_process wl (Some pid)))
       (py_return (started + ready_timeout_seconds cfg wl))))))"

definition noise_start ::
  "'w host \<Rightarrow> 'w procs \<Rightarrow> (string \<Rightarrow> host_error + pyval) \<Rightarrow> noise_config \<Rightarrow> workload \<Rightarrow> string \<Rightarrow> path \<Rightarrow>
   (noise_obj \<times> 'w, pydict) py" where
  "noise_start h p loads cfg wl mode record_dir =
     (if mode = ''none'' then py_return [(''mode'', PStr ''none''), (''enabled'', PBool False)]
      else if mode \<noteq> supported_mode wl
      then py_raise (Exn ValueError (''Unsupported '' @ noise_label wl @ '' mode: '' @ mode))
      else
        py_bind (self_get (\<lambda>ob. no_process ob wl)) (\<lambda>process.
        if process \<noteq> None
        then py_raise (Exn RuntimeError (''A '' @ noise_label wl @ '' process is already running''))
        else
          py_seq (before_start h p loads cfg wl)
         (py_bind (py_res (workload_command p cfg wl (noise_path wl record_dir ''ready.json'')
             (noise_path wl record_dir ''summary.json''))) (\<lambda>command.
          py_bind (noise_launch h p cfg wl record_dir command) (\<lambda>deadline.
          py_bind (py_loop (ready_fuel cfg wl) (ready_round h p cfg wl record_dir command deadline)) (\<lambda>r.
          case r of
            Some ready \<Rightarrow> py_return ready
          | None \<Rightarrow>
              py_seq (noise_stop h p wl (Some record_dir))
                (py_raise (Exn RuntimeError (noise_label wl @ '' did not become ready within ''
                   @ str_rat (ready_timeout_seconds cfg wl) @ '' seconds'')))))))))"

record noise_artifacts =
  na_prefix :: string
  na_mode :: string
  na_ready :: pyval
  na_summary :: pyval
  na_process :: pyval
  na_valid :: bool
  na_error :: string
  na_extra :: pydict

definition artifacts_valid :: "noise_config \<Rightarrow> workload \<Rightarrow> string \<Rightarrow> pyval \<Rightarrow> pyval \<Rightarrow> pyval \<Rightarrow> bool res" where
  "artifacts_valid cfg wl mode ready summary process =
     (if mode = ''none'' then Inr True
      else all_of
        [\<lambda>_. get_true ready ''ready'', \<lambda>_. summary_valid cfg wl summary,
         \<lambda>_. get_int_is process ''returncode'' 0,
         \<lambda>_. res_bind (py_get process ''forced_kill'' (PBool False)) (\<lambda>v. Inr (\<not> truthy v))])"

definition workload_artifacts ::
  "'w host \<Rightarrow> 'w procs \<Rightarrow> noise_config \<Rightarrow> workload \<Rightarrow> string \<Rightarrow> path \<Rightarrow> (noise_obj \<times> 'w, noise_artifacts) py" where
  "workload_artifacts h p cfg wl mode record_dir =
     py_bind (read_json h (noise_path wl record_dir ''ready.json'')) (\<lambda>ready.
     py_bind (read_json h (noise_path wl record_dir ''summary.json'')) (\<lambda>summary.
     py_bind (read_json h (noise_path wl record_dir ''process.json'')) (\<lambda>process.
     py_bind (py_res (artifacts_valid cfg wl mode ready summary process)) (\<lambda>valid.
     py_bind (if wl = GpuNoise
              then py_bind (model_digest p (nc_gpu cfg) mode (PStr [])) (\<lambda>digest.
                   py_return [(''gpu_noise_model_param_sha256'', digest)])
              else py_return []) (\<lambda>extra.
     py_return \<lparr>na_prefix = noise_prefix wl, na_mode = mode, na_ready = ready, na_summary = summary,
       na_process = process, na_valid = valid, na_error = ''invalid '' @ noise_label wl @ '' process'',
       na_extra = extra\<rparr>)))))"

subsection \<open>The suite\<close>

type_synonym modes = "(string \<times> string) list"

definition mode_of :: "modes \<Rightarrow> workload \<Rightarrow> string res" where
  "mode_of modes wl = (case map_of modes (noise_prefix wl) of
     None \<Rightarrow> Inl (Exn KeyError (noise_prefix wl)) | Some m \<Rightarrow> Inr m)"

definition suite_validate_environment ::
  "'w host \<Rightarrow> 'w procs \<Rightarrow> (string \<Rightarrow> host_error + pyval) \<Rightarrow> noise_config \<Rightarrow> (noise_obj \<times> 'w, unit) py" where
  "suite_validate_environment h p loads cfg = py_for WORKLOADS (workload_validate_environment h p loads cfg)"

text \<open>\<open>any\<close> stops at the first workload that is on.\<close>

fun any_mode :: "modes \<Rightarrow> workload list \<Rightarrow> bool res" where
  "any_mode modes [] = Inr False"
| "any_mode modes (wl # wls) =
     res_bind (mode_of modes wl) (\<lambda>m. if m \<noteq> ''none'' then Inr True else any_mode modes wls)"

definition any_enabled :: "modes \<Rightarrow> bool res" where
  "any_enabled modes = any_mode modes WORKLOADS"

definition startup_timeout_seconds :: "noise_config \<Rightarrow> modes \<Rightarrow> rat res" where
  "startup_timeout_seconds cfg modes =
     res_bind (res_map (\<lambda>wl. res_bind (mode_of modes wl) (\<lambda>m.
       Inr (if m \<noteq> ''none'' then ready_timeout_seconds cfg wl else 0))) WORKLOADS) (\<lambda>ts.
     Inr (sum_list ts))"

definition build_targets :: "noise_config \<Rightarrow> string list" where
  "build_targets cfg = map build_target (filter (noise_enabled cfg) WORKLOADS)"

definition suite_manifest :: "'w procs \<Rightarrow> noise_config \<Rightarrow> modes \<Rightarrow> (noise_obj \<times> 'w, pydict) py" where
  "suite_manifest p cfg modes =
     py_map WORKLOADS (\<lambda>wl.
       py_bind (py_res (mode_of modes wl)) (\<lambda>m.
       py_bind (workload_manifest p cfg wl m) (\<lambda>d. py_return (noise_prefix wl, PDict d))))"

definition stop_all :: "'w host \<Rightarrow> 'w procs \<Rightarrow> path option \<Rightarrow> (noise_obj \<times> 'w, unit) py" where
  "stop_all h p record_dir = py_for (rev WORKLOADS) (\<lambda>wl. noise_stop h p wl record_dir)"

definition start_one ::
  "'w host \<Rightarrow> 'w procs \<Rightarrow> (string \<Rightarrow> host_error + pyval) \<Rightarrow> noise_config \<Rightarrow> modes \<Rightarrow> path \<Rightarrow> workload \<Rightarrow>
   (noise_obj \<times> 'w, string \<times> pydict) py" where
  "start_one h p loads cfg modes record_dir wl =
     py_bind (py_res (mode_of modes wl)) (\<lambda>mode.
     py_bind (noise_start h p loads cfg wl mode record_dir) (\<lambda>ready.
     py_seq (do_write_json h (noise_path wl record_dir ''configuration.json'') (PDict ready))
       (py_return (noise_prefix wl, ready))))"

definition start_all ::
  "'w host \<Rightarrow> 'w procs \<Rightarrow> (string \<Rightarrow> host_error + pyval) \<Rightarrow> noise_config \<Rightarrow> modes \<Rightarrow> path \<Rightarrow>
   (noise_obj \<times> 'w, (string \<times> pydict) list) py" where
  "start_all h p loads cfg modes record_dir =
     py_catch (py_map WORKLOADS (start_one h p loads cfg modes record_dir))
       (\<lambda>e. py_seq (stop_all h p (Some record_dir)) (py_raise e))"

definition suite_artifacts ::
  "'w host \<Rightarrow> 'w procs \<Rightarrow> noise_config \<Rightarrow> modes \<Rightarrow> path \<Rightarrow> (noise_obj \<times> 'w, noise_artifacts list) py" where
  "suite_artifacts h p cfg modes record_dir =
     py_map WORKLOADS (\<lambda>wl.
       py_bind (py_res (mode_of modes wl)) (\<lambda>m. workload_artifacts h p cfg wl m record_dir))"

section \<open>Lemmas\<close>

subsection \<open>Invariants of the object and the world\<close>

text \<open>As \<open>keeps\<close>, for an invariant that also reads the world.\<close>

named_theorems maintains_intros \<open>structural rules for invariants of the suite and the world\<close>

definition maintains :: "('s \<Rightarrow> bool) \<Rightarrow> ('s, 'a) py \<Rightarrow> bool" where
  "maintains P m \<longleftrightarrow> (\<forall>s. P s \<longrightarrow> wp m (\<lambda>_. P) (\<lambda>e s'. catchable e \<and> P s') s)"

lemma maintainsD: "maintains P m \<Longrightarrow> P s \<Longrightarrow> wp m (\<lambda>_. P) (\<lambda>e s'. catchable e \<and> P s') s"
  by (simp add: maintains_def)

lemma maintains_step:
  assumes "maintains P m" "P s" "\<And>a s'. P s' \<Longrightarrow> Q a s'" "\<And>e s'. catchable e \<Longrightarrow> P s' \<Longrightarrow> E e s'"
  shows "wp m Q E s"
  by (rule wp_mono [OF maintainsD [OF assms(1,2)]]) (use assms(3,4) in auto)

lemma maintains_bind [maintains_intros]:
  "maintains P m \<Longrightarrow> (\<And>a. maintains P (f a)) \<Longrightarrow> maintains P (py_bind m f)"
  unfolding maintains_def [of P "py_bind m f"]
  by (auto simp: wp_simps intro!: wp_mono [OF maintainsD] dest: maintainsD)

lemma maintains_seq [maintains_intros]: "maintains P m \<Longrightarrow> maintains P n \<Longrightarrow> maintains P (py_seq m n)"
  by (simp add: py_seq_def maintains_bind)

lemma maintains_basic [maintains_intros]:
  "maintains P (py_return a)"
  "catchable e \<Longrightarrow> maintains P (py_raise e)"
  "(\<And>e. r = Inl e \<Longrightarrow> catchable e) \<Longrightarrow> maintains P (py_res r)"
  by (auto simp: maintains_def wp_simps split: sum.splits)

lemma maintains_cases [maintains_intros]:
  "(b \<Longrightarrow> maintains P m) \<Longrightarrow> (\<not> b \<Longrightarrow> maintains P n) \<Longrightarrow> maintains P (if b then m else n)"
  "(v = None \<Longrightarrow> maintains P m) \<Longrightarrow> (\<And>x. v = Some x \<Longrightarrow> maintains P (f x)) \<Longrightarrow>
     maintains P (case v of None \<Rightarrow> m | Some x \<Rightarrow> f x)"
  by (auto split: option.splits)

lemma maintains_for [maintains_intros]: "(\<And>x. x \<in> set xs \<Longrightarrow> maintains P (f x)) \<Longrightarrow> maintains P (py_for xs f)"
  by (induction xs) (auto intro: maintains_intros)

lemma maintains_reads [maintains_intros]:
  "maintains P (ask f)" "maintains P (self_get g)" "maintains P (do_read h q)"
  by (auto simp: maintains_def wp_simps split: sum.splits)

lemma maintains_ask_res [maintains_intros]:
  "(\<And>w e. g w = Inl e \<Longrightarrow> catchable e) \<Longrightarrow> maintains P (ask_res g)"
  by (auto simp: maintains_def wp_simps split: sum.splits)

subsection \<open>Exceptions of the pure parts\<close>

named_theorems catchable_intros \<open>results whose exception is caught by \<open>except Exception\<close>\<close>

abbreviation ordinary :: "'a res \<Rightarrow> bool" where
  "ordinary r \<equiv> (\<forall>e. r = Inl e \<longrightarrow> catchable e)"

lemma ordinary_bind [catchable_intros]:
  "ordinary r \<Longrightarrow> (\<And>a. ordinary (f a)) \<Longrightarrow> ordinary (res_bind r f)"
  by (auto simp: res_bind_Inl_iff)

lemma ordinary_basic [catchable_intros]:
  "ordinary (Inr a)" "catchable e \<Longrightarrow> ordinary (Inl e)"
  "ordinary (py_get v k d)" "ordinary (py_iter v)" "ordinary (py_lenv v)" "ordinary (py_first v)"
  "ordinary (format_fixed v)"
  by (auto simp: catchable_def elim!: py_get.elims py_iter.elims py_lenv.elims py_first.elims
      format_fixed.elims)

lemma ordinary_of_host [catchable_intros]: "ordinary (of_host x)"
  by (simp add: of_host_def split: sum.splits)

lemma ordinary_if [catchable_intros]:
  "(b \<Longrightarrow> ordinary r) \<Longrightarrow> (\<not> b \<Longrightarrow> ordinary r') \<Longrightarrow> ordinary (if b then r else r')"
  by simp

lemma ordinary_map [catchable_intros]: "(\<And>x. ordinary (f x)) \<Longrightarrow> ordinary (res_map f xs)"
  by (induction xs) (auto simp: res_bind_Inl_iff)

lemma ordinary_walk_nodes [catchable_intros]: "ordinary (walk_nodes pending seen)"
proof (induction pending seen rule: walk_nodes.induct)
  case (1 pending seen)
  have "ordinary (node_children (last pending))"
    unfolding node_children_def by (intro catchable_intros)
  with 1 show ?case by (subst walk_nodes.simps) (auto split: sum.splits)
qed

lemma ordinary_mount_texts [catchable_intros]: "ordinary (mount_texts node)"
  unfolding mount_texts_def Let_def by (intro catchable_intros) (auto simp: catchable_def split: pyval.splits)

lemma ordinary_get_is [catchable_intros]: "ordinary (get_is d k s)"
  unfolding get_is_def by (intro catchable_intros)

lemma ordinary_unmounted_disk [catchable_intros]: "ordinary (unmounted_disk report)"
  unfolding unmounted_disk_def by (intro catchable_intros catchable_class)

lemma ordinary_usb_identity [catchable_intros]: "ordinary (usb_identity q r n d ps s)"
  unfolding usb_identity_def
  by (intro catchable_intros) (force simp: res_bind_Inl_iff catchable_def dest: py_get_error_kind)

lemmas workload_command_defs =
  cpu_command_def memory_command_def usb_storage_command_def gpu_command_def

lemma ordinary_command [catchable_intros]: "ordinary (workload_command p cfg wl a b)"
  by (cases wl) (auto simp: workload_command_defs Let_def catchable_def split: option.splits)

lemma ordinary_mode_of [catchable_intros]: "ordinary (mode_of modes wl)"
  by (auto simp: mode_of_def catchable_def split: option.splits)

lemma ordinary_ready_message [catchable_intros]: "ordinary (ready_message wl ready)"
  unfolding ready_message_def by (intro catchable_intros)

lemma maintains_res [maintains_intros]: "ordinary r \<Longrightarrow> maintains P (py_res r)"
  by (intro maintains_intros) simp

subsection \<open>Processes\<close>

text \<open>
  What the suite relies on, of a clock \<open>now\<close> and the set \<open>running\<close> of processes that have not
  ended: only \<open>Popen\<close> adds one, the one it returns; \<open>poll\<close> and \<open>wait\<close> report an exit code of an
  ended process only; the only exception of \<open>wait\<close> is its timeout, and a killed process ends within
  five seconds.
\<close>

definition process_host :: "'w host \<Rightarrow> 'w procs \<Rightarrow> ('w \<Rightarrow> rat) \<Rightarrow> ('w \<Rightarrow> nat set) \<Rightarrow> bool" where
  "process_host h p now running \<longleftrightarrow> advancing_clock h now \<and>
     (\<forall>w d rq q t v pid.
        running (snd (h_monotonic h w)) \<subseteq> running w \<and> running (h_sleep h d w) \<subseteq> running w \<and>
        running (snd (h_run h rq w)) \<subseteq> running w \<and> running (snd (h_write_text h q t w)) \<subseteq> running w \<and>
        running (snd (h_write_json h q v w)) \<subseteq> running w \<and> running (p_terminate p pid w) \<subseteq> running w \<and>
        running (p_kill p pid w) \<subseteq> running w \<and> now w \<le> now (snd (h_write_text h q t w))) \<and>
     (\<forall>cmd env w r w'. p_spawn p cmd env w = (r, w') \<longrightarrow> now w \<le> now w' \<and>
        running w' \<subseteq> running w \<union> (case r of Inl _ \<Rightarrow> {} | Inr pid \<Rightarrow> {pid})) \<and>
     (\<forall>pid w r w'. p_poll p pid w = (r, w') \<longrightarrow> now w \<le> now w' \<and>
        running w' \<subseteq> running w - (if r = None then {} else {pid})) \<and>
     (\<forall>pid t w r w'. p_wait p pid t w = (r, w') \<longrightarrow>
        (case r of Inl e \<Rightarrow> (\<exists>m. e = HTimeout m) \<and> running w' \<subseteq> running w
                 | Inr _ \<Rightarrow> running w' \<subseteq> running w - {pid})) \<and>
     (\<forall>pid w. \<exists>rc w'. p_wait p pid 5 (p_kill p pid w) = (Inr rc, w'))"

definition report_writable :: "'w host \<Rightarrow> path \<Rightarrow> bool" where
  "report_writable h record_dir \<longleftrightarrow>
     (\<forall>wl v w. \<exists>w'. h_write_json h (noise_path wl record_dir ''process.json'') v w = (Inr (), w'))"

lemma process_hostD:
  assumes "process_host h p now running"
  shows "advancing_clock h now"
    and "h_monotonic h w = (x, w') \<Longrightarrow> running w' \<subseteq> running w"
    and "running (h_sleep h d w) \<subseteq> running w"
    and "h_run h rq w = (y, w') \<Longrightarrow> running w' \<subseteq> running w"
    and "h_write_text h q t w = (z, w') \<Longrightarrow> running w' \<subseteq> running w \<and> now w \<le> now w'"
    and "h_write_json h q v w = (z', w') \<Longrightarrow> running w' \<subseteq> running w"
    and "running (p_terminate p pid w) \<subseteq> running w"
    and "running (p_kill p pid w) \<subseteq> running w"
proof -
  have quiet: "running (snd (h_monotonic h w)) \<subseteq> running w \<and> running (h_sleep h d w) \<subseteq> running w \<and>
      running (snd (h_run h rq w)) \<subseteq> running w \<and> running (snd (h_write_text h q t w)) \<subseteq> running w \<and>
      running (snd (h_write_json h q v w)) \<subseteq> running w \<and> running (p_terminate p pid w) \<subseteq> running w \<and>
      running (p_kill p pid w) \<subseteq> running w \<and> now w \<le> now (snd (h_write_text h q t w))"
    for w d rq q t v pid
    using assms [unfolded process_host_def, THEN conjunct2, THEN conjunct1, rule_format] .
  show "advancing_clock h now" using assms by (simp add: process_host_def)
  show "h_monotonic h w = (x, w') \<Longrightarrow> running w' \<subseteq> running w"
    and "running (h_sleep h d w) \<subseteq> running w"
    and "h_run h rq w = (y, w') \<Longrightarrow> running w' \<subseteq> running w"
    and "h_write_text h q t w = (z, w') \<Longrightarrow> running w' \<subseteq> running w \<and> now w \<le> now w'"
    and "h_write_json h q v w = (z', w') \<Longrightarrow> running w' \<subseteq> running w"
    and "running (p_terminate p pid w) \<subseteq> running w"
    and "running (p_kill p pid w) \<subseteq> running w"
    using quiet [of w d rq q t v pid] by auto
qed

lemma process_host_procs:
  assumes "process_host h p now running"
  shows "p_spawn p cmd env w = (Inl er, w') \<Longrightarrow> running w' \<subseteq> running w"
    and "p_spawn p cmd env w = (Inr pid, w') \<Longrightarrow> now w \<le> now w' \<and> running w' \<subseteq> insert pid (running w)"
    and "p_poll p pid w = (None, w') \<Longrightarrow> now w \<le> now w' \<and> running w' \<subseteq> running w"
    and "p_poll p pid w = (Some rc, w') \<Longrightarrow> running w' \<subseteq> running w - {pid}"
    and "p_wait p pid tm w = (Inr rc, w') \<Longrightarrow> running w' \<subseteq> running w - {pid}"
    and "p_wait p pid tm w = (Inl er, w') \<Longrightarrow> (\<exists>m. er = HTimeout m) \<and> running w' \<subseteq> running w"
    and "\<exists>rc w'. p_wait p pid 5 (p_kill p pid w) = (Inr rc, w')"
proof -
  note laws = assms [unfolded process_host_def, THEN conjunct2, THEN conjunct2]
  note spawn = laws [THEN conjunct1, rule_format]
    and poll = laws [THEN conjunct2, THEN conjunct1, rule_format]
    and wait = laws [THEN conjunct2, THEN conjunct2, THEN conjunct1, rule_format]
  show "p_spawn p cmd env w = (Inl er, w') \<Longrightarrow> running w' \<subseteq> running w"
    and "p_spawn p cmd env w = (Inr pid, w') \<Longrightarrow> now w \<le> now w' \<and> running w' \<subseteq> insert pid (running w)"
    using spawn by force+
  show "p_poll p pid w = (None, w') \<Longrightarrow> now w \<le> now w' \<and> running w' \<subseteq> running w"
    and "p_poll p pid w = (Some rc, w') \<Longrightarrow> running w' \<subseteq> running w - {pid}"
    using poll by force+
  show "p_wait p pid tm w = (Inr rc, w') \<Longrightarrow> running w' \<subseteq> running w - {pid}"
    and "p_wait p pid tm w = (Inl er, w') \<Longrightarrow> (\<exists>m. er = HTimeout m) \<and> running w' \<subseteq> running w"
    by (drule wait, simp)+
  show "\<exists>rc w'. p_wait p pid 5 (p_kill p pid w) = (Inr rc, w')"
    using laws [THEN conjunct2, THEN conjunct2, THEN conjunct2, rule_format] .
qed

text \<open>Every process of the world was there before or has a handle in the suite.\<close>

definition accounted :: "('w \<Rightarrow> nat set) \<Rightarrow> nat set \<Rightarrow> noise_obj \<times> 'w \<Rightarrow> bool" where
  "accounted running R s \<longleftrightarrow> running (snd s) \<subseteq> R \<union> ran (no_process (fst s))"


lemma wp_procs [wp_simps]:
  "wp (do_spawn p cmd env) Q E (ob, w) =
     (case p_spawn p cmd env w of (Inl e, w') \<Rightarrow> E (host_exn e) (ob, w') | (Inr pid, w') \<Rightarrow> Q pid (ob, w'))"
  "wp (do_poll p pid) Q' E (ob, w) = (case p_poll p pid w of (r, w') \<Rightarrow> Q' r (ob, w'))"
  "wp (do_signal f) Q'' E (ob, w) = Q'' () (ob, f w)"
  "wp (do_wait p pid t) Q3 E (ob, w) =
     (case p_wait p pid t w of (Inl e, w') \<Rightarrow> E (host_exn e) (ob, w') | (Inr rc, w') \<Rightarrow> Q3 rc (ob, w'))"
  by (auto simp: wp_def of_host_def do_spawn_def do_poll_def do_signal_def do_wait_def split: prod.splits sum.splits)

lemma accounted_smaller: "accounted running R (ob, w) \<Longrightarrow> running w' \<subseteq> running w \<Longrightarrow> accounted running R (ob, w')"
  by (auto simp: accounted_def)

lemma accounted_handles:
  "accounted running R (ob, w) \<Longrightarrow> no_process ob' = no_process ob \<Longrightarrow> accounted running R (ob', w)"
  by (simp add: accounted_def)

lemma accounted_dropped:
  assumes "accounted running R (ob, w)" "no_process ob wl = Some pid" "running w' \<subseteq> running w - {pid}"
  shows "accounted running R (set_process wl None ob, w')"
proof -
  have "ran (no_process ob) \<subseteq> insert pid (ran ((no_process ob)(wl := None)))"
  proof
    fix x assume "x \<in> ran (no_process ob)"
    then obtain a where "no_process ob a = Some x" by (auto simp: ran_def)
    then show "x \<in> insert pid (ran ((no_process ob)(wl := None)))"
      using assms(2) ranI [of "(no_process ob)(wl := None)" a x] by (cases "a = wl") auto
  qed
  then show ?thesis using assms(1,3) by (auto simp: accounted_def set_process_def)
qed

lemma accounted_spawned:
  assumes "accounted running R (ob, w)" "no_process ob wl = None" "running w' \<subseteq> insert pid (running w)"
  shows "accounted running R (set_process wl (Some pid) ob, w')"
  using assms unfolding accounted_def set_process_def by (auto simp: ran_map_upd)

lemma write_process_wp:
  assumes "process_host h p now running" "report_writable h rd" "accounted running R (ob, w)"
  shows "wp (write_process h wl rd rc forced) (\<lambda>_ s. fst s = ob \<and> accounted running R s) E (ob, w)"
proof -
  obtain w' where "h_write_json h (noise_path wl rd ''process.json'')
      (PDict [(''returncode'', PInt rc), (''forced_kill'', PBool forced)]) w = (Inr (), w')"
    using assms(2) unfolding report_writable_def by blast
  then show ?thesis
    using accounted_smaller [OF assms(3) process_hostD(6) [OF assms(1)]]
    by (simp add: write_process_def wp_simps)
qed

text \<open>\<open>stop\<close> ends the process and does not raise, whatever the process does with the request.\<close>

lemma noise_stop_wp:
  assumes ph: "process_host h p now running" and rw: "\<And>rd. record_dir = Some rd \<Longrightarrow> report_writable h rd"
    and acc: "accounted running R (ob, w)"
  shows "wp (noise_stop h p wl record_dir)
     (\<lambda>_ s. fst s = set_process wl None ob \<and> accounted running R s) (\<lambda>_ _. False) (ob, w)"
proof (cases "no_process ob wl")
  case None
  then have "set_process wl None ob = ob" by (simp add: set_process_def fun_upd_idem)
  then show ?thesis using None acc by (simp add: noise_stop_def wp_simps)
next
  case (Some pid)
  define rest where "rest = (\<lambda>(rc, forced). (case record_dir of None \<Rightarrow> py_skip
    | Some rd \<Rightarrow> write_process h wl rd rc forced) :: (noise_obj \<times> 'a, unit) py)"
  let ?ob = "set_process wl None ob"
  let ?Q = "\<lambda>(_::unit) s. fst s = ?ob \<and> accounted running R s"
  have rest: "wp (rest rf) ?Q (\<lambda>_ _. False) (?ob, w')" if "running w' \<subseteq> running w - {pid}" for w' rf
    using write_process_wp [OF ph rw accounted_dropped [OF acc Some that]] accounted_dropped [OF acc Some that]
    by (cases rf) (auto simp: rest_def wp_simps split: option.splits)
  show ?thesis
  proof (cases "p_poll p pid w")
    case (Pair r w1)
    show ?thesis
    proof (cases r)
      case (Some rc)
      then have "wp (rest (rc, False)) ?Q (\<lambda>_ _. False) (?ob, w1)"
        using process_host_procs(4) [OF ph] Pair by (intro rest) auto
      then show ?thesis using \<open>no_process ob wl = Some pid\<close> Pair Some
        by (simp add: noise_stop_def rest_def wp_simps)
    next
      case None
      let ?w2 = "p_terminate p pid w1"
      have w2: "running ?w2 \<subseteq> running w"
        using process_host_procs(3) [OF ph] process_hostD(7) [OF ph] Pair None by blast
      obtain x w3 where wait: "p_wait p pid 10 ?w2 = (x, w3)" by (cases "p_wait p pid 10 ?w2")
      show ?thesis
      proof (cases x)
        case (Inr rc)
        then have "wp (rest (rc, False)) ?Q (\<lambda>_ _. False) (?ob, w3)"
          using process_host_procs(5) [OF ph] wait w2 by (intro rest) blast
        then show ?thesis using \<open>no_process ob wl = Some pid\<close> Pair None Inr wait
          by (simp add: noise_stop_def rest_def wp_simps)
      next
        case (Inl er)
        then obtain m where m: "er = HTimeout m" and w3: "running w3 \<subseteq> running ?w2"
          using process_host_procs(6) [OF ph] wait by blast
        obtain rc w4 where kill: "p_wait p pid 5 (p_kill p pid w3) = (Inr rc, w4)"
          using process_host_procs(7) [OF ph] by blast
        have "running w4 \<subseteq> running w - {pid}"
          using process_host_procs(5) [OF ph kill] process_hostD(8) [OF ph] w2 w3 by blast
        then have "wp (rest (rc, True)) ?Q (\<lambda>_ _. False) (?ob, w4)" by (rule rest)
        then show ?thesis using \<open>no_process ob wl = Some pid\<close> Pair None Inl wait kill
          by (simp add: noise_stop_def rest_def wp_simps m)
      qed
    qed
  qed
qed

lemma handles_cleared:
  "f(GpuNoise := None, UsbStorageNoise := None, MemoryNoise := None, CpuNoise := None) = (\<lambda>_. None)"
proof
  show "(f(GpuNoise := None, UsbStorageNoise := None, MemoryNoise := None, CpuNoise := None)) x = None" for x
    by (cases x) auto
qed

lemma stop_all_wp:
  assumes ph: "process_host h p now running" and rw: "\<And>rd. record_dir = Some rd \<Longrightarrow> report_writable h rd"
    and acc: "accounted running R (ob, w)"
  shows "wp (stop_all h p record_dir) (\<lambda>_ s. no_process (fst s) = (\<lambda>_. None) \<and> running (snd s) \<subseteq> R)
    (\<lambda>_ _. False) (ob, w)"
proof -
  have step: "wp (noise_stop h p wl record_dir) Q (\<lambda>_ _. False) s"
    if "accounted running R s"
      "\<And>s'. no_process (fst s') = (no_process (fst s))(wl := None) \<Longrightarrow> accounted running R s' \<Longrightarrow> Q () s'"
    for Q s wl
    using that by (cases s) (auto intro!: wp_step [OF noise_stop_wp [OF ph rw]] simp: set_process_def)
  show ?thesis
    unfolding stop_all_def WORKLOADS_def
    apply (simp add: wp_simps)
    apply (rule step [OF acc], rule step, assumption, rule step, assumption, rule step, assumption)
    apply (auto simp: accounted_def handles_cleared)
    done
qed

lemma decorate_ready_wp:
  "wp (decorate_ready p cfg wl ready command)
     (\<lambda>r s'. s' = s \<and> dict_get r ''ready'' PNone = dict_get ready ''ready'' PNone)
     (\<lambda>e s'. catchable e \<and> s' = s) s"
  by (cases s; cases wl)
    (auto simp: cpu_decorate_ready_def memory_decorate_ready_def usb_storage_decorate_ready_def gpu_decorate_ready_def
      wp_simps decorate_base_def of_host_def split: sum.splits)

lemma ready_round_wp:
  assumes ph: "process_host h p now running" and rw: "report_writable h rd"
    and acc: "accounted running R (ob, w)" and pid: "no_process ob wl = Some pid"
  shows "wp (ready_round h p cfg wl rd command deadline)
    (\<lambda>r s. fst s = ob \<and> accounted running R s \<and>
       (case r of
          None \<Rightarrow> quanta_left (1 / 100) (deadline - now (snd s)) < quanta_left (1 / 100) (deadline - now w)
        | Some None \<Rightarrow> True
        | Some (Some ready) \<Rightarrow> truthy (dict_get ready ''ready'' PNone)))
    (\<lambda>e s. catchable e \<and> accounted running R s) (ob, w)"
    (is "wp _ ?Q ?E _")
proof -
  obtain t w1 where mono: "h_monotonic h w = (t, w1)" by (cases "h_monotonic h w")
  have clock: "advancing_clock h now" by (rule process_hostD(1) [OF ph])
  have t: "t = now w" and now1: "now w \<le> now w1" using advancing_clockD(1) [OF clock mono] by auto
  have acc1: "accounted running R (ob, w1)" by (rule accounted_smaller [OF acc process_hostD(2) [OF ph mono]])
  show ?thesis
  proof (cases "t < deadline")
    case False
    then show ?thesis using mono acc1 by (simp add: ready_round_def wp_simps)
  next
    case True
    obtain polled w2 where poll: "p_poll p pid w1 = (polled, w2)" by (cases "p_poll p pid w1")
    show ?thesis
    proof (cases polled)
      case (Some rc)
      have acc2: "accounted running R (set_process wl None ob, w2)"
        using accounted_dropped [OF acc1 pid] process_host_procs(4) [OF ph] poll Some by blast
      have "wp (write_process h wl rd rc False) (\<lambda>_ s. wp (do_read h (noise_path wl rd ''stderr.txt''))
          (\<lambda>detail. ?E (Exn RuntimeError (noise_label wl @ '' exited before ready with code ''
                 @ str_int rc @ '': '' @ strip detail))) ?E s) ?E (set_process wl None ob, w2)"
        by (rule wp_step [OF write_process_wp [OF ph rw acc2]]) (auto simp: wp_simps split: sum.splits)
      then show ?thesis using True Some mono poll pid by (simp add: ready_round_def wp_simps)
    next
      case None
      have now2: "now w \<le> now w2" and acc2: "accounted running R (ob, w2)"
        using process_host_procs(3) [OF ph] poll None accounted_smaller [OF acc1] now1 by (blast intro: order_trans)+
      have "?Q None (ob, h_sleep h q w2)" if q: "1 / 100 \<le> q" for q
      proof -
        have "deadline - now (h_sleep h q w2) \<le> deadline - now w - 1 / 100"
          using advancing_clockD(2) [OF clock, of w2 q] now2 q by linarith
        then show ?thesis
          using accounted_smaller [OF acc2 process_hostD(3) [OF ph]] True t
          by (auto intro: quanta_left_decreases)
      qed
      then have naps: "?Q None (ob, h_sleep h (5 / 100) w2)" "?Q None (ob, h_sleep h (1 / 100) w2)" by auto
      have found: "wp (decorate_ready p cfg wl ready command) (\<lambda>ready' s.
            case ready_message wl ready' of Inl e \<Rightarrow> ?E e s | Inr _ \<Rightarrow> ?Q (Some (Some ready')) s) ?E (ob, w2)"
        if "truthy (dict_get ready ''ready'' PNone)" for ready
        by (rule wp_mono [OF decorate_ready_wp])
          (use that acc2 ordinary_ready_message in \<open>auto simp: wp_simps split: sum.splits\<close>)
      have attr: "catchable (Exn AttributeError ''get'')" by (simp add: catchable_def)
      show ?thesis
        using True None mono poll pid naps acc2 attr
        by (auto simp: ready_round_def wp_simps read_json_def of_host_def
            split: sum.splits pyval.splits) (rule wp_mono [OF found], auto)
    qed
  qed
qed

text \<open>The handles of the suite are \<open>np\<close>, and they account for the processes.\<close>

definition holding :: "('w \<Rightarrow> nat set) \<Rightarrow> nat set \<Rightarrow> (workload \<Rightarrow> nat option) \<Rightarrow> noise_obj \<times> 'w \<Rightarrow> bool" where
  "holding running R np s \<longleftrightarrow> no_process (fst s) = np \<and> accounted running R s"

lemma maintains_validate_device:
  assumes ph: "process_host h p now running"
  shows "maintains (holding running R np) (validate_device h p loads cfg)"
proof -
  have run: "maintains (holding running R np) (do_run h rq)" for rq
    using process_hostD(4) [OF ph]
    by (auto simp: maintains_def holding_def wp_simps accounted_def split: prod.splits sum.splits) blast+
  show ?thesis
    unfolding validate_device_def checked_output_def require_utility_def Let_def
    by (intro maintains_intros run catchable_class catchable_intros)
qed

lemma before_start_wp:
  assumes "process_host h p now running" "holding running R np s"
  shows "wp (before_start h p loads cfg wl) (\<lambda>_. holding running R np)
    (\<lambda>e s'. catchable e \<and> holding running R np s') s"
proof (cases "wl = UsbStorageNoise")
  case True
  show ?thesis
    unfolding before_start_def if_P [OF True] wp_bind
    by (rule maintains_step [OF maintains_validate_device [OF assms(1)] assms(2)])
      (auto simp: wp_simps holding_def accounted_def)
qed (use assms in \<open>simp add: before_start_def wp_simps\<close>)

text \<open>What a start leaves: no new handle when it is off or raises, its own handle when it returns.\<close>

definition started :: "('w \<Rightarrow> nat set) \<Rightarrow> nat set \<Rightarrow> (workload \<Rightarrow> nat option) \<Rightarrow> workload \<Rightarrow> string \<Rightarrow>
    pydict \<Rightarrow> noise_obj \<times> 'w \<Rightarrow> bool" where
  "started running R np wl mode ready s \<longleftrightarrow>
     (if mode = ''none'' then holding running R np s
      else truthy (dict_get ready ''ready'' PNone) \<and> (\<exists>pid. holding running R (np(wl \<mapsto> pid)) s))"

lemma ready_loop_wp:
  assumes ph: "process_host h p now running" and rw: "report_writable h rd"
    and hold: "holding running R np s0" and pid: "np wl = Some pid"
    and fuel: "deadline \<le> now (snd s0) + ready_timeout_seconds cfg wl"
  shows "wp (py_loop (ready_fuel cfg wl) (ready_round h p cfg wl rd command deadline))
    (\<lambda>r s. holding running R np s \<and> (\<forall>ready. r = Some ready \<longrightarrow> truthy (dict_get ready ''ready'' PNone)))
    (\<lambda>e s. catchable e \<and> accounted running R s) s0"
proof (rule py_loop_wp [where I = "\<lambda>s. fst s = fst s0 \<and> accounted running R s"
      and f = "\<lambda>s. quanta_left (1 / 100) (deadline - now (snd s))"])
  have ob: "no_process (fst s0) = np" and acc: "accounted running R s0" using hold by (auto simp: holding_def)
  show "fst s0 = fst s0 \<and> accounted running R s0" using acc by simp
  show "quanta_left (1 / 100) (deadline - now (snd s0)) < ready_fuel cfg wl"
    using fuel unfolding ready_fuel_def quanta_left_def less_Suc_eq_le
    by (intro nat_mono ceiling_mono divide_right_mono) auto
  show "wp (ready_round h p cfg wl rd command deadline)
      (\<lambda>r s'. case r of
         None \<Rightarrow> (fst s' = fst s0 \<and> accounted running R s') \<and>
           quanta_left (1 / 100) (deadline - now (snd s')) < quanta_left (1 / 100) (deadline - now (snd s))
       | Some a \<Rightarrow> holding running R np s' \<and> (\<forall>ready. a = Some ready \<longrightarrow> truthy (dict_get ready ''ready'' PNone)))
      (\<lambda>e s. catchable e \<and> accounted running R s) s"
    if inv: "fst s = fst s0 \<and> accounted running R s" for s
  proof -
    obtain w1 where s: "s = (fst s0, w1)" using inv by (cases s) auto
    have acc1: "accounted running R (fst s0, w1)" using inv s by simp
    show ?thesis unfolding s snd_conv
      by (rule wp_step [OF ready_round_wp [OF ph rw acc1, unfolded ob, OF pid]])
        (auto simp: holding_def ob split: option.splits)
  qed
qed

lemma await_ready_wp:
  assumes ph: "process_host h p now running" and rw: "report_writable h rd"
    and hold: "holding running R (np(wl \<mapsto> pid)) s" and on: "mode \<noteq> ''none''"
    and fuel: "deadline \<le> now (snd s) + ready_timeout_seconds cfg wl"
  shows "wp (py_loop (ready_fuel cfg wl) (ready_round h p cfg wl rd command deadline))
    (\<lambda>r. wp (case r of Some ready \<Rightarrow> py_return ready
              | None \<Rightarrow> py_seq (noise_stop h p wl (Some rd)) (py_raise (Exn RuntimeError msg)))
       (started running R np wl mode) (\<lambda>e s. catchable e \<and> accounted running R s))
    (\<lambda>e s. catchable e \<and> accounted running R s) s"
proof (rule wp_step [OF ready_loop_wp [OF ph rw hold _ fuel]], simp)
  fix r s
  assume post: "holding running R (np(wl \<mapsto> pid)) s \<and>
    (\<forall>ready. r = Some ready \<longrightarrow> truthy (dict_get ready ''ready'' PNone))"
  obtain ob' w' where s: "s = (ob', w')" by (cases s)
  have acc: "accounted running R (ob', w')" using post by (simp add: s holding_def)
  have "wp (noise_stop h p wl (Some rd)) (\<lambda>_ s. accounted running R s) (\<lambda>e s. catchable e \<and> accounted running R s) (ob', w')"
    by (rule wp_mono [OF noise_stop_wp [OF ph _ acc]]) (use rw in auto)
  then show "wp (case r of Some ready \<Rightarrow> py_return ready
              | None \<Rightarrow> py_seq (noise_stop h p wl (Some rd)) (py_raise (Exn RuntimeError msg)))
       (started running R np wl mode) (\<lambda>e s. catchable e \<and> accounted running R s) s"
    using post on by (auto simp: s wp_simps started_def split: option.splits)
qed

lemma noise_launch_wp:
  assumes ph: "process_host h p now running" and hold: "holding running R np (ob, w)" and np: "np wl = None"
  shows "wp (noise_launch h p cfg wl rd command)
    (\<lambda>deadline s. \<exists>pid. holding running R (np(wl \<mapsto> pid)) s \<and> deadline \<le> now (snd s) + ready_timeout_seconds cfg wl)
    (\<lambda>e s. catchable e \<and> accounted running R s) (ob, w)"
proof -
  obtain t w1 where mono: "h_monotonic h w = (t, w1)" by (cases "h_monotonic h w")
  obtain x w2 where out: "h_write_text h (noise_path wl rd ''stdout.txt'') [] w1 = (x, w2)" by fastforce
  obtain y w3 where err: "h_write_text h (noise_path wl rd ''stderr.txt'') [] w2 = (y, w3)" by fastforce
  obtain z w4 where spawn: "p_spawn p command (workload_environment cfg wl) w3 = (z, w4)" by fastforce
  have ob: "no_process ob = np" and acc0: "accounted running R (ob, w)" using hold by (auto simp: holding_def)
  have t: "t = now w" "now w \<le> now w1" using advancing_clockD(1) [OF process_hostD(1) [OF ph] mono] by auto
  note acc1 = accounted_smaller [OF acc0 process_hostD(2) [OF ph mono]]
  note acc2 = accounted_smaller [OF acc1 process_hostD(5) [OF ph out, THEN conjunct1]]
  note acc3 = accounted_smaller [OF acc2 process_hostD(5) [OF ph err, THEN conjunct1]]
  have now3: "t \<le> now w3"
    using t process_hostD(5) [OF ph out] process_hostD(5) [OF ph err] by linarith
  show ?thesis
  proof (cases z)
    case (Inl er)
    have "accounted running R (ob, w4)"
      using accounted_smaller [OF acc3] process_host_procs(1) [OF ph] spawn Inl by blast
    then show ?thesis using mono out err spawn Inl acc2 acc3
      by (simp add: noise_launch_def wp_simps split: sum.splits)
  next
    case (Inr pid)
    then have w4: "now w3 \<le> now w4" "running w4 \<subseteq> insert pid (running w3)"
      using process_host_procs(2) [OF ph] spawn by auto
    have "holding running R (np(wl \<mapsto> pid)) (set_process wl (Some pid) ob, w4)"
      using accounted_spawned [OF acc3 _ w4(2), of wl] np by (simp add: holding_def set_process_def ob)
    then show ?thesis using mono out err spawn Inr acc2 acc3 now3 w4(1)
      by (auto simp: noise_launch_def wp_simps split: sum.splits)
  qed
qed

lemma noise_start_wp:
  assumes ph: "process_host h p now running" and rw: "report_writable h rd"
    and hold: "holding running R np (ob, w)"
  shows "wp (noise_start h p loads cfg wl mode rd) (started running R np wl mode)
    (\<lambda>e s'. catchable e \<and> accounted running R s') (ob, w)"
proof (cases "mode = supported_mode wl \<and> np wl = None")
  case False
  then show ?thesis using hold
    by (cases wl) (auto simp: noise_start_def wp_simps started_def holding_def)
next
  case True
  then have on: "mode \<noteq> ''none''" and np: "np wl = None" by (cases wl; simp)+
  have idle: "no_process ob wl = None" using hold np by (simp add: holding_def)
  let ?E = "\<lambda>e s'. catchable e \<and> accounted running R s'"
  show ?thesis
    using True on idle unfolding noise_start_def
    apply (simp add: wp_simps)
    apply (rule wp_mono [OF before_start_wp [OF ph hold]])
     apply (auto simp: wp_simps holding_def ordinary_command [rule_format] split: sum.splits)
    apply (rule wp_step [OF noise_launch_wp [where np = np and R = R, OF ph]])
      apply (simp add: holding_def)
     apply (rule np)
    apply (elim exE conjE)
    subgoal for ob1 w1 command deadline s2 pid
      by (rule await_ready_wp [OF ph rw]) simp_all
    done
qed

lemma start_one_wp:
  assumes ph: "process_host h p now running" and rw: "report_writable h rd"
    and hold: "holding running R np s"
  shows "wp (start_one h p loads cfg modes rd wl)
    (\<lambda>kd s'. \<exists>mode. mode_of modes wl = Inr mode \<and> fst kd = noise_prefix wl \<and>
       started running R np wl mode (snd kd) s')
    (\<lambda>e s'. catchable e \<and> accounted running R s') s"
proof (cases "mode_of modes wl")
  case (Inl e)
  then show ?thesis using hold ordinary_mode_of [of modes wl]
    by (simp add: start_one_def wp_simps holding_def)
next
  case (Inr mode)
  obtain ob w where s: "s = (ob, w)" by (cases s)
  have json: "wp (do_write_json h q v) (\<lambda>_. started running R np wl mode ready)
      (\<lambda>e s'. catchable e \<and> accounted running R s') s'"
    if st: "started running R np wl mode ready s'" for q v ready s'
  proof -
    obtain ob' w' where s': "s' = (ob', w')" by (cases s')
    obtain x w'' where wr: "h_write_json h q v w' = (x, w'')" by fastforce
    have less: "running w'' \<subseteq> running w'" by (rule process_hostD(6) [OF ph wr])
    have "started running R np wl mode ready (ob', w'')" "accounted running R (ob', w'')"
      using st accounted_smaller [where running = running, OF _ less] unfolding s' started_def holding_def
      by (auto split: if_splits)
    then show ?thesis by (simp add: s' wr wp_simps split: sum.splits)
  qed
  show ?thesis unfolding start_one_def s wp_simps Inr sum.case
    by (rule wp_step [OF noise_start_wp [OF ph rw hold [unfolded s]]], rule wp_step [OF json])
      (auto simp: wp_simps Inr)
qed

text \<open>What starting the workloads of a list leaves: a handle and a ready report for each that is on.\<close>

definition all_started ::
  "modes \<Rightarrow> workload list \<Rightarrow> (workload \<Rightarrow> nat option) \<Rightarrow> (workload \<Rightarrow> nat option) \<Rightarrow> (string \<times> pydict) list \<Rightarrow> bool" where
  "all_started modes wls np np' reports \<longleftrightarrow>
     list_all2 (\<lambda>wl (key, ready). key = noise_prefix wl \<and>
       (mode_of modes wl \<noteq> Inr ''none'' \<longrightarrow> truthy (dict_get ready ''ready'' PNone))) wls reports \<and>
     (\<forall>wl. (if wl \<in> set wls \<and> mode_of modes wl \<noteq> Inr ''none'' then np' wl \<noteq> None else np' wl = np wl))"

lemma start_workloads_wp:
  assumes ph: "process_host h p now running" and rw: "report_writable h rd"
    and "holding running R np s"
  shows "wp (py_map wls (start_one h p loads cfg modes rd))
    (\<lambda>reports s'. \<exists>np'. holding running R np' s' \<and> all_started modes wls np np' reports)
    (\<lambda>e s'. catchable e \<and> accounted running R s') s"
  using assms(3)
proof (induction wls arbitrary: np s)
  case Nil
  then show ?case by (auto simp: wp_simps all_started_def)
next
  case (Cons wl wls)
  show ?case unfolding py_map.simps wp_simps
  proof (rule wp_step [OF start_one_wp [OF ph rw Cons.prems]])
    fix kd s'
    assume "\<exists>mode. mode_of modes wl = Inr mode \<and> fst kd = noise_prefix wl \<and> started running R np wl mode (snd kd) s'"
    then obtain np1 where hold: "holding running R np1 s'" and key: "fst kd = noise_prefix wl"
      and off: "mode_of modes wl = Inr ''none'' \<Longrightarrow> np1 = np"
      and on: "mode_of modes wl \<noteq> Inr ''none'' \<Longrightarrow> truthy (dict_get (snd kd) ''ready'' PNone) \<and> (\<exists>pid. np1 = np(wl \<mapsto> pid))"
      by (auto simp: started_def split: if_splits) blast+
    show "wp (py_map wls (start_one h p loads cfg modes rd))
       (\<lambda>ys s'. \<exists>np'. holding running R np' s' \<and> all_started modes (wl # wls) np np' (kd # ys))
       (\<lambda>e s'. catchable e \<and> accounted running R s') s'"
    proof (rule wp_step [OF Cons.IH [OF hold]], elim exE conjE)
      fix ys s2 np'
      assume "holding running R np' s2" "all_started modes wls np1 np' ys"
      moreover have "all_started modes (wl # wls) np np' (kd # ys)"
        using calculation(2) key off on unfolding all_started_def
        by (cases "mode_of modes wl = Inr ''none''"; cases kd) (auto split: if_splits)
      ultimately show "\<exists>np'. holding running R np' s2 \<and> all_started modes (wl # wls) np np' (kd # ys)" by blast
    qed
  qed
qed

section \<open>Properties\<close>



text \<open>
  A machine with a process table: a process is a directory of \<open>/proc\<close>, a command listed as failing
  cannot be spawned, and a process ignores the request to terminate, so that it has to be killed.
\<close>

definition proc_dir :: "nat \<Rightarrow> path" where
  "proc_dir pid = [''proc'', str_nat pid]"

definition sim_running :: "sim \<Rightarrow> nat set" where
  "sim_running w = {pid. proc_dir pid \<in> set (sim_dirs w)}"

definition sim_procs :: "sim procs" where
  "sim_procs = \<lparr>
     p_spawn = (\<lambda>cmd env w. if cmd \<in> set (sim_failing w) then (Inl (HOSError ''exec''), w)
       else (let pid = length (sim_dirs w) in (Inr pid, w\<lparr>sim_dirs := proc_dir pid # sim_dirs w\<rparr>))),
     p_poll = (\<lambda>pid w. (if proc_dir pid \<in> set (sim_dirs w) then None else Some 0, w)),
     p_terminate = (\<lambda>pid w. w),
     p_kill = (\<lambda>pid w. w\<lparr>sim_dirs := removeAll (proc_dir pid) (sim_dirs w)\<rparr>),
     p_wait = (\<lambda>pid t w. (if proc_dir pid \<in> set (sim_dirs w) then Inl (HTimeout ''wait'') else Inr (- 9), w)),
     p_uid = 1000, p_gid = 1000, p_resolve_strict = (\<lambda>q w. Some q), p_block_device = (\<lambda>q w. None),
     p_sha256 = (\<lambda>q w. Inl (HOSError ''model''))\<rparr>"

lemma sim_run_dirs: "sim_dirs (snd (sim_run rq w)) = sim_dirs w"
  by (simp add: sim_run_def)

lemma proc_dir_eq: "proc_dir a = proc_dir b \<longleftrightarrow> a = b"
  by (simp add: proc_dir_def str_nat_inj)

lemma sim_process_host: "process_host sim_host sim_procs sim_now sim_running"
  unfolding process_host_def
proof (intro conjI)
  show "advancing_clock sim_host sim_now" by (rule sim_advancing_clock)
qed (auto simp: sim_host_def sim_procs_def sim_running_def sim_run_dirs proc_dir_eq Let_def split: if_splits)

lemma sim_report_writable: "report_writable sim_host rd"
  by (simp add: report_writable_def sim_host_def)

definition noise_demo_config :: noise_config where
  "noise_demo_config = \<lparr>
     nc_cpu = \<lparr>cn_executable = [''c''], cn_modes = [''busy_loop''], cn_workers = 1, cn_warmup_seconds = 1,
       cn_ready_timeout_seconds = 1, cn_cpu_affinity = None\<rparr>,
     nc_memory = \<lparr>mn_executable = [''m''], mn_modes = [''fixed_copy''], mn_workers = 1, mn_buffer_size_mib = 1,
       mn_copy_chunk_kib = 1, mn_target_memory_mib_per_second = 0, mn_warmup_seconds = 1,
       mn_ready_timeout_seconds = 1, mn_cpu_affinity = None\<rparr>,
     nc_usb = \<lparr>un_executable = [''u''], un_modes = [''none''], un_device = None, un_warmup_seconds = 1,
       un_block_size_kib = 1, un_ready_timeout_seconds = 1, un_use_sudo = False\<rparr>,
     nc_gpu = \<lparr>gn_executable = [''g''], gn_modes = [''none''], gn_model_param = [''p''], gn_gpu_device = 0,
       gn_warmup_iterations = 1, gn_ready_timeout_seconds = 1, gn_cpu_affinity = None, gn_vulkan_icd = None\<rparr>\<rparr>"

definition noise_demo_modes :: modes where
  "noise_demo_modes = [(''cpu_noise'', ''busy_loop''), (''memory_noise'', ''fixed_copy''),
     (''usb_storage_noise'', ''none''), (''gpu_noise'', ''none'')]"

text \<open>The CPU workload reports ready; the memory workload, on, has no executable.\<close>

definition noise_demo :: sim where
  "noise_demo = sim_empty\<lparr>
     sim_files := [([''r'', ''cpu_noise_ready.json''], [])],
     sim_json := [([''r'', ''cpu_noise_ready.json''], PDict [(''ready'', PBool True)])],
     sim_failing := [case workload_command sim_procs noise_demo_config MemoryNoise
       [''r'', ''memory_noise_ready.json''] [''r'', ''memory_noise_summary.json''] of Inr c \<Rightarrow> c | Inl _ \<Rightarrow> []]\<rparr>"


text \<open>Undoing: whatever the processes do, a \<open>stop_all\<close> that returns leaves no handle.\<close>

lemma noise_stop_handles:
  "wp (noise_stop h p wl record_dir) (\<lambda>_ s. fst s = set_process wl None ob) (\<lambda>_ _. True) (ob, w)"
proof (cases "no_process ob wl")
  case None
  then show ?thesis by (simp add: noise_stop_def wp_simps set_process_def fun_upd_idem)
next
  case (Some pid)
  then show ?thesis
    by (auto simp: noise_stop_def write_process_def wp_simps split: option.splits prod.splits sum.splits)
qed

interpretation noise_undo: reversible_control "\<lambda>_. True" "\<lambda>ob. no_process ob \<noteq> (\<lambda>_. None)"
  "stop_all h p record_dir" for h p record_dir
proof
  show "stop_all h p record_dir (ob, w) = (Inr (), ob, w)" if "\<not> no_process ob \<noteq> (\<lambda>_. None)" for ob w
    using that by (simp add: stop_all_def WORKLOADS_def noise_stop_def py_defs self_get_def)
  show "wp (stop_all h p record_dir) (\<lambda>_ s. \<not> no_process (fst s) \<noteq> (\<lambda>_. None)) (\<lambda>_ _. True) (ob, w)" for ob w
  proof -
    have step: "wp (noise_stop h p wl record_dir) Q (\<lambda>_ _. True) s"
      if "\<And>s'. fst s' = set_process wl None (fst s) \<Longrightarrow> Q () s'" for Q s wl
      using that by (cases s) (auto intro!: wp_step [OF noise_stop_handles])
    show ?thesis
      unfolding stop_all_def WORKLOADS_def
      apply (simp add: wp_simps)
      apply (rule step, rule step, rule step, rule step)
      apply (simp add: set_process_def handles_cleared)
      done
  qed
qed

text \<open>
  \<open>stop_all\<close> gives up at the first workload whose stop raises: when the report of the GPU process
  cannot be written, the CPU workload is left running.
\<close>

lemma stop_all_abandons:
  "case stop_all (sim_host\<lparr>h_write_json := (\<lambda>q v w. (Inl (HOSError ''full''), w))\<rparr>) sim_procs (Some [''r''])
       (set_process CpuNoise (Some 0) (set_process GpuNoise (Some 1) noise_init),
        sim_empty\<lparr>sim_dirs := [proc_dir 1, proc_dir 0]\<rparr>) of
     (Inl e, ob, w) \<Rightarrow> exn_kind e = OSError \<and> no_process ob CpuNoise = Some 0 \<and> sim_dirs w = [proc_dir 0]
   | _ \<Rightarrow> False"
  by code_simp

end
