(* ===== verification/Noise_Transition.thy ===== *)
theory Noise_Transition
  imports Noise_Workloads
begin

text \<open>
  \<open>tools/realsense_steady_bench/noise_transition.py\<close>: the coordinator thread that starts the noise
  once the probe reports warm cameras, and then opens the gate of the measurement. The thread, the
  main thread and the probe process interleave: a labelled step relation, with one step of the
  coordinator between two of its visible actions (a test of the event, a poll of the warm-up file,
  the start of the suite, the writes). The probe and the rest of the machine are a relation \<open>env\<close>
  on the world. \<open>os.replace\<close> is the parameter \<open>replace\<close>.
\<close>

section \<open>Definitions\<close>

record transition_state =
  ts_enabled :: bool
  ts_camera_warmup_ready_boottime_ns :: int
  ts_noise_start_boottime_ns :: int
  ts_noise_ready_boottime_ns :: int
  ts_error :: string

text \<open>Where the coordinator thread is.\<close>

datatype coordinator =
    NotStarted | WaitCheck | WaitRead | StartNoise | CheckProbe | OpenGate | RecordState
  | PublishError exn | Ended

text \<open>
  Besides the fields of the object: the suite, the reports \<open>start_all\<close> returned and the value
  that was written to the gate.
\<close>

record transition =
  tr_at :: coordinator
  tr_state :: transition_state
  tr_probe_done :: bool
  tr_suite :: noise_obj
  tr_reports :: "(string \<times> pydict) list option"
  tr_gate :: "int option"

definition transition_init :: "modes \<Rightarrow> noise_obj \<Rightarrow> transition res" where
  "transition_init modes suite =
     res_bind (any_enabled modes) (\<lambda>on. Inr
       \<lparr>tr_at = NotStarted,
        tr_state = \<lparr>ts_enabled = on, ts_camera_warmup_ready_boottime_ns = 0, ts_noise_start_boottime_ns = 0,
          ts_noise_ready_boottime_ns = 0, ts_error = []\<rparr>,
        tr_probe_done = False, tr_suite = suite, tr_reports = None, tr_gate = None\<rparr>)"

definition warmup_ready_path :: "path \<Rightarrow> path" where
  "warmup_ready_path record_dir = record_dir @ [''camera_warmup_ready'']"

definition measurement_gate_path :: "path \<Rightarrow> path" where
  "measurement_gate_path record_dir = record_dir @ [''measurement_start_gate'']"

definition gate_error_path :: "path \<Rightarrow> path" where
  "gate_error_path record_dir = record_dir @ [''measurement_start_gate.error'']"

definition gate_timeout_ms :: "noise_config \<Rightarrow> modes \<Rightarrow> int res" where
  "gate_timeout_ms cfg modes =
     res_bind (startup_timeout_seconds cfg modes) (\<lambda>t.
     Inr (max 5000 (rat_trunc ((t + 5) * 1000 + 1 / 2))))"

definition probe_arguments :: "noise_config \<Rightarrow> modes \<Rightarrow> path \<Rightarrow> transition \<Rightarrow> string list res" where
  "probe_arguments cfg modes record_dir t =
     (if \<not> ts_enabled (tr_state t) then Inr []
      else res_bind (gate_timeout_ms cfg modes) (\<lambda>ms. Inr
        [''--warmup-ready-file'', path_str (warmup_ready_path record_dir),
         ''--measurement-start-gate'', path_str (measurement_gate_path record_dir),
         ''--measurement-gate-timeout-ms'', str_int ms]))"

text \<open>\<open>start\<close>, of the main thread\<close>

definition transition_start :: "transition \<Rightarrow> transition res" where
  "transition_start t =
     (if \<not> ts_enabled (tr_state t) then Inr t
      else if tr_at t \<noteq> NotStarted
      then runtime_error ''Noise transition coordinator was already started''
      else Inr (t\<lparr>tr_at := WaitCheck\<rparr>))"

definition atomic_write ::
  "'w host \<Rightarrow> (path \<Rightarrow> path \<Rightarrow> 'w \<Rightarrow> (host_error + unit) \<times> 'w) \<Rightarrow> path \<Rightarrow> string \<Rightarrow> 'w \<Rightarrow> (host_error + unit) \<times> 'w" where
  "atomic_write h replace q text w =
     (let temporary = butlast q @ [path_name q @ ''.tmp'']
      in case h_write_text h temporary text w of
           (Inl e, w') \<Rightarrow> (Inl e, w')
         | (Inr _, w') \<Rightarrow> replace temporary q w')"

definition state_json :: "transition_state \<Rightarrow> pyval" where
  "state_json s = PDict
     [(''enabled'', PBool (ts_enabled s)),
      (''camera_warmup_ready_boottime_ns'', PInt (ts_camera_warmup_ready_boottime_ns s)),
      (''noise_start_boottime_ns'', PInt (ts_noise_start_boottime_ns s)),
      (''noise_ready_boottime_ns'', PInt (ts_noise_ready_boottime_ns s)),
      (''error'', PStr (ts_error s))]"

definition write_state :: "'w host \<Rightarrow> path \<Rightarrow> transition \<Rightarrow> 'w \<Rightarrow> (host_error + unit) \<times> 'w" where
  "write_state h record_dir t w =
     h_write_json h (record_dir @ [''noise_transition.json'']) (state_json (tr_state t)) w"

text \<open>One look at the warm-up file: the time stamp, when it is there and can be read.\<close>

definition warmup_poll :: "'w host \<Rightarrow> path \<Rightarrow> 'w \<Rightarrow> int option" where
  "warmup_poll h record_dir w =
     (if h_is_file h (warmup_ready_path record_dir) w
      then case h_read_text h (warmup_ready_path record_dir) w of
             Inl _ \<Rightarrow> None
           | Inr text \<Rightarrow> (case py_int (strip text) of
                           Inl _ \<Rightarrow> None
                         | Inr timestamp \<Rightarrow> if timestamp > 0 then Some timestamp else None)
      else None)"

definition publish_error ::
  "'w host \<Rightarrow> (path \<Rightarrow> path \<Rightarrow> 'w \<Rightarrow> (host_error + unit) \<times> 'w) \<Rightarrow> path \<Rightarrow> exn \<Rightarrow> transition \<Rightarrow> 'w \<Rightarrow> transition \<times> 'w" where
  "publish_error h replace record_dir e t w =
     (let t' = t\<lparr>tr_state := (tr_state t)\<lparr>ts_error := exn_text e\<rparr>\<rparr>
      in case atomic_write h replace (gate_error_path record_dir) (exn_text e @ [CHR 0x0A]) w of
           (Inl _, w') \<Rightarrow> (t', w')
         | (Inr _, w') \<Rightarrow> (t', snd (write_state h record_dir t' w')))"

text \<open>
  One step of the coordinator: \<open>_wait_for_camera_warmup\<close> and \<open>_run\<close>. An exception leads to
  \<open>PublishError\<close>; one raised while publishing ends the thread.
\<close>

fun coordinator_step ::
  "'w host \<Rightarrow> 'w procs \<Rightarrow> (string \<Rightarrow> host_error + pyval) \<Rightarrow> (path \<Rightarrow> path \<Rightarrow> 'w \<Rightarrow> (host_error + unit) \<times> 'w) \<Rightarrow>
   noise_config \<Rightarrow> modes \<Rightarrow> path \<Rightarrow> coordinator \<Rightarrow> transition \<Rightarrow> 'w \<Rightarrow> transition \<times> 'w" where
  "coordinator_step h p loads replace cfg modes record_dir WaitCheck t w =
     (t\<lparr>tr_at := if tr_probe_done t then Ended else WaitRead\<rparr>, w)"
| "coordinator_step h p loads replace cfg modes record_dir WaitRead t w =
     (case warmup_poll h record_dir w of
        None \<Rightarrow> (t\<lparr>tr_at := WaitCheck\<rparr>, h_sleep h (1 / 100) w)
      | Some timestamp \<Rightarrow>
          (t\<lparr>tr_at := StartNoise, tr_state := (tr_state t)\<lparr>ts_camera_warmup_ready_boottime_ns := timestamp\<rparr>\<rparr>, w))"
| "coordinator_step h p loads replace cfg modes record_dir StartNoise t w =
     (let (start_ns, w1) = h_boottime_ns h w;
          t1 = t\<lparr>tr_state := (tr_state t)\<lparr>ts_noise_start_boottime_ns := start_ns\<rparr>\<rparr>;
          (r, suite, w2) = start_all h p loads cfg modes record_dir (tr_suite t, w1)
      in case r of
           Inl e \<Rightarrow> (t1\<lparr>tr_at := PublishError e, tr_suite := suite\<rparr>, w2)
         | Inr reports \<Rightarrow> (t1\<lparr>tr_at := CheckProbe, tr_suite := suite, tr_reports := Some reports\<rparr>, w2))"
| "coordinator_step h p loads replace cfg modes record_dir CheckProbe t w =
     (t\<lparr>tr_at := if tr_probe_done t then Ended else OpenGate\<rparr>, w)"
| "coordinator_step h p loads replace cfg modes record_dir OpenGate t w =
     (let (ready_ns, w1) = h_boottime_ns h w;
          t1 = t\<lparr>tr_state := (tr_state t)\<lparr>ts_noise_ready_boottime_ns := ready_ns\<rparr>\<rparr>
      in case atomic_write h replace (measurement_gate_path record_dir) (str_int ready_ns @ [CHR 0x0A]) w1 of
           (Inl e, w2) \<Rightarrow> (t1\<lparr>tr_at := PublishError (host_exn e)\<rparr>, w2)
         | (Inr _, w2) \<Rightarrow> (t1\<lparr>tr_at := RecordState, tr_gate := Some ready_ns\<rparr>, w2))"
| "coordinator_step h p loads replace cfg modes record_dir RecordState t w =
     (case write_state h record_dir t w of
        (Inl e, w1) \<Rightarrow> (t\<lparr>tr_at := PublishError (host_exn e)\<rparr>, w1)
      | (Inr _, w1) \<Rightarrow> (t\<lparr>tr_at := Ended\<rparr>, w1))"
| "coordinator_step h p loads replace cfg modes record_dir (PublishError e) t w =
     (let (t1, w1) = publish_error h replace record_dir e t w in (t1\<lparr>tr_at := Ended\<rparr>, w1))"
| "coordinator_step h p loads replace cfg modes record_dir NotStarted t w = (t, w)"
| "coordinator_step h p loads replace cfg modes record_dir Ended t w = (t, w)"

datatype label = Coordinator | Environment | MainStart | MainFinish | MainJoined

definition thread_running :: "transition \<Rightarrow> bool" where
  "thread_running t = (tr_at t \<noteq> NotStarted \<and> tr_at t \<noteq> Ended)"

text \<open>
  \<open>finish\<close> of the main thread is two steps: it sets the event, then joins the thread, that is waits
  until it does not run, and writes the state.
\<close>

inductive transition_step ::
  "'w host \<Rightarrow> 'w procs \<Rightarrow> (string \<Rightarrow> host_error + pyval) \<Rightarrow> (path \<Rightarrow> path \<Rightarrow> 'w \<Rightarrow> (host_error + unit) \<times> 'w) \<Rightarrow>
   noise_config \<Rightarrow> modes \<Rightarrow> path \<Rightarrow> ('w \<Rightarrow> 'w \<Rightarrow> bool) \<Rightarrow>
   label \<Rightarrow> transition \<times> 'w \<Rightarrow> transition \<times> 'w \<Rightarrow> bool"
  for h p loads replace cfg modes record_dir env where
  coordinator: "thread_running t \<Longrightarrow>
    transition_step h p loads replace cfg modes record_dir env Coordinator (t, w)
      (coordinator_step h p loads replace cfg modes record_dir (tr_at t) t w)"
| environment: "env w w' \<Longrightarrow>
    transition_step h p loads replace cfg modes record_dir env Environment (t, w) (t, w')"
| main_start: "transition_start t = Inr t' \<Longrightarrow>
    transition_step h p loads replace cfg modes record_dir env MainStart (t, w) (t', w)"
| main_finish:
    "transition_step h p loads replace cfg modes record_dir env MainFinish (t, w) (t\<lparr>tr_probe_done := True\<rparr>, w)"
| main_joined: "tr_probe_done t \<Longrightarrow> \<not> thread_running t \<Longrightarrow>
    transition_step h p loads replace cfg modes record_dir env MainJoined (t, w) (t, snd (write_state h record_dir t w))"

inductive transition_run ::
  "'w host \<Rightarrow> 'w procs \<Rightarrow> (string \<Rightarrow> host_error + pyval) \<Rightarrow> (path \<Rightarrow> path \<Rightarrow> 'w \<Rightarrow> (host_error + unit) \<times> 'w) \<Rightarrow>
   noise_config \<Rightarrow> modes \<Rightarrow> path \<Rightarrow> ('w \<Rightarrow> 'w \<Rightarrow> bool) \<Rightarrow>
   transition \<times> 'w \<Rightarrow> label list \<Rightarrow> transition \<times> 'w \<Rightarrow> bool"
  for h p loads replace cfg modes record_dir env where
  run_empty: "transition_run h p loads replace cfg modes record_dir env c [] c"
| run_snoc: "transition_run h p loads replace cfg modes record_dir env c ls c' \<Longrightarrow>
    transition_step h p loads replace cfg modes record_dir env l c' c'' \<Longrightarrow>
    transition_run h p loads replace cfg modes record_dir env c (ls @ [l]) c''"

inductive_cases transition_stepE:
  "transition_step h p loads replace cfg modes record_dir env l (t, w) c'"

section \<open>Lemmas\<close>

text \<open>What the suite reports when it was started: \<open>start_all\<close> from no process.\<close>

lemma start_all_started:
  assumes "process_host h p now running" "report_writable h record_dir" "no_process ob = (\<lambda>_. None)"
    and run: "start_all h p loads cfg modes record_dir (ob, w) = (Inr reports, ob', w')"
  shows "all_started modes WORKLOADS (\<lambda>_. None) (no_process ob') reports"
proof -
  have hold: "holding running (running w) (\<lambda>_. None) (ob, w)"
    using assms(3) by (simp add: holding_def accounted_def)
  have map: "py_map WORKLOADS (start_one h p loads cfg modes record_dir) (ob, w) = (Inr reports, ob', w')"
    using run by (auto simp: start_all_def py_catch_def py_seq_def py_bind_def py_raise_def
        split: prod.splits sum.splits if_splits)
  show ?thesis
    using wp_returns [OF map start_workloads_wp [OF assms(1,2) hold]] by (auto simp: holding_def)
qed

text \<open>Before the noise, nothing was started; the gate is open only with the noise ready.\<close>

definition before_noise :: "coordinator \<Rightarrow> bool" where
  "before_noise c \<longleftrightarrow> c = NotStarted \<or> c = WaitCheck \<or> c = WaitRead \<or> c = StartNoise"

definition before_gate :: "coordinator \<Rightarrow> bool" where
  "before_gate c \<longleftrightarrow> c = CheckProbe \<or> c = OpenGate"

definition noise_ready :: "modes \<Rightarrow> transition \<Rightarrow> bool" where
  "noise_ready modes t \<longleftrightarrow> ts_camera_warmup_ready_boottime_ns (tr_state t) > 0 \<and>
     (\<exists>reports. tr_reports t = Some reports \<and>
        all_started modes WORKLOADS (\<lambda>_. None) (no_process (tr_suite t)) reports)"

definition transition_ok :: "modes \<Rightarrow> transition \<Rightarrow> bool" where
  "transition_ok modes t \<longleftrightarrow>
     (before_noise (tr_at t) \<longrightarrow> no_process (tr_suite t) = (\<lambda>_. None)) \<and>
     (tr_at t = StartNoise \<longrightarrow> ts_camera_warmup_ready_boottime_ns (tr_state t) > 0) \<and>
     (before_gate (tr_at t) \<longrightarrow> noise_ready modes t) \<and>
     (before_noise (tr_at t) \<or> before_gate (tr_at t) \<longrightarrow> tr_gate t = None) \<and>
     (\<forall>ns. tr_gate t = Some ns \<longrightarrow> ts_noise_ready_boottime_ns (tr_state t) = ns \<and> noise_ready modes t)"

lemmas transition_ok_defs = transition_ok_def before_noise_def before_gate_def noise_ready_def

lemma warmup_poll_positive: "warmup_poll h record_dir w = Some ts \<Longrightarrow> 0 < ts"
  by (auto simp: warmup_poll_def split: if_splits sum.splits)

lemma transition_init_ok:
  "transition_init modes suite = Inr t \<Longrightarrow> no_process suite = (\<lambda>_. None) \<Longrightarrow> transition_ok modes t"
  by (auto simp: transition_init_def res_bind_Inr_iff transition_ok_defs)

lemma publish_error_keeps:
  "publish_error h replace record_dir e t w = (t', w') \<Longrightarrow>
     t' = t\<lparr>tr_state := (tr_state t)\<lparr>ts_error := exn_text e\<rparr>\<rparr>"
  by (auto simp: publish_error_def Let_def split: prod.splits sum.splits)

lemma coordinator_step_ok:
  assumes ph: "process_host h p now running" "report_writable h record_dir"
    and ok: "transition_ok modes t"
    and step: "coordinator_step h p loads replace cfg modes record_dir (tr_at t) t w = (t', w')"
  shows "transition_ok modes t'"
proof (cases "tr_at t")
  case StartNoise
  obtain ns w1 where bt: "h_boottime_ns h w = (ns, w1)" by fastforce
  obtain r suite w2 where run: "start_all h p loads cfg modes record_dir (tr_suite t, w1) = (r, suite, w2)"
    by (cases "start_all h p loads cfg modes record_dir (tr_suite t, w1)") auto
  have idle: "no_process (tr_suite t) = (\<lambda>_. None)" using ok StartNoise by (auto simp: transition_ok_defs)
  show ?thesis
  proof (cases r)
    case (Inl e)
    then show ?thesis using step ok StartNoise bt run by (auto simp: transition_ok_defs Let_def)
  next
    case (Inr reports)
    then show ?thesis
      using step ok StartNoise bt run start_all_started [OF ph idle, of loads cfg modes w1 reports suite w2]
      by (auto simp: transition_ok_defs Let_def)
  qed
qed (use step ok in \<open>auto simp: transition_ok_defs Let_def dest!: publish_error_keeps warmup_poll_positive
      split: prod.splits sum.splits option.splits if_splits\<close>)

lemma transition_step_ok:
  assumes "process_host h p now running" "report_writable h record_dir"
    and "transition_step h p loads replace cfg modes record_dir env l c c'" "transition_ok modes (fst c)"
  shows "transition_ok modes (fst c')"
  using assms(3,4)
proof cases
  case (coordinator t w)
  then show ?thesis
    using coordinator_step_ok [OF assms(1,2), of modes t loads replace cfg w] assms(4)
    by (metis fst_conv prod.collapse)
next
  case (main_start t t' w)
  then show ?thesis using assms(4)
    by (auto simp: transition_start_def transition_ok_defs split: if_splits)
qed (use assms(4) in \<open>auto simp: transition_ok_defs\<close>)

lemma transition_run_ok:
  assumes "process_host h p now running" "report_writable h record_dir"
    and "transition_run h p loads replace cfg modes record_dir env c ls c'" "transition_ok modes (fst c)"
  shows "transition_ok modes (fst c')"
  using assms(3,4)
  by (induction rule: transition_run.induct) (blast intro: transition_step_ok [OF assms(1,2)])+

text \<open>How many steps the coordinator has left once the probe is done.\<close>

fun steps_left :: "coordinator \<Rightarrow> nat" where
  "steps_left NotStarted = 1"
| "steps_left WaitCheck = 1"
| "steps_left WaitRead = 3"
| "steps_left StartNoise = 2"
| "steps_left CheckProbe = 1"
| "steps_left OpenGate = 3"
| "steps_left RecordState = 2"
| "steps_left (PublishError e) = 1"
| "steps_left Ended = 0"

lemma coordinator_step_left:
  assumes "tr_probe_done t" "thread_running t"
    "coordinator_step h p loads replace cfg modes record_dir (tr_at t) t w = (t', w')"
  shows "tr_probe_done t' \<and> steps_left (tr_at t') < steps_left (tr_at t)"
  using assms by (cases "tr_at t")
    (auto simp: thread_running_def Let_def dest!: publish_error_keeps
      split: prod.splits sum.splits option.splits if_splits)

lemma transition_step_left:
  assumes "transition_step h p loads replace cfg modes record_dir env l c c'" "tr_probe_done (fst c)"
  shows "tr_probe_done (fst c') \<and>
    (if l = Coordinator then 1 else 0) + steps_left (tr_at (fst c')) \<le> steps_left (tr_at (fst c))"
  using assms
proof cases
  case (coordinator t w)
  obtain t' w' where s: "coordinator_step h p loads replace cfg modes record_dir (tr_at t) t w = (t', w')"
    by fastforce
  show ?thesis using coordinator_step_left [OF _ _ s] coordinator assms(2) s by auto
qed (auto simp: transition_start_def split: if_splits)

lemma transition_run_left:
  assumes "transition_run h p loads replace cfg modes record_dir env c ls c'" "tr_probe_done (fst c)"
  shows "tr_probe_done (fst c') \<and>
    length (filter (\<lambda>l. l = Coordinator) ls) + steps_left (tr_at (fst c')) \<le> steps_left (tr_at (fst c))"
  using assms
proof (induction rule: transition_run.induct)
  case (run_snoc c ls c' l c'')
  then show ?case using transition_step_left [OF run_snoc.hyps(2)] by (auto split: if_splits)
qed simp

section \<open>Properties\<close>

text \<open>
  C21. The measurement gate. However the coordinator, the main thread, the probe and the rest of the
  machine interleave: when the gate has been written, the probe had reported warm cameras, the value
  in the gate is the recorded time at which the noise was ready, and every workload that is on has a
  process and reported ready, while no other workload was started.
\<close>

theorem gate_only_when_ready:
  assumes "process_host h p now running" "report_writable h record_dir"
    and "transition_init modes suite = Inr t0" "no_process suite = (\<lambda>_. None)"
    and "transition_run h p loads replace cfg modes record_dir env (t0, w0) ls (t, w)"
    and "tr_gate t = Some ns"
  shows "0 < ts_camera_warmup_ready_boottime_ns (tr_state t) \<and>
    ts_noise_ready_boottime_ns (tr_state t) = ns \<and>
    (\<forall>wl. (no_process (tr_suite t) wl \<noteq> None) = (mode_of modes wl \<noteq> Inr ''none'')) \<and>
    (\<exists>reports. tr_reports t = Some reports \<and>
       list_all2 (\<lambda>wl (key, ready). key = noise_prefix wl \<and>
         (mode_of modes wl \<noteq> Inr ''none'' \<longrightarrow> truthy (dict_get ready ''ready'' PNone))) WORKLOADS reports)"
proof -
  have all: "wl \<in> set WORKLOADS" for wl by (cases wl) (simp_all add: WORKLOADS_def)
  have "transition_ok modes t"
    using transition_run_ok [OF assms(1,2,5)] transition_init_ok [OF assms(3,4)] by simp
  then have "ts_noise_ready_boottime_ns (tr_state t) = ns" and ready: "noise_ready modes t"
    using assms(6) by (auto simp: transition_ok_def)
  moreover obtain reports where "tr_reports t = Some reports"
    and "all_started modes WORKLOADS (\<lambda>_. None) (no_process (tr_suite t)) reports"
    using ready by (auto simp: noise_ready_def)
  ultimately show ?thesis
    using ready all by (auto simp: noise_ready_def all_started_def split: if_splits)
qed


section \<open>Applications\<close>

text \<open>The coordinator alone, for a number of steps.\<close>

fun drive ::
  "'w host \<Rightarrow> 'w procs \<Rightarrow> (string \<Rightarrow> host_error + pyval) \<Rightarrow> (path \<Rightarrow> path \<Rightarrow> 'w \<Rightarrow> (host_error + unit) \<times> 'w) \<Rightarrow>
   noise_config \<Rightarrow> modes \<Rightarrow> path \<Rightarrow> nat \<Rightarrow> transition \<times> 'w \<Rightarrow> (transition \<times> 'w) option" where
  "drive h p loads replace cfg modes record_dir 0 c = Some c"
| "drive h p loads replace cfg modes record_dir (Suc n) c =
     (case drive h p loads replace cfg modes record_dir n c of
        None \<Rightarrow> None
      | Some (t, w) \<Rightarrow>
          if thread_running t then Some (coordinator_step h p loads replace cfg modes record_dir (tr_at t) t w)
          else None)"

lemma drive_run:
  assumes "drive h p loads replace cfg modes record_dir n c = Some c'"
    and "transition_run h p loads replace cfg modes record_dir env c0 ls c"
  shows "transition_run h p loads replace cfg modes record_dir env c0 (ls @ replicate n Coordinator) c'"
  using assms
proof (induction n arbitrary: c')
  case (Suc n)
  then obtain t w where run: "transition_run h p loads replace cfg modes record_dir env c0 (ls @ replicate n Coordinator) (t, w)"
    and t: "thread_running t" and c': "c' = coordinator_step h p loads replace cfg modes record_dir (tr_at t) t w"
    by (auto split: option.splits if_splits)
  then show ?case
    using run_snoc [OF run coordinator [OF t]] by (simp add: replicate_append_same)
qed simp

definition sim_replace :: "path \<Rightarrow> path \<Rightarrow> sim \<Rightarrow> (host_error + unit) \<times> sim" where
  "sim_replace a b w =
     (case map_of (sim_files w) a of
        None \<Rightarrow> (Inl (HOSError (path_str a)), w)
      | Some text \<Rightarrow> (Inr (), w\<lparr>sim_files := dict_set b text (filter (\<lambda>(q, _). q \<noteq> a) (sim_files w))\<rparr>))"

text \<open>Only the CPU workload is on; the probe has written the warm-up file.\<close>

definition transition_demo_modes :: modes where
  "transition_demo_modes = [(''cpu_noise'', ''busy_loop''), (''memory_noise'', ''none''),
     (''usb_storage_noise'', ''none''), (''gpu_noise'', ''none'')]"

definition transition_demo :: sim where
  "transition_demo = noise_demo\<lparr>
     sim_files := ([''r'', ''camera_warmup_ready''], ''7'') # sim_files noise_demo\<rparr>"

definition transition_demo_start :: transition where
  "transition_demo_start = \<lparr>tr_at = NotStarted,
     tr_state = \<lparr>ts_enabled = True, ts_camera_warmup_ready_boottime_ns = 0, ts_noise_start_boottime_ns = 0,
       ts_noise_ready_boottime_ns = 0, ts_error = []\<rparr>,
     tr_probe_done = False, tr_suite = noise_init, tr_reports = None, tr_gate = None\<rparr>"

lemma transition_demo_init: "transition_init transition_demo_modes noise_init = Inr transition_demo_start"
proof -
  have "any_enabled transition_demo_modes = Inr True" by code_simp
  then show ?thesis by (simp add: transition_init_def transition_demo_start_def)
qed

lemma transition_demo_launched:
  "transition_run h p loads replace cfg modes record_dir env (transition_demo_start, w) [MainStart]
     (transition_demo_start\<lparr>tr_at := WaitCheck\<rparr>, w)"
  using run_snoc [OF run_empty main_start [of transition_demo_start "transition_demo_start\<lparr>tr_at := WaitCheck\<rparr>"]]
  by (simp add: transition_start_def transition_demo_start_def)

theorem gate_only_when_ready_witness:
  "\<exists>t w ns. transition_run sim_host sim_procs (\<lambda>_. Inl (HDecode [])) sim_replace noise_demo_config
       transition_demo_modes [''r''] (\<lambda>_ _. False) (transition_demo_start, transition_demo)
       ([MainStart] @ replicate 5 Coordinator) (t, w) \<and>
     tr_gate t = Some ns \<and> ts_noise_ready_boottime_ns (tr_state t) = ns \<and>
     0 < ts_camera_warmup_ready_boottime_ns (tr_state t) \<and> no_process (tr_suite t) CpuNoise \<noteq> None"
proof -
  let ?drive = "drive sim_host sim_procs (\<lambda>_. Inl (HDecode [])) sim_replace noise_demo_config
     transition_demo_modes [''r''] 5 (transition_demo_start\<lparr>tr_at := WaitCheck\<rparr>, transition_demo)"
  have "case ?drive of Some (t, w) \<Rightarrow> tr_gate t \<noteq> None | None \<Rightarrow> False" by code_simp
  then obtain t w ns where d: "?drive = Some (t, w)" and gate: "tr_gate t = Some ns"
    by (auto split: option.splits)
  note run = drive_run [OF d transition_demo_launched, of "\<lambda>_ _. False"]
  have idle: "no_process noise_init = (\<lambda>_. None)" by (simp add: noise_init_def)
  have on: "mode_of transition_demo_modes CpuNoise \<noteq> Inr ''none''" by code_simp
  from gate_only_when_ready [OF sim_process_host sim_report_writable transition_demo_init idle run gate]
  show ?thesis using run gate on by blast
qed


end
