(* ===== verification/Calibration.thy ===== *)
theory Calibration
  imports Recovery Attempt_Adapters Csv Statistics
begin

text \<open>
  \<open>tools/realsense_startup_bench/calibrate_startup_timings.py\<close>: the search for the smallest startup
  timeouts under which every trial succeeds. A trial resets the camera, runs the startup probe with
  one candidate value and adds one row of results; after the four stages and the validation the
  smallest qualified candidate of each stage is recommended. \<open>loads\<close> is \<open>json.loads\<close> (its \<open>Inl\<close>
  is a \<open>JSONDecodeError\<close>) and \<open>captured\<close> the output a probe had written when it ran into its
  timeout. A row of results is a record, \<open>row_dict\<close> the dictionary the code keeps; console output
  and the parsing of the command line are left out.
\<close>

section \<open>Definitions\<close>

subsection \<open>The probe\<close>

definition STAGE_SETTLE :: string where "STAGE_SETTLE = ''recovery_settle_ms''"
definition STAGE_FRAME :: string where "STAGE_FRAME = ''frame_timeout_ms''"
definition STAGE_JOIN :: string where "STAGE_JOIN = ''join_timeout_ms''"
definition STAGE_CYCLE :: string where "STAGE_CYCLE = ''cycle_delay_ms''"
definition STAGE_VALIDATION :: string where "STAGE_VALIDATION = ''combined_validation''"

definition RESULT_FIELDS :: "string list" where
  "RESULT_FIELDS =
     [''stage'', ''candidate_ms'', ''trial'', ''success'', ''returncode'', ''elapsed_ms'',
      ''cycles_requested'', ''cycles_completed'', ''cycles_observed'', ''start_call_ms_mean'',
      ''start_call_ms_max'', ''first_frame_ms_mean'', ''first_frame_ms_max'', ''first_frame_wait_ms_mean'',
      ''first_frame_wait_ms_max'', ''stop_call_ms_mean'', ''stop_call_ms_max'', ''join_wait_ms_mean'',
      ''join_wait_ms_max'', ''cycle_ms_mean'', ''cycle_ms_max'', ''error_kind'', ''error_message'',
      ''reset_success'', ''hardware_reset_ms'', ''usb_reset_ms'', ''enumeration_ms'', ''settle_ms'',
      ''frame_timeout_ms'', ''join_timeout_ms'', ''cycle_delay_ms'', ''stdout_file'', ''reset_file'']"

definition CYCLE_FIELDS :: "string list" where
  "CYCLE_FIELDS =
     [''stage'', ''candidate_ms'', ''trial'', ''cycle'', ''success'', ''framesets'', ''start_call_ms'',
      ''first_frame_ms'', ''first_frame_wait_ms'', ''stop_call_ms'', ''join_wait_ms'', ''cycle_ms'',
      ''threads_after_start'', ''extra_threads_after_join'']"

definition SUMMARY_FIELDS :: "string list" where
  "SUMMARY_FIELDS =
     [''stage'', ''candidate_ms'', ''trials'', ''successful_trials'', ''cycles_requested'',
      ''cycles_completed'', ''observed_success'', ''headroom_required_ms'', ''qualified'',
      ''first_frame_wait_ms_max'', ''join_wait_ms_max'', ''elapsed_ms_total'']"

definition prefixed_json :: "(string \<Rightarrow> pyval res) \<Rightarrow> string \<Rightarrow> string \<Rightarrow> pyval list" where
  "prefixed_json loads output pre =
     List.map_filter (\<lambda>line.
       if \<not> startswith line pre then None
       else (case loads (drop (length pre) line) of Inl _ \<Rightarrow> None | Inr v \<Rightarrow> Some v))
     (splitlines output)"

text \<open>\<open>field in v\<close>\<close>

fun py_in :: "string \<Rightarrow> pyval \<Rightarrow> bool res" where
  "py_in k (PDict d) = Inr (map_of d k \<noteq> None)"
| "py_in k (PList vs) = Inr (PStr k \<in> set vs)"
| "py_in k (PStr s) = Inr (py_contains k s)"
| "py_in k _ = Inl (Exn TypeError ''argument is not iterable'')"

fun metric_values :: "pyval list \<Rightarrow> string \<Rightarrow> rat list res" where
  "metric_values [] field = Inr []"
| "metric_values (cycle # cycles) field =
     res_bind (py_in field cycle) (\<lambda>present.
     res_bind (if present then res_bind (py_item cycle field) (\<lambda>v. res_bind (py_floatv v) (\<lambda>x. Inr [x])) else Inr [])
       (\<lambda>xs. res_bind (metric_values cycles field) (\<lambda>rest. Inr (xs @ rest))))"

text \<open>\<open>max(xs, default=0.0)\<close>\<close>

definition max_or_zero :: "rat list \<Rightarrow> rat" where
  "max_or_zero xs = (case xs of [] \<Rightarrow> 0 | x # ys \<Rightarrow> foldl max x ys)"

definition metric_mean :: "pyval list \<Rightarrow> string \<Rightarrow> rat res" where
  "metric_mean cycles field =
     res_bind (metric_values cycles field) (\<lambda>xs. Inr (if xs = [] then 0 else fmean xs))"

definition metric_max :: "pyval list \<Rightarrow> string \<Rightarrow> rat res" where
  "metric_max cycles field = res_bind (metric_values cycles field) (\<lambda>xs. Inr (max_or_zero xs))"

definition METRICS :: "string list" where
  "METRICS = [''start_call_ms'', ''first_frame_ms'', ''first_frame_wait_ms'', ''stop_call_ms'', ''join_wait_ms'', ''cycle_ms'']"

record probe_result =
  pr_success :: bool
  pr_returncode :: int
  pr_cycles_requested :: int
  pr_cycles_completed :: int
  pr_cycles_observed :: int
  pr_error_kind :: pyval
  pr_error_message :: pyval
  pr_cycles :: "pyval list"
  pr_metrics :: "(string \<times> rat) list"
  pr_elapsed_ms :: rat

definition last_or_empty :: "pyval list \<Rightarrow> pyval" where
  "last_or_empty vs = (if vs = [] then PDict [] else last vs)"

definition parse_probe_output :: "(string \<Rightarrow> pyval res) \<Rightarrow> string \<Rightarrow> int \<Rightarrow> int \<Rightarrow> probe_result res" where
  "parse_probe_output loads output rc requested_cycles =
     (let cycles = prefixed_json loads output ''RS_STARTUP_CYCLE '';
          outcome = last_or_empty (prefixed_json loads output ''RS_STARTUP_RESULT '');
          error = last_or_empty (prefixed_json loads output ''RS_STARTUP_ERROR '') in
      res_bind (py_get outcome ''completed_cycles'' (PInt (int (length cycles)))) (\<lambda>cc.
      res_bind (py_intv cc) (\<lambda>completed.
      res_bind (if rc \<noteq> 0 then Inr False
                else res_bind (py_get outcome ''success'' (PBool False)) (\<lambda>ok.
                  if \<not> truthy ok \<or> completed \<noteq> requested_cycles \<or> int (length cycles) \<noteq> requested_cycles
                  then Inr False
                  else all_true (\<lambda>c. res_bind (py_get c ''success'' (PBool False)) (\<lambda>v. Inr (truthy v))) cycles))
        (\<lambda>success.
      res_bind (py_get error ''kind'' (PStr [])) (\<lambda>kind.
      res_bind (py_get error ''message'' (PStr [])) (\<lambda>message.
      res_bind (res_map (\<lambda>f. res_bind (metric_mean cycles f) (\<lambda>a. res_bind (metric_max cycles f) (\<lambda>m.
          Inr [(f @ ''_mean'', a), (f @ ''_max'', m)]))) METRICS) (\<lambda>ms.
      Inr \<lparr>pr_success = success, pr_returncode = rc, pr_cycles_requested = requested_cycles,
           pr_cycles_completed = completed, pr_cycles_observed = int (length cycles),
           pr_error_kind = kind, pr_error_message = message, pr_cycles = cycles, pr_metrics = concat ms,
           pr_elapsed_ms = 0\<rparr>)))))))"

definition unique_candidates :: "int list \<Rightarrow> bool \<Rightarrow> int list res" where
  "unique_candidates values allow_zero =
     (let candidates = sorted_list_of_set (set values);
          minimum = (if allow_zero then 0 else 1) in
      if candidates = [] then value_error ''candidate list cannot be empty''
      else if list_ex (\<lambda>v. v < minimum) candidates
      then value_error (''candidate values must be '' @ (if allow_zero then ''non-negative'' else ''positive''))
      else Inr candidates)"

definition sudo_command :: "string list \<Rightarrow> bool \<Rightarrow> bool \<Rightarrow> string list" where
  "sudo_command command use_sudo preserve_library_path =
     (if \<not> use_sudo then command
      else [''sudo'', ''--non-interactive''] @
        (if preserve_library_path then [''--preserve-env=LD_LIBRARY_PATH''] else []) @ command)"

definition serial_arguments :: "string \<Rightarrow> string list" where
  "serial_arguments serial = (if serial \<noteq> [] then [''--serial'', serial] else [])"

definition query_device ::
  "'w host \<Rightarrow> (string \<Rightarrow> pyval res) \<Rightarrow> path \<Rightarrow> string \<Rightarrow> rat \<Rightarrow> ('o \<times> 'w, pyval \<times> string) py" where
  "query_device h loads probe serial timeout_seconds =
     py_except [OSError, TimeoutExpired]
       (py_bind (do_run h \<lparr>rq_command = [path_str probe, ''--list-only''] @ serial_arguments serial,
           rq_input = None, rq_timeout = Some timeout_seconds\<rparr>) (\<lambda>c.
        let output = stdout c @ stderr c; devices = prefixed_json loads output ''RS_DEVICE '' in
        py_return
          (if returncode c = 0 \<and> devices \<noteq> [] then (last devices, strip output)
           else (PDict [], str_or (strip output) (''device query exited with '' @ str_int (returncode c))))))
       (\<lambda>e. py_return (PDict [], exn_msg e))"

subsection \<open>Resetting the camera\<close>

definition hardware_part ::
  "'w host \<Rightarrow> path \<Rightarrow> string \<Rightarrow> bool \<Rightarrow> int \<Rightarrow> ('o \<times> 'w, pydict) py" where
  "hardware_part h probe serial use_sudo reset_timeout_ms =
     (let command = sudo_command ([path_str probe, ''--hardware-reset'', ''--reset-timeout-ms'', str_int reset_timeout_ms]
            @ serial_arguments serial) use_sudo True in
      py_bind (do_monotonic h) (\<lambda>started.
      py_except [OSError, TimeoutExpired]
        (py_bind (do_run h \<lparr>rq_command = command, rq_input = None,
            rq_timeout = Some (of_int reset_timeout_ms / 1000 + 15)\<rparr>) (\<lambda>c.
         let output = strip (stdout c @ stderr c) in
         py_bind (do_monotonic h) (\<lambda>ended. py_return
           [(''success'', PBool (returncode c = 0 \<and> py_contains COMPLETE_MARK output)),
            (''returncode'', PInt (returncode c)), (''elapsed_ms'', PFloat ((ended - started) * 1000)),
            (''command'', PList (map PStr command)), (''output'', PStr output)])))
        (\<lambda>e. py_bind (do_monotonic h) (\<lambda>ended. py_return
           [(''success'', PBool False), (''elapsed_ms'', PFloat ((ended - started) * 1000)),
            (''command'', PList (map PStr command)), (''error'', PStr (exn_msg e))]))))"

definition usb_part :: "'w host \<Rightarrow> pyval \<Rightarrow> bool \<Rightarrow> ('o \<times> 'w, pydict) py" where
  "usb_part h device use_sudo =
     py_bind (py_res (py_get device ''physical_port'' (PStr []))) (\<lambda>port.
     py_bind (ask (usb_device_from_physical_port h (py_str port))) (\<lambda>usb_device.
     case usb_device of
       None \<Rightarrow> py_return [(''success'', PBool False), (''error'', PStr ''could not resolve composite USB parent'')]
     | Some dev \<Rightarrow>
         py_except [OSError, ValueError, TimeoutExpired]
           (py_bind (usb_target h dev) (\<lambda>target.
            let command = sudo_command [''usbreset'', target] use_sudo False in
            py_bind (do_monotonic h) (\<lambda>started.
            py_bind (do_run h \<lparr>rq_command = command, rq_input = None, rq_timeout = Some 15\<rparr>) (\<lambda>c.
            py_bind (do_monotonic h) (\<lambda>ended. py_return
              [(''success'', PBool (returncode c = 0)), (''returncode'', PInt (returncode c)),
               (''elapsed_ms'', PFloat ((ended - started) * 1000)), (''command'', PList (map PStr command)),
               (''target'', PStr target), (''usb_device'', PStr (path_str dev)),
               (''output'', PStr (strip (stdout c @ stderr c)))])))))
           (\<lambda>e. py_return [(''success'', PBool False), (''error'', PStr (exn_msg e))])))"

text \<open>The wait for the camera to come back: the device and the last output, of at most one query per 100 ms.\<close>

fun enumerate ::
  "'w host \<Rightarrow> (string \<Rightarrow> pyval res) \<Rightarrow> path \<Rightarrow> string \<Rightarrow> rat \<Rightarrow> nat \<Rightarrow> pyval \<times> string \<Rightarrow> ('o \<times> 'w, pyval \<times> string) py" where
  "enumerate h loads probe serial deadline 0 found = py_raise (Exn Diverged [])"
| "enumerate h loads probe serial deadline (Suc fuel) found =
     py_bind (do_monotonic h) (\<lambda>t.
     if \<not> t < deadline then py_return found
     else py_bind (query_device h loads probe serial 2) (\<lambda>answer.
       if truthy (fst answer) then py_return answer
       else py_seq (do_sleep h (1 / 10)) (enumerate h loads probe serial deadline fuel answer)))"

definition enumeration_part ::
  "'w host \<Rightarrow> (string \<Rightarrow> pyval res) \<Rightarrow> path \<Rightarrow> string \<Rightarrow> int \<Rightarrow> ('o \<times> 'w, pydict) py" where
  "enumeration_part h loads probe serial enumeration_timeout_ms =
     py_bind (do_monotonic h) (\<lambda>started.
     py_bind (enumerate h loads probe serial (started + of_int enumeration_timeout_ms / 1000)
         (Suc (quanta_left (1 / 10) (of_int enumeration_timeout_ms / 1000))) (PDict [], [])) (\<lambda>found.
     py_bind (do_monotonic h) (\<lambda>ended. py_return
       [(''success'', PBool (truthy (fst found))), (''elapsed_ms'', PFloat ((ended - started) * 1000)),
        (''device'', fst found), (''last_output'', PStr (snd found))])))"

definition part_ok :: "pydict \<Rightarrow> bool" where
  "part_ok d = truthy (dict_get d ''success'' (PBool False))"

record reset_result =
  rs_success :: bool
  rs_settle_ms :: int
  rs_hardware_reset :: pydict
  rs_usb_reset :: pydict
  rs_enumeration :: pydict
  rs_elapsed_ms :: rat

definition full_reset ::
  "'w host \<Rightarrow> (string \<Rightarrow> pyval res) \<Rightarrow> path \<Rightarrow> string \<Rightarrow> pyval \<Rightarrow> bool \<Rightarrow> int \<Rightarrow> int \<Rightarrow> int \<Rightarrow> ('o \<times> 'w, reset_result) py" where
  "full_reset h loads probe serial device use_sudo reset_timeout_ms enumeration_timeout_ms settle_ms =
     py_bind (do_monotonic h) (\<lambda>started.
     py_bind (hardware_part h probe serial use_sudo reset_timeout_ms) (\<lambda>hardware.
     py_bind (usb_part h device use_sudo) (\<lambda>usb.
     py_bind (enumeration_part h loads probe serial enumeration_timeout_ms) (\<lambda>enumeration.
     let success = (part_ok hardware \<and> part_ok usb \<and> part_ok enumeration) in
     py_seq (py_when (success \<and> settle_ms \<noteq> 0) (do_sleep h (of_int settle_ms / 1000)))
    (py_bind (do_monotonic h) (\<lambda>ended. py_return
       \<lparr>rs_success = success, rs_settle_ms = settle_ms, rs_hardware_reset = hardware, rs_usb_reset = usb,
        rs_enumeration = enumeration, rs_elapsed_ms = (ended - started) * 1000\<rparr>))))))"

definition reset_json :: "reset_result \<Rightarrow> pyval" where
  "reset_json r = PDict
     [(''method'', PStr ''firmware-and-composite-usb''), (''success'', PBool (rs_success r)),
      (''settle_ms'', PInt (rs_settle_ms r)), (''hardware_reset'', PDict (rs_hardware_reset r)),
      (''usb_reset'', PDict (rs_usb_reset r)), (''enumeration'', PDict (rs_enumeration r)),
      (''elapsed_ms'', PFloat (rs_elapsed_ms r))]"

subsection \<open>Trials\<close>

record calib_settings =
  cs_frame_timeout_ms :: int
  cs_join_timeout_ms :: int
  cs_cycle_delay_ms :: int

definition probe_timeout_seconds :: "int \<Rightarrow> calib_settings \<Rightarrow> int" where
  "probe_timeout_seconds cycles st =
     (let frame_seconds = \<lceil>of_int (cs_frame_timeout_ms st) / (1000 :: rat)\<rceil>;
          join_seconds = \<lceil>of_int (cs_join_timeout_ms st) / (1000 :: rat)\<rceil>;
          delay_seconds = \<lceil>of_int (max 0 (cycles - 1) * cs_cycle_delay_ms st) / (1000 :: rat)\<rceil>
      in max 30 (cycles * (frame_seconds + join_seconds + 5) + delay_seconds))"

definition probe_command :: "path \<Rightarrow> string \<Rightarrow> int \<Rightarrow> int \<Rightarrow> calib_settings \<Rightarrow> string list" where
  "probe_command probe serial frames cycles st =
     [''chrt'', ''--other'', ''0'', path_str probe, ''--cycles'', str_int cycles, ''--frames'', str_int frames,
      ''--frame-timeout-ms'', str_int (cs_frame_timeout_ms st), ''--join-timeout-ms'', str_int (cs_join_timeout_ms st),
      ''--cycle-delay-ms'', str_int (cs_cycle_delay_ms st), ''--strict-streams''] @ serial_arguments serial"

definition run_probe ::
  "'w host \<Rightarrow> (string \<Rightarrow> pyval res) \<Rightarrow> ('w \<Rightarrow> string) \<Rightarrow> path \<Rightarrow> string \<Rightarrow> int \<Rightarrow> int \<Rightarrow> calib_settings \<Rightarrow>
   ('o \<times> 'w, string \<times> probe_result) py" where
  "run_probe h loads captured probe serial frames cycles st =
     (let timeout_seconds = probe_timeout_seconds cycles st in
      py_bind (do_monotonic h) (\<lambda>started.
      py_bind (py_except [TimeoutExpired]
          (py_bind (do_run h \<lparr>rq_command = probe_command probe serial frames cycles st, rq_input = None,
              rq_timeout = Some (of_int timeout_seconds)\<rparr>) (\<lambda>c.
           let output = stdout c @ stderr c in
           py_bind (py_res (parse_probe_output loads output (returncode c) cycles)) (\<lambda>r. py_return (output, r))))
          (\<lambda>_. py_bind (ask captured) (\<lambda>output.
           py_bind (py_res (parse_probe_output loads output 124 cycles)) (\<lambda>r.
           py_return (output, r\<lparr>pr_error_kind := PStr ''outer-timeout'',
             pr_error_message := PStr (''probe exceeded '' @ str_int timeout_seconds @ ''s'')\<rparr>)))))
        (\<lambda>(output, r).
      py_bind (do_monotonic h) (\<lambda>ended.
      py_return (output, r\<lparr>pr_elapsed_ms := (ended - started) * 1000\<rparr>)))))"

text \<open>The result of a trial whose reset failed.\<close>

definition recovery_failed :: "int \<Rightarrow> probe_result" where
  "recovery_failed cycles =
     \<lparr>pr_success = False, pr_returncode = - 1, pr_cycles_requested = cycles, pr_cycles_completed = 0,
      pr_cycles_observed = 0, pr_error_kind = PStr ''recovery'',
      pr_error_message = PStr ''full reset failed before candidate'', pr_cycles = [],
      pr_metrics = concat (map (\<lambda>f. [(f @ ''_mean'', 0), (f @ ''_max'', 0)]) METRICS), pr_elapsed_ms = 0\<rparr>"

record trial_row =
  tw_stage :: string
  tw_candidate_ms :: int
  tw_trial :: nat
  tw_result :: probe_result
  tw_reset :: reset_result
  tw_settle_ms :: int
  tw_settings :: calib_settings
  tw_stdout_file :: path
  tw_reset_file :: path

definition row_metric :: "string \<Rightarrow> trial_row \<Rightarrow> rat" where
  "row_metric k r = dict_get (pr_metrics (tw_result r)) k 0"

abbreviation first_wait :: "trial_row \<Rightarrow> rat" where
  "first_wait \<equiv> row_metric ''first_frame_wait_ms_max''"

abbreviation join_wait :: "trial_row \<Rightarrow> rat" where
  "join_wait \<equiv> row_metric ''join_wait_ms_max''"

definition row_dict :: "trial_row \<Rightarrow> pydict" where
  "row_dict r =
     (let p = tw_result r; elapsed = (\<lambda>d. dict_get d ''elapsed_ms'' (PFloat 0)) in
      [(''stage'', PStr (tw_stage r)), (''candidate_ms'', PInt (tw_candidate_ms r)), (''trial'', PInt (int (tw_trial r))),
       (''success'', PBool (pr_success p)), (''returncode'', PInt (pr_returncode p)),
       (''cycles_requested'', PInt (pr_cycles_requested p)), (''cycles_completed'', PInt (pr_cycles_completed p)),
       (''cycles_observed'', PInt (pr_cycles_observed p)), (''error_kind'', pr_error_kind p),
       (''error_message'', pr_error_message p)] @
      map (\<lambda>(k, x). (k, PFloat x)) (pr_metrics p) @
      [(''elapsed_ms'', PFloat (pr_elapsed_ms p)), (''reset_success'', PBool (rs_success (tw_reset r))),
       (''hardware_reset_ms'', elapsed (rs_hardware_reset (tw_reset r))),
       (''usb_reset_ms'', elapsed (rs_usb_reset (tw_reset r))),
       (''enumeration_ms'', elapsed (rs_enumeration (tw_reset r))), (''settle_ms'', PInt (tw_settle_ms r)),
       (''frame_timeout_ms'', PInt (cs_frame_timeout_ms (tw_settings r))),
       (''join_timeout_ms'', PInt (cs_join_timeout_ms (tw_settings r))),
       (''cycle_delay_ms'', PInt (cs_cycle_delay_ms (tw_settings r))),
       (''stdout_file'', PStr (path_str (tw_stdout_file r))), (''reset_file'', PStr (path_str (tw_reset_file r)))])"

text \<open>\<open>{'stage': ..., 'candidate_ms': ..., 'trial': ..., **cycle}\<close>\<close>

fun cycle_row :: "string \<Rightarrow> int \<Rightarrow> nat \<Rightarrow> pyval \<Rightarrow> pydict res" where
  "cycle_row stage candidate trial (PDict d) = Inr
     (dict_update [(''stage'', PStr stage), (''candidate_ms'', PInt candidate), (''trial'', PInt (int trial))] d)"
| "cycle_row stage candidate trial _ = Inl (Exn TypeError ''argument after ** must be a mapping'')"

definition csv_cells :: "pydict \<Rightarrow> (string \<times> string) list" where
  "csv_cells d = map (\<lambda>(k, v). (k, if v = PNone then [] else py_str v)) d"

definition write_csv :: "'w host \<Rightarrow> path \<Rightarrow> string list \<Rightarrow> pydict list \<Rightarrow> ('o \<times> 'w, unit) py" where
  "write_csv h q names rows = do_write_text h q (write_csv_text names (map csv_cells rows))"

record calib =
  cb_device :: pyval
  cb_rows :: "trial_row list"
  cb_cycles :: "pydict list"
  cb_resets :: "reset_result list"

record calib_args =
  ca_serial :: string
  ca_frames :: int
  ca_cycles_per_trial :: int
  ca_trials :: nat
  ca_validation_trials :: nat
  ca_safety_factor :: rat
  ca_settle_candidates :: "int list"
  ca_frame_candidates :: "int list"
  ca_join_candidates :: "int list"
  ca_cycle_candidates :: "int list"
  ca_reset_timeout_ms :: int
  ca_enumeration_timeout_ms :: int
  ca_use_sudo :: bool

definition with_candidate :: "string \<Rightarrow> int \<Rightarrow> calib_settings \<Rightarrow> calib_settings" where
  "with_candidate stage candidate st =
     (if stage = STAGE_FRAME then st\<lparr>cs_frame_timeout_ms := candidate\<rparr>
      else if stage = STAGE_JOIN then st\<lparr>cs_join_timeout_ms := candidate\<rparr>
      else if stage = STAGE_CYCLE then st\<lparr>cs_cycle_delay_ms := candidate\<rparr>
      else st)"

definition trial_directory :: "path \<Rightarrow> string \<Rightarrow> int \<Rightarrow> nat \<Rightarrow> path" where
  "trial_directory out_dir stage candidate trial =
     out_dir @ [stage, ''candidate-'' @ str_int candidate, ''trial-'' @ str_nat trial]"

text \<open>The reset of a trial; the device found afterwards replaces the known one.\<close>

definition trial_reset ::
  "'w host \<Rightarrow> (string \<Rightarrow> pyval res) \<Rightarrow> calib_args \<Rightarrow> path \<Rightarrow> path \<Rightarrow> int \<Rightarrow> (calib \<times> 'w, reset_result) py" where
  "trial_reset h loads args probe trial_dir settle_ms =
     py_seq (mkdir_new h trial_dir)
    (py_bind (self_get cb_device) (\<lambda>device.
     py_bind (full_reset h loads probe (ca_serial args) device (ca_use_sudo args) (ca_reset_timeout_ms args)
         (ca_enumeration_timeout_ms args) settle_ms) (\<lambda>reset.
     py_seq (do_write_json h (trial_dir @ [''reset.json'']) (reset_json reset))
    (py_seq (self_upd (\<lambda>ob. ob\<lparr>cb_resets := cb_resets ob @ [reset]\<rparr>))
    (let enumerated = dict_get (rs_enumeration reset) ''device'' (PDict []) in
     py_seq (self_upd (\<lambda>ob. if truthy enumerated then ob\<lparr>cb_device := enumerated\<rparr> else ob))
       (py_return reset))))))"

text \<open>The run of the probe with the candidate, unless the reset failed.\<close>

definition trial_probe ::
  "'w host \<Rightarrow> (string \<Rightarrow> pyval res) \<Rightarrow> ('w \<Rightarrow> string) \<Rightarrow> calib_args \<Rightarrow> path \<Rightarrow> calib_settings \<Rightarrow> reset_result \<Rightarrow>
   (calib \<times> 'w, string \<times> probe_result) py" where
  "trial_probe h loads captured args probe current reset =
     (if rs_success reset
      then run_probe h loads captured probe (ca_serial args) (ca_frames args) (ca_cycles_per_trial args) current
      else py_return ([], recovery_failed (ca_cycles_per_trial args)))"

definition trial_record :: "'w host \<Rightarrow> path \<Rightarrow> trial_row \<Rightarrow> string \<Rightarrow> (calib \<times> 'w, unit) py" where
  "trial_record h out_dir row output =
     py_seq (do_write_text h (tw_stdout_file row) output)
    (py_seq (self_upd (\<lambda>ob. ob\<lparr>cb_rows := cb_rows ob @ [row]\<rparr>))
    (py_bind (py_res (res_map (cycle_row (tw_stage row) (tw_candidate_ms row) (tw_trial row))
         (pr_cycles (tw_result row)))) (\<lambda>cycles.
     py_seq (self_upd (\<lambda>ob. ob\<lparr>cb_cycles := cb_cycles ob @ cycles\<rparr>))
    (py_bind (self_get id) (\<lambda>ob.
     py_seq (write_csv h (out_dir @ [''candidate_results.csv'']) RESULT_FIELDS (map row_dict (cb_rows ob)))
       (write_csv h (out_dir @ [''cycle_results.csv'']) CYCLE_FIELDS (cb_cycles ob)))))))"

definition run_trial ::
  "'w host \<Rightarrow> (string \<Rightarrow> pyval res) \<Rightarrow> ('w \<Rightarrow> string) \<Rightarrow> calib_args \<Rightarrow> path \<Rightarrow> path \<Rightarrow> string \<Rightarrow> calib_settings \<Rightarrow> int \<Rightarrow>
   int \<times> nat \<Rightarrow> (calib \<times> 'w, unit) py" where
  "run_trial h loads captured args probe out_dir stage settings default_settle_ms = (\<lambda>(candidate, trial).
     let settle_ms = (if stage = STAGE_SETTLE then candidate else default_settle_ms);
         trial_dir = trial_directory out_dir stage candidate trial;
         current = with_candidate stage candidate settings in
     py_bind (trial_reset h loads args probe trial_dir settle_ms) (\<lambda>reset.
     py_bind (trial_probe h loads captured args probe current reset) (\<lambda>(output, parsed).
     trial_record h out_dir
       \<lparr>tw_stage = stage, tw_candidate_ms = candidate, tw_trial = trial, tw_result = parsed, tw_reset = reset,
        tw_settle_ms = settle_ms, tw_settings = current, tw_stdout_file = trial_dir @ [''probe_stdout.txt''],
        tw_reset_file = trial_dir @ [''reset.json'']\<rparr> output)))"

subsection \<open>Choosing a candidate\<close>

record candidate_summary =
  sm_stage :: string
  sm_candidate_ms :: int
  sm_trials :: nat
  sm_successful_trials :: nat
  sm_cycles_requested :: int
  sm_cycles_completed :: int
  sm_observed_success :: bool
  sm_headroom_required_ms :: int
  sm_qualified :: bool
  sm_first_frame_wait_ms_max :: rat
  sm_join_wait_ms_max :: rat
  sm_elapsed_ms_total :: rat

definition join_poll_ms :: rat where
  "join_poll_ms = 5"

definition headroom_required :: "string \<Rightarrow> rat \<Rightarrow> trial_row list \<Rightarrow> int" where
  "headroom_required stage safety_factor headroom_source =
     (if stage = STAGE_FRAME then \<lceil>max_or_zero (map first_wait headroom_source) * safety_factor\<rceil>
      else if stage = STAGE_JOIN then \<lceil>max_or_zero (map join_wait headroom_source) * safety_factor + join_poll_ms\<rceil>
      else 0)"

definition candidate_rows :: "string \<Rightarrow> int \<Rightarrow> trial_row list \<Rightarrow> trial_row list" where
  "candidate_rows stage candidate rows = filter (\<lambda>r. tw_stage r = stage \<and> tw_candidate_ms r = candidate) rows"

definition summarize_candidate ::
  "string \<Rightarrow> trial_row list \<Rightarrow> nat \<Rightarrow> int \<Rightarrow> rat \<Rightarrow> trial_row list option \<Rightarrow> int \<Rightarrow> candidate_summary" where
  "summarize_candidate stage rows trials cycles_per_trial safety_factor headroom_rows candidate =
     (let selected = candidate_rows stage candidate rows;
          successful_trials = length (filter (pr_success \<circ> tw_result) selected);
          cycles_completed = sum_list (map (pr_cycles_completed \<circ> tw_result) selected);
          observed_success = (length selected = trials \<and> successful_trials = trials \<and>
            cycles_completed = int trials * cycles_per_trial);
          headroom_source = (case headroom_rows of None \<Rightarrow> selected | Some rs \<Rightarrow> rs);
          required = headroom_required stage safety_factor headroom_source
      in \<lparr>sm_stage = stage, sm_candidate_ms = candidate, sm_trials = length selected,
          sm_successful_trials = successful_trials, sm_cycles_requested = int trials * cycles_per_trial,
          sm_cycles_completed = cycles_completed, sm_observed_success = observed_success,
          sm_headroom_required_ms = required, sm_qualified = (observed_success \<and> candidate \<ge> required),
          sm_first_frame_wait_ms_max = max_or_zero (map first_wait selected),
          sm_join_wait_ms_max = max_or_zero (map join_wait selected),
          sm_elapsed_ms_total = sum_list (map (pr_elapsed_ms \<circ> tw_result) selected)\<rparr>)"

definition summarize_candidates ::
  "string \<Rightarrow> int list \<Rightarrow> trial_row list \<Rightarrow> nat \<Rightarrow> int \<Rightarrow> rat \<Rightarrow> trial_row list option \<Rightarrow>
   candidate_summary list \<times> int option" where
  "summarize_candidates stage candidates rows trials cycles_per_trial safety_factor headroom_rows =
     (let summaries = map (summarize_candidate stage rows trials cycles_per_trial safety_factor headroom_rows) candidates;
          qualified = map sm_candidate_ms (filter sm_qualified summaries)
      in (summaries, case qualified of [] \<Rightarrow> None | q # qs \<Rightarrow> Some (foldl min q qs)))"

definition rounded_timeout :: "rat \<Rightarrow> rat \<Rightarrow> int \<Rightarrow> int" where
  "rounded_timeout observed_ms safety_factor floor_ms =
     (let value = max floor_ms \<lceil>observed_ms * safety_factor + 1000\<rceil>
      in \<lceil>of_int value / (100 :: rat)\<rceil> * 100)"

definition summary_dict :: "candidate_summary \<Rightarrow> pydict" where
  "summary_dict s =
     [(''stage'', PStr (sm_stage s)), (''candidate_ms'', PInt (sm_candidate_ms s)),
      (''trials'', PInt (int (sm_trials s))), (''successful_trials'', PInt (int (sm_successful_trials s))),
      (''cycles_requested'', PInt (sm_cycles_requested s)), (''cycles_completed'', PInt (sm_cycles_completed s)),
      (''observed_success'', PBool (sm_observed_success s)),
      (''headroom_required_ms'', PInt (sm_headroom_required_ms s)), (''qualified'', PBool (sm_qualified s)),
      (''first_frame_wait_ms_max'', PFloat (sm_first_frame_wait_ms_max s)),
      (''join_wait_ms_max'', PFloat (sm_join_wait_ms_max s)), (''elapsed_ms_total'', PFloat (sm_elapsed_ms_total s))]"

subsection \<open>The calibration\<close>

definition stage_trials :: "int list \<Rightarrow> nat \<Rightarrow> (int \<times> nat) list" where
  "stage_trials candidates trials = concat (map (\<lambda>c. map (\<lambda>t. (c, t)) [1..<Suc trials]) candidates)"

definition execute_stage ::
  "'w host \<Rightarrow> (string \<Rightarrow> pyval res) \<Rightarrow> ('w \<Rightarrow> string) \<Rightarrow> calib_args \<Rightarrow> path \<Rightarrow> path \<Rightarrow> string \<Rightarrow> int list \<Rightarrow> calib_settings \<Rightarrow>
   int \<Rightarrow> nat \<Rightarrow> (calib \<times> 'w, candidate_summary list \<times> int option) py" where
  "execute_stage h loads captured args probe out_dir stage candidates settings default_settle_ms trials =
     py_seq (py_for (stage_trials candidates trials)
         (run_trial h loads captured args probe out_dir stage settings default_settle_ms))
    (py_bind (self_get cb_rows) (\<lambda>rows. py_return
       (summarize_candidates stage candidates rows trials (ca_cycles_per_trial args) (ca_safety_factor args) None)))"

text \<open>The summaries of the frame and join stages, replaced by those with the headroom of all rows.\<close>

definition replace_summaries :: "candidate_summary list \<Rightarrow> candidate_summary list \<Rightarrow> candidate_summary list" where
  "replace_summaries replacements summaries =
     map (\<lambda>s. case find (\<lambda>r. sm_stage r = sm_stage s \<and> sm_candidate_ms r = sm_candidate_ms s) (rev replacements) of
               Some r \<Rightarrow> r | None \<Rightarrow> s) summaries"

definition list_max :: "int list \<Rightarrow> int" where
  "list_max xs = foldl max (hd xs) (tl xs)"

record recommendation =
  rm_validated :: bool
  rm_successful_validation_trials :: nat
  rm_frame_timeout_ms :: "int option"
  rm_join_timeout_ms :: "int option"
  rm_cycle_delay_ms :: "int option"
  rm_recovery_settle_ms :: "int option"
  rm_reset_timeout_ms :: int
  rm_enumeration_timeout_ms :: int
  rm_validation_settings :: calib_settings
  rm_effective_settle_ms :: int
  rm_first_frame_wait_ms :: rat
  rm_join_wait_ms :: rat
  rm_hardware_reset_ms :: rat
  rm_enumeration_ms :: rat

definition elapsed_of :: "pydict \<Rightarrow> rat res" where
  "elapsed_of d = py_floatv (dict_get d ''elapsed_ms'' (PFloat 0))"

definition global_selection :: "calib_args \<Rightarrow> string \<Rightarrow> int list \<Rightarrow> trial_row list \<Rightarrow> candidate_summary list \<times> int option" where
  "global_selection args stage candidates rows =
     summarize_candidates stage candidates rows (ca_trials args) (ca_cycles_per_trial args) (ca_safety_factor args) (Some rows)"

definition opt_or :: "int option \<Rightarrow> int \<Rightarrow> int" where
  "opt_or v d = (case v of None \<Rightarrow> d | Some x \<Rightarrow> x)"

definition recommend ::
  "calib_args \<Rightarrow> calib \<Rightarrow> calib_settings \<Rightarrow> int \<Rightarrow> int option \<Rightarrow> int option \<Rightarrow> int option \<Rightarrow> int option \<Rightarrow> recommendation res" where
  "recommend args ob validation_settings effective_settle frame join cycle settle =
     (let rows = cb_rows ob;
          validation_rows = filter (\<lambda>r. tw_stage r = STAGE_VALIDATION) rows;
          validation_success = (length validation_rows = ca_validation_trials args \<and>
            list_all (pr_success \<circ> tw_result) validation_rows) in
      res_bind (res_map (elapsed_of \<circ> rs_hardware_reset) (cb_resets ob)) (\<lambda>hardware.
      res_bind (res_map (elapsed_of \<circ> rs_enumeration) (cb_resets ob)) (\<lambda>enumeration.
      Inr \<lparr>rm_validated = (validation_success \<and> frame \<noteq> None \<and> join \<noteq> None \<and> cycle \<noteq> None \<and> settle \<noteq> None),
           rm_successful_validation_trials = length (filter (pr_success \<circ> tw_result) validation_rows),
           rm_frame_timeout_ms = frame, rm_join_timeout_ms = join, rm_cycle_delay_ms = cycle,
           rm_recovery_settle_ms = settle,
           rm_reset_timeout_ms = rounded_timeout (max_or_zero hardware) (ca_safety_factor args) 5000,
           rm_enumeration_timeout_ms = rounded_timeout (max_or_zero enumeration) (ca_safety_factor args) 1000,
           rm_validation_settings = validation_settings, rm_effective_settle_ms = effective_settle,
           rm_first_frame_wait_ms = max_or_zero (map first_wait rows),
           rm_join_wait_ms = max_or_zero (map join_wait rows),
           rm_hardware_reset_ms = max_or_zero hardware, rm_enumeration_ms = max_or_zero enumeration\<rparr>)))"

definition QUALIFICATION :: string where
  "QUALIFICATION = ''All configured trials and cycles must succeed. Frame timeout uses '' @
     ''safety_factor headroom over the maximum first-frame wait observed in '' @
     ''all stages. Join timeout uses the same global rule plus the 5 ms '' @ ''polling interval.''"

definition CALIBRATION_WARNING :: string where
  "CALIBRATION_WARNING = ''These values are platform-, firmware-, topology-, and load-specific. '' @
     ''Repeat with more trials and under intended stress before changing '' @
     ''the production benchmark defaults.''"

definition opt_int_json :: "int option \<Rightarrow> pyval" where
  "opt_int_json v = (case v of None \<Rightarrow> PNone | Some i \<Rightarrow> PInt i)"

definition recommendation_json :: "calib_args \<Rightarrow> recommendation \<Rightarrow> pyval" where
  "recommendation_json args r = PDict
     [(''schema_version'', PInt 2), (''provisional'', PBool True), (''validated'', PBool (rm_validated r)),
      (''successful_validation_trials'', PInt (int (rm_successful_validation_trials r))),
      (''requested_validation_trials'', PInt (int (ca_validation_trials args))),
      (''selection'', PDict
        [(''frame_timeout_ms'', opt_int_json (rm_frame_timeout_ms r)), (''join_timeout_ms'', opt_int_json (rm_join_timeout_ms r)),
         (''cycle_delay_ms'', opt_int_json (rm_cycle_delay_ms r)),
         (''recovery_settle_ms'', opt_int_json (rm_recovery_settle_ms r)),
         (''reset_timeout_ms'', PInt (rm_reset_timeout_ms r)),
         (''enumeration_timeout_ms'', PInt (rm_enumeration_timeout_ms r))]),
      (''effective_validation_settings'', PDict
        [(''frame_timeout_ms'', PInt (cs_frame_timeout_ms (rm_validation_settings r))),
         (''join_timeout_ms'', PInt (cs_join_timeout_ms (rm_validation_settings r))),
         (''cycle_delay_ms'', PInt (cs_cycle_delay_ms (rm_validation_settings r))),
         (''recovery_settle_ms'', PInt (rm_effective_settle_ms r))]),
      (''observed_maxima'', PDict
        [(''first_frame_wait_ms'', PFloat (rm_first_frame_wait_ms r)), (''join_wait_ms'', PFloat (rm_join_wait_ms r)),
         (''hardware_reset_ms'', PFloat (rm_hardware_reset_ms r)), (''enumeration_ms'', PFloat (rm_enumeration_ms r))]),
      (''safety_factor'', PFloat (ca_safety_factor args)),
      (''headroom_scope'', PStr ''all_stages_including_validation''),
      (''qualification'', PStr QUALIFICATION), (''warning'', PStr CALIBRATION_WARNING)]"

text \<open>The four stages: the summaries, and the settle time and cycle delay that were selected.\<close>

definition safe_settings :: "calib_args \<Rightarrow> calib_settings" where
  "safe_settings args =
     \<lparr>cs_frame_timeout_ms = max 3000 (list_max (ca_frame_candidates args)),
      cs_join_timeout_ms = max 100 (list_max (ca_join_candidates args)),
      cs_cycle_delay_ms = list_max (ca_cycle_candidates args)\<rparr>"

definition effective_settle_ms :: "calib_args \<Rightarrow> int option \<Rightarrow> int" where
  "effective_settle_ms args settle = opt_or settle (list_max (ca_settle_candidates args))"

definition effective_frame_ms :: "calib_args \<Rightarrow> int option \<Rightarrow> int" where
  "effective_frame_ms args frame = opt_or frame (max 3000 (list_max (ca_frame_candidates args)))"

definition effective_join_ms :: "calib_args \<Rightarrow> int option \<Rightarrow> int" where
  "effective_join_ms args join = opt_or join (max 100 (list_max (ca_join_candidates args)))"

definition effective_cycle_ms :: "calib_args \<Rightarrow> int option \<Rightarrow> int" where
  "effective_cycle_ms args cycle = opt_or cycle (list_max (ca_cycle_candidates args))"

definition calibrate_stages ::
  "'w host \<Rightarrow> (string \<Rightarrow> pyval res) \<Rightarrow> ('w \<Rightarrow> string) \<Rightarrow> calib_args \<Rightarrow> path \<Rightarrow> path \<Rightarrow>
   (calib \<times> 'w, candidate_summary list \<times> int option \<times> int option) py" where
  "calibrate_stages h loads captured args probe out_dir =
     (let stage = execute_stage h loads captured args probe out_dir; trials = ca_trials args in
      py_bind (stage STAGE_SETTLE (ca_settle_candidates args) (safe_settings args)
          (list_max (ca_settle_candidates args)) trials) (\<lambda>(settle_rows, settle).
      let settle_ms = effective_settle_ms args settle in
      py_bind (stage STAGE_FRAME (ca_frame_candidates args) (safe_settings args) settle_ms trials) (\<lambda>(frame_rows, frame).
      let join_settings = (safe_settings args)\<lparr>cs_frame_timeout_ms := effective_frame_ms args frame\<rparr> in
      py_bind (stage STAGE_JOIN (ca_join_candidates args) join_settings settle_ms trials) (\<lambda>(join_rows, join).
      let cycle_settings = join_settings\<lparr>cs_join_timeout_ms := effective_join_ms args join\<rparr> in
      py_bind (stage STAGE_CYCLE (ca_cycle_candidates args) cycle_settings settle_ms trials) (\<lambda>(cycle_rows, cycle).
      py_return (settle_rows @ frame_rows @ join_rows @ cycle_rows, settle, cycle))))))"

text \<open>The validation with the headroom of all rows, and the recommendation with that of the validation too.\<close>

definition validation_settings :: "calib_args \<Rightarrow> trial_row list \<Rightarrow> int option \<Rightarrow> calib_settings" where
  "validation_settings args rows cycle =
     \<lparr>cs_frame_timeout_ms = effective_frame_ms args (snd (global_selection args STAGE_FRAME (ca_frame_candidates args) rows)),
      cs_join_timeout_ms = effective_join_ms args (snd (global_selection args STAGE_JOIN (ca_join_candidates args) rows)),
      cs_cycle_delay_ms = effective_cycle_ms args cycle\<rparr>"

definition global_summaries :: "calib_args \<Rightarrow> trial_row list \<Rightarrow> candidate_summary list" where
  "global_summaries args rows =
     fst (global_selection args STAGE_FRAME (ca_frame_candidates args) rows) @
     fst (global_selection args STAGE_JOIN (ca_join_candidates args) rows)"

definition calibrate_finish ::
  "'w host \<Rightarrow> (string \<Rightarrow> pyval res) \<Rightarrow> ('w \<Rightarrow> string) \<Rightarrow> calib_args \<Rightarrow> path \<Rightarrow> path \<Rightarrow>
   candidate_summary list \<Rightarrow> int option \<Rightarrow> int option \<Rightarrow> (calib \<times> 'w, candidate_summary list \<times> recommendation) py" where
  "calibrate_finish h loads captured args probe out_dir summaries settle cycle =
     py_bind (self_get cb_rows) (\<lambda>rows.
     let settings = validation_settings args rows cycle;
         table = replace_summaries (global_summaries args rows) summaries in
     py_bind (execute_stage h loads captured args probe out_dir STAGE_VALIDATION [0] settings
         (effective_settle_ms args settle) (ca_validation_trials args)) (\<lambda>(validation_summaries, _).
     py_bind (self_get id) (\<lambda>ob.
     let table' = replace_summaries (global_summaries args (cb_rows ob)) (table @ validation_summaries) in
     py_bind (py_res (recommend args ob settings (effective_settle_ms args settle)
         (snd (global_selection args STAGE_FRAME (ca_frame_candidates args) (cb_rows ob)))
         (snd (global_selection args STAGE_JOIN (ca_join_candidates args) (cb_rows ob))) cycle settle)) (\<lambda>rec.
     py_seq (write_csv h (out_dir @ [''candidate_results.csv'']) RESULT_FIELDS (map row_dict (cb_rows ob)))
    (py_seq (write_csv h (out_dir @ [''cycle_results.csv'']) CYCLE_FIELDS (cb_cycles ob))
    (py_seq (write_csv h (out_dir @ [''candidate_summary.csv'']) SUMMARY_FIELDS (map summary_dict table'))
    (py_seq (do_write_json h (out_dir @ [''recommendation.json'']) (recommendation_json args rec))
       (py_return (table', rec)))))))))"

definition calibrate ::
  "'w host \<Rightarrow> (string \<Rightarrow> pyval res) \<Rightarrow> ('w \<Rightarrow> string) \<Rightarrow> calib_args \<Rightarrow> path \<Rightarrow> path \<Rightarrow>
   (calib \<times> 'w, candidate_summary list \<times> recommendation) py" where
  "calibrate h loads captured args probe out_dir =
     py_bind (calibrate_stages h loads captured args probe out_dir) (\<lambda>(summaries, settle, cycle).
     calibrate_finish h loads captured args probe out_dir summaries settle cycle)"

text \<open>
  The checks and preparations of \<open>main\<close>: the candidate lists, the tools, the probe and the camera.
  \<open>parser.error\<close> ends the program; the build of the probe is left out.
\<close>

definition check_arguments :: "calib_args \<Rightarrow> unit res" where
  "check_arguments args =
     (if ca_frames args < 1 \<or> ca_cycles_per_trial args < 1
      then Inl (Exn SystemExit ''--frames and --cycles-per-trial must be positive'')
      else if ca_trials args < 1 \<or> ca_validation_trials args < 1
      then Inl (Exn SystemExit ''--trials and --validation-trials must be positive'')
      else if ca_safety_factor args < 1 then Inl (Exn SystemExit ''--safety-factor must be at least 1'')
      else if ca_reset_timeout_ms args < 1 \<or> ca_enumeration_timeout_ms args < 1
      then Inl (Exn SystemExit ''reset and enumeration timeouts must be positive'')
      else Inr ())"

definition candidate_lists :: "calib_args \<Rightarrow> calib_args res" where
  "candidate_lists args =
     res_bind (unique_candidates (ca_settle_candidates args) True) (\<lambda>settles.
     res_bind (unique_candidates (ca_frame_candidates args) False) (\<lambda>frames.
     res_bind (unique_candidates (ca_join_candidates args) True) (\<lambda>joins.
     res_bind (unique_candidates (ca_cycle_candidates args) True) (\<lambda>cycles.
     Inr (args\<lparr>ca_settle_candidates := settles, ca_frame_candidates := frames,
       ca_join_candidates := joins, ca_cycle_candidates := cycles\<rparr>)))))"

definition require_tool :: "'w host \<Rightarrow> string \<Rightarrow> ('o \<times> 'w, unit) py" where
  "require_tool h name = py_bind (ask (h_which h name)) (\<lambda>found.
     if found then py_skip else py_raise (Exn SystemExit (name @ '' is required'')))"

definition calibration_manifest :: "calib_args \<Rightarrow> pyval \<Rightarrow> path \<Rightarrow> pyval" where
  "calibration_manifest args device probe = PDict
     [(''schema_version'', PInt 2), (''serial'', PStr (ca_serial args)), (''device'', device),
      (''frames'', PInt (ca_frames args)), (''cycles_per_trial'', PInt (ca_cycles_per_trial args)),
      (''trials'', PInt (int (ca_trials args))), (''validation_trials'', PInt (int (ca_validation_trials args))),
      (''safety_factor'', PFloat (ca_safety_factor args)),
      (''settle_candidates_ms'', PList (map PInt (ca_settle_candidates args))),
      (''frame_timeout_candidates_ms'', PList (map PInt (ca_frame_candidates args))),
      (''join_timeout_candidates_ms'', PList (map PInt (ca_join_candidates args))),
      (''cycle_delay_candidates_ms'', PList (map PInt (ca_cycle_candidates args))),
      (''reset_timeout_ms'', PInt (ca_reset_timeout_ms args)),
      (''enumeration_timeout_ms'', PInt (ca_enumeration_timeout_ms args)),
      (''probe'', PStr (path_str probe)), (''use_sudo'', PBool (ca_use_sudo args))]"

definition calibration_main ::
  "'w host \<Rightarrow> (string \<Rightarrow> pyval res) \<Rightarrow> ('w \<Rightarrow> string) \<Rightarrow> calib_args \<Rightarrow> bool \<Rightarrow> path \<Rightarrow> path \<Rightarrow>
   (calib \<times> 'w, candidate_summary list \<times> recommendation) py" where
  "calibration_main h loads captured given no_sudo probe out_dir =
     py_seq (py_res (check_arguments given))
    (py_bind (py_res (case candidate_lists given of Inl e \<Rightarrow> Inl (Exn SystemExit (exn_msg e)) | Inr a \<Rightarrow> Inr a)) (\<lambda>args0.
     py_bind (ask (h_geteuid h)) (\<lambda>uid.
     let args = args0\<lparr>ca_use_sudo := (uid \<noteq> 0 \<and> \<not> no_sudo)\<rparr> in
     py_seq (require_tool h ''chrt'') (py_seq (require_tool h ''usbreset'')
    (py_seq (py_when (ca_use_sudo args)
       (py_bind (do_run h (command_request [''sudo'', ''--non-interactive'', ''-v''])) (\<lambda>c.
        py_when (returncode c \<noteq> 0) (py_raise (Exn SystemExit (''Run '' @ [CHR 0x27] @ ''sudo -v'' @ [CHR 0x27] @ '' immediately before calibration.''))))))
    (py_bind (ask (h_is_file h probe)) (\<lambda>built.
     if \<not> built then py_raise (Exn SystemExit (''probe not found: '' @ path_str probe))
     else
     py_bind (query_device h loads probe (ca_serial args) 5) (\<lambda>(device, answer).
     if \<not> truthy device then py_raise (Exn SystemExit (''camera preflight failed: '' @ answer))
     else
     py_seq (mkdir_new h out_dir)
    (py_seq (do_write_json h (out_dir @ [''manifest.json'']) (calibration_manifest args device probe))
    (py_seq (self_upd (\<lambda>_. \<lparr>cb_device = device, cb_rows = [], cb_cycles = [], cb_resets = []\<rparr>))
       (calibrate h loads captured args probe out_dir)))))))))))"

section \<open>Lemmas\<close>

subsection \<open>Choosing a candidate\<close>

lemma foldl_max_greatest:
  "foldl max a xs \<in> set (a # xs) \<and> (\<forall>x \<in> set (a # xs). x \<le> foldl max a xs)" for a :: "'a :: linorder"
proof (induction xs arbitrary: a)
  case (Cons y ys)
  show ?case using Cons.IH [of "max a y"] by (auto simp: max_def split: if_splits)
qed simp

lemma max_or_zero_ge: "x \<in> set xs \<Longrightarrow> x \<le> max_or_zero xs"
  by (cases xs) (use foldl_max_greatest in \<open>fastforce simp: max_or_zero_def\<close>)+

lemma max_or_zero_mono:
  assumes "set xs \<subseteq> set ys" "xs \<noteq> []"
  shows "max_or_zero xs \<le> max_or_zero ys"
proof -
  have "max_or_zero xs \<in> set xs"
    using assms(2) foldl_max_greatest [of "hd xs" "tl xs"] by (cases xs) (auto simp: max_or_zero_def)
  then show ?thesis using assms(1) by (blast intro: max_or_zero_ge)
qed

lemma foldl_min_least:
  "foldl min a xs \<in> set (a # xs) \<and> (\<forall>x \<in> set (a # xs). foldl min a xs \<le> x)" for a :: "'a :: linorder"
proof (induction xs arbitrary: a)
  case (Cons y ys)
  show ?case using Cons.IH [of "min a y"] by (auto simp: min_def split: if_splits)
qed simp

text \<open>When a candidate qualifies, as a predicate on the rows.\<close>

definition qualifies ::
  "string \<Rightarrow> trial_row list \<Rightarrow> nat \<Rightarrow> int \<Rightarrow> rat \<Rightarrow> trial_row list option \<Rightarrow> int \<Rightarrow> bool" where
  "qualifies stage rows trials cycles_per_trial safety_factor headroom_rows c \<longleftrightarrow>
     length (candidate_rows stage c rows) = trials \<and>
     (\<forall>r \<in> set (candidate_rows stage c rows). pr_success (tw_result r)) \<and>
     sum_list (map (pr_cycles_completed \<circ> tw_result) (candidate_rows stage c rows)) = int trials * cycles_per_trial \<and>
     headroom_required stage safety_factor
       (case headroom_rows of None \<Rightarrow> candidate_rows stage c rows | Some rs \<Rightarrow> rs) \<le> c"

lemma length_filter_all: "length (filter P xs) = length xs \<longleftrightarrow> (\<forall>x \<in> set xs. P x)"
proof (induction xs)
  case (Cons x xs)
  then show ?case using length_filter_le [of P xs] by (auto simp del: length_filter_le)
qed simp

lemma summarize_candidate_qualified:
  "sm_qualified (summarize_candidate stage rows trials k f hr c) \<longleftrightarrow> qualifies stage rows trials k f hr c"
  using length_filter_all [of "pr_success \<circ> tw_result" "candidate_rows stage c rows"]
  unfolding summarize_candidate_def qualifies_def Let_def
  by (cases "length (candidate_rows stage c rows) = trials") auto

lemma summarize_candidate_ms [simp]: "sm_candidate_ms (summarize_candidate stage rows trials k f hr c) = c"
  by (simp add: summarize_candidate_def Let_def)

lemma selected_values:
  "map sm_candidate_ms (filter sm_qualified (map (summarize_candidate stage rows trials k f hr) cs)) =
     filter (qualifies stage rows trials k f hr) cs"
  by (induction cs) (auto simp: summarize_candidate_qualified)

lemma selected_spec:
  "snd (summarize_candidates stage cs rows trials k f hr) = Some c \<longleftrightarrow>
     c \<in> set cs \<and> qualifies stage rows trials k f hr c \<and>
     (\<forall>c' \<in> set cs. qualifies stage rows trials k f hr c' \<longrightarrow> c \<le> c')"
proof (cases "filter (qualifies stage rows trials k f hr) cs")
  case Nil
  then show ?thesis
    unfolding summarize_candidates_def Let_def snd_conv selected_values by (auto simp: filter_empty_conv)
next
  case (Cons q qs)
  have mem: "x \<in> set cs \<and> qualifies stage rows trials k f hr x \<longleftrightarrow> x \<in> set (q # qs)" for x
    unfolding Cons [symmetric] by auto
  show ?thesis
    unfolding summarize_candidates_def Let_def snd_conv selected_values Cons list.case
    using foldl_min_least [of q qs] mem by (metis antisym option.inject)
qed

lemma selected_none:
  "snd (summarize_candidates stage cs rows trials k f hr) = None \<longleftrightarrow>
     (\<forall>c \<in> set cs. \<not> qualifies stage rows trials k f hr c)"
proof -
  have "snd (summarize_candidates stage cs rows trials k f hr) = None \<longleftrightarrow>
      filter (qualifies stage rows trials k f hr) cs = []"
    unfolding summarize_candidates_def Let_def snd_conv selected_values by (simp split: list.splits)
  then show ?thesis by (simp add: filter_empty_conv)
qed

lemma headroom_frame:
  assumes "headroom_required STAGE_FRAME f rs \<le> c" "r \<in> set rs" "0 \<le> f"
  shows "first_wait r * f \<le> of_int c"
proof -
  have "first_wait r \<le> max_or_zero (map first_wait rs)" using assms(2) by (auto intro: max_or_zero_ge)
  then have "first_wait r * f \<le> max_or_zero (map first_wait rs) * f" using assms(3) by (rule mult_right_mono)
  also have "\<dots> \<le> of_int c" using assms(1) by (simp add: headroom_required_def ceiling_le_iff)
  finally show ?thesis .
qed

lemma headroom_join:
  assumes "headroom_required STAGE_JOIN f rs \<le> c" "r \<in> set rs" "0 \<le> f"
  shows "join_wait r * f + join_poll_ms \<le> of_int c"
proof -
  have "join_wait r \<le> max_or_zero (map join_wait rs)" using assms(2) by (auto intro: max_or_zero_ge)
  then have "join_wait r * f \<le> max_or_zero (map join_wait rs) * f" using assms(3) by (rule mult_right_mono)
  moreover have "max_or_zero (map join_wait rs) * f + join_poll_ms \<le> of_int c"
    using assms(1) by (simp add: headroom_required_def ceiling_le_iff STAGE_JOIN_def STAGE_FRAME_def)
  ultimately show ?thesis by linarith
qed

lemma headroom_mono:
  assumes "set rs \<subseteq> set rs'" "rs \<noteq> []" "0 \<le> f"
  shows "headroom_required stage f rs \<le> headroom_required stage f rs'"
proof -
  have "set (map g rs) \<subseteq> set (map g rs')" for g :: "trial_row \<Rightarrow> rat" using assms(1) by auto
  then show ?thesis
    using assms(2,3) unfolding headroom_required_def
    by (simp add: ceiling_mono mult_right_mono max_or_zero_mono add_right_mono)
qed

text \<open>Rows of another stage only raise the headroom, so a later selection is not smaller.\<close>

lemma later_selection:
  assumes more: "\<forall>r \<in> set extra. tw_stage r \<noteq> stage" and ne: "rows \<noteq> []" and f: "0 \<le> f"
    and sel: "snd (summarize_candidates stage cs (rows @ extra) trials k f (Some (rows @ extra))) = Some c"
  shows "\<exists>c'. snd (summarize_candidates stage cs rows trials k f (Some rows)) = Some c' \<and> c' \<le> c"
proof -
  have same: "candidate_rows stage c (rows @ extra) = candidate_rows stage c rows" for c
    using more by (auto simp: candidate_rows_def filter_empty_conv)
  have less: "headroom_required stage f rows \<le> headroom_required stage f (rows @ extra)"
    using ne f by (intro headroom_mono) auto
  have qual: "qualifies stage rows trials k f (Some rows) c"
    using sel less unfolding selected_spec qualifies_def same by auto
  have c: "c \<in> set cs" using sel by (simp add: selected_spec)
  show ?thesis
  proof (cases "snd (summarize_candidates stage cs rows trials k f (Some rows))")
    case None
    then show ?thesis using qual c by (simp add: selected_none)
  next
    case (Some c')
    then show ?thesis using qual c by (auto simp: selected_spec)
  qed
qed

subsection \<open>Rows of a stage\<close>

text \<open>A part that leaves the object alone.\<close>

lemma same_object_step:
  assumes "\<And>I. preserves I m" "\<And>a w'. Q a (ob, w')"
  shows "wp m Q (\<lambda>_ _. True) (ob, w)"
  by (rule wp_mono [OF preservesD [OF assms(1) [of "\<lambda>x. x = ob"]]]) (use assms(2) in auto)

lemma preserves_except [preserves_intros]:
  "preserves I m \<Longrightarrow> (\<And>e. preserves I (f e)) \<Longrightarrow> preserves I (py_except ks m f)"
  unfolding preserves_def [of I "py_except ks m f"]
  by (auto simp: wp_simps intro!: wp_mono [OF preservesD] dest: preservesD)

lemma preserves_query_device [preserves_intros]: "preserves I (query_device h loads probe serial t)"
  unfolding query_device_def Let_def by (intro preserves_intros)

lemma preserves_enumerate [preserves_intros]:
  "preserves I (enumerate h loads probe serial deadline fuel found)"
  by (induction fuel arbitrary: found) (auto intro!: preserves_intros)

lemma preserves_full_reset [preserves_intros]:
  "preserves I (full_reset h loads probe serial device sudo rt et settle)"
  unfolding full_reset_def hardware_part_def usb_part_def enumeration_part_def usb_target_def read_int_def Let_def
  by (intro preserves_intros)

lemma preserves_run_probe [preserves_intros]:
  "preserves I (run_probe h loads captured probe serial frames cycles st)"
  unfolding run_probe_def Let_def by (intro preserves_intros)

lemma preserves_files [preserves_intros]:
  "preserves I (mkdir_new h q)" "preserves I (write_csv h q names rows)"
  unfolding mkdir_new_def write_csv_def by (intro preserves_intros)+

text \<open>The row a trial adds.\<close>

definition trial_row_of :: "string \<Rightarrow> calib_settings \<Rightarrow> int \<times> nat \<Rightarrow> trial_row \<Rightarrow> bool" where
  "trial_row_of stage settings ct r \<longleftrightarrow> tw_stage r = stage \<and> (tw_candidate_ms r, tw_trial r) = ct \<and>
     tw_settings r = with_candidate stage (fst ct) settings \<and>
     (pr_success (tw_result r) \<longrightarrow> rs_success (tw_reset r))"

lemma trial_reset_rows:
  "wp (trial_reset h loads args probe dir settle) (\<lambda>_ s. cb_rows (fst s) = cb_rows ob) (\<lambda>_ _. True) (ob, w)"
  by (rule wp_mono [OF preservesD [where I = "\<lambda>x. cb_rows x = cb_rows ob"]])
    (auto simp: trial_reset_def Let_def intro!: preserves_intros)

lemma trial_probe_wp:
  "wp (trial_probe h loads captured args probe current reset)
     (\<lambda>(_, parsed) s. fst s = ob \<and> (pr_success parsed \<longrightarrow> rs_success reset)) (\<lambda>_ _. True) (ob, w)"
proof (cases "rs_success reset")
  case True
  then show ?thesis unfolding trial_probe_def if_P [OF True]
    by (intro same_object_step preserves_intros) auto
qed (simp add: trial_probe_def wp_simps recovery_failed_def)

lemma trial_record_rows:
  "wp (trial_record h out_dir row output) (\<lambda>_ s. cb_rows (fst s) = cb_rows ob @ [row]) (\<lambda>_ _. True) (ob, w)"
  unfolding trial_record_def write_csv_def
  by (auto simp: wp_simps split: prod.splits sum.splits)

lemma run_trial_rows:
  "wp (run_trial h loads captured args probe out_dir stage settings settle ct)
     (\<lambda>_ s. \<exists>r. cb_rows (fst s) = cb_rows ob @ [r] \<and> trial_row_of stage settings ct r) (\<lambda>_ _. True) (ob, w)"
proof -
  obtain c t where ct: "ct = (c, t)" by (cases ct)
  show ?thesis
    unfolding run_trial_def ct prod.case Let_def wp_bind
  proof (rule wp_step [OF trial_reset_rows])
    fix reset and s1 :: "calib \<times> 'a" assume rows: "cb_rows (fst s1) = cb_rows ob"
    obtain ob1 w1 where s1: "s1 = (ob1, w1)" by (cases s1)
    show "wp (trial_probe h loads captured args probe (with_candidate stage c settings) reset)
       (\<lambda>a s'. wp (case a of (output, parsed) \<Rightarrow> trial_record h out_dir
            \<lparr>tw_stage = stage, tw_candidate_ms = c, tw_trial = t, tw_result = parsed, tw_reset = reset,
             tw_settle_ms = if stage = STAGE_SETTLE then c else settle,
             tw_settings = with_candidate stage c settings,
             tw_stdout_file = trial_directory out_dir stage c t @ [''probe_stdout.txt''],
             tw_reset_file = trial_directory out_dir stage c t @ [''reset.json'']\<rparr> output)
          (\<lambda>_ s. \<exists>r. cb_rows (fst s) = cb_rows ob @ [r] \<and> trial_row_of stage settings (c, t) r) (\<lambda>_ _. True) s')
       (\<lambda>_ _. True) s1"
      unfolding s1
      apply (rule wp_step [OF trial_probe_wp])
      apply (clarsimp split del: if_split)
      apply (rule wp_step [OF trial_record_rows])
      apply (use rows s1 in \<open>auto simp: trial_row_of_def\<close>)
      done
  qed
qed

lemma run_trials_rows:
  "wp (py_for cts (run_trial h loads captured args probe out_dir stage settings settle))
     (\<lambda>_ s. \<exists>rs. cb_rows (fst s) = cb_rows ob @ rs \<and> list_all2 (trial_row_of stage settings) cts rs)
     (\<lambda>_ _. True) (ob, w)"
proof (induction cts arbitrary: ob w)
  case Nil
  show ?case by (simp add: wp_simps)
next
  case (Cons ct cts)
  show ?case unfolding py_for.simps wp_seq
  proof (rule wp_step [OF run_trial_rows], elim exE conjE)
    fix s :: "calib \<times> 'a" and r assume r: "cb_rows (fst s) = cb_rows ob @ [r]" "trial_row_of stage settings ct r"
    obtain ob1 w1 where s: "s = (ob1, w1)" by (cases s)
    show "wp (py_for cts (run_trial h loads captured args probe out_dir stage settings settle))
      (\<lambda>_ s. \<exists>rs. cb_rows (fst s) = cb_rows ob @ rs \<and> list_all2 (trial_row_of stage settings) (ct # cts) rs)
      (\<lambda>_ _. True) s"
      unfolding s by (rule wp_step [OF Cons.IH]) (use r s in fastforce)
  qed
qed

lemma execute_stage_rows:
  "wp (execute_stage h loads captured args probe out_dir stage cs settings settle trials)
     (\<lambda>sel s. \<exists>rs. cb_rows (fst s) = cb_rows ob @ rs \<and>
        list_all2 (trial_row_of stage settings) (stage_trials cs trials) rs \<and>
        sel = summarize_candidates stage cs (cb_rows ob @ rs) trials (ca_cycles_per_trial args) (ca_safety_factor args) None)
     (\<lambda>_ _. True) (ob, w)"
  unfolding execute_stage_def wp_seq
proof (rule wp_step [OF run_trials_rows], elim exE conjE)
  fix s :: "calib \<times> 'a" and rs assume "cb_rows (fst s) = cb_rows ob @ rs" "list_all2 (trial_row_of stage settings) (stage_trials cs trials) rs"
  then show "wp (py_bind (self_get cb_rows) (\<lambda>rows. py_return (summarize_candidates stage cs rows trials
        (ca_cycles_per_trial args) (ca_safety_factor args) None)))
     (\<lambda>sel s. \<exists>rs. cb_rows (fst s) = cb_rows ob @ rs \<and>
        list_all2 (trial_row_of stage settings) (stage_trials cs trials) rs \<and>
        sel = summarize_candidates stage cs (cb_rows ob @ rs) trials (ca_cycles_per_trial args) (ca_safety_factor args) None)
     (\<lambda>_ _. True) s"
    by (cases s) (auto simp: wp_simps)
qed

lemma stages_distinct [simp]:
  "STAGE_SETTLE \<noteq> STAGE_FRAME" "STAGE_SETTLE \<noteq> STAGE_JOIN" "STAGE_SETTLE \<noteq> STAGE_CYCLE" "STAGE_SETTLE \<noteq> STAGE_VALIDATION"
  "STAGE_FRAME \<noteq> STAGE_SETTLE" "STAGE_FRAME \<noteq> STAGE_JOIN" "STAGE_FRAME \<noteq> STAGE_CYCLE" "STAGE_FRAME \<noteq> STAGE_VALIDATION"
  "STAGE_JOIN \<noteq> STAGE_SETTLE" "STAGE_JOIN \<noteq> STAGE_FRAME" "STAGE_JOIN \<noteq> STAGE_CYCLE" "STAGE_JOIN \<noteq> STAGE_VALIDATION"
  "STAGE_CYCLE \<noteq> STAGE_SETTLE" "STAGE_CYCLE \<noteq> STAGE_FRAME" "STAGE_CYCLE \<noteq> STAGE_JOIN" "STAGE_CYCLE \<noteq> STAGE_VALIDATION"
  "STAGE_VALIDATION \<noteq> STAGE_SETTLE" "STAGE_VALIDATION \<noteq> STAGE_FRAME" "STAGE_VALIDATION \<noteq> STAGE_JOIN" "STAGE_VALIDATION \<noteq> STAGE_CYCLE"
  by (simp_all add: STAGE_SETTLE_def STAGE_FRAME_def STAGE_JOIN_def STAGE_CYCLE_def STAGE_VALIDATION_def)

text \<open>Which trial a row belongs to, and the trials of a calibration in their order.\<close>

definition trial_key :: "trial_row \<Rightarrow> string \<times> int \<times> nat" where
  "trial_key r = (tw_stage r, tw_candidate_ms r, tw_trial r)"

definition stage_keys :: "string \<Rightarrow> int list \<Rightarrow> nat \<Rightarrow> (string \<times> int \<times> nat) list" where
  "stage_keys stage cs trials = map (\<lambda>(c, t). (stage, c, t)) (stage_trials cs trials)"

definition search_keys :: "calib_args \<Rightarrow> (string \<times> int \<times> nat) list" where
  "search_keys args =
     stage_keys STAGE_SETTLE (ca_settle_candidates args) (ca_trials args) @
     stage_keys STAGE_FRAME (ca_frame_candidates args) (ca_trials args) @
     stage_keys STAGE_JOIN (ca_join_candidates args) (ca_trials args) @
     stage_keys STAGE_CYCLE (ca_cycle_candidates args) (ca_trials args)"

lemma trial_rows_keys:
  "list_all2 (trial_row_of stage settings) (stage_trials cs trials) rs \<Longrightarrow> map trial_key rs = stage_keys stage cs trials"
proof -
  have "list_all2 (trial_row_of stage settings) cts rs \<Longrightarrow> map trial_key rs = map (\<lambda>(c, t). (stage, c, t)) cts" for cts
    by (induction cts rs rule: list_all2_induct) (auto simp: trial_row_of_def trial_key_def)
  then show "list_all2 (trial_row_of stage settings) (stage_trials cs trials) rs \<Longrightarrow> map trial_key rs = stage_keys stage cs trials"
    unfolding stage_keys_def .
qed

lemma keys_stage: "map trial_key rs = stage_keys stage cs trials \<Longrightarrow> r \<in> set rs \<Longrightarrow> tw_stage r = stage"
proof -
  assume keys: "map trial_key rs = stage_keys stage cs trials" and r: "r \<in> set rs"
  have "trial_key r \<in> set (map trial_key rs)" using r by simp
  then have "trial_key r \<in> set (stage_keys stage cs trials)" by (simp only: keys)
  then show "tw_stage r = stage" by (auto simp: stage_keys_def trial_key_def)
qed

lemma calibrate_stages_rows:
  "wp (calibrate_stages h loads captured args probe out_dir)
     (\<lambda>_ s. \<exists>rs. cb_rows (fst s) = cb_rows ob @ rs \<and> map trial_key rs = search_keys args) (\<lambda>_ _. True) (ob, w)"
proof -
  have step: "wp (execute_stage h loads captured args probe out_dir stage cs settings settle trials) Q (\<lambda>_ _. True) s"
    if next_stage: "\<And>sel s' rs. cb_rows (fst s') = cb_rows (fst s) @ rs \<Longrightarrow> map trial_key rs = stage_keys stage cs trials \<Longrightarrow> Q sel s'"
    for stage cs settings settle trials Q and s :: "calib \<times> 'a"
  proof -
    obtain ob1 w1 where s: "s = (ob1, w1)" by (cases s)
    show ?thesis unfolding s
      by (rule wp_step [OF execute_stage_rows]) (elim exE conjE, rule next_stage [OF _ trial_rows_keys], simp_all add: s)
  qed
  show ?thesis
    unfolding calibrate_stages_def Let_def
    apply (simp add: wp_simps)
    apply (rule step, clarsimp simp: wp_simps)
    apply (rule step, clarsimp simp: wp_simps)
    apply (rule step, clarsimp simp: wp_simps)
    apply (rule step, clarsimp simp: wp_simps)
    apply (auto simp: search_keys_def)
    done
qed

text \<open>What the recommendation says of the rows it was made from.\<close>

definition recommended :: "calib_args \<Rightarrow> trial_row list \<Rightarrow> calib \<Rightarrow> recommendation \<Rightarrow> bool" where
  "recommended args before ob rec \<longleftrightarrow>
     (\<exists>late cycle settle. cb_rows ob = before @ late \<and>
        list_all2 (trial_row_of STAGE_VALIDATION (rm_validation_settings rec))
          (stage_trials [0] (ca_validation_trials args)) late \<and>
        rm_validation_settings rec = validation_settings args before cycle \<and>
        recommend args ob (rm_validation_settings rec) (effective_settle_ms args settle)
          (snd (global_selection args STAGE_FRAME (ca_frame_candidates args) (cb_rows ob)))
          (snd (global_selection args STAGE_JOIN (ca_join_candidates args) (cb_rows ob))) cycle settle = Inr rec)"

lemma recommend_settings: "recommend args ob vs es f j c st = Inr rec \<Longrightarrow> rm_validation_settings rec = vs"
  by (auto simp: recommend_def Let_def res_bind_Inr_iff)

lemma calibration_files:
  "wp (py_seq (write_csv h a n r) (py_seq (write_csv h a' n' r') (py_seq (write_csv h a'' n'' r'')
      (py_seq (do_write_json h q v) (py_return x))))) (\<lambda>y s. y = x \<and> fst s = ob) (\<lambda>_ _. True) (ob, w)"
  by (auto simp: write_csv_def wp_simps split: prod.splits sum.splits)

lemma calibrate_finish_wp:
  "wp (calibrate_finish h loads captured args probe out_dir summaries settle cycle)
     (\<lambda>(_, rec) s. recommended args (cb_rows ob) (fst s) rec) (\<lambda>_ _. True) (ob, w)"
  unfolding calibrate_finish_def Let_def wp_bind wp_self
proof (rule wp_step [OF execute_stage_rows], elim exE conjE)
  fix sel :: "candidate_summary list \<times> int option" and s :: "calib \<times> 'a" and late
  assume rows: "cb_rows (fst s) = cb_rows ob @ late"
    and late: "list_all2 (trial_row_of STAGE_VALIDATION (validation_settings args (cb_rows ob) cycle))
      (stage_trials [0] (ca_validation_trials args)) late"
  obtain ob1 w1 where s: "s = (ob1, w1)" by (cases s)
  obtain tab best where sel: "sel = (tab, best)" by (cases sel)
  let ?vs = "validation_settings args (cb_rows ob) cycle"
  have ok: "recommended args (cb_rows ob) ob1 rec"
    if rec: "recommend args ob1 ?vs (effective_settle_ms args settle)
      (snd (global_selection args STAGE_FRAME (ca_frame_candidates args) (cb_rows ob1)))
      (snd (global_selection args STAGE_JOIN (ca_join_candidates args) (cb_rows ob1))) cycle settle = Inr rec" for rec
    unfolding recommended_def recommend_settings [OF rec]
    using rec rows late by (intro exI [of _ late] exI [of _ cycle] exI [of _ settle]) (simp add: s)
  show "wp (case sel of (validation_summaries, _) \<Rightarrow> py_bind (self_get id) (\<lambda>ob'.
     py_bind (py_res (recommend args ob' ?vs (effective_settle_ms args settle)
         (snd (global_selection args STAGE_FRAME (ca_frame_candidates args) (cb_rows ob')))
         (snd (global_selection args STAGE_JOIN (ca_join_candidates args) (cb_rows ob'))) cycle settle)) (\<lambda>rec.
     py_seq (write_csv h (out_dir @ [''candidate_results.csv'']) RESULT_FIELDS (map row_dict (cb_rows ob')))
    (py_seq (write_csv h (out_dir @ [''cycle_results.csv'']) CYCLE_FIELDS (cb_cycles ob'))
    (py_seq (write_csv h (out_dir @ [''candidate_summary.csv'']) SUMMARY_FIELDS (map summary_dict
         (replace_summaries (global_summaries args (cb_rows ob'))
            (replace_summaries (global_summaries args (cb_rows ob)) summaries @ validation_summaries))))
    (py_seq (do_write_json h (out_dir @ [''recommendation.json'']) (recommendation_json args rec))
       (py_return (replace_summaries (global_summaries args (cb_rows ob'))
            (replace_summaries (global_summaries args (cb_rows ob)) summaries @ validation_summaries), rec)))))))) 
     (\<lambda>(_, rec) s. recommended args (cb_rows ob) (fst s) rec) (\<lambda>_ _. True) s"
    unfolding s sel prod.case wp_bind wp_self wp_res id_apply
    by (auto split: sum.splits intro!: wp_step [OF calibration_files] ok)
qed

lemma calibrate_wp:
  "wp (calibrate h loads captured args probe out_dir)
     (\<lambda>(_, rec) s. \<exists>early. map trial_key early = search_keys args \<and>
        recommended args (cb_rows ob @ early) (fst s) rec) (\<lambda>_ _. True) (ob, w)"
  unfolding calibrate_def wp_bind
proof (rule wp_step [OF calibrate_stages_rows], elim exE conjE)
  fix a :: "candidate_summary list \<times> int option \<times> int option" and s :: "calib \<times> 'a" and early
  assume "cb_rows (fst s) = cb_rows ob @ early" "map trial_key early = search_keys args"
  then show "wp (case a of (summaries, settle, cycle) \<Rightarrow>
      calibrate_finish h loads captured args probe out_dir summaries settle cycle)
     (\<lambda>(_, rec) s. \<exists>early. map trial_key early = search_keys args \<and>
        recommended args (cb_rows ob @ early) (fst s) rec) (\<lambda>_ _. True) s"
    by (cases a; cases s) (auto intro!: wp_step [OF calibrate_finish_wp])
qed

subsection \<open>The recommendation\<close>

lemma recommend_fields:
  "recommend args ob vs es f j c st = Inr rec \<Longrightarrow>
     rm_frame_timeout_ms rec = f \<and> rm_join_timeout_ms rec = j \<and> rm_cycle_delay_ms rec = c \<and>
     rm_recovery_settle_ms rec = st \<and> rm_validation_settings rec = vs \<and>
     (rm_validated rec \<longrightarrow> f \<noteq> None \<and> j \<noteq> None \<and> c \<noteq> None \<and> st \<noteq> None \<and>
        (\<forall>r \<in> set (cb_rows ob). tw_stage r = STAGE_VALIDATION \<longrightarrow> pr_success (tw_result r)))"
  by (auto simp: recommend_def Let_def res_bind_Inr_iff list_all_iff)

text \<open>The choice of a timeout from the rows with the headroom of all of them.\<close>

lemma global_selection_sound:
  assumes "snd (global_selection args stage cs rows) = Some c"
  shows "c \<in> set cs" "headroom_required stage (ca_safety_factor args) rows \<le> c"
    "r \<in> set rows \<Longrightarrow> tw_stage r = stage \<Longrightarrow> tw_candidate_ms r = c \<Longrightarrow> pr_success (tw_result r)"
  using assms unfolding global_selection_def selected_spec qualifies_def by (auto simp: candidate_rows_def)

lemma validation_rows:
  assumes "list_all2 (trial_row_of STAGE_VALIDATION vs) (stage_trials [0] n) late" "r \<in> set late"
  shows "tw_stage r = STAGE_VALIDATION" "tw_settings r = vs"
proof -
  have "list_all2 (trial_row_of STAGE_VALIDATION vs) cts late \<Longrightarrow>
      \<forall>r \<in> set late. tw_stage r = STAGE_VALIDATION \<and> tw_settings r = vs" for cts
    by (induction cts late rule: list_all2_induct) (auto simp: trial_row_of_def with_candidate_def)
  then show "tw_stage r = STAGE_VALIDATION" "tw_settings r = vs" using assms by blast+
qed

text \<open>
  C23. What a finished calibration recommends. The rows it keeps are those of the four stages, every candidate and
  every trial in order, followed by the validation trials. A recommended frame timeout is one of the
  candidates; every trial with it succeeded; it covers, with the safety factor, the longest first-frame
  wait of \<^emph>\<open>any\<close> trial, validation included; and the validation ran with a timeout that was not larger.
  The join timeout has the same guarantee with the 5 ms polling interval on top. A recommendation is
  marked as validated only if all four values were found and every validation trial succeeded with the
  reported settings.
\<close>

theorem calibrate_recommendation:
  assumes ran_ok: "calibrate h loads captured args probe out_dir (ob, w) = (Inr (table, rec), ob', w')"
    and start: "cb_rows ob = []" and f: "0 \<le> ca_safety_factor args"
    and some: "0 < ca_trials args" "ca_settle_candidates args \<noteq> []"
  shows "\<exists>early late. cb_rows ob' = early @ late \<and> map trial_key early = search_keys args \<and>
     map trial_key late = stage_keys STAGE_VALIDATION [0] (ca_validation_trials args) \<and>
     (\<forall>c. rm_frame_timeout_ms rec = Some c \<longrightarrow> c \<in> set (ca_frame_candidates args) \<and>
        (\<forall>r \<in> set early. tw_stage r = STAGE_FRAME \<and> tw_candidate_ms r = c \<longrightarrow> pr_success (tw_result r)) \<and>
        (\<forall>r \<in> set (early @ late). first_wait r * ca_safety_factor args \<le> of_int c) \<and>
        cs_frame_timeout_ms (rm_validation_settings rec) \<le> c) \<and>
     (\<forall>c. rm_join_timeout_ms rec = Some c \<longrightarrow> c \<in> set (ca_join_candidates args) \<and>
        (\<forall>r \<in> set early. tw_stage r = STAGE_JOIN \<and> tw_candidate_ms r = c \<longrightarrow> pr_success (tw_result r)) \<and>
        (\<forall>r \<in> set (early @ late). join_wait r * ca_safety_factor args + 5 \<le> of_int c) \<and>
        cs_join_timeout_ms (rm_validation_settings rec) \<le> c) \<and>
     (\<forall>c. rm_cycle_delay_ms rec = Some c \<longrightarrow> cs_cycle_delay_ms (rm_validation_settings rec) = c) \<and>
     (rm_validated rec \<longrightarrow> rm_frame_timeout_ms rec \<noteq> None \<and> rm_join_timeout_ms rec \<noteq> None \<and>
        rm_cycle_delay_ms rec \<noteq> None \<and> rm_recovery_settle_ms rec \<noteq> None \<and>
        (\<forall>r \<in> set late. pr_success (tw_result r) \<and> tw_settings r = rm_validation_settings rec))"
proof -
  obtain early where early: "map trial_key early = search_keys args" "recommended args early ob' rec"
    using calibrate_wp [of h loads captured args probe out_dir ob w] by (auto simp: wp_def ran_ok start)
  from early(2) obtain late cycle settle where rows: "cb_rows ob' = early @ late"
    and late: "list_all2 (trial_row_of STAGE_VALIDATION (rm_validation_settings rec))
      (stage_trials [0] (ca_validation_trials args)) late"
    and vs: "rm_validation_settings rec = validation_settings args early cycle"
    and rec: "recommend args ob' (rm_validation_settings rec) (effective_settle_ms args settle)
      (snd (global_selection args STAGE_FRAME (ca_frame_candidates args) (early @ late)))
      (snd (global_selection args STAGE_JOIN (ca_join_candidates args) (early @ late))) cycle settle = Inr rec"
    unfolding recommended_def by auto
  note fields = recommend_fields [OF rec]
  have ne: "early \<noteq> []"
    using early(1) some by (cases "ca_settle_candidates args")
      (auto simp: search_keys_def stage_keys_def stage_trials_def)
  have selection: "c \<in> set cs \<and> headroom_required stage (ca_safety_factor args) (early @ late) \<le> c \<and>
      (\<forall>r \<in> set early. tw_stage r = stage \<and> tw_candidate_ms r = c \<longrightarrow> pr_success (tw_result r)) \<and>
      opt_or (snd (global_selection args stage cs early)) d \<le> c"
    if sel: "snd (global_selection args stage cs (early @ late)) = Some c" and "stage \<noteq> STAGE_VALIDATION" for stage cs c d
  proof -
    have "\<exists>c'. snd (global_selection args stage cs early) = Some c' \<and> c' \<le> c"
      using later_selection [OF _ ne f, of late stage cs] that(2) validation_rows [OF late] sel
      unfolding global_selection_def by auto
    then show ?thesis using global_selection_sound [OF sel] by (auto simp: opt_or_def)
  qed
  show ?thesis
  proof (rule exI [of _ early], rule exI [of _ late], intro conjI)
    show "map trial_key late = stage_keys STAGE_VALIDATION [0] (ca_validation_trials args)"
      by (rule trial_rows_keys [OF late])
    show "\<forall>c. rm_frame_timeout_ms rec = Some c \<longrightarrow> c \<in> set (ca_frame_candidates args) \<and>
        (\<forall>r \<in> set early. tw_stage r = STAGE_FRAME \<and> tw_candidate_ms r = c \<longrightarrow> pr_success (tw_result r)) \<and>
        (\<forall>r \<in> set (early @ late). first_wait r * ca_safety_factor args \<le> of_int c) \<and>
        cs_frame_timeout_ms (rm_validation_settings rec) \<le> c"
      using fields selection [of STAGE_FRAME] headroom_frame [OF _ _ f, of "early @ late"]
      by (auto simp: vs validation_settings_def effective_frame_ms_def)
    show "\<forall>c. rm_join_timeout_ms rec = Some c \<longrightarrow> c \<in> set (ca_join_candidates args) \<and>
        (\<forall>r \<in> set early. tw_stage r = STAGE_JOIN \<and> tw_candidate_ms r = c \<longrightarrow> pr_success (tw_result r)) \<and>
        (\<forall>r \<in> set (early @ late). join_wait r * ca_safety_factor args + 5 \<le> of_int c) \<and>
        cs_join_timeout_ms (rm_validation_settings rec) \<le> c"
      using fields selection [of STAGE_JOIN] headroom_join [OF _ _ f, of "early @ late"]
      by (auto simp: vs validation_settings_def effective_join_ms_def join_poll_ms_def)
    show "\<forall>c. rm_cycle_delay_ms rec = Some c \<longrightarrow> cs_cycle_delay_ms (rm_validation_settings rec) = c"
      using fields by (auto simp: vs validation_settings_def effective_cycle_ms_def opt_or_def)
    show "rm_validated rec \<longrightarrow> rm_frame_timeout_ms rec \<noteq> None \<and> rm_join_timeout_ms rec \<noteq> None \<and>
        rm_cycle_delay_ms rec \<noteq> None \<and> rm_recovery_settle_ms rec \<noteq> None \<and>
        (\<forall>r \<in> set late. pr_success (tw_result r) \<and> tw_settings r = rm_validation_settings rec)"
      using fields validation_rows [OF late] by (auto simp: rows)
  qed (use rows early(1) in auto)
qed

definition demo_probe_command :: "string list" where
  "demo_probe_command = probe_command [''p''] [] 1 1
     \<lparr>cs_frame_timeout_ms = 3000, cs_join_timeout_ms = 100, cs_cycle_delay_ms = 0\<rparr>"

definition demo_probe_loads :: "string \<Rightarrow> pyval res" where
  "demo_probe_loads t =
     (if t = ''d'' then Inr (PDict [(''physical_port'', PStr ''/sys/d'')])
      else if t = ''c'' then Inr (PDict [(''success'', PBool True), (''first_frame_wait_ms'', PInt 40), (''join_wait_ms'', PInt 2)])
      else if t = ''r'' then Inr (PDict [(''success'', PBool True)])
      else Inl (Exn JSONDecodeError t))"

definition demo_calib_machine :: sim where
  "demo_calib_machine = sim_empty\<lparr>
     sim_files := [([''sys'', ''d'', ''busnum''], ''2''), ([''sys'', ''d'', ''devnum''], ''13'')],
     sim_output := [([''/p'', ''--hardware-reset'', ''--reset-timeout-ms'', ''9''], COMPLETE_MARK),
       ([''/p'', ''--list-only''], ''RS_DEVICE d''),
       (demo_probe_command, ''RS_STARTUP_CYCLE c'' @ [CHR 0x0A] @ ''RS_STARTUP_RESULT r'')]\<rparr>"

definition demo_calib_args :: calib_args where
  "demo_calib_args = \<lparr>ca_serial = [], ca_frames = 1, ca_cycles_per_trial = 1, ca_trials = 1, ca_validation_trials = 1,
     ca_safety_factor = 2, ca_settle_candidates = [0], ca_frame_candidates = [3000], ca_join_candidates = [100],
     ca_cycle_candidates = [0], ca_reset_timeout_ms = 9, ca_enumeration_timeout_ms = 9, ca_use_sudo = False\<rparr>"

text \<open>The simulated host with writes that go nowhere and no log, so that the machine stays as it is.\<close>

definition quiet_host :: "sim host" where
  "quiet_host = sim_host\<lparr>h_write_text := (\<lambda>_ _ w. (Inr (), w)), h_write_json := (\<lambda>_ _ w. (Inr (), w)),
     h_mkdir := (\<lambda>_ w. (Inr (), w)), h_exists := (\<lambda>_ _. False), h_run := (\<lambda>rq w. (fst (sim_run rq w), w))\<rparr>"

definition demo_camera :: pyval where
  "demo_camera = PDict [(''physical_port'', PStr ''/sys/d'')]"


abbreviation demo_settings :: calib_settings where
  "demo_settings \<equiv> \<lparr>cs_frame_timeout_ms = 3000, cs_join_timeout_ms = 100, cs_cycle_delay_ms = 0\<rparr>"

definition demo_answer :: "string list \<Rightarrow> string" where
  "demo_answer command = dict_get (sim_output demo_calib_machine) command []"

lemma quiet_host [simp]:
  "h_write_text quiet_host q t w = (Inr (), w)" "h_write_json quiet_host q v w = (Inr (), w)"
  "h_mkdir quiet_host q w = (Inr (), w)" "h_exists quiet_host q w = False"
  "h_monotonic quiet_host w = (sim_now w, w)"
  "h_run quiet_host rq demo_calib_machine = (Inr \<lparr>returncode = 0, stdout = demo_answer (rq_command rq), stderr = []\<rparr>, demo_calib_machine)"
  "sim_now demo_calib_machine = 0"
  by (simp_all add: quiet_host_def sim_host_def sim_run_def demo_answer_def demo_calib_machine_def sim_empty_def)

lemma demo_answers:
  "demo_answer [''/p'', ''--list-only''] = ''RS_DEVICE d''"
  "demo_answer [''/p'', ''--hardware-reset'', ''--reset-timeout-ms'', ''9''] = COMPLETE_MARK"
  "demo_answer demo_probe_command = ''RS_STARTUP_CYCLE c'' @ [CHR 0x0A] @ ''RS_STARTUP_RESULT r''"
  by (simp_all add: demo_answer_def demo_calib_machine_def dict_get_def demo_probe_command_def probe_command_def)

lemma demo_texts:
  "py_contains COMPLETE_MARK (strip COMPLETE_MARK)" "path_str [''p''] = ''/p''" "str_int 9 = ''9''"
  "prefixed_json demo_probe_loads ''RS_DEVICE d'' ''RS_DEVICE '' = [demo_camera]"
  by (code_simp, simp add: path_str_def, code_simp, code_simp)

lemma demo_files:
  "h_is_file quiet_host q demo_calib_machine \<longleftrightarrow> q = [''sys'', ''d'', ''busnum''] \<or> q = [''sys'', ''d'', ''devnum'']"
  "h_resolve quiet_host q demo_calib_machine = q"
  "h_read_text quiet_host [''sys'', ''d'', ''busnum''] demo_calib_machine = Inr ''2''"
  "h_read_text quiet_host [''sys'', ''d'', ''devnum''] demo_calib_machine = Inr ''13''"
  by (auto simp: quiet_host_def sim_host_def demo_calib_machine_def sim_empty_def dict_get_def)

lemma demo_usb:
  "py_int (strip ''2'') = Inr 2" "py_int (strip ''13'') = Inr 13" "path_parts ''/sys/d'' = [''sys'', ''d'']"
  "startswith ''/sys/d'' ''/sys/''"
  by code_simp+

lemma demo_usb_device:
  "usb_device_from_physical_port quiet_host ''/sys/d'' demo_calib_machine = Some [''sys'', ''d'']"
  by (simp add: usb_device_from_physical_port_def demo_files demo_usb self_and_parents_def upt_rec)

definition demo_result :: probe_result where
  "demo_result = \<lparr>pr_success = True, pr_returncode = 0, pr_cycles_requested = 1, pr_cycles_completed = 1,
     pr_cycles_observed = 1, pr_error_kind = PStr [], pr_error_message = PStr [],
     pr_cycles = [PDict [(''success'', PBool True), (''first_frame_wait_ms'', PInt 40), (''join_wait_ms'', PInt 2)]],
     pr_metrics = concat (map (\<lambda>f. let x = (if f = ''first_frame_wait_ms'' then 40 else if f = ''join_wait_ms'' then 2 else 0)
       in [(f @ ''_mean'', x), (f @ ''_max'', x)]) METRICS), pr_elapsed_ms = 0\<rparr>"

lemma demo_parsed:
  "parse_probe_output demo_probe_loads (''RS_STARTUP_CYCLE c'' @ [CHR 0x0A] @ ''RS_STARTUP_RESULT r'') 0 1 = Inr demo_result"
  by code_simp

lemma demo_reset_wp:
  "wp (full_reset quiet_host demo_probe_loads [''p''] [] demo_camera False 9 9 0)
     (\<lambda>r s. s = (ob, demo_calib_machine) \<and> rs_success r \<and> dict_get (rs_enumeration r) ''device'' PNone = demo_camera \<and>
        elapsed_of (rs_hardware_reset r) = Inr 0 \<and> elapsed_of (rs_enumeration r) = Inr 0)
     (\<lambda>_ _. False) (ob, demo_calib_machine)"
  by (simp add: full_reset_def hardware_part_def usb_part_def enumeration_part_def query_device_def usb_target_def read_int_def
    wp_simps Let_def demo_answers demo_texts demo_usb demo_usb_device demo_files sudo_command_def serial_arguments_def demo_camera_def part_ok_def dict_get_def
    elapsed_of_def py_str_def)

lemma demo_probe_wp:
  "wp (run_probe quiet_host demo_probe_loads (\<lambda>_. []) [''p''] [] 1 1 demo_settings)
     (\<lambda>a s. s = (ob, demo_calib_machine) \<and> snd a = demo_result) (\<lambda>_ _. False) (ob, demo_calib_machine)"
  by (simp add: run_probe_def Let_def wp_simps demo_probe_command_def [symmetric] demo_answers demo_parsed [simplified])
    (simp add: demo_result_def)

text \<open>The state between two trials: all rows have the result of the simulated probe.\<close>

definition demo_ok :: "calib \<times> sim \<Rightarrow> bool" where
  "demo_ok s \<longleftrightarrow> snd s = demo_calib_machine \<and> cb_device (fst s) = demo_camera \<and>
     (\<forall>r \<in> set (cb_rows (fst s)). tw_result r = demo_result) \<and>
     (\<forall>r \<in> set (cb_resets (fst s)). elapsed_of (rs_hardware_reset r) = Inr 0 \<and> elapsed_of (rs_enumeration r) = Inr 0)"

definition demo_row :: "string \<Rightarrow> int \<Rightarrow> trial_row \<Rightarrow> bool" where
  "demo_row stage c r \<longleftrightarrow> tw_stage r = stage \<and> tw_candidate_ms r = c"

lemma demo_trial_wp:
  assumes s: "demo_ok s" and st: "with_candidate stage c settings = demo_settings" "stage = STAGE_SETTLE \<Longrightarrow> c = 0"
  shows "wp (run_trial quiet_host demo_probe_loads (\<lambda>_. []) demo_calib_args [''p''] [''o''] stage settings 0 (c, t))
    (\<lambda>_ s'. demo_ok s' \<and> (\<exists>r. cb_rows (fst s') = cb_rows (fst s) @ [r] \<and> demo_row stage c r)) (\<lambda>_ _. False) s"
proof -
  obtain ob where ob: "s = (ob, demo_calib_machine)" using s by (cases s) (auto simp: demo_ok_def)
  have settle: "(if stage = STAGE_SETTLE then c else 0) = 0" using st(2) by simp
  have reset: "wp (trial_reset quiet_host demo_probe_loads demo_calib_args [''p''] dir 0)
      (\<lambda>r s'. demo_ok s' \<and> cb_rows (fst s') = cb_rows ob \<and> rs_success r) (\<lambda>_ _. False) (ob, demo_calib_machine)" for dir
    unfolding trial_reset_def mkdir_new_def Let_def
    apply (simp add: wp_simps demo_calib_args_def)
    apply (use s in \<open>simp add: ob demo_ok_def\<close>)
    apply (rule wp_mono [OF demo_reset_wp])
     apply (auto simp: wp_simps ob demo_ok_def dict_get_def demo_camera_def split: option.splits)
    done
  have probe: "wp (trial_probe quiet_host demo_probe_loads (\<lambda>_. []) demo_calib_args [''p''] demo_settings r)
      (\<lambda>a s'. s' = (ob1, demo_calib_machine) \<and> snd a = demo_result) (\<lambda>_ _. False) (ob1, demo_calib_machine)"
    if "rs_success r" for r ob1
    using that by (auto simp: trial_probe_def demo_calib_args_def intro: demo_probe_wp)
  have record_ok: "wp (trial_record quiet_host [''o''] row out_text)
      (\<lambda>_ s'. demo_ok s' \<and> cb_rows (fst s') = cb_rows (fst s1) @ [row]) (\<lambda>_ _. False) s1"
    if "demo_ok s1" "tw_result row = demo_result" for row out_text s1
    using that by (cases s1) (auto simp: trial_record_def write_csv_def wp_simps demo_ok_def demo_result_def res_bind_def)
  show ?thesis
    unfolding run_trial_def prod.case Let_def wp_bind st(1) settle
  proof (rule wp_step [OF reset [folded ob]], elim conjE)
    fix r :: reset_result and s1 :: "calib \<times> sim" assume s1: "demo_ok s1" "cb_rows (fst s1) = cb_rows ob" "rs_success r"
    then obtain ob1 where ob1: "s1 = (ob1, demo_calib_machine)" by (cases s1) (auto simp: demo_ok_def)
    show "wp (trial_probe quiet_host demo_probe_loads (\<lambda>_. []) demo_calib_args [''p''] demo_settings r)
      (\<lambda>a s'. wp (case a of (output, parsed) \<Rightarrow> trial_record quiet_host [''o'']
           \<lparr>tw_stage = stage, tw_candidate_ms = c, tw_trial = t, tw_result = parsed, tw_reset = r, tw_settle_ms = 0,
            tw_settings = demo_settings, tw_stdout_file = trial_directory [''o''] stage c t @ [''probe_stdout.txt''],
            tw_reset_file = trial_directory [''o''] stage c t @ [''reset.json'']\<rparr> output)
         (\<lambda>_ s'. demo_ok s' \<and> (\<exists>r. cb_rows (fst s') = cb_rows (fst s) @ [r] \<and> demo_row stage c r)) (\<lambda>_ _. False) s')
      (\<lambda>_ _. False) s1"
      unfolding ob1
      apply (rule wp_step [OF probe [OF s1(3)]])
      apply clarsimp
      apply (rule wp_step [OF record_ok])
        apply (use s1 ob1 ob in \<open>auto simp: demo_row_def\<close>)
      done
  qed
qed

lemma demo_waits: "tw_result r = demo_result \<Longrightarrow> first_wait r = 40" "tw_result r = demo_result \<Longrightarrow> join_wait r = 2"
proof -
  have "dict_get (pr_metrics demo_result) ''first_frame_wait_ms_max'' 0 = 40" by code_simp
  then show "tw_result r = demo_result \<Longrightarrow> first_wait r = 40" by (simp add: row_metric_def)
  have "dict_get (pr_metrics demo_result) ''join_wait_ms_max'' 0 = 2" by code_simp
  then show "tw_result r = demo_result \<Longrightarrow> join_wait r = 2" by (simp add: row_metric_def)
qed

lemma max_or_zero_const:
  assumes "\<forall>r \<in> set rs. g r = x" "0 \<le> x" shows "max_or_zero (map g rs) \<le> x"
proof (cases rs)
  case (Cons r rs')
  then show ?thesis using assms foldl_max_greatest [of "g r" "map g rs'"] by (auto simp: max_or_zero_def)
qed (use assms(2) in \<open>simp add: max_or_zero_def\<close>)

lemma demo_headroom:
  assumes "\<forall>r \<in> set rs. tw_result r = demo_result"
  shows "headroom_required STAGE_FRAME 2 rs \<le> 3000" "headroom_required STAGE_JOIN 2 rs \<le> 100"
  using max_or_zero_const [of rs first_wait 40] max_or_zero_const [of rs join_wait 2] assms
  by (auto simp: headroom_required_def demo_waits ceiling_le_iff join_poll_ms_def)

lemma demo_qualifies:
  assumes rs: "\<forall>r \<in> set (before @ r # later). tw_result r = demo_result" and r: "demo_row stage c r"
    and other: "\<forall>r \<in> set (before @ later). tw_stage r \<noteq> stage"
    and c: "stage = STAGE_FRAME \<Longrightarrow> c = 3000" "stage = STAGE_JOIN \<Longrightarrow> c = 100" "0 \<le> c"
    and hr: "\<forall>hs. headroom_rows = Some hs \<longrightarrow> (\<forall>r \<in> set hs. tw_result r = demo_result)"
  shows "snd (summarize_candidates stage [c] (before @ r # later) (Suc 0) 1 2 headroom_rows) = Some c"
proof -
  have rows: "candidate_rows stage c (before @ r # later) = [r]"
    using other r by (auto simp: candidate_rows_def demo_row_def filter_empty_conv)
  have "headroom_required stage 2 hs \<le> c" if "\<forall>r \<in> set hs. tw_result r = demo_result" for hs
    using demo_headroom [OF that] c by (cases "stage = STAGE_FRAME"; cases "stage = STAGE_JOIN") (auto simp: headroom_required_def)
  then show ?thesis
    unfolding selected_spec qualifies_def rows using rs hr by (auto simp: demo_result_def split: option.splits)
qed

lemma demo_stage_wp:
  assumes "demo_ok s" "with_candidate stage c settings = demo_settings" "stage = STAGE_SETTLE \<Longrightarrow> c = 0"
    "stage = STAGE_FRAME \<Longrightarrow> c = 3000" "stage = STAGE_JOIN \<Longrightarrow> c = 100" "0 \<le> c"
    "\<forall>r \<in> set (cb_rows (fst s)). tw_stage r \<noteq> stage"
  shows "wp (execute_stage quiet_host demo_probe_loads (\<lambda>_. []) demo_calib_args [''p''] [''o''] stage [c] settings 0 (Suc 0))
    (\<lambda>a s'. snd a = Some c \<and> demo_ok s' \<and> (\<exists>r. cb_rows (fst s') = cb_rows (fst s) @ [r] \<and> demo_row stage c r)) (\<lambda>_ _. False) s"
proof -
  have trials: "stage_trials [c] (Suc 0) = [(c, 1)]" by (simp add: stage_trials_def)
  have next_ok: "snd (summarize_candidates stage [c] (cb_rows (fst s')) (Suc 0) 1 2 None) = Some c"
    if "demo_ok s'" "cb_rows (fst s') = cb_rows (fst s) @ [r]" "demo_row stage c r" for s' r
    using demo_qualifies [of "cb_rows (fst s)" r "[]" stage c None] that assms by (auto simp: demo_ok_def)
  show ?thesis
    unfolding execute_stage_def trials py_for.simps wp_seq
    apply (rule wp_step [OF demo_trial_wp [OF assms(1-3)]])
    apply (auto simp: wp_simps demo_calib_args_def next_ok)
    apply (use next_ok in \<open>auto simp: wp_simps split: prod.splits\<close>)
    done
qed

definition demo_calib :: calib where
  "demo_calib = \<lparr>cb_device = demo_camera, cb_rows = [], cb_cycles = [], cb_resets = []\<rparr>"

lemma demo_stages_wp:
  "wp (calibrate_stages quiet_host demo_probe_loads (\<lambda>_. []) demo_calib_args [''p''] [''o''])
     (\<lambda>(_, settle, cycle) s'. settle = Some 0 \<and> cycle = Some 0 \<and> demo_ok s' \<and>
        (\<exists>r1 r2 r3 r4. cb_rows (fst s') = [r1, r2, r3, r4] \<and> demo_row STAGE_SETTLE 0 r1 \<and> demo_row STAGE_FRAME 3000 r2 \<and>
           demo_row STAGE_JOIN 100 r3 \<and> demo_row STAGE_CYCLE 0 r4)) (\<lambda>_ _. False) (demo_calib, demo_calib_machine)"
proof -
  have args: "ca_settle_candidates demo_calib_args = [0]" "ca_frame_candidates demo_calib_args = [3000]"
    "ca_join_candidates demo_calib_args = [100]" "ca_cycle_candidates demo_calib_args = [0]" "ca_trials demo_calib_args = Suc 0"
    by (simp_all add: demo_calib_args_def)
  have start: "demo_ok (demo_calib, demo_calib_machine)" "cb_rows demo_calib = []"
    by (simp_all add: demo_ok_def demo_calib_def)
  have evals: "list_max [x] = x" "safe_settings demo_calib_args = demo_settings" "effective_settle_ms demo_calib_args (Some x) = x"
    "effective_frame_ms demo_calib_args (Some x) = x" "effective_join_ms demo_calib_args (Some x) = x" for x
    by (simp_all add: args list_max_def safe_settings_def effective_settle_ms_def effective_frame_ms_def effective_join_ms_def opt_or_def)
  show ?thesis
    unfolding calibrate_stages_def Let_def wp_bind args evals
    apply (rule wp_step [OF demo_stage_wp])
           apply (simp_all add: start with_candidate_def)
    apply (elim conjE exE; clarsimp simp: wp_simps evals)
    apply (rule wp_step [OF demo_stage_wp])
           apply (auto simp: with_candidate_def demo_row_def)[7]
    apply (elim conjE exE; clarsimp simp: wp_simps evals)
    apply (rule wp_step [OF demo_stage_wp])
           apply (auto simp: with_candidate_def demo_row_def)[7]
    apply (elim conjE exE; clarsimp simp: wp_simps evals)
    apply (rule wp_step [OF demo_stage_wp])
           apply (auto simp: with_candidate_def demo_row_def)[7]
    apply (auto simp: wp_simps)
    done
qed

lemma demo_recommend:
  assumes ok: "demo_ok (ob, w)"
    and rows: "cb_rows ob = [r1, r2, r3, r4] @ late" "demo_row STAGE_SETTLE 0 r1" "demo_row STAGE_FRAME 3000 r2"
      "demo_row STAGE_JOIN 100 r3" "demo_row STAGE_CYCLE 0 r4" "\<forall>r \<in> set late. tw_stage r = STAGE_VALIDATION"
  shows "snd (global_selection demo_calib_args STAGE_FRAME [3000] (cb_rows ob)) = Some 3000"
    "snd (global_selection demo_calib_args STAGE_JOIN [100] (cb_rows ob)) = Some 100"
    "res_map (elapsed_of \<circ> rs_hardware_reset) (cb_resets ob) = Inr (map (\<lambda>_. 0) (cb_resets ob))"
    "res_map (elapsed_of \<circ> rs_enumeration) (cb_resets ob) = Inr (map (\<lambda>_. 0) (cb_resets ob))"
proof -
  have args: "ca_trials demo_calib_args = Suc 0" "ca_cycles_per_trial demo_calib_args = 1" "ca_safety_factor demo_calib_args = 2"
    by (simp_all add: demo_calib_args_def)
  show "snd (global_selection demo_calib_args STAGE_FRAME [3000] (cb_rows ob)) = Some 3000"
    "snd (global_selection demo_calib_args STAGE_JOIN [100] (cb_rows ob)) = Some 100"
    using demo_qualifies [of "[r1]" r2 "r3 # r4 # late" STAGE_FRAME 3000 "Some (cb_rows ob)"]
      demo_qualifies [of "[r1, r2]" r3 "r4 # late" STAGE_JOIN 100 "Some (cb_rows ob)"] ok rows
    by (auto simp: global_selection_def args demo_ok_def demo_row_def)
  have "res_map g xs = Inr (map (\<lambda>_. 0) xs)" if "\<forall>x \<in> set xs. g x = Inr 0" for g :: "reset_result \<Rightarrow> rat res" and xs
    using that by (induction xs) (auto simp: res_bind_def)
  then show "res_map (elapsed_of \<circ> rs_hardware_reset) (cb_resets ob) = Inr (map (\<lambda>_. 0) (cb_resets ob))"
    "res_map (elapsed_of \<circ> rs_enumeration) (cb_resets ob) = Inr (map (\<lambda>_. 0) (cb_resets ob))"
    using ok by (auto simp: demo_ok_def)
qed

lemma demo_calibrate_wp:
  "wp (calibrate quiet_host demo_probe_loads (\<lambda>_. []) demo_calib_args [''p''] [''o''])
     (\<lambda>(_, rec) _. rm_validated rec \<and> rm_frame_timeout_ms rec = Some 3000 \<and> rm_join_timeout_ms rec = Some 100)
     (\<lambda>_ _. False) (demo_calib, demo_calib_machine)"
proof -
  have finish: "wp (calibrate_finish quiet_host demo_probe_loads (\<lambda>_. []) demo_calib_args [''p''] [''o''] summaries (Some 0) (Some 0))
     (\<lambda>(_, rec) _. rm_validated rec \<and> rm_frame_timeout_ms rec = Some 3000 \<and> rm_join_timeout_ms rec = Some 100)
     (\<lambda>_ _. False) (ob, w)"
    if ok: "demo_ok (ob, w)" and rows: "cb_rows ob = [r1, r2, r3, r4]" "demo_row STAGE_SETTLE 0 r1" "demo_row STAGE_FRAME 3000 r2"
      "demo_row STAGE_JOIN 100 r3" "demo_row STAGE_CYCLE 0 r4" for ob w summaries r1 r2 r3 r4
  proof -
    have args: "ca_frame_candidates demo_calib_args = [3000]" "ca_join_candidates demo_calib_args = [100]"
      "ca_validation_trials demo_calib_args = Suc 0" by (simp_all add: demo_calib_args_def)
    have vs: "validation_settings demo_calib_args (cb_rows ob) (Some 0) = demo_settings"
      using demo_recommend [OF ok, of r1 r2 r3 r4 "[]"] rows
      by (simp add: validation_settings_def args effective_frame_ms_def effective_join_ms_def effective_cycle_ms_def opt_or_def)
    have success: "pr_success demo_result" by (simp add: demo_result_def)
    have settle: "effective_settle_ms demo_calib_args (Some 0) = 0" by (simp add: effective_settle_ms_def opt_or_def)
    show ?thesis
      unfolding calibrate_finish_def Let_def wp_bind wp_self vs args settle
      apply (rule wp_step [OF demo_stage_wp [OF ok]])
            apply (use rows in \<open>auto simp: with_candidate_def demo_row_def\<close>)[6]
      subgoal premises prems for sel s'
      proof -
        obtain r5 where ok': "demo_ok s'" and rows': "cb_rows (fst s') = [r1, r2, r3, r4] @ [r5]" and r5: "demo_row STAGE_VALIDATION 0 r5"
          using prems rows(1) by auto
        obtain ob' where s': "s' = (ob', demo_calib_machine)" using ok' by (cases s') (auto simp: demo_ok_def)
        have "\<forall>r \<in> set (cb_rows ob'). tw_result r = demo_result" using ok' by (simp add: demo_ok_def s')
        then have results: "\<forall>r \<in> set [r1, r2, r3, r4, r5]. tw_result r = demo_result" using rows' by (simp add: s')
        note chosen = demo_recommend [OF ok' [unfolded s'] rows' [unfolded s' fst_conv] rows(2-5)]
        show ?thesis
          unfolding s' using r5 rows' results chosen rows(2-5)
          by (cases sel) (auto simp: wp_simps recommend_def Let_def res_bind_def write_csv_def demo_row_def success s' args
              intro!: wp_step [OF calibration_files])
      qed
      done
  qed
  show ?thesis
    unfolding calibrate_def wp_bind
    by (rule wp_step [OF demo_stages_wp]) (auto intro!: finish)
qed

theorem calibrate_recommendation_witness:
  "\<exists>table rec ob' w' early late.
     calibrate quiet_host demo_probe_loads (\<lambda>_. []) demo_calib_args [''p''] [''o''] (demo_calib, demo_calib_machine) =
       (Inr (table, rec), ob', w') \<and> rm_validated rec \<and> rm_frame_timeout_ms rec = Some 3000 \<and>
     cb_rows ob' = early @ late \<and> map trial_key late = [(STAGE_VALIDATION, 0, 1)] \<and>
     cs_frame_timeout_ms (rm_validation_settings rec) \<le> 3000"
proof -
  obtain table rec ob' w' where ran_ok: "calibrate quiet_host demo_probe_loads (\<lambda>_. []) demo_calib_args [''p''] [''o'']
      (demo_calib, demo_calib_machine) = (Inr (table, rec), ob', w')"
    and rec: "rm_validated rec" "rm_frame_timeout_ms rec = Some 3000"
    using demo_calibrate_wp unfolding wp_def by (auto split: prod.splits sum.splits)
  show ?thesis
    using calibrate_recommendation [OF ran_ok] ran_ok rec
    by (fastforce simp: demo_calib_def demo_calib_args_def stage_keys_def stage_trials_def)
qed

end
