(* ===== verification/Kernel_Select.thy ===== *)
theory Kernel_Select
  imports Host Json
begin

text \<open>
  \<open>reproduction/setup/kernel.py\<close>: installing one of the three kernels of the experiments and
  selecting the kernel of the next boot. A selection rewrites the \<open>os_prefix\<close> line of the boot
  configuration and the \<open>threadirqs\<close> word of the kernel command line. \<open>copytree\<close> and \<open>copy2\<close> of
  \<open>shutil\<close> are parameters; console output is left out.
\<close>

section \<open>Definitions\<close>

record variant =
  vt_release :: string
  vt_prefix :: string
  vt_boot_source :: string
  vt_modules_source :: string

definition VARIANTS :: "(string \<times> variant) list" where
  "VARIANTS =
     [(''standard-urb5'', \<lparr>vt_release = ''6.12.96-rpi5-standard-btf+'', vt_prefix = ''standard-6.12-btf'',
        vt_boot_source = ''artifacts/standard-boot'', vt_modules_source = ''artifacts/standard-root-stripped''\<rparr>),
      (''standard-urb16'', \<lparr>vt_release = ''6.12.96-rpi5-standard-btf-uvc16+'', vt_prefix = ''standard-6.12-btf-uvc16'',
        vt_boot_source = ''artifacts/standard-uvc16-boot'', vt_modules_source = ''stage-standard-btf-uvc16''\<rparr>),
      (''rt-urb16'', \<lparr>vt_release = ''6.12.96-rpi5-rt-btf-uvc16+'', vt_prefix = ''rt-6.12-btf-uvc16'',
        vt_boot_source = ''artifacts/rt-uvc16-boot'', vt_modules_source = ''stage-rt-btf-uvc16''\<rparr>)]"

definition NL :: char where "NL = CHR 0x0A"

definition rstrip :: "string \<Rightarrow> string" where
  "rstrip s = rev (lstrip (rev s))"

definition config_line :: "string \<Rightarrow> bool" where
  "config_line line = (startswith line ''CONFIG_'' \<and> CHR ''='' \<in> set line \<and> \<not> startswith line ''CONFIG_CC_VERSION_TEXT='')"

definition config_settings :: "string \<Rightarrow> (string \<times> string) list" where
  "config_settings text = dict_update [] (map (split_once CHR ''='') (filter config_line (splitlines text)))"

text \<open>Equality of two dictionaries.\<close>

definition dict_eq :: "('k \<times> 'v) list \<Rightarrow> ('k \<times> 'v) list \<Rightarrow> bool" where
  "dict_eq a b = list_all (\<lambda>k. map_of a k = map_of b k) (map fst a @ map fst b)"

definition prefix_line :: "string \<Rightarrow> bool" where
  "prefix_line line = startswith line ''os_prefix=''"

definition boot_selection :: "string \<Rightarrow> string \<Rightarrow> string \<Rightarrow> bool \<Rightarrow> (string \<times> string) res" where
  "boot_selection config cmdline pre threaded =
     (let lines = split_on NL config;
          count = length (filter prefix_line lines);
          entry = ''os_prefix='' @ pre @ ''/'';
          words = filter (\<lambda>x. x \<noteq> ''threadirqs'') (split_ws cmdline) in
      if 1 < count then value_error ''Multiple os_prefix entries; inspect boot configuration''
      else let config' = (if count \<noteq> 0 then py_join [NL] (map (\<lambda>l. if prefix_line l then entry else l) lines)
                          else rstrip config @ [NL, NL] @ ''[all]'' @ [NL] @ entry @ [NL]) in
      if \<not> list_ex (\<lambda>x. startswith x ''root='') words then value_error ''Missing root= boot argument''
      else Inr (config', py_join '' '' (words @ (if threaded then [''threadirqs''] else [])) @ [NL]))"

text \<open>The tree the program works on: \<open>--artifacts\<close>, \<open>--boot\<close> and \<open>--root\<close>, and the two copies.\<close>

record 'w kernel_site =
  ks_here :: path
  ks_artifacts :: path
  ks_boot :: path
  ks_root :: path
  ks_copytree :: "path \<Rightarrow> path \<Rightarrow> 'w \<Rightarrow> (host_error + unit) \<times> 'w"
  ks_copy :: "path \<Rightarrow> path \<Rightarrow> 'w \<Rightarrow> (host_error + unit) \<times> 'w"
  ks_stamp :: "'w \<Rightarrow> string"

text \<open>An effect of the world that is not an operation of \<open>host\<close>.\<close>

definition do_effect :: "('w \<Rightarrow> (host_error + 'a) \<times> 'w) \<Rightarrow> ('o \<times> 'w, 'a) py" where
  "do_effect f = (\<lambda>(ob, w). let (r, w') = f w in (of_host r, (ob, w')))"

definition raise_if :: "bool \<Rightarrow> string \<Rightarrow> ('s, unit) py" where
  "raise_if b message = (if b then py_raise (Exn ValueError message) else py_skip)"

definition ask_raise :: "('w \<Rightarrow> bool) \<Rightarrow> string \<Rightarrow> ('o \<times> 'w, unit) py" where
  "ask_raise p message = py_bind (ask p) (\<lambda>b. raise_if b message)"

text \<open>\<open>subprocess.run(..., check=True)\<close>\<close>

definition run_checked :: "'w host \<Rightarrow> string list \<Rightarrow> ('o \<times> 'w, completed) py" where
  "run_checked h command =
     py_bind (do_run h \<lparr>rq_command = command, rq_input = None, rq_timeout = None\<rparr>) (\<lambda>c.
     if returncode c = 0 then py_return c
     else py_raise (Exn CalledProcessError (''Command returned non-zero exit status '' @ str_int (returncode c))))"

definition install_check :: "'w host \<Rightarrow> 'w kernel_site \<Rightarrow> string \<Rightarrow> variant \<Rightarrow> ('o \<times> 'w, unit) py" where
  "install_check h ks name v =
     (let source = ks_artifacts ks @ path_parts (vt_boot_source v);
          modules = ks_artifacts ks @ path_parts (vt_modules_source v) @ [''lib'', ''modules'', vt_release v];
          config = ''config-'' @ vt_release v in
      py_seq (py_for [source @ [''vmlinuz''], source @ [config], source @ [''bcm2712-rpi-5-b.dtb''],
                      source @ [''overlays''], modules]
          (\<lambda>p. ask_raise (\<lambda>w. \<not> h_exists h p w) (''Missing kernel artifact: '' @ path_str p)))
     (py_bind (do_read h (source @ [config])) (\<lambda>artifact.
      py_bind (do_read h (ks_here ks @ [''kernel-configs'', name @ ''.config''])) (\<lambda>preserved.
      py_seq (raise_if (\<not> dict_eq (config_settings artifact) (config_settings preserved))
          ''Artifact kernel configuration differs from the preserved configuration'')
        (ask_raise (\<lambda>w. h_exists h (ks_boot ks @ [vt_prefix v]) w \<or> h_exists h (ks_root ks @ [''lib'', ''modules'', vt_release v]) w)
          ''Kernel already installed; refusing to overwrite its boot files/modules'')))))"

definition select_check :: "'w host \<Rightarrow> 'w kernel_site \<Rightarrow> variant \<Rightarrow> bool \<Rightarrow> ('o \<times> 'w, string \<times> string) py" where
  "select_check h ks v threadirqs =
     (let destination = ks_boot ks @ [vt_prefix v] in
      py_seq (py_for [''vmlinuz'', ''initrd.img'', ''cmdline.txt''] (\<lambda>name.
          ask_raise (\<lambda>w. \<not> h_is_file h (destination @ [name]) w) (''Missing '' @ path_str (destination @ [name]))))
     (py_bind (do_read h (ks_boot ks @ [''config.txt''])) (\<lambda>config.
      py_bind (do_read h (destination @ [''cmdline.txt''])) (\<lambda>cmdline.
      py_res (boot_selection config cmdline (vt_prefix v) threadirqs)))))"

text \<open>The guards of \<open>--apply\<close>.\<close>

definition apply_guard :: "'w host \<Rightarrow> 'w kernel_site \<Rightarrow> ('o \<times> 'w, unit) py" where
  "apply_guard h ks =
     py_seq (ask_raise (\<lambda>w. h_geteuid h w \<noteq> 0) ''--apply requires root'')
    (py_seq (raise_if (ks_root ks \<noteq> [] \<or> ks_boot ks \<noteq> [''boot'', ''firmware'']) ''--apply supports only the live Pi paths'')
    (py_bind (do_read h [''proc'', ''device-tree'', ''model'']) (\<lambda>model.
     raise_if (\<not> py_contains ''Raspberry Pi 5'' model) ''Pi 5 required'')))"

definition apply_install :: "'w host \<Rightarrow> 'w kernel_site \<Rightarrow> variant \<Rightarrow> ('o \<times> 'w, unit) py" where
  "apply_install h ks v =
     (let destination = ks_boot ks @ [vt_prefix v] in
      py_seq (do_effect (ks_copytree ks (ks_artifacts ks @ path_parts (vt_boot_source v)) destination))
     (py_seq (do_effect (ks_copytree ks (ks_artifacts ks @ path_parts (vt_modules_source v) @ [''lib'', ''modules'', vt_release v])
         (ks_root ks @ [''lib'', ''modules'', vt_release v])))
     (py_seq (do_effect (ks_copy ks (ks_boot ks @ [''cmdline.txt'']) (destination @ [''cmdline.txt''])))
     (py_seq (run_checked h [''depmod'', ''-a'', vt_release v])
     (py_seq (run_checked h [''mkinitramfs'', ''-o'', path_str (destination @ [''initrd.img'']), vt_release v])
        py_skip)))))"

definition apply_select :: "'w host \<Rightarrow> 'w kernel_site \<Rightarrow> variant \<Rightarrow> string \<Rightarrow> string \<Rightarrow> ('o \<times> 'w, unit) py" where
  "apply_select h ks v config cmdline =
     (let destination = ks_boot ks @ [vt_prefix v] in
      py_bind (ask (ks_stamp ks)) (\<lambda>stamp.
      let backup = ks_boot ks @ [''reproduction-backup-'' @ stamp] in
      py_bind (ask (h_exists h backup)) (\<lambda>present.
      if present then py_raise (Exn OSError (path_str backup))
      else
      py_seq (do_mkdir h backup)
     (py_seq (do_effect (ks_copy ks (ks_boot ks @ [''config.txt'']) (backup @ [''config.txt''])))
     (py_seq (do_effect (ks_copy ks (destination @ [''cmdline.txt'']) (backup @ [''cmdline.txt''])))
     (py_seq (do_write_text h (backup @ [''prefix.txt'']) (vt_prefix v @ [NL]))
     (py_seq (do_write_text h (destination @ [''cmdline.txt'']) cmdline)
        (do_write_text h (ks_boot ks @ [''config.txt'']) config))))))))"

text \<open>\<open>main\<close> of \<open>kernel.py\<close> for one of its variants.\<close>

datatype kernel_action = Install | Select

definition kernel_main :: "'w host \<Rightarrow> 'w kernel_site \<Rightarrow> kernel_action \<Rightarrow> string \<times> variant \<Rightarrow> bool \<Rightarrow> bool \<Rightarrow> ('o \<times> 'w, unit) py" where
  "kernel_main h ks action nv threadirqs apply_it = (case nv of (name, v) \<Rightarrow>
     (case action of
        Install \<Rightarrow> py_seq (install_check h ks name v)
          (if \<not> apply_it then py_skip else py_seq (apply_guard h ks) (apply_install h ks v))
      | Select \<Rightarrow> py_bind (select_check h ks v threadirqs) (\<lambda>(config, cmdline).
          if \<not> apply_it then py_skip else py_seq (apply_guard h ks) (apply_select h ks v config cmdline))))"


section \<open>Lemmas\<close>

lemma split_on_parts: "x \<in> set (split_on c s) \<Longrightarrow> c \<notin> set x"
  by (induction s arbitrary: x) (auto split: list.splits if_splits)

lemma split_on_append_general: "split_on c (s @ c # t) = split_on c s @ split_on c t"
  by (induction s) (auto split: list.splits)

lemma split_on_concat:
  "split_on c (a @ b) = butlast (split_on c a) @ (last (split_on c a) @ hd (split_on c b)) # tl (split_on c b)"
proof (induction a)
  case (Cons x a)
  obtain l ls where "split_on c a = l # ls" using split_on_nonempty by (metis neq_Nil_conv)
  then show ?case using Cons by (cases ls) auto
qed simp

lemma split_on_prefix:
  assumes "l \<in> set (split_on c a)" shows "\<exists>l' \<in> set (split_on c (a @ b)). prefix l l'"
proof -
  have "set (split_on c a) = insert (last (split_on c a)) (set (butlast (split_on c a)))"
    by (metis append_butlast_last_id list.simps(15) rotate1.simps(2) set_rotate1 split_on_nonempty)
  then show ?thesis using assms unfolding split_on_concat by auto
qed

lemma split_ws_words: "x \<in> set (split_ws s) \<Longrightarrow> x \<noteq> [] \<and> (\<forall>c \<in> set x. \<not> is_ws c)"
proof (induction s rule: split_ws.induct)
  case (1 s)
  show ?case
  proof (cases "lstrip s = []")
    case True
    then show ?thesis using 1(2) by (simp add: split_ws.simps [of s])
  next
    case False
    then have "\<not> is_ws (hd (lstrip s))" unfolding lstrip_def by (rule hd_dropWhile)
    then have word: "takeWhile (\<lambda>c. \<not> is_ws c) (lstrip s) \<noteq> []" using False by (cases "lstrip s") auto
    have "x = takeWhile (\<lambda>c. \<not> is_ws c) (lstrip s) \<or> x \<in> set (split_ws (dropWhile (\<lambda>c. \<not> is_ws c) (lstrip s)))"
      using 1(2) unfolding split_ws.simps [of s] Let_def if_not_P [OF False] by simp
    then show ?thesis
    proof
      assume x: "x = takeWhile (\<lambda>c. \<not> is_ws c) (lstrip s)"
      show ?thesis unfolding x using word by (metis set_takeWhileD)
    qed (rule 1(1) [OF refl False])
  qed
qed

lemma split_ws_word:
  assumes "x \<noteq> []" "\<forall>c \<in> set x. \<not> is_ws c" "t = [] \<or> is_ws (hd t)"
  shows "split_ws (x @ t) = x # split_ws t"
proof -
  have strip: "lstrip (x @ t) = x @ t" using assms(1,2) by (cases x) (auto simp: lstrip_def)
  have "takeWhile (\<lambda>c. \<not> is_ws c) (x @ t) = x" "dropWhile (\<lambda>c. \<not> is_ws c) (x @ t) = t"
    using assms(2,3) by (cases t; auto simp: takeWhile_append dropWhile_append)+
  then show ?thesis using assms(1) by (simp add: split_ws.simps [of "x @ t"] strip Let_def)
qed

lemma split_ws_blank: "is_ws c \<Longrightarrow> split_ws (c # t) = split_ws t"
  by (subst (1 2) split_ws.simps) (simp add: lstrip_def)

lemma split_ws_join:
  assumes "\<forall>x \<in> set xs. x \<noteq> [] \<and> (\<forall>c \<in> set x. \<not> is_ws c)" "is_ws c"
  shows "split_ws (py_join '' '' xs @ [c]) = xs"
  using assms(1)
proof (induction "'' ''" xs rule: py_join.induct)
  case 1
  show ?case using assms(2) by (simp add: split_ws_blank split_ws.simps [of "[]"] lstrip_def)
next
  case (2 x)
  then show ?case
    using assms(2) by (simp add: split_ws_word split_ws_blank split_ws.simps [of "[]"] lstrip_def)
next
  case (3 x y ys)
  have sp: "is_ws CHR '' ''" by (simp add: is_ws_def char_code_def)
  have "split_ws (x @ CHR '' '' # (py_join '' '' (y # ys) @ [c])) = x # split_ws (py_join '' '' (y # ys) @ [c])"
    using 3(2) sp by (subst split_ws_word) (auto simp: split_ws_blank)
  then show ?case using 3 by simp
qed

lemma NL_ws [simp]: "is_ws NL"
  by (simp add: NL_def is_ws_def char_code_def)

lemma prefix_line_mono: "prefix_line l \<Longrightarrow> prefix l l' \<Longrightarrow> prefix_line l'"
  unfolding prefix_line_def by (rule prefix_order.trans)

lemma rstrip_lines:
  assumes "filter prefix_line (split_on NL config) = []"
  shows "filter prefix_line (split_on NL (rstrip config)) = []"
proof -
  have "config = rstrip config @ rev (takeWhile is_ws (rev config))"
    unfolding rstrip_def lstrip_def by (metis rev_append rev_rev_ident takeWhile_dropWhile_id)
  then show ?thesis
    using assms split_on_prefix [of _ NL "rstrip config" "rev (takeWhile is_ws (rev config))"] prefix_line_mono
    by (metis (no_types, lifting) filter_empty_conv)
qed

text \<open>The boot configuration after a selection.\<close>

definition boot_config :: "string \<Rightarrow> string \<Rightarrow> string" where
  "boot_config config pre =
     (if filter prefix_line (split_on NL config) \<noteq> []
      then py_join [NL] (map (\<lambda>l. if prefix_line l then ''os_prefix='' @ pre @ ''/'' else l) (split_on NL config))
      else rstrip config @ [NL, NL] @ ''[all]'' @ [NL] @ (''os_prefix='' @ pre @ ''/'') @ [NL])"

definition boot_words :: "string \<Rightarrow> bool \<Rightarrow> string list" where
  "boot_words cmdline threaded =
     filter (\<lambda>x. x \<noteq> ''threadirqs'') (split_ws cmdline) @ (if threaded then [''threadirqs''] else [])"

lemma boot_selection_Inr:
  "boot_selection config cmdline pre threaded = Inr (config', cmdline') \<longleftrightarrow>
     length (filter prefix_line (split_on NL config)) \<le> 1 \<and>
     (\<exists>x \<in> set (split_ws cmdline). x \<noteq> ''threadirqs'' \<and> prefix ''root='' x) \<and>
     config' = boot_config config pre \<and> cmdline' = py_join '' '' (boot_words cmdline threaded) @ [NL]"
proof (cases "1 < length (filter prefix_line (split_on NL config))")
  case False
  then show ?thesis unfolding boot_selection_def Let_def boot_config_def boot_words_def
    by (simp add: list_ex_iff) blast
qed (simp add: boot_selection_def)

lemma entry_line: "prefix_line (''os_prefix='' @ pre @ ''/'')"
  by (simp add: prefix_line_def)

lemma replaced_lines:
  assumes "length (filter P ls) = 1" "P e"
  shows "filter P (map (\<lambda>l. if P l then e else l) ls) = [e] \<and>
    filter (\<lambda>l. \<not> P l) (map (\<lambda>l. if P l then e else l) ls) = filter (\<lambda>l. \<not> P l) ls"
proof -
  have "filter P (map (\<lambda>l. if P l then e else l) ls) = map (\<lambda>_. e) (filter P ls)"
    using assms(2) by (induction ls) auto
  moreover have "filter (\<lambda>l. \<not> P l) (map (\<lambda>l. if P l then e else l) ls) = filter (\<lambda>l. \<not> P l) ls"
    using assms(2) by (induction ls) auto
  moreover obtain a where "filter P ls = [a]" using assms(1) by (auto simp: length_Suc_conv)
  ultimately show ?thesis by simp
qed

lemma boot_config_lines:
  assumes "length (filter prefix_line (split_on NL config)) \<le> 1" "NL \<notin> set pre"
  shows "filter prefix_line (split_on NL (boot_config config pre)) = [''os_prefix='' @ pre @ ''/'']"
    "filter prefix_line (split_on NL config) \<noteq> [] \<Longrightarrow>
     filter (\<lambda>l. \<not> prefix_line l) (split_on NL (boot_config config pre)) = filter (\<lambda>l. \<not> prefix_line l) (split_on NL config)"
proof -
  let ?e = "''os_prefix='' @ pre @ ''/''" and ?ls = "split_on NL config"
  have e: "NL \<notin> set ?e" using assms(2) by (auto simp: NL_def)
  have one: "length (filter prefix_line ?ls) = 1" if "filter prefix_line ?ls \<noteq> []"
    using that assms(1) by (cases "filter prefix_line ?ls") auto
  have lines: "split_on NL (boot_config config pre) = map (\<lambda>l. if prefix_line l then ?e else l) ?ls"
    if "filter prefix_line ?ls \<noteq> []"
    unfolding boot_config_def if_P [OF that] by (rule split_on_join) (use e in \<open>auto dest: split_on_parts\<close>)
  show "filter prefix_line (split_on NL (boot_config config pre)) = [?e]"
  proof (cases "filter prefix_line ?ls = []")
    case True
    have all: "boot_config config pre = rstrip config @ NL # ([] @ NL # (''[all]'' @ NL # (?e @ NL # [])))"
      using True by (simp add: boot_config_def)
    have "split_on NL ?e = [?e]" "split_on NL ''[all]'' = [''[all]'']" "split_on NL [] = [[]]"
      using e by (rule split_on_absent, simp_all add: NL_def)
    then have "split_on NL (boot_config config pre) = split_on NL (rstrip config) @ [[], ''[all]'', ?e, []]"
      unfolding all split_on_append_general by simp
    then show ?thesis using rstrip_lines [OF True] entry_line by (simp add: prefix_line_def)
  next
    case False
    then show ?thesis unfolding lines [OF False] using replaced_lines [where P = prefix_line, OF one [OF False] entry_line] by blast
  qed
  show "filter (\<lambda>l. \<not> prefix_line l) (split_on NL (boot_config config pre)) = filter (\<lambda>l. \<not> prefix_line l) ?ls"
    if "filter prefix_line ?ls \<noteq> []"
    unfolding lines [OF that] using replaced_lines [where P = prefix_line, OF one [OF that] entry_line] by blast
qed

lemma split_on_join_inverse: "py_join [c] (split_on c s) = s"
proof (induction s)
  case (Cons x s)
  then show ?case by (cases "split_on c s" rule: list.exhaust; cases "tl (split_on c s)") auto
qed simp

lemma boot_config_idem:
  assumes "length (filter prefix_line (split_on NL config)) \<le> 1" "NL \<notin> set pre"
  shows "boot_config (boot_config config pre) pre = boot_config config pre"
proof -
  let ?c = "boot_config config pre"
  note lines = boot_config_lines(1) [OF assms]
  have "l \<in> set (split_on NL ?c) \<Longrightarrow> (if prefix_line l then ''os_prefix='' @ pre @ ''/'' else l) = l" for l
  proof -
    assume l: "l \<in> set (split_on NL ?c)"
    have "prefix_line l \<Longrightarrow> l \<in> set (filter prefix_line (split_on NL ?c))" using l by simp
    then show ?thesis unfolding lines by auto
  qed
  then have "map (\<lambda>l. if prefix_line l then ''os_prefix='' @ pre @ ''/'' else l) (split_on NL ?c) = split_on NL ?c"
    by (auto intro: map_idI)
  then show ?thesis unfolding boot_config_def [of ?c] lines by (simp add: split_on_join_inverse)
qed

lemma boot_words_split: "split_ws (py_join '' '' (boot_words cmdline threaded) @ [NL]) = boot_words cmdline threaded"
proof (rule split_ws_join)
  have "\<forall>c \<in> set ''threadirqs''. \<not> is_ws c" by (simp add: is_ws_def char_code_def)
  then show "\<forall>x \<in> set (boot_words cmdline threaded). x \<noteq> [] \<and> (\<forall>c \<in> set x. \<not> is_ws c)"
    using split_ws_words by (auto simp: boot_words_def split: if_splits)
qed simp



end
