(* ===== verification/Reproduce.thy ===== *)
theory Reproduce
  imports Kernel_Select
begin

text \<open>
  \<open>reproduction/reproduce.py\<close>: the stages of the experiments, the camera configuration, the
  preflight check of a stage and its run. Hashing, the clock, \<open>flock\<close>, file copies and the kernel
  release are parameters of the record \<open>site\<close>; so are the generation of the adapters (\<open>prepare\<close>) and the
  collection of provenance data (\<open>provenance\<close>), which are not modelled.
\<close>

section \<open>Definitions\<close>

record stage_info =
  sg_mode :: string
  sg_runs :: nat

definition STAGES :: "(string \<times> stage_info) list" where
  "STAGES =
     [(''startup'', \<lparr>sg_mode = ''standard-hardirq16'', sg_runs = 20\<rparr>),
      (''ablation'', \<lparr>sg_mode = ''standard-threaded16'', sg_runs = 6\<rparr>),
      (''e1'', \<lparr>sg_mode = ''rt-threaded16'', sg_runs = 12\<rparr>),
      (''e2-calibrate'', \<lparr>sg_mode = ''rt-threaded16'', sg_runs = 2\<rparr>),
      (''e2-urb5'', \<lparr>sg_mode = ''standard-hardirq5'', sg_runs = 6\<rparr>),
      (''e2-urb16'', \<lparr>sg_mode = ''standard-hardirq16'', sg_runs = 6\<rparr>),
      (''e3'', \<lparr>sg_mode = ''standard-threaded16'', sg_runs = 18\<rparr>),
      (''e4-calibrate'', \<lparr>sg_mode = ''standard-threaded16'', sg_runs = 6\<rparr>),
      (''e4-standard-hardirq'', \<lparr>sg_mode = ''standard-hardirq16'', sg_runs = 24\<rparr>),
      (''e4-standard-threaded'', \<lparr>sg_mode = ''standard-threaded16'', sg_runs = 72\<rparr>),
      (''e4-rt-threaded'', \<lparr>sg_mode = ''rt-threaded16'', sg_runs = 96\<rparr>),
      (''overhead'', \<lparr>sg_mode = ''standard-hardirq16'', sg_runs = 18\<rparr>),
      (''diagnosis'', \<lparr>sg_mode = ''standard-hardirq16'', sg_runs = 1\<rparr>)]"

definition KERNELS :: "(string \<times> string \<times> bool) list" where
  "KERNELS =
     [(''standard-hardirq5'', ''6.12.96-rpi5-standard-btf+'', False),
      (''standard-hardirq16'', ''6.12.96-rpi5-standard-btf-uvc16+'', False),
      (''standard-threaded16'', ''6.12.96-rpi5-standard-btf-uvc16+'', True),
      (''rt-threaded16'', ''6.12.96-rpi5-rt-btf-uvc16+'', True)]"

record 'w site =
  si_python :: string
  si_here :: path
  si_release :: "'w \<Rightarrow> string"
  si_machine :: "'w \<Rightarrow> string"
  si_sha256 :: "string \<Rightarrow> string"
  si_now :: "'w \<Rightarrow> string"
  si_ssh_connection :: "'w \<Rightarrow> string"
  si_owner :: "'w \<Rightarrow> nat \<times> nat"
  si_replace :: "path \<Rightarrow> path \<Rightarrow> 'w \<Rightarrow> (host_error + unit) \<times> 'w"
  si_copy :: "path \<Rightarrow> path \<Rightarrow> 'w \<Rightarrow> (host_error + unit) \<times> 'w"
  si_flock :: "path \<Rightarrow> 'w \<Rightarrow> (host_error + unit) \<times> 'w"
  si_mkdtemp :: "path \<Rightarrow> 'w \<Rightarrow> (host_error + path) \<times> 'w"
  si_source_manifest :: "path \<Rightarrow> 'w \<Rightarrow> host_error + (string \<times> string) list"
  si_provenance :: "string \<Rightarrow> 'w \<Rightarrow> (host_error + pyval) \<times> 'w"
  si_prepare :: "path \<Rightarrow> pyval \<Rightarrow> bool \<Rightarrow> pyval \<Rightarrow> pyval \<Rightarrow> 'w \<Rightarrow> unit res \<times> 'w"

definition site_repo :: "'w site \<Rightarrow> path" where
  "site_repo si = butlast (si_here si)"

definition digest :: "'w host \<Rightarrow> 'w site \<Rightarrow> path \<Rightarrow> ('o \<times> 'w, string) py" where
  "digest h si p = py_bind (do_read h p) (\<lambda>t. py_return (si_sha256 si t))"

definition load_json :: "'w host \<Rightarrow> path \<Rightarrow> ('o \<times> 'w, pyval) py" where
  "load_json h p = ask_res (\<lambda>w. of_host (h_read_json h p w))"

subsection \<open>The camera configuration\<close>

text \<open>\<open>re.fullmatch(r'[0-9]+', s)\<close> and \<open>re.fullmatch(r'xhci-hcd:usb[0-9]+', s)\<close>\<close>

fun serial_text :: "pyval \<Rightarrow> bool res" where
  "serial_text (PStr s) = Inr (py_isdigit s)"
| "serial_text _ = Inl (Exn TypeError ''expected string'')"

fun xhci_label_text :: "pyval \<Rightarrow> bool res" where
  "xhci_label_text (PStr s) = Inr (startswith s ''xhci-hcd:usb'' \<and> py_isdigit (drop (length ''xhci-hcd:usb'') s))"
| "xhci_label_text _ = Inl (Exn TypeError ''expected string'')"

fun positive_int :: "pyval \<Rightarrow> bool" where
  "positive_int (PInt i) = (0 < i)"
| "positive_int (PBool b) = b"
| "positive_int _ = False"

fun check_irqs :: "pyval list \<Rightarrow> unit res" where
  "check_irqs [] = Inr ()"
| "check_irqs (camera # cameras) =
     res_bind (py_item camera ''xhci_irq'') (\<lambda>irq.
     if \<not> positive_int irq then value_error ''Set the E3 IRQ numbers from this Pi, not from the paper''
     else res_bind (py_item camera ''xhci_label'') (\<lambda>label. res_bind (xhci_label_text label) (\<lambda>ok.
       if \<not> ok then value_error ''Set the matching E3 xHCI IRQ labels'' else check_irqs cameras)))"

definition camera_field :: "pyval \<Rightarrow> string \<Rightarrow> pyval \<Rightarrow> pyval res" where
  "camera_field cameras field name = res_bind (py_item_at cameras name) (\<lambda>camera. py_item camera field)"

fun check_d435 :: "pyval \<Rightarrow> pyval list \<Rightarrow> unit res" where
  "check_d435 cameras [] = Inr ()"
| "check_d435 cameras (name # names) =
     res_bind (camera_field cameras ''model'' name) (\<lambda>model.
     if model \<noteq> PStr ''D435'' then value_error (py_str name @ '' is not a D435'') else check_d435 cameras names)"

text \<open>\<open>pair + [...]\<close>\<close>

fun py_list :: "pyval \<Rightarrow> pyval list res" where
  "py_list (PList vs) = Inr vs"
| "py_list _ = Inl (Exn TypeError ''can only concatenate list'')"

definition e3_irq :: "pyval \<Rightarrow> pyval \<Rightarrow> string \<Rightarrow> pyval res" where
  "e3_irq cameras selection role =
     res_bind (py_item selection role) (\<lambda>name.
     res_bind (camera_field cameras ''xhci_irq'' name) (\<lambda>irq.
     res_bind (camera_field cameras ''xhci_label'' name) (\<lambda>label.
     Inr (PDict [(''number'', irq), (''label'', label)]))))"

text \<open>The cameras are checked first, then the roles given to them, then the derived entries are added.\<close>

definition check_cameras :: "pyval \<Rightarrow> unit res" where
  "check_cameras cameras =
     res_bind (py_values cameras) (\<lambda>all_cameras.
     res_bind (res_map (\<lambda>c. py_item c ''serial'') all_cameras) (\<lambda>serials.
     res_bind (py_distinct serials) (\<lambda>dist.
     if \<not> dist then value_error ''Camera SDK serials must be distinct''
     else res_bind (all_true serial_text serials) (\<lambda>numeric.
     if \<not> numeric then value_error ''Replace serial placeholders with the actual numeric serials''
     else check_irqs all_cameras))))"

definition check_roles :: "pyval \<Rightarrow> pyval \<Rightarrow> pyval list res" where
  "check_roles cameras selection =
     res_bind (py_item selection ''d435_pair'') (\<lambda>pair_value.
     res_bind (py_iter pair_value) (\<lambda>items.
     res_bind (if length items \<noteq> 2 then Inr False else py_distinct items) (\<lambda>ok.
     if \<not> ok then value_error ''Select two different D435 cameras for E4''
     else res_bind (py_item selection ''single_d435'') (\<lambda>single.
     res_bind (py_item selection ''startup_d435'') (\<lambda>startup.
     res_bind (py_list pair_value) (\<lambda>pair.
     res_bind (check_d435 cameras (pair @ [single, startup])) (\<lambda>_.
     res_bind (py_item selection ''single_d455'') (\<lambda>name.
     res_bind (camera_field cameras ''model'' name) (\<lambda>model.
     if model \<noteq> PStr ''D455'' \<and> model \<noteq> PStr ''D455F'' then value_error ''Select a D455/D455F''
     else Inr pair)))))))))"

definition derive_config :: "pydict \<Rightarrow> pyval \<Rightarrow> pyval \<Rightarrow> pyval list \<Rightarrow> pyval res" where
  "derive_config cfg cameras selection pair =
     (let serial_of_role = (\<lambda>role. res_bind (py_item selection role) (camera_field cameras ''serial'')) in
      res_bind (res_map (camera_field cameras ''serial'') pair) (\<lambda>d435_serials.
      res_bind (serial_of_role ''single_d435'') (\<lambda>single.
      res_bind (serial_of_role ''startup_d435'') (\<lambda>startup.
      res_bind (serial_of_role ''single_d455'') (\<lambda>d455.
      res_bind (e3_irq cameras selection ''single_d435'') (\<lambda>irq435.
      res_bind (e3_irq cameras selection ''single_d455'') (\<lambda>irq455.
      Inr (PDict (dict_update cfg
        [(''d435_serials'', PList d435_serials), (''single_d435_serial'', single), (''startup_serial'', startup),
         (''d455_serial'', d455), (''e3_irqs'', PDict [(''d435'', irq435), (''d455'', irq455)])])))))))))"

fun load_config :: "pyval \<Rightarrow> pyval res" where
  "load_config (PDict cfg) =
     res_bind (py_item (PDict cfg) ''cameras'') (\<lambda>cameras.
     res_bind (py_item (PDict cfg) ''selection'') (\<lambda>selection.
     res_bind (check_cameras cameras) (\<lambda>_.
     res_bind (check_roles cameras selection) (\<lambda>pair.
     derive_config cfg cameras selection pair))))"
| "load_config _ = Inl (Exn TypeError ''cameras'')"

definition load_config_file :: "'w host \<Rightarrow> path \<Rightarrow> ('o \<times> 'w, pyval) py" where
  "load_config_file h p = py_bind (load_json h p) (\<lambda>v. py_res (load_config v))"

text \<open>\<open>d.pop(k, None)\<close>\<close>

definition dict_pop :: "string \<Rightarrow> pydict \<Rightarrow> pydict" where
  "dict_pop k d = filter (\<lambda>(k', _). k' \<noteq> k) d"

fun without_irq :: "pyval \<Rightarrow> pyval res" where
  "without_irq (PDict camera) = Inr (PDict (dict_pop ''xhci_label'' (dict_pop ''xhci_irq'' camera)))"
| "without_irq (PList _) = Inl (Exn TypeError ''pop expected at most 1 argument'')"
| "without_irq _ = Inl (Exn AttributeError ''pop'')"

fun camera_identity :: "pyval \<Rightarrow> pyval res" where
  "camera_identity (PDict cfg) =
     (let identity = dict_pop ''e3_irqs'' cfg in
      res_bind (py_item (PDict identity) ''cameras'') (\<lambda>cameras.
      case cameras of
        PDict cs \<Rightarrow> res_bind (res_map (\<lambda>(name, c). res_bind (without_irq c) (\<lambda>c'. Inr (name, c'))) cs) (\<lambda>cs'.
          Inr (PDict (dict_set ''cameras'' (PDict cs') identity)))
      | _ \<Rightarrow> Inl (Exn AttributeError ''values'')))"
| "camera_identity _ = Inl (Exn AttributeError ''pop'')"

subsection \<open>The preflight check of a stage\<close>

definition error_if :: "bool \<Rightarrow> string \<Rightarrow> string list" where
  "error_if b message = (if b then [message] else [])"

text \<open>The conditions on the running kernel.\<close>

definition kernel_errors :: "string \<times> string \<times> bool \<Rightarrow> string \<Rightarrow> string \<Rightarrow> string list" where
  "kernel_errors = (\<lambda>(mode, expected, threaded) release cmdline.
     error_if (release \<noteq> expected) (''Boot kernel '' @ expected @ ''; found '' @ release) @
     error_if (\<not> startswith mode ''rt-'' \<and> (''threadirqs'' \<in> set (split_ws cmdline)) \<noteq> threaded)
       (mode @ '': threadirqs must be '' @ (if threaded then ''True'' else ''False'')))"

definition stage_kernel :: "string \<Rightarrow> (string \<times> string \<times> bool) res" where
  "stage_kernel stage =
     (case map_of STAGES stage of None \<Rightarrow> Inl (Exn KeyError stage)
      | Some info \<Rightarrow> (case map_of KERNELS (sg_mode info) of None \<Rightarrow> Inl (Exn KeyError (sg_mode info))
          | Some (release, threaded) \<Rightarrow> Inr (sg_mode info, release, threaded)))"

definition platform_errors :: "'w host \<Rightarrow> 'w site \<Rightarrow> string \<times> string \<times> bool \<Rightarrow> ('o \<times> 'w, string list) py" where
  "platform_errors h si mode =
     (let model = [''proc'', ''device-tree'', ''model'']; wifi = [''sys'', ''class'', ''net'', ''wlan0'', ''operstate''] in
      py_bind (ask (si_machine si)) (\<lambda>machine.
      py_bind (ask (h_is_file h model)) (\<lambda>has_model.
      py_bind (if has_model then do_read h model else py_return []) (\<lambda>model_text.
      py_bind (ask (h_exists h wifi)) (\<lambda>has_wifi.
      py_bind (if has_wifi then do_read h wifi else py_return []) (\<lambda>wifi_text.
      py_bind (ask (si_release si)) (\<lambda>release.
      py_bind (do_read h [''proc'', ''cmdline'']) (\<lambda>cmdline.
      py_return
        (error_if (machine \<noteq> ''aarch64'' \<and> machine \<noteq> ''arm64'')
           ''Acquisition requires the AArch64 Raspberry Pi 5, not this host'' @
         error_if (\<not> has_model \<or> \<not> py_contains ''Raspberry Pi 5'' model_text) ''Paper platform is Raspberry Pi 5'' @
         error_if (has_wifi \<and> strip wifi_text = ''up'')
           ''Paper runs disable Wi-Fi; use wired/local access and disable it before acquisition'' @
         kernel_errors mode release cmdline)))))))))"

definition missing_files :: "'w host \<Rightarrow> string \<Rightarrow> path list \<Rightarrow> ('o \<times> 'w, string list) py" where
  "missing_files h text ps = ask (\<lambda>w. map (\<lambda>p. text @ path_str p) (filter (\<lambda>p. \<not> h_is_file h p w) ps))"

text \<open>The configured serials, sorted and without duplicates; \<open>+\<close> needs a list.\<close>

definition config_serials :: "pyval \<Rightarrow> string list res" where
  "config_serials cfg =
     res_bind (py_item cfg ''d435_serials'') (\<lambda>pair. res_bind (py_list pair) (\<lambda>ps.
     res_bind (py_item cfg ''d455_serial'') (\<lambda>a. res_bind (py_item cfg ''single_d435_serial'') (\<lambda>b.
     res_bind (py_item cfg ''startup_serial'') (\<lambda>c.
     Inr (sort (remdups (map py_str (ps @ [a, b, c])))))))))"

definition device_present :: "'w host \<Rightarrow> path \<Rightarrow> string \<Rightarrow> ('o \<times> 'w, string list) py" where
  "device_present h probe serial =
     py_except [OSError, TimeoutExpired]
       (py_bind (do_run h \<lparr>rq_command = [path_str probe, ''--serial'', serial, ''--device-present''], rq_input = None,
           rq_timeout = Some 15\<rparr>) (\<lambda>c.
        py_return (error_if (returncode c \<noteq> 0)
          (''SDK cannot find camera '' @ serial @ ''; use the librealsense serial, not the USB sysfs serial: '' @ strip (stdout c)))))
       (\<lambda>e. py_return [''SDK device check failed for '' @ serial @ '': '' @ exn_msg e])"

definition camera_errors :: "'w host \<Rightarrow> 'w site \<Rightarrow> path \<Rightarrow> pyval \<Rightarrow> ('o \<times> 'w, string list) py" where
  "camera_errors h si repo cfg =
     (let probe = repo @ [''build-realsense-steady'', ''d435_sensor_probe''] in
      py_bind (ask (\<lambda>w. (si_machine si w = ''aarch64'' \<or> si_machine si w = ''arm64'') \<and> h_is_file h probe w)) (\<lambda>present.
      if \<not> present then py_return []
      else py_bind (py_res (config_serials cfg)) (\<lambda>serials.
        py_bind (py_map serials (device_present h probe)) (\<lambda>ess. py_return (concat ess)))))"

definition COMMANDS :: "string list" where
  "COMMANDS = [''trace-cmd'', ''chrt'', ''taskset'', ''lsusb'', ''gcc'', ''g++'']"

definition compiler_errors :: "'w host \<Rightarrow> string \<Rightarrow> ('o \<times> 'w, string list) py" where
  "compiler_errors h compiler =
     py_bind (ask (h_which h compiler)) (\<lambda>found.
     if \<not> found then py_return []
     else py_bind (run_checked h [compiler, ''-dumpfullversion'']) (\<lambda>c.
       let version = strip (stdout c) in
       py_return (error_if (version \<noteq> ''13.3.0'') (''Paper uses '' @ compiler @ '' 13.3.0; found '' @ version))))"

definition tool_errors :: "'w host \<Rightarrow> path \<Rightarrow> ('o \<times> 'w, string list) py" where
  "tool_errors h repo =
     (let cache = repo @ [''build-realsense-steady'', ''CMakeCache.txt''];
          analyzer = repo @ [''tools'', ''realsense_steady_bench'', ''analyze_full_receive_path.py''] in
      py_bind (ask (\<lambda>w. map (\<lambda>c. ''Missing command: '' @ c) (filter (\<lambda>c. \<not> h_which h c w) COMMANDS))) (\<lambda>missing.
      py_bind (py_map [''gcc'', ''g++''] (compiler_errors h)) (\<lambda>versions.
      py_bind (ask (h_is_file h cache)) (\<lambda>has_cache.
      py_bind (if has_cache then do_read h cache else py_return []) (\<lambda>cache_text.
      py_bind (do_read h analyzer) (\<lambda>analyzer_text.
      py_return (missing @ concat versions @
        error_if (\<not> has_cache \<or> \<not> py_contains ''CMAKE_BUILD_TYPE:STRING=RelWithDebInfo'' cache_text)
          ''Benchmark must be configured as RelWithDebInfo'' @
        error_if (py_contains ''latency_s > 0.250'' analyzer_text)
          ''Latency analyzer still discards >250 ms; run fix-latency first'')))))))"

definition needed_profiles :: "path \<Rightarrow> string \<Rightarrow> path list" where
  "needed_profiles out_dir stage =
     (if startswith stage ''e2-urb''
      then map (\<lambda>x. out_dir @ [''e2'', ''profiles'', x @ ''.csv'']) [''representative'', ''stress'']
      else if startswith stage ''e4-'' \<and> stage \<noteq> ''e4-calibrate''
      then map (\<lambda>x. out_dir @ [''e4-profiles'', x @ ''.csv'']) [''representative'', ''stress'']
      else if stage = ''e3''
      then [out_dir @ [''e2'', ''profiles'', ''stress.csv''], out_dir @ [''e1'', ''profiles'', ''d455_stress60.csv'']]
      else [])"

text \<open>\<open>re.search(r'^\s*N:.*label', interrupts, re.M)\<close>\<close>

definition irq_listed :: "string \<Rightarrow> string \<Rightarrow> string \<Rightarrow> bool" where
  "irq_listed number label interrupts =
     list_ex (\<lambda>line. startswith (lstrip line) (number @ '':'') \<and>
         py_contains label (drop (length number + 1) (lstrip line))) (split_on NL interrupts)"

definition irq_errors :: "'w host \<Rightarrow> pyval \<Rightarrow> ('o \<times> 'w, string list) py" where
  "irq_errors h cfg =
     py_bind (do_read h [''proc'', ''interrupts'']) (\<lambda>interrupts.
     py_bind (py_res (res_bind (py_item cfg ''e3_irqs'') py_values)) (\<lambda>items.
     py_bind (py_map items (\<lambda>item. py_res (
         res_bind (py_item item ''number'') (\<lambda>number. res_bind (py_item item ''label'') (\<lambda>label.
         case label of
           PStr l \<Rightarrow> Inr (error_if (\<not> irq_listed (py_str number) l interrupts) (''IRQ mapping does not exist: '' @ py_str item))
         | _ \<Rightarrow> Inl (Exn TypeError ''escape''))))))
       (\<lambda>ess. py_return (concat ess))))"

definition check_stage ::
  "'w host \<Rightarrow> 'w site \<Rightarrow> path \<Rightarrow> path \<Rightarrow> string \<Rightarrow> pyval \<Rightarrow> ('o \<times> 'w, string list) py" where
  "check_stage h si repo out_dir stage cfg =
     py_bind (py_res (stage_kernel stage)) (\<lambda>mode.
     py_bind (platform_errors h si mode) (\<lambda>es1.
     py_bind (missing_files h ''Missing '' [repo @ [''.venv'', ''bin'', ''python''],
         repo @ [''deps'', ''lime-rtw'', ''target'', ''release'', ''lime-rtw''],
         repo @ [''build-realsense-steady'', ''realsense_steady_probe'']]) (\<lambda>es2.
     py_bind (camera_errors h si repo cfg) (\<lambda>es3.
     py_bind (tool_errors h repo) (\<lambda>es4.
     py_bind (missing_files h ''Missing prerequisite calibration: '' (needed_profiles out_dir stage)) (\<lambda>es5.
     py_bind (if stage = ''e3'' then irq_errors h cfg else py_return []) (\<lambda>es6.
     py_return (es1 @ es2 @ es3 @ es4 @ es5 @ es6))))))))"

subsection \<open>The run of a stage\<close>

definition profile_command :: "path \<Rightarrow> path list \<Rightarrow> path \<Rightarrow> string list" where
  "profile_command repo selected out =
     [path_str (repo @ [''.venv'', ''bin'', ''python'']),
      path_str (repo @ [''tools'', ''realsense_steady_bench'', ''generate_deadline_profile.py''])] @
     concat (map (\<lambda>p. [''--trace-run'', path_str p]) selected) @ [''--output'', path_str out]"

definition generate_profiles :: "'w host \<Rightarrow> path \<Rightarrow> path \<Rightarrow> ('o \<times> 'w, unit) py" where
  "generate_profiles h repo out_dir =
     py_bind (load_json h (out_dir @ [''prepared.json''])) (\<lambda>prepared.
     py_bind (py_res (py_get prepared ''smoke'' PNone)) (\<lambda>smoke.
     let repetitions = (if truthy smoke then 1 else 3 :: nat) in
     py_for [(c, x). c \<leftarrow> [''d435'', ''d455''], x \<leftarrow> [''representative30'', ''stress60'']] (\<lambda>(camera, workload).
       py_bind (py_map (map (\<lambda>n. out_dir @ [''e1'', camera, workload, ''run-'' @ str_nat n]) [1..<Suc repetitions]) (\<lambda>p.
           py_bind (do_read h (p @ [''selected_attempt.txt''])) (\<lambda>t. py_return (p @ [''attempt-'' @ strip t])))) (\<lambda>selected.
       py_seq (do_mkdir h (out_dir @ [''e1'', ''profiles'']))
      (py_seq (run_checked h (profile_command repo selected (out_dir @ [''e1'', ''profiles'', camera @ ''_'' @ workload @ ''.csv''])))
         py_skip)))))"

text \<open>The adapters and their sources are still those that were prepared.\<close>

definition check_prepared :: "'w host \<Rightarrow> 'w site \<Rightarrow> path \<Rightarrow> path \<Rightarrow> string \<Rightarrow> pyval \<Rightarrow> ('o \<times> 'w, unit) py" where
  "check_prepared h si repo out_dir stage cfg =
     (let script = stage @ ''.sh'' in
      py_bind (load_json h (out_dir @ [''prepared.json''])) (\<lambda>manifest.
      py_bind (py_res (py_item manifest ''config'')) (\<lambda>config.
      py_bind (py_res (py_item manifest ''repo'')) (\<lambda>prepared_repo.
      py_seq (raise_if (\<not> py_eq config cfg \<or> prepared_repo \<noteq> PStr (path_str repo))
          ''Config/repo changed; prepare again in a fresh output directory'')
     (py_bind (py_res (py_item manifest ''adapter_sources'')) (\<lambda>sources.
      py_bind (py_res (case sources of PDict d \<Rightarrow> Inr d | _ \<Rightarrow> Inl (Exn AttributeError ''items''))) (\<lambda>recorded.
      py_seq (py_for recorded (\<lambda>(relative, sha).
          py_bind (digest h si (repo @ path_parts relative)) (\<lambda>d.
          raise_if (PStr d \<noteq> sha) (''Source changed since prepare: '' @ relative))))
     (py_bind (digest h si (out_dir @ [''entrypoints'', script])) (\<lambda>d.
      py_bind (py_res (res_bind (py_item manifest ''entrypoints'') (\<lambda>e. py_item e script))) (\<lambda>sha.
      raise_if (PStr d \<noteq> sha) ''Adapter changed since prepare''))))))))))"

definition completion_marker :: "path \<Rightarrow> string \<Rightarrow> path" where
  "completion_marker out_dir stage = out_dir @ [''completed'', stage @ ''.json'']"

text \<open>The branch \<open>run\<close> of \<open>main\<close>; \<open>SystemExit\<close> when the preflight check finds errors.\<close>

definition run_stage :: "'w host \<Rightarrow> 'w site \<Rightarrow> path \<Rightarrow> path \<Rightarrow> string \<Rightarrow> pyval \<Rightarrow> ('o \<times> 'w, unit) py" where
  "run_stage h si repo out_dir stage cfg =
     py_bind (check_stage h si repo out_dir stage cfg) (\<lambda>errors.
     if errors \<noteq> [] then py_raise (Exn SystemExit ''1'')
     else
     py_seq (check_prepared h si repo out_dir stage cfg)
    (py_bind (ask (h_exists h (completion_marker out_dir stage))) (\<lambda>already.
     if already then py_skip
     else
     let script = out_dir @ [''entrypoints'', stage @ ''.sh''] in
     py_seq (run_checked h [''sudo'', ''-n'', ''true''])
    (py_seq (do_effect (si_flock si (out_dir @ [''campaign.lock''])))
    (py_bind (do_effect (si_provenance si stage)) (\<lambda>record.
     py_seq (do_mkdir h (out_dir @ [''environment'']))
    (py_seq (do_write_json h (out_dir @ [''environment'', stage @ ''.json'']) record)
    (py_seq (run_checked h ((if stage = ''e1'' then [''sudo'', ''-n''] else []) @ [''sh'', path_str script]))
    (py_seq (py_when (stage = ''e1'') (generate_profiles h repo out_dir))
    (py_seq (do_mkdir h (out_dir @ [''completed'']))
    (py_bind (ask (si_release si)) (\<lambda>release.
     py_bind (digest h si script) (\<lambda>sha.
     do_write_json h (completion_marker out_dir stage)
       (PDict [(''stage'', PStr stage), (''kernel'', PStr release), (''adapter_sha256'', PStr sha)]))))))))))))))"


section \<open>Lemmas\<close>

subsection \<open>The camera configuration\<close>

lemma py_item_Inr: "py_item v k = Inr x \<longleftrightarrow> (\<exists>d. v = PDict d \<and> map_of d k = Some x)"
  by (cases v) (auto split: option.splits)

lemma py_values_Inr: "py_values v = Inr xs \<longleftrightarrow> (\<exists>d. v = PDict d \<and> xs = map snd d)"
  by (cases v) auto

lemma py_list_Inr: "py_list v = Inr xs \<longleftrightarrow> v = PList xs"
  by (cases v) auto

lemma py_item_at_Inr: "py_item_at d k = Inr x \<longleftrightarrow> (\<exists>s m. k = PStr s \<and> d = PDict m \<and> map_of m s = Some x)"
  by (cases k; cases d) (auto split: option.splits)

lemma serial_text_Inr: "serial_text v = Inr True \<longleftrightarrow> (\<exists>s. v = PStr s \<and> py_isdigit s)"
  by (cases v) auto

lemma all_true_Inr: "all_true f xs = Inr True \<longleftrightarrow> (\<forall>x \<in> set xs. f x = Inr True)"
  by (induction xs) (auto simp: res_bind_Inr_iff split: if_splits)

lemma py_distinct_strings: "py_distinct (map PStr ss) = Inr True \<longleftrightarrow> distinct ss"
proof -
  have "res_map hash_key (map PStr ss) = Inr (map (Inr \<circ> PStr) ss)"
    by (induction ss) (auto simp: res_bind_def)
  then show ?thesis by (auto simp: py_distinct_def distinct_map inj_on_def res_bind_def)
qed

text \<open>What a camera entry must have.\<close>

definition camera_ok :: "pyval \<Rightarrow> bool" where
  "camera_ok v \<longleftrightarrow> (\<exists>d s irq label. v = PDict d \<and> map_of d ''serial'' = Some (PStr s) \<and> py_isdigit s \<and>
     map_of d ''xhci_irq'' = Some irq \<and> positive_int irq \<and>
     map_of d ''xhci_label'' = Some (PStr label) \<and> xhci_label_text (PStr label) = Inr True)"

text \<open>The entry \<open>field\<close> of the camera with the given name.\<close>

definition camera_has :: "pydict \<Rightarrow> pyval \<Rightarrow> string \<Rightarrow> pyval \<Rightarrow> bool" where
  "camera_has cams name field x \<longleftrightarrow> camera_field (PDict cams) field name = Inr x"

lemma xhci_label_text_Inr: "xhci_label_text v = Inr True \<Longrightarrow> \<exists>s. v = PStr s"
  by (cases v) auto

definition irq_ok :: "pyval \<Rightarrow> bool" where
  "irq_ok c \<longleftrightarrow> (\<exists>d irq label. c = PDict d \<and> map_of d ''xhci_irq'' = Some irq \<and> positive_int irq \<and>
     map_of d ''xhci_label'' = Some (PStr label) \<and> xhci_label_text (PStr label) = Inr True)"

lemma check_irqs_Inr: "check_irqs cs = Inr () \<Longrightarrow> \<forall>c \<in> set cs. irq_ok c"
proof (induction cs)
  case (Cons c cs)
  then obtain d irq v where "c = PDict d" "map_of d ''xhci_irq'' = Some irq" "positive_int irq"
    "map_of d ''xhci_label'' = Some v" "xhci_label_text v = Inr True" and rest: "check_irqs cs = Inr ()"
    by (auto simp: res_bind_Inr_iff py_item_Inr split: if_splits)
  moreover from this(5) obtain s where "v = PStr s" using xhci_label_text_Inr by blast
  ultimately have "irq_ok c" unfolding irq_ok_def by simp
  then show ?case using Cons.IH [OF rest] by simp
qed simp

lemma camera_ok_intro:
  "irq_ok c \<Longrightarrow> c = PDict d \<Longrightarrow> map_of d ''serial'' = Some (PStr s) \<Longrightarrow> py_isdigit s \<Longrightarrow> camera_ok c"
  unfolding irq_ok_def camera_ok_def by (elim exE conjE) simp

lemma list_all2_mem: "list_all2 P xs ys \<Longrightarrow> x \<in> set xs \<Longrightarrow> \<exists>y \<in> set ys. P x y"
  by (induction xs ys rule: list_all2_induct) auto

lemma res_map_field: "res_map (\<lambda>c. py_item c k) cs = Inr xs \<Longrightarrow>
    list_all2 (\<lambda>c x. \<exists>d. c = PDict d \<and> map_of d k = Some x) cs xs"
  by (induction cs arbitrary: xs) (auto simp: res_bind_Inr_iff py_item_Inr)

lemma check_cameras_Inr:
  assumes "check_cameras cameras = Inr ()"
  shows "\<exists>cams ss. cameras = PDict cams \<and> (\<forall>c \<in> set (map snd cams). camera_ok c) \<and>
    list_all2 (\<lambda>c s. \<exists>d. c = PDict d \<and> map_of d ''serial'' = Some (PStr s)) (map snd cams) ss \<and> distinct ss"
proof -
  from assms obtain cams serials where cams: "cameras = PDict cams"
    and serials: "res_map (\<lambda>c. py_item c ''serial'') (map snd cams) = Inr serials"
    and dist: "py_distinct serials = Inr True" and numeric: "all_true serial_text serials = Inr True"
    and irqs: "check_irqs (map snd cams) = Inr ()"
    by (auto simp: check_cameras_def res_bind_Inr_iff py_values_Inr split: if_splits)
  have num: "\<forall>v \<in> set serials. \<exists>s. v = PStr s \<and> py_isdigit s"
    using numeric by (simp add: all_true_Inr serial_text_Inr)
  then have "\<exists>ss. serials = map PStr ss" unfolding ex_map_conv by blast
  then obtain ss where ss: "serials = map PStr ss" by blast
  have all2: "list_all2 (\<lambda>c s. \<exists>d. c = PDict d \<and> map_of d ''serial'' = Some (PStr s)) (map snd cams) ss"
    using res_map_field [OF serials] by (simp add: ss list_all2_map2)
  have "camera_ok c" if c: "c \<in> set (map snd cams)" for c
  proof -
    obtain s d where "s \<in> set ss" "c = PDict d" "map_of d ''serial'' = Some (PStr s)"
      using list_all2_mem [OF all2 c] by blast
    then show ?thesis using check_irqs_Inr [OF irqs] c num unfolding ss by (intro camera_ok_intro) auto
  qed
  then show ?thesis using cams all2 dist by (auto simp: ss py_distinct_strings)
qed

lemma check_d435_Inr: "check_d435 cameras names = Inr () \<Longrightarrow> \<forall>n \<in> set names. camera_field cameras ''model'' n = Inr (PStr ''D435'')"
  by (induction names) (auto simp: res_bind_Inr_iff split: if_splits)

lemma camera_field_name: "camera_field cameras k n = Inr x \<Longrightarrow> \<exists>s. n = PStr s"
  by (auto simp: camera_field_def res_bind_Inr_iff py_item_at_Inr)

text \<open>The roles: the pair, two further D435 and a D455.\<close>

definition roles_ok :: "pydict \<Rightarrow> pydict \<Rightarrow> pyval \<Rightarrow> pyval \<Rightarrow> bool" where
  "roles_ok cams sel a b \<longleftrightarrow> map_of sel ''d435_pair'' = Some (PList [a, b]) \<and> a \<noteq> b \<and>
     (\<exists>single startup d455 model. map_of sel ''single_d435'' = Some single \<and> map_of sel ''startup_d435'' = Some startup \<and>
        map_of sel ''single_d455'' = Some d455 \<and> (\<forall>n \<in> {a, b, single, startup}. camera_has cams n ''model'' (PStr ''D435'')) \<and>
        camera_has cams d455 ''model'' model \<and> (model = PStr ''D455'' \<or> model = PStr ''D455F''))"

lemma check_roles_Inr:
  assumes "check_roles (PDict cams) selection = Inr pair"
  shows "\<exists>sel a b. selection = PDict sel \<and> pair = [a, b] \<and> roles_ok cams sel a b"
proof -
  from assms obtain sel items single startup d455 model where sel: "selection = PDict sel"
    "map_of sel ''d435_pair'' = Some (PList pair)" "map_of sel ''single_d435'' = Some single"
    "map_of sel ''startup_d435'' = Some startup" "map_of sel ''single_d455'' = Some d455"
    and two: "length pair = 2" "py_distinct pair = Inr True"
    and d435: "check_d435 (PDict cams) (pair @ [single, startup]) = Inr ()"
    and d455: "camera_field (PDict cams) ''model'' d455 = Inr model" "model = PStr ''D455'' \<or> model = PStr ''D455F''"
    unfolding check_roles_def by (auto simp: res_bind_Inr_iff py_item_Inr py_list_Inr simp del: py_item.simps split: if_splits)
  obtain a b where pair: "pair = [a, b]" using two(1) by (auto simp: numeral_2_eq_2 length_Suc_conv)
  note models = check_d435_Inr [OF d435]
  obtain s t where "a = PStr s" "b = PStr t" using models camera_field_name unfolding pair by fastforce
  then have "a \<noteq> b" using two(2) py_distinct_strings [of "[s, t]"] by (simp add: pair)
  then show ?thesis using sel models d455 unfolding pair roles_ok_def camera_has_def by auto
qed


definition demo_cfg :: pyval where
  "demo_cfg = PDict
     [(''cameras'', PDict
        [(''a'', PDict [(''serial'', PStr ''1''), (''model'', PStr ''D435''), (''xhci_irq'', PInt 5), (''xhci_label'', PStr ''xhci-hcd:usb1'')]),
         (''b'', PDict [(''serial'', PStr ''2''), (''model'', PStr ''D435''), (''xhci_irq'', PInt 6), (''xhci_label'', PStr ''xhci-hcd:usb2'')]),
         (''c'', PDict [(''serial'', PStr ''3''), (''model'', PStr ''D455''), (''xhci_irq'', PInt 6), (''xhci_label'', PStr ''xhci-hcd:usb2'')])]),
      (''selection'', PDict [(''d435_pair'', PList [PStr ''a'', PStr ''b'']), (''single_d435'', PStr ''a''),
         (''startup_d435'', PStr ''b''), (''single_d455'', PStr ''c'')])]"


end
