(* ===== verification/Pipeline.thy ===== *)
theory Pipeline
  imports Reproduce Host_Sim
begin

text \<open>
  \<open>reproduction/pipeline.py\<close>: the campaign that runs all experiments across reboots. The worker is
  started by a service after every boot; what it knows of the campaign is the file
  \<open>pipeline.json\<close> and the completion markers of the stages. Its variable \<open>state\<close> is the object the
  monadic definitions work on. The kernel switch, the discovery of the cameras and the run of a stage are
  child processes. Console output, the log files of the child processes and \<open>os.sync\<close> are left out.
\<close>

section \<open>Definitions\<close>

definition SERVICE :: string where
  "SERVICE = ''rs-camera-reproduction.service''"

definition UNIT :: path where
  "UNIT = [''etc'', ''systemd'', ''system'', SERVICE]"

definition SIGNATURE :: string where
  "SIGNATURE = ''# Managed by rs-camera reproduction/pipeline.py''"

type_synonym phase = "string \<times> bool \<times> string list"

definition PHASES :: "phase list" where
  "PHASES =
     [(''rt-urb16'', False, [''e1'', ''e2-calibrate'']),
      (''standard-urb16'', True, [''ablation'', ''e3'', ''e4-calibrate'', ''e4-standard-threaded'']),
      (''standard-urb5'', False, [''e2-urb5'']),
      (''standard-urb16'', False, [''startup'', ''e2-urb16'', ''e4-standard-hardirq'', ''overhead'', ''diagnosis'']),
      (''rt-urb16'', False, [''e4-rt-threaded''])]"

text \<open>\<open>save\<close>: a temporary file that replaces the old one.\<close>

definition tmp_path :: "path \<Rightarrow> path" where
  "tmp_path p = butlast p @ [path_name p @ ''.tmp'']"

definition save :: "'w host \<Rightarrow> 'w site \<Rightarrow> path \<Rightarrow> pyval \<Rightarrow> ('o \<times> 'w, unit) py" where
  "save h si p data = py_seq (do_write_json h (tmp_path p) data) (do_effect (si_replace si (tmp_path p) p))"

definition call :: "'w host \<Rightarrow> string list \<Rightarrow> ('o \<times> 'w, unit) py" where
  "call h command = py_seq (run_checked h command) py_skip"

definition py_script :: "'w host \<Rightarrow> 'w site \<Rightarrow> string \<Rightarrow> string list \<Rightarrow> ('o \<times> 'w, unit) py" where
  "py_script h si script args = call h ([si_python si, path_str (si_here si @ path_parts script)] @ args)"

definition require_empty :: "'w host \<Rightarrow> path \<Rightarrow> ('o \<times> 'w, unit) py" where
  "require_empty h out_dir =
     ask_raise (\<lambda>w. h_exists h out_dir w \<and> h_entries h out_dir w \<noteq> []) (''Output must be new or empty: '' @ path_str out_dir)"

definition analyze :: "'w host \<Rightarrow> 'w site \<Rightarrow> path \<Rightarrow> path \<Rightarrow> bool \<Rightarrow> bool \<Rightarrow> ('o \<times> 'w, unit) py" where
  "analyze h si source out archive pdf =
     py_bind (if archive then py_return [''--archive'']
       else py_bind (ask (h_exists h (source @ [''prepared.json'']))) (\<lambda>prepared.
         py_bind (if \<not> prepared then py_return PNone
           else py_bind (load_json h (source @ [''prepared.json''])) (\<lambda>v. py_res (py_get v ''smoke'' PNone))) (\<lambda>smoke.
         py_return (if truthy smoke then [''--smoke'', ''--sections'', ''e1'', ''e2'', ''e3'', ''e4''] else [])))) (\<lambda>options.
     py_seq (py_script h si ''analyze.py'' ([''--input'', path_str source, ''--output'', path_str out] @ options))
       (py_when pdf (py_script h si ''render.py'' [path_str out])))"

subsection \<open>Phases\<close>

text \<open>\<open>('threadirqs' in cmdline.split()) == threaded\<close>\<close>

definition boot_matches_text :: "string \<Rightarrow> pyval \<Rightarrow> string \<Rightarrow> string \<Rightarrow> bool res" where
  "boot_matches_text variant threaded release cmdline =
     (case map_of VARIANTS variant of None \<Rightarrow> Inl (Exn KeyError variant)
      | Some v \<Rightarrow> Inr (release = vt_release v \<and>
          (startswith variant ''rt-'' \<or> py_eq (PBool (''threadirqs'' \<in> set (split_ws cmdline))) threaded)))"

definition boot_matches :: "'w host \<Rightarrow> 'w site \<Rightarrow> string \<Rightarrow> pyval \<Rightarrow> ('o \<times> 'w, bool) py" where
  "boot_matches h si variant threaded =
     py_bind (ask (si_release si)) (\<lambda>release.
     py_bind (do_read h [''proc'', ''cmdline'']) (\<lambda>cmdline.
     py_res (boot_matches_text variant threaded release cmdline)))"

text \<open>\<open>complete\<close>: the stage has a completion marker, and the marker is for the adapter that is there.\<close>

definition complete :: "'w host \<Rightarrow> 'w site \<Rightarrow> path \<Rightarrow> pyval \<Rightarrow> ('o \<times> 'w, bool) py" where
  "complete h si out_dir stage =
     (let marker = completion_marker out_dir (py_str stage) in
      py_bind (ask (h_exists h marker)) (\<lambda>present.
      if \<not> present then py_return False
      else py_bind (load_json h marker) (\<lambda>record.
      py_bind (py_res (py_get record ''stage'' PNone)) (\<lambda>recorded.
      py_bind (if \<not> py_eq recorded stage then py_return True
        else py_bind (py_res (py_get record ''adapter_sha256'' PNone)) (\<lambda>sha.
          py_bind (digest h si (out_dir @ [''entrypoints'', py_str stage @ ''.sh''])) (\<lambda>d. py_return (sha \<noteq> PStr d)))) (\<lambda>invalid.
      if invalid then py_raise (Exn ValueError (''Invalid completion marker: '' @ path_str marker)) else py_return True)))))"

definition SUPPLEMENTS :: "string list" where
  "SUPPLEMENTS = [''startup'', ''ablation'', ''overhead'', ''diagnosis'']"

definition phase_list :: "bool \<Rightarrow> phase list" where
  "phase_list smoke =
     (if \<not> smoke then PHASES
      else map (\<lambda>(variant, threaded, stages). (variant, threaded, filter (\<lambda>s. s \<notin> set SUPPLEMENTS) stages)) PHASES)"

definition state_path :: "path \<Rightarrow> path" where
  "state_path out_dir = out_dir @ [''pipeline.json'']"

definition phases :: "'w host \<Rightarrow> path \<Rightarrow> ('o \<times> 'w, phase list) py" where
  "phases h out_dir =
     py_bind (ask (h_exists h (state_path out_dir))) (\<lambda>present.
     py_bind (if present then load_json h (state_path out_dir) else py_return (PDict [])) (\<lambda>state.
     py_bind (py_res (py_get state ''smoke'' (PBool False))) (\<lambda>smoke.
     py_return (phase_list (truthy smoke)))))"

fun pending_stages :: "'w host \<Rightarrow> 'w site \<Rightarrow> path \<Rightarrow> string list \<Rightarrow> ('o \<times> 'w, string list) py" where
  "pending_stages h si out_dir [] = py_return []"
| "pending_stages h si out_dir (stage # stages) =
     py_bind (complete h si out_dir (PStr stage)) (\<lambda>ok.
     py_bind (pending_stages h si out_dir stages) (\<lambda>rest. py_return (if ok then rest else stage # rest)))"

fun first_pending :: "'w host \<Rightarrow> 'w site \<Rightarrow> path \<Rightarrow> phase list \<Rightarrow> ('o \<times> 'w, phase option) py" where
  "first_pending h si out_dir [] = py_return None"
| "first_pending h si out_dir ((variant, threaded, stages) # ps) =
     py_bind (pending_stages h si out_dir stages) (\<lambda>pending.
     if pending \<noteq> [] then py_return (Some (variant, threaded, pending)) else first_pending h si out_dir ps)"

definition next_phase :: "'w host \<Rightarrow> 'w site \<Rightarrow> path \<Rightarrow> ('o \<times> 'w, phase option) py" where
  "next_phase h si out_dir = py_bind (phases h out_dir) (first_pending h si out_dir)"

subsection \<open>Guards\<close>

definition require_pi :: "'w host \<Rightarrow> ('o \<times> 'w, unit) py" where
  "require_pi h =
     (let model = [''proc'', ''device-tree'', ''model'']; message = ''Full capture requires a configured Raspberry Pi 5; use raw or plan on a laptop'' in
      py_bind (ask (h_is_file h model)) (\<lambda>present.
      if \<not> present then py_raise (Exn ValueError message)
      else py_bind (do_read h model) (\<lambda>t. raise_if (\<not> py_contains ''Raspberry Pi 5'' t) message)))"

definition root_access :: "'w host \<Rightarrow> 'w site \<Rightarrow> string list \<Rightarrow> ('o \<times> 'w, unit) py" where
  "root_access h si argv =
     py_bind (ask (h_geteuid h)) (\<lambda>uid.
     py_when (uid \<noteq> 0)
       (py_seq (call h ([''sudo'', ''--preserve-env=SSH_CONNECTION'', si_python si, path_str (si_here si @ [''pipeline.py''])] @ argv))
          (py_raise (Exn SystemExit ''0''))))"

text \<open>\<open>re.fullmatch(r'/[A-Za-z0-9_./-]+', value)\<close>\<close>

definition path_char :: "char \<Rightarrow> bool" where
  "path_char c = (is_digit c \<or> CHR ''A'' \<le> c \<and> c \<le> CHR ''Z'' \<or> CHR ''a'' \<le> c \<and> c \<le> CHR ''z'' \<or>
     c \<in> set ''_./-'')"

definition systemd_path :: "string \<Rightarrow> string res" where
  "systemd_path value =
     (if startswith value ''/'' \<and> length value \<ge> 2 \<and> list_all path_char (tl value) then Inr value
      else value_error ''Full-mode repository/output/Python paths must be absolute without spaces or shell metacharacters'')"

definition text_lines :: "string list \<Rightarrow> string" where
  "text_lines ls = concat (map (\<lambda>l. l @ [NL]) ls)"

definition service_text :: "'w site \<Rightarrow> path \<Rightarrow> 'w \<Rightarrow> string res" where
  "service_text si out_dir w =
     res_bind (systemd_path (si_python si)) (\<lambda>executable.
     res_bind (systemd_path (path_str (si_here si @ [''pipeline.py'']))) (\<lambda>script.
     res_bind (systemd_path (path_str out_dir)) (\<lambda>destination.
     res_bind (systemd_path (path_str (site_repo si))) (\<lambda>repo.
     Inr (text_lines
       [SIGNATURE, ''[Unit]'', ''Description=rs-camera complete paper reproduction'', ''After=network-online.target'',
        ''Wants=network-online.target'', ''[Service]'', ''Type=oneshot'', ''WorkingDirectory='' @ repo,
        ''Environment=SUDO_UID='' @ str_nat (fst (si_owner si w)) @ '' SUDO_GID='' @ str_nat (snd (si_owner si w)),
        ''ExecStartPre=/usr/bin/udevadm settle --timeout=30'',
        ''ExecStart='' @ executable @ '' '' @ script @ '' _worker --output '' @ destination,
        ''TimeoutStartSec=infinity'', ''TimeoutStopSec=120'', ''KillMode=control-group'', ''Restart=no'', ''UMask=0022'',
        ''[Install]'', ''WantedBy=multi-user.target''])))))"

definition check_unit_available :: "'w host \<Rightarrow> 'w site \<Rightarrow> path \<Rightarrow> bool \<Rightarrow> ('o \<times> 'w, unit) py" where
  "check_unit_available h si out_dir resuming =
     py_bind (ask (h_exists h UNIT)) (\<lambda>present.
     py_when present
      (py_bind (do_read h UNIT) (\<lambda>unit_text.
       py_seq (raise_if (\<not> startswith unit_text SIGNATURE) (''Refusing to replace an unrelated service: '' @ path_str UNIT))
      (py_bind (run_checked h [''systemctl'', ''show'', ''--property=ActiveState'', ''--value'', SERVICE]) (\<lambda>c.
       py_seq (raise_if (strip (stdout c) \<in> set [''active'', ''activating'', ''deactivating'', ''reloading''])
           ''A full reproduction is already running; inspect status first'')
      (py_seq (py_when resuming (py_bind (do_read h UNIT) (\<lambda>t. py_bind (ask_res (service_text si out_dir)) (\<lambda>expected.
           raise_if (t \<noteq> expected) ''Installed service belongs to a different output directory''))))
      (py_bind (do_run h \<lparr>rq_command = [''systemctl'', ''is-enabled'', ''--quiet'', SERVICE], rq_input = None, rq_timeout = None\<rparr>) (\<lambda>e.
       raise_if (returncode e = 0 \<and> \<not> resuming) ''An unfinished service is enabled; use status/resume/stop''))))))))"

definition verify_sources :: "'w host \<Rightarrow> 'w site \<Rightarrow> path \<Rightarrow> ('o \<times> 'w, unit) py" where
  "verify_sources h si out_dir =
     py_bind (ask_res (\<lambda>w. of_host (si_source_manifest si (out_dir @ [''source-snapshot.tar.gz'']) w))) (\<lambda>manifest.
     py_for manifest (\<lambda>(relative, expected).
       py_bind (digest h si (site_repo si @ path_parts relative)) (\<lambda>d.
       raise_if (d \<noteq> expected) (''Frozen source changed: '' @ relative @ ''; preserve this campaign and use a new output''))))"

definition BOOT_FILES :: "path list" where
  "BOOT_FILES = [''boot'', ''firmware'', ''config.txt''] # map (\<lambda>(_, v). [''boot'', ''firmware'', vt_prefix v, ''cmdline.txt'']) VARIANTS"

definition WLAN :: path where
  "WLAN = [''sys'', ''class'', ''net'', ''wlan0'']"

definition before_path :: "path \<Rightarrow> path" where
  "before_path out_dir = out_dir @ [''system-before.json'']"

definition snapshot_system :: "'w host \<Rightarrow> 'w site \<Rightarrow> path \<Rightarrow> ('o \<times> 'w, unit) py" where
  "snapshot_system h si out_dir =
     py_bind (py_map BOOT_FILES (\<lambda>p. py_bind (do_read h p) (\<lambda>t. py_return (path_str p, PStr t)))) (\<lambda>originals.
     py_bind (ask (h_exists h (WLAN @ [''operstate'']))) (\<lambda>has_wifi.
     py_bind (if has_wifi then do_read h (WLAN @ [''operstate'']) else py_return []) (\<lambda>t.
     save h si (before_path out_dir)
       (PDict [(''boot_files'', PDict originals), (''wifi_up'', PBool (has_wifi \<and> strip t = ''up''))]))))"

definition restore_system :: "'w host \<Rightarrow> path \<Rightarrow> ('o \<times> 'w, unit) py" where
  "restore_system h out_dir =
     py_bind (load_json h (before_path out_dir)) (\<lambda>snap.
     py_bind (py_res (res_bind (py_item snap ''boot_files'') (\<lambda>v.
         case v of PDict d \<Rightarrow> Inr d | _ \<Rightarrow> Inl (Exn AttributeError ''items'')))) (\<lambda>files.
     py_seq (py_for files (\<lambda>(name, t). case t of
         PStr s \<Rightarrow> do_write_text h (path_parts name) s
       | _ \<Rightarrow> py_raise (Exn TypeError ''data must be str'')))
    (py_bind (py_res (py_item snap ''wifi_up'')) (\<lambda>wifi_up.
     py_when (truthy wifi_up) (call h [''ip'', ''link'', ''set'', ''dev'', ''wlan0'', ''up''])))))"

definition eth_up :: "'w host \<Rightarrow> ('o \<times> 'w, bool) py" where
  "eth_up h =
     (let eth = [''sys'', ''class'', ''net'', ''eth0'', ''operstate''] in
      py_bind (ask (h_exists h eth)) (\<lambda>present.
      if \<not> present then py_return False else py_bind (do_read h eth) (\<lambda>t. py_return (strip t = ''up''))))"

definition wired_round :: "'w host \<Rightarrow> rat \<Rightarrow> ('o \<times> 'w, unit option) py" where
  "wired_round h deadline =
     py_bind (eth_up h) (\<lambda>up.
     if up then py_return (Some ())
     else py_bind (do_monotonic h) (\<lambda>t.
       if deadline \<le> t then py_raise (Exn ValueError ''Full mode requires an active eth0 connection before disabling Wi-Fi'')
       else py_seq (do_sleep h 1) (py_return None)))"

definition check_wired :: "'w host \<Rightarrow> 'w site \<Rightarrow> nat \<Rightarrow> ('o \<times> 'w, unit) py" where
  "check_wired h si wait_seconds =
     py_bind (do_monotonic h) (\<lambda>t.
     py_seq (py_loop (wait_seconds + 2) (wired_round h (t + of_nat wait_seconds)))
    (py_bind (ask (si_ssh_connection si)) (\<lambda>connection.
     case split_ws connection of
       [] \<Rightarrow> py_skip
     | peer # _ \<Rightarrow> py_bind (run_checked h [''ip'', ''route'', ''get'', peer]) (\<lambda>c.
         raise_if (\<not> py_contains ''dev eth0'' (stdout c)) ''Reconnect SSH through Ethernet before starting full mode''))))"

subsection \<open>The worker\<close>

definition current_boot_id :: "'w host \<Rightarrow> ('o \<times> 'w, string) py" where
  "current_boot_id h = py_bind (do_read h [''proc'', ''sys'', ''kernel'', ''random'', ''boot_id'']) (\<lambda>t. py_return (strip t))"

definition do_prepare :: "'w site \<Rightarrow> path \<Rightarrow> pyval \<Rightarrow> bool \<Rightarrow> pyval \<Rightarrow> pyval \<Rightarrow> ('o \<times> 'w, unit) py" where
  "do_prepare si out_dir cfg allow_irq_refresh smoke calibration_seconds =
     (\<lambda>(ob, w). let (r, w') = si_prepare si out_dir cfg allow_irq_refresh smoke calibration_seconds w in (r, (ob, w')))"

definition config_path :: "path \<Rightarrow> path" where
  "config_path out_dir = out_dir @ [''camera-config.json'']"

definition refresh_boot_config :: "'w host \<Rightarrow> 'w site \<Rightarrow> path \<Rightarrow> string \<Rightarrow> ('o \<times> 'w, unit) py" where
  "refresh_boot_config h si out_dir boot_id =
     (let folder = out_dir @ [''boot-inventories'', boot_id]; config = folder @ [''config.json'']; prepared = out_dir @ [''prepared.json''] in
      py_seq (do_mkdir h folder)
     (py_seq (do_effect (si_copy si (config_path out_dir) config))
     (py_seq (py_script h si ''setup/discover.py'' [''--output'', path_str config, ''--inventory'', path_str (folder @ [''inventory.json''])])
     (py_bind (load_config_file h (config_path out_dir)) (\<lambda>old.
      py_bind (load_config_file h config) (\<lambda>new.
      py_bind (py_res (camera_identity old)) (\<lambda>old_identity.
      py_bind (py_res (camera_identity new)) (\<lambda>new_identity.
      py_seq (raise_if (\<not> py_eq old_identity new_identity)
          ''Camera identities/roles changed across boots; refusing to combine experiments'')
     (py_bind (load_json h prepared) (\<lambda>previous.
      py_bind (py_res (res_bind (py_item previous ''entrypoints'') (\<lambda>v.
          case v of PDict d \<Rightarrow> Inr d | _ \<Rightarrow> Inl (Exn AttributeError ''items'')))) (\<lambda>entrypoints.
      py_seq (py_for entrypoints (\<lambda>(name, sha).
          py_bind (digest h si (out_dir @ [''entrypoints'', name])) (\<lambda>d.
          raise_if (PStr d \<noteq> sha) (''Prepared adapter was modified: '' @ name))))
     (py_seq (py_when (\<not> py_eq old new)
        (py_seq (save h si (folder @ [''prepared-before-irq-refresh.json'']) previous)
        (py_bind (py_res (py_get previous ''smoke'' (PBool False))) (\<lambda>smoke.
         py_bind (py_res (py_get previous ''calibration_seconds'' (PInt 30))) (\<lambda>seconds.
         py_seq (do_prepare si out_dir new True smoke seconds)
           (do_effect (si_copy si config (config_path out_dir))))))))
     (py_bind (load_json h prepared) (\<lambda>now_prepared.
      save h si (folder @ [''prepared.json'']) now_prepared))))))))))))))"

text \<open>\<open>state.update(...)\<close> followed by \<open>save(root/'pipeline.json', state)\<close>\<close>

definition save_state :: "'w host \<Rightarrow> 'w site \<Rightarrow> path \<Rightarrow> pydict \<Rightarrow> (pydict \<times> 'w, unit) py" where
  "save_state h si out_dir entries =
     py_seq (self_upd (\<lambda>state. dict_update state entries))
    (py_bind (self_get id) (\<lambda>state. save h si (state_path out_dir) (PDict state)))"

text \<open>A stage that was active when the last worker ended must have been completed.\<close>

definition check_interrupted :: "'w host \<Rightarrow> 'w site \<Rightarrow> path \<Rightarrow> string \<Rightarrow> pydict \<Rightarrow> ('o \<times> 'w, unit) py" where
  "check_interrupted h si out_dir message state =
     (let stage = dict_get state ''active_stage'' PNone in
      py_when (truthy stage) (py_bind (complete h si out_dir stage) (\<lambda>ok. raise_if (\<not> ok) message)))"

text \<open>A boot that was asked for must have happened.\<close>

definition check_pending_boot :: "'w host \<Rightarrow> 'w site \<Rightarrow> string \<Rightarrow> (pydict \<times> 'w, unit) py" where
  "check_pending_boot h si boot_id =
     py_bind (self_get (\<lambda>state. dict_get state ''pending_boot'' PNone)) (\<lambda>pending.
     py_when (truthy pending)
      (py_bind (py_res (py_item pending ''boot_id'')) (\<lambda>asked.
       py_bind (if asked = PStr boot_id then py_return False
         else py_bind (py_res (py_item pending ''variant'')) (\<lambda>variant.
           py_bind (py_res (py_item pending ''threaded'')) (\<lambda>threaded.
           case variant of
             PStr v \<Rightarrow> boot_matches h si v threaded
           | _ \<Rightarrow> py_raise (Exn KeyError (py_str variant))))) (\<lambda>ok.
       py_seq (raise_if (\<not> ok) ''Requested kernel boot did not complete; automatic reboot retry disabled'')
         (self_upd (dict_set ''pending_boot'' PNone))))))"

definition reproduce_arguments :: "path \<Rightarrow> string list" where
  "reproduce_arguments out_dir = [''--output'', path_str out_dir, ''--config'', path_str (config_path out_dir)]"

definition worker_stage :: "'w host \<Rightarrow> 'w site \<Rightarrow> path \<Rightarrow> string \<Rightarrow> (pydict \<times> 'w, unit) py" where
  "worker_stage h si out_dir stage =
     py_seq (py_script h si ''reproduce.py'' (reproduce_arguments out_dir @ [''check'', stage]))
    (py_seq (do_mkdir h (out_dir @ [''environment'']))
    (py_bind (load_json h (out_dir @ [''prepared.json''])) (\<lambda>prepared.
     py_seq (save h si (out_dir @ [''environment'', stage @ ''-prepared.json'']) prepared)
    (py_seq (save_state h si out_dir [(''active_stage'', PStr stage)])
    (py_seq (py_script h si ''reproduce.py'' (reproduce_arguments out_dir @ [''run'', stage]))
    (py_bind (complete h si out_dir (PStr stage)) (\<lambda>ok.
     py_seq (raise_if (\<not> ok) (''No valid completion marker for '' @ stage))
       (save_state h si out_dir [(''active_stage'', PNone)]))))))))"

text \<open>The switch to another kernel.\<close>

definition request_boot :: "'w host \<Rightarrow> 'w site \<Rightarrow> path \<Rightarrow> string \<Rightarrow> string \<Rightarrow> bool \<Rightarrow> (pydict \<times> 'w, unit) py" where
  "request_boot h si out_dir boot_id variant threaded =
     py_seq (py_script h si ''setup/kernel.py'' ([''select'', variant, ''--apply''] @ (if threaded then [''--threadirqs''] else [])))
    (py_seq (save_state h si out_dir [(''status'', PStr ''rebooting''), (''pending_boot'', PDict
         [(''variant'', PStr variant), (''threaded'', PBool threaded), (''boot_id'', PStr boot_id)])])
       (call h [''systemctl'', ''reboot'']))"

text \<open>One round of the loop over the phases: \<open>Some True\<close> when a reboot was requested, \<open>Some False\<close> when all is done.\<close>

definition worker_round :: "'w host \<Rightarrow> 'w site \<Rightarrow> path \<Rightarrow> string \<Rightarrow> (pydict \<times> 'w, bool option) py" where
  "worker_round h si out_dir boot_id =
     py_bind (next_phase h si out_dir) (\<lambda>phase.
     case phase of
       None \<Rightarrow> py_return (Some False)
     | Some (variant, threaded, stages) \<Rightarrow>
         py_bind (boot_matches h si variant (PBool threaded)) (\<lambda>ok.
         if \<not> ok then py_seq (request_boot h si out_dir boot_id variant threaded) (py_return (Some True))
         else py_seq (py_for stages (worker_stage h si out_dir)) (py_return None)))"

definition worker_finish :: "'w host \<Rightarrow> 'w site \<Rightarrow> path \<Rightarrow> (pydict \<times> 'w, unit) py" where
  "worker_finish h si out_dir =
     (let derived = out_dir @ [''derived''] in
      py_bind (ask (h_exists h derived)) (\<lambda>present.
      py_seq (py_when (\<not> present)
        (py_bind (do_effect (si_mkdtemp si out_dir)) (\<lambda>attempt.
         py_seq (analyze h si out_dir attempt False False) (do_effect (si_replace si attempt derived)))))
     (py_seq (ask_raise (\<lambda>w. \<not> h_exists h (derived @ [''manifest.json'']) w)
         ''Incomplete derived output; preserve it before retrying analysis'')
     (py_bind (self_get id) (\<lambda>state.
      py_bind (py_res (py_item (PDict state) ''pdf'')) (\<lambda>pdf.
      py_seq (py_when (truthy pdf) (py_script h si ''render.py'' [path_str derived]))
     (py_seq (restore_system h out_dir)
     (py_bind (ask (si_now si)) (\<lambda>t.
      py_seq (save_state h si out_dir [(''status'', PStr ''complete''), (''completed_at'', PStr t), (''derived'', PStr (path_str derived))])
        (call h [''systemctl'', ''disable'', SERVICE]))))))))))"

definition worker_body :: "'w host \<Rightarrow> 'w site \<Rightarrow> nat \<Rightarrow> path \<Rightarrow> (pydict \<times> 'w, unit) py" where
  "worker_body h si fuel out_dir =
     py_seq (verify_sources h si out_dir)
    (py_seq (check_wired h si 60)
    (py_bind (self_get id) (\<lambda>state.
     py_seq (check_interrupted h si out_dir (py_str (dict_get state ''active_stage'' PNone) @
         '' was interrupted without a completion marker; keep partial data and start a new campaign'') state)
    (py_bind (current_boot_id h) (\<lambda>boot_id.
     py_seq (check_pending_boot h si boot_id)
    (py_seq (save_state h si out_dir [(''status'', PStr ''running''), (''active_stage'', PNone)])
    (py_seq (refresh_boot_config h si out_dir boot_id)
    (py_bind (ask (h_exists h WLAN)) (\<lambda>wlan.
     py_seq (py_when wlan (call h [''ip'', ''link'', ''set'', ''dev'', ''wlan0'', ''down'']))
    (py_bind (py_loop fuel (worker_round h si out_dir boot_id)) (\<lambda>rebooting.
     if rebooting then py_skip else worker_finish h si out_dir)))))))))))"

text \<open>\<open>try: m finally: n\<close>, and \<open>except BaseException\<close>, which catches everything but the end of the fuel.\<close>

definition py_finally :: "('s, 'a) py \<Rightarrow> ('s, unit) py \<Rightarrow> ('s, 'a) py" where
  "py_finally m n = (\<lambda>s. case m s of (r, s') \<Rightarrow> (case n s' of (Inl e, s'') \<Rightarrow> (Inl e, s'') | (Inr _, s'') \<Rightarrow> (r, s'')))"

definition py_catch_base :: "('s, 'a) py \<Rightarrow> (exn \<Rightarrow> ('s, 'a) py) \<Rightarrow> ('s, 'a) py" where
  "py_catch_base m f = (\<lambda>s. case m s of
      (Inl e, s') \<Rightarrow> if exn_kind e = Diverged then (Inl e, s') else f e s'
    | (Inr a, s') \<Rightarrow> (Inr a, s'))"

definition worker_failed :: "'w host \<Rightarrow> 'w site \<Rightarrow> path \<Rightarrow> exn \<Rightarrow> (pydict \<times> 'w, unit) py" where
  "worker_failed h si out_dir e =
     py_bind (ask (si_now si)) (\<lambda>t.
     py_seq (save_state h si out_dir [(''status'', PStr ''failed''), (''error'', PStr (exn_msg e)), (''failed_at'', PStr t)])
    (py_seq (py_finally (restore_system h out_dir) (call h [''systemctl'', ''disable'', SERVICE]))
       (py_raise e)))"

definition worker :: "'w host \<Rightarrow> 'w site \<Rightarrow> nat \<Rightarrow> path \<Rightarrow> (pydict \<times> 'w, unit) py" where
  "worker h si fuel out_dir =
     py_seq (require_pi h)
    (py_seq (ask_raise (\<lambda>w. h_geteuid h w \<noteq> 0) ''Worker must run in the installed root service'')
    (py_seq (do_mkdir h (out_dir @ [''private-tmp'']))
    (py_bind (load_json h (state_path out_dir)) (\<lambda>v.
     py_bind (py_res (py_item v ''repo'')) (\<lambda>repo.
     py_seq (raise_if (repo \<noteq> PStr (path_str (site_repo si))) ''Repository moved since preparation'')
    (py_seq (self_upd (\<lambda>_. case v of PDict d \<Rightarrow> d | _ \<Rightarrow> []))
    (py_seq (do_effect (si_flock si (out_dir @ [''pipeline.lock''])))
       (py_catch_base (worker_body h si fuel out_dir) (worker_failed h si out_dir)))))))))"

subsection \<open>Starting and controlling a campaign\<close>

text \<open>\<open>check_dependencies\<close> of \<open>render.py\<close>; \<open>kpsewhich\<close> stands for the path found for it.\<close>

definition check_tex :: "'w host \<Rightarrow> ('o \<times> 'w, unit) py" where
  "check_tex h =
     py_bind (ask (\<lambda>w. h_which h ''pdflatex'' w \<and> h_which h ''kpsewhich'' w)) (\<lambda>found.
     if \<not> found then py_raise (Exn RuntimeError
       ''PDF rendering needs pdflatex and kpsewhich; install texlive-latex-extra texlive-pictures, or use --no-pdf'')
     else py_for [''standalone.cls'', ''booktabs.sty'', ''array.sty'', ''pgfplots.sty''] (\<lambda>package.
       py_bind (do_run h \<lparr>rq_command = [''kpsewhich'', package], rq_input = None, rq_timeout = None\<rparr>) (\<lambda>c.
       if returncode c \<noteq> 0 \<or> strip (stdout c) = []
       then py_raise (Exn RuntimeError (''Missing TeX package: '' @ package @ ''; install texlive-latex-extra texlive-pictures''))
       else py_skip)))"

definition check_script :: "'w site \<Rightarrow> string list \<Rightarrow> string list" where
  "check_script si options = [si_python si, path_str (site_repo si @ [''scripts'', ''check_dependencies.py''])] @ options"

definition require_analysis :: "'w host \<Rightarrow> 'w site \<Rightarrow> bool \<Rightarrow> ('o \<times> 'w, unit) py" where
  "require_analysis h si pdf =
     py_seq (call h (check_script si [''--sources'', ''--python'']))
    (py_seq (call h [si_python si, ''-c'', ''import numpy; import benchkit''])
    (py_seq (py_for [''paper_metrics.py'', ''e4_scheduling/metrics.py'', ''e4_scheduling/tikz.py''] (\<lambda>name.
        ask_raise (\<lambda>w. \<not> h_is_file h (si_here si @ path_parts name) w) (''Missing tracked reproduction helper: '' @ name)))
       (py_when pdf (check_tex h))))"

text \<open>The analysis of an archive.\<close>

definition raw_body :: "'w host \<Rightarrow> 'w site \<Rightarrow> path \<Rightarrow> path \<Rightarrow> bool \<Rightarrow> (pydict \<times> 'w, unit) py" where
  "raw_body h si source out_dir pdf =
     py_bind (ask (h_is_file h (source @ [''SHA256SUMS'']))) (\<lambda>has_sums.
     py_seq (py_when has_sums (call h [''sha256sum'', ''--check'', ''--quiet'', ''SHA256SUMS'']))
    (py_seq (save_state h si out_dir [(''checksums'', PStr (if has_sums then ''verified''
         else ''no SHA256SUMS supplied; analysis manifest records consumed input hashes''))])
    (py_seq (analyze h si source (out_dir @ [''derived'']) True pdf)
    (py_bind (ask (si_now si)) (\<lambda>t.
     save_state h si out_dir [(''status'', PStr ''complete''), (''completed_at'', PStr t)])))))"

definition raw :: "'w host \<Rightarrow> 'w site \<Rightarrow> path \<Rightarrow> path \<Rightarrow> bool \<Rightarrow> (pydict \<times> 'w, unit) py" where
  "raw h si source out_dir pdf =
     py_seq (ask_raise (\<lambda>w. \<not> h_is_dir h source w) (''Missing raw-data package: '' @ path_str source))
    (py_seq (raise_if (prefix source out_dir) ''Keep generated output outside the raw-data package'')
    (py_seq (require_empty h out_dir)
    (py_seq (require_analysis h si pdf)
    (py_seq (do_mkdir h out_dir)
    (py_bind (ask (si_now si)) (\<lambda>t.
     py_seq (self_upd (\<lambda>_. []))
    (py_seq (save_state h si out_dir [(''level'', PStr ''raw''), (''status'', PStr ''running''), (''source'', PStr (path_str source)),
         (''started_at'', PStr t), (''pdf'', PBool pdf)])
       (py_catch_base (raw_body h si source out_dir pdf)
         (\<lambda>e. py_seq (save_state h si out_dir [(''status'', PStr ''failed''), (''error'', PStr (exn_msg e))]) (py_raise e))))))))))"

record full_args =
  fa_output :: path
  fa_config :: path
  fa_smoke :: bool
  fa_calibration_seconds :: int
  fa_pdf :: bool
  fa_argv :: "string list"

definition full :: "'w host \<Rightarrow> 'w site \<Rightarrow> full_args \<Rightarrow> ('o \<times> 'w, unit) py" where
  "full h si args =
     (let out_dir = fa_output args; config = config_path (fa_output args) in
      py_seq (require_pi h)
     (py_bind (ask (h_geteuid h)) (\<lambda>uid.
      py_seq (py_when (uid \<noteq> 0) (call h (check_script si [''--rust''])))
     (py_seq (root_access h si (fa_argv args))
     (py_seq (require_empty h out_dir)
     (py_bind (ask_res (service_text si out_dir)) (\<lambda>unit_text.
      py_seq (check_unit_available h si out_dir False)
     (py_seq (require_analysis h si (fa_pdf args))
     (py_seq (check_wired h si 0)
     (py_seq (call h (check_script si [''--system'']))
     (py_seq (py_for (map fst VARIANTS) (\<lambda>v. py_script h si ''setup/kernel.py'' [''select'', v]))
     (py_seq (do_mkdir h out_dir)
     (py_bind (ask (h_exists h (fa_config args))) (\<lambda>given.
      py_seq (py_when given (do_effect (si_copy si (fa_config args) config)))
     (py_seq (py_script h si ''setup/discover.py'' [''--output'', path_str config, ''--inventory'', path_str (out_dir @ [''camera-inventory.json''])])
     (py_bind (load_config_file h config) (\<lambda>cfg.
      py_bind (check_stage h si (site_repo si) out_dir ''e1'' cfg) (\<lambda>found.
      let errors = filter (\<lambda>e. \<not> startswith e ''Boot kernel '' \<and> \<not> startswith e ''Paper runs disable Wi-Fi'') found in
      py_seq (raise_if (errors \<noteq> []) (py_join [NL] errors))
     (py_seq (do_prepare si out_dir cfg False (PBool (fa_smoke args)) (PInt (fa_calibration_seconds args)))
     (py_seq (py_script h si ''bundle_sources.py'' [''--output'', path_str (out_dir @ [''source-snapshot.tar.gz'']), ''--exclude'', path_str out_dir])
     (py_seq (snapshot_system h si out_dir)
     (py_bind (ask (si_now si)) (\<lambda>t.
      py_seq (save h si (state_path out_dir) (PDict
          [(''level'', PStr ''full''), (''status'', PStr ''queued''), (''repo'', PStr (path_str (site_repo si))), (''started_at'', PStr t),
           (''pdf'', PBool (fa_pdf args)), (''smoke'', PBool (fa_smoke args)),
           (''calibration_seconds'', PInt (fa_calibration_seconds args)), (''active_stage'', PNone), (''pending_boot'', PNone)]))
     (py_seq (do_write_text h UNIT unit_text)
     (py_seq (call h [''systemctl'', ''daemon-reload''])
     (py_seq (call h [''systemctl'', ''enable'', SERVICE])
        (call h [''systemctl'', ''start'', ''--no-block'', SERVICE])))))))))))))))))))))))))))"

text \<open>\<open>status\<close>, \<open>resume\<close> and \<open>stop\<close>; \<open>status\<close> returns the completed stages it prints.\<close>

datatype control_action = Status | Resume | Stop

definition completed_stages :: "'w host \<Rightarrow> 'w site \<Rightarrow> path \<Rightarrow> ('o \<times> 'w, string list) py" where
  "completed_stages h si out_dir =
     py_bind (phases h out_dir) (\<lambda>ps.
     let stages = concat (map (snd \<circ> snd) ps) in
     py_bind (pending_stages h si out_dir stages) (\<lambda>pending. py_return (filter (\<lambda>s. s \<notin> set pending) stages)))"

definition load_state :: "'w host \<Rightarrow> path \<Rightarrow> ('o \<times> 'w, pydict) py" where
  "load_state h out_dir = py_bind (load_json h (state_path out_dir)) (\<lambda>v.
     py_res (case v of PDict d \<Rightarrow> Inr d | _ \<Rightarrow> Inl (Exn TypeError ''indices must be integers'')))"

definition stop_campaign :: "'w host \<Rightarrow> 'w site \<Rightarrow> path \<Rightarrow> (pydict \<times> 'w, unit) py" where
  "stop_campaign h si out_dir =
     py_seq (call h [''systemctl'', ''disable'', ''--now'', SERVICE])
    (py_bind (load_state h out_dir) (\<lambda>state.
     py_seq (self_upd (\<lambda>_. state))
    (py_seq (restore_system h out_dir)
    (py_bind (ask (si_now si)) (\<lambda>t.
     save_state h si out_dir [(''status'', PStr ''stopped''), (''stopped_at'', PStr t)])))))"

definition resume_campaign :: "'w host \<Rightarrow> 'w site \<Rightarrow> path \<Rightarrow> (pydict \<times> 'w, unit) py" where
  "resume_campaign h si out_dir =
     py_seq (check_unit_available h si out_dir True)
    (py_bind (self_get id) (\<lambda>state.
     py_seq (check_interrupted h si out_dir ''Interrupted acquisition cannot be resumed safely; use a new output'' state)
    (py_seq (verify_sources h si out_dir)
    (py_seq (check_wired h si 0)
    (py_seq (save_state h si out_dir [(''status'', PStr ''queued''), (''pending_boot'', PNone)])
    (py_seq (call h [''systemctl'', ''enable'', SERVICE])
       (call h [''systemctl'', ''start'', ''--no-block'', SERVICE])))))))"

definition control :: "'w host \<Rightarrow> 'w site \<Rightarrow> string list \<Rightarrow> control_action \<Rightarrow> path \<Rightarrow> (pydict \<times> 'w, string list) py" where
  "control h si argv action out_dir =
     py_bind (load_state h out_dir) (\<lambda>state.
     py_seq (self_upd (\<lambda>_. state))
    (py_bind (py_res (py_item (PDict state) ''level'')) (\<lambda>level.
     if action = Status then (if level = PStr ''full'' then completed_stages h si out_dir else py_return [])
     else
     py_seq (raise_if (level \<noteq> PStr ''full'') ''resume/stop apply only to full-mode campaigns'')
    (py_bind (py_res (py_item (PDict state) ''status'')) (\<lambda>status.
     if status = PStr ''complete'' then
       (if action = Stop then py_return [] else py_raise (Exn ValueError ''Campaign already complete''))
     else
     py_seq (require_pi h)
    (py_seq (root_access h si argv)
    (py_bind (ask (h_exists h UNIT)) (\<lambda>present.
     py_bind (if \<not> present then py_return False
       else py_bind (do_read h UNIT) (\<lambda>t. py_bind (ask_res (service_text si out_dir)) (\<lambda>expected. py_return (t = expected)))) (\<lambda>installed.
     py_seq (raise_if (\<not> installed) ''Output does not match the installed reproduction service'')
    (py_seq (if action = Stop then stop_campaign h si out_dir else resume_campaign h si out_dir)
       (py_return [])))))))))))"

section \<open>Lemmas\<close>

lemma wp_do_effect [wp_simps]:
  "wp (do_effect f) Q E (ob, w) =
     (case f w of (Inl e, w') \<Rightarrow> E (host_exn e) (ob, w') | (Inr a, w') \<Rightarrow> Q a (ob, w'))"
  by (auto simp: wp_def of_host_def do_effect_def split: prod.splits sum.splits)

lemma wp_catch_base:
  "wp (py_catch_base m f) Q E s = wp m Q (\<lambda>e s'. if exn_kind e = Diverged then E e s' else wp (f e) Q E s') s"
  by (auto simp: wp_def py_catch_base_def split: prod.splits sum.splits)

subsection \<open>Completed stages\<close>

text \<open>The stage has a valid completion marker in the world \<open>w\<close>.\<close>

definition stage_done :: "'w host \<Rightarrow> 'w site \<Rightarrow> path \<Rightarrow> string \<Rightarrow> 'w \<Rightarrow> bool" where
  "stage_done h si out_dir stage w \<longleftrightarrow> fst (complete h si out_dir (PStr stage) ((), w)) = Inr True"

lemma complete_pure: "complete h si out_dir v (ob, w) = (fst (complete h si out_dir v ((), w)), (ob, w))"
  unfolding complete_def load_json_def digest_def Let_def
  by (simp add: py_defs ask_def ask_res_def do_read_def split: sum.splits)

lemma wp_complete:
  "wp (complete h si out_dir v) Q E (ob, w) =
     (case fst (complete h si out_dir v ((), w)) of Inl e \<Rightarrow> E e (ob, w) | Inr b \<Rightarrow> Q b (ob, w))"
  unfolding wp_def complete_pure [of h si out_dir v ob w] by (simp split: sum.splits)

lemma wp_complete_stage:
  assumes "\<And>e. E e (ob, w)" "stage_done h si out_dir s w \<Longrightarrow> Q True (ob, w)"
    "\<not> stage_done h si out_dir s w \<Longrightarrow> Q False (ob, w)"
  shows "wp (complete h si out_dir (PStr s)) Q E (ob, w)"
proof (cases "fst (complete h si out_dir (PStr s) ((), w))")
  case (Inr b)
  then show ?thesis using assms by (cases b) (simp_all add: wp_complete stage_done_def)
qed (simp add: wp_complete assms(1))

lemma wp_pending_stages:
  assumes "\<And>e. E e (ob, w)" "Q (filter (\<lambda>s. \<not> stage_done h si out_dir s w) ss) (ob, w)"
  shows "wp (pending_stages h si out_dir ss) Q E (ob, w)"
  using assms(2)
proof (induction ss arbitrary: Q)
  case (Cons s ss)
  show ?case unfolding pending_stages.simps wp_bind
    by (rule wp_complete_stage) (use Cons assms(1) in \<open>auto simp: wp_simps intro!: Cons.IH\<close>)
qed (simp add: wp_simps)

text \<open>A phase can start when all stages of the phases before it are completed.\<close>

definition phase_open :: "'w host \<Rightarrow> 'w site \<Rightarrow> path \<Rightarrow> phase list \<Rightarrow> phase \<Rightarrow> 'w \<Rightarrow> bool" where
  "phase_open h si out_dir ps p w \<longleftrightarrow>
     (\<exists>earlier later. ps = earlier @ p # later \<and> (\<forall>(_, _, ss) \<in> set earlier. \<forall>s \<in> set ss. stage_done h si out_dir s w))"

definition all_done :: "'w host \<Rightarrow> 'w site \<Rightarrow> path \<Rightarrow> phase list \<Rightarrow> 'w \<Rightarrow> bool" where
  "all_done h si out_dir ps w \<longleftrightarrow> (\<forall>(_, _, ss) \<in> set ps. \<forall>s \<in> set ss. stage_done h si out_dir s w)"

lemma wp_first_pending:
  assumes "\<And>e. E e (ob, w)" "all_done h si out_dir ps w \<Longrightarrow> Q None (ob, w)"
    "\<And>v t ss. phase_open h si out_dir ps (v, t, ss) w \<Longrightarrow> \<exists>s \<in> set ss. \<not> stage_done h si out_dir s w \<Longrightarrow>
       Q (Some (v, t, filter (\<lambda>s. \<not> stage_done h si out_dir s w) ss)) (ob, w)"
  shows "wp (first_pending h si out_dir ps) Q E (ob, w)"
proof -
  have "all_done h si out_dir before w \<Longrightarrow> ps = before @ rest \<Longrightarrow> wp (first_pending h si out_dir rest) Q E (ob, w)" for before rest
  proof (induction rest arbitrary: before)
    case Nil
    then show ?case using assms(2) by (simp add: wp_simps)
  next
    case (Cons p rest)
    obtain v t ss where p: "p = (v, t, ss)" by (cases p)
    have here: "phase_open h si out_dir ps (v, t, ss) w"
      using Cons.prems unfolding phase_open_def all_done_def p by blast
    show ?case unfolding p first_pending.simps wp_bind
    proof (rule wp_pending_stages)
      show "wp (if filter (\<lambda>s. \<not> stage_done h si out_dir s w) ss \<noteq> [] then py_return (Some (v, t, filter (\<lambda>s. \<not> stage_done h si out_dir s w) ss))
          else first_pending h si out_dir rest) Q E (ob, w)"
      proof (cases "\<exists>s \<in> set ss. \<not> stage_done h si out_dir s w")
        case True
        then show ?thesis using assms(3) [OF here] by (auto simp: wp_simps filter_empty_conv)
      next
        case False
        then have "all_done h si out_dir (before @ [p]) w" using Cons.prems(1) by (auto simp: all_done_def p)
        then show ?thesis using False Cons.IH [of "before @ [p]"] Cons.prems(2) by (simp add: filter_empty_conv)
      qed
    qed (rule assms(1))
  qed
  from this [of "[]" ps] show ?thesis by (simp add: all_done_def)
qed

lemma wp_next_phase:
  assumes "\<And>e. E e (ob, w)" "\<And>smoke. all_done h si out_dir (phase_list smoke) w \<Longrightarrow> Q None (ob, w)"
    "\<And>smoke v t ss. phase_open h si out_dir (phase_list smoke) (v, t, ss) w \<Longrightarrow> \<exists>s \<in> set ss. \<not> stage_done h si out_dir s w \<Longrightarrow>
       Q (Some (v, t, filter (\<lambda>s. \<not> stage_done h si out_dir s w) ss)) (ob, w)"
  shows "wp (next_phase h si out_dir) Q E (ob, w)"
proof -
  have "wp (first_pending h si out_dir (phase_list smoke)) Q E (ob, w)" for smoke
    by (rule wp_first_pending) (use assms in blast)+
  then show ?thesis
    unfolding next_phase_def phases_def load_json_def by (auto simp: wp_simps assms(1) split: sum.splits)
qed

subsection \<open>Commands under watch\<close>

text \<open>
  A command that neither runs a stage nor reboots the machine.
\<close>

definition harmless :: "string list \<Rightarrow> bool" where
  "harmless cmd = (cmd \<noteq> [''systemctl'', ''reboot''] \<and> (case rev cmd of _ # x # _ \<Rightarrow> x \<noteq> ''run'' | _ \<Rightarrow> True))"

text \<open>Arguments of a script that do not end with \<open>run\<close> and a stage.\<close>

definition plain_args :: "string list \<Rightarrow> bool" where
  "plain_args args = (args \<noteq> [] \<and> (case rev args of _ # y # _ \<Rightarrow> y \<noteq> ''run'' | _ \<Rightarrow> True))"

lemma plain_args_harmless: "plain_args args \<Longrightarrow> harmless ([x, path_str q] @ args)"
  by (cases "rev args" rule: remdups_adj.cases) (auto simp: plain_args_def harmless_def path_str_def)

text \<open>
  What a campaign relies on during one boot: the kernel release and its command line are what they
  are, a saved \<open>pipeline.json\<close> is read back, and a valid completion marker stays valid when a script
  of the repository runs and when something is written elsewhere than below \<open>completed\<close> and \<open>entrypoints\<close>.
\<close>

definition elsewhere :: "path \<Rightarrow> path \<Rightarrow> bool" where
  "elsewhere out_dir q \<longleftrightarrow> \<not> prefix (out_dir @ [''completed'']) q \<and> \<not> prefix (out_dir @ [''entrypoints'']) q"

definition own_script :: "'w site \<Rightarrow> string list \<Rightarrow> bool" where
  "own_script si cmd \<longleftrightarrow> (\<exists>name args. cmd = [si_python si, path_str (si_here si @ path_parts name)] @ args)"

lemma own_script [simp]:
  "own_script si ([si_python si, path_str (si_here si @ path_parts name)] @ args)"
  "own_script si (si_python si # path_str (si_here si @ path_parts name) # args)"
  unfolding own_script_def by auto

definition campaign_host :: "'w host \<Rightarrow> 'w site \<Rightarrow> path \<Rightarrow> string \<Rightarrow> string \<Rightarrow> bool" where
  "campaign_host h si out_dir release cmdline \<longleftrightarrow>
     (\<forall>w. si_release si w = release) \<and> (\<forall>w. h_read_text h [''proc'', ''cmdline''] w = Inr cmdline) \<and>
     (\<forall>v w w1 w2. h_write_json h (tmp_path (state_path out_dir)) v w = (Inr (), w1) \<longrightarrow>
        si_replace si (tmp_path (state_path out_dir)) (state_path out_dir) w1 = (Inr (), w2) \<longrightarrow>
        h_read_json h (state_path out_dir) w2 = Inr v) \<and>
     (\<forall>s w. stage_done h si out_dir s w \<longrightarrow>
        (\<forall>rq. own_script si (rq_command rq) \<longrightarrow> stage_done h si out_dir s (snd (h_run h rq w))) \<and>
        (\<forall>q v. elsewhere out_dir q \<longrightarrow> stage_done h si out_dir s (snd (h_write_json h q v w))) \<and>
        (\<forall>q q'. elsewhere out_dir q \<longrightarrow> elsewhere out_dir q' \<longrightarrow> stage_done h si out_dir s (snd (si_replace si q q' w))) \<and>
        (\<forall>q. elsewhere out_dir q \<longrightarrow> stage_done h si out_dir s (snd (h_mkdir h q w))))"

lemma elsewhere_paths [simp]:
  "elsewhere out_dir (state_path out_dir)" "elsewhere out_dir (tmp_path (state_path out_dir))"
  "elsewhere out_dir (out_dir @ [''environment''])" "elsewhere out_dir (out_dir @ [''environment'', n])"
  "elsewhere out_dir (tmp_path (out_dir @ [''environment'', n]))"
  by (auto simp: elsewhere_def state_path_def tmp_path_def path_name_def butlast_append)

text \<open>
  When a stage may run: it belongs to a phase whose predecessors are completed, the running kernel
  is the one of that phase, and \<open>pipeline.json\<close> names the stage as the active one.
\<close>

definition stage_ready :: "'w host \<Rightarrow> 'w site \<Rightarrow> path \<Rightarrow> string \<Rightarrow> string \<Rightarrow> string \<Rightarrow> 'w \<Rightarrow> bool" where
  "stage_ready h si out_dir release cmdline stage w \<longleftrightarrow>
     (\<exists>smoke variant threaded stages d. phase_open h si out_dir (phase_list smoke) (variant, threaded, stages) w \<and>
        stage \<in> set stages \<and> boot_matches_text variant (PBool threaded) release cmdline = Inr True \<and>
        h_read_json h (state_path out_dir) w = Inr (PDict d) \<and> dict_get d ''active_stage'' PNone = PStr stage)"

text \<open>
  When the machine may be rebooted: the next phase needs another kernel, and \<open>pipeline.json\<close> says
  which one was asked for, and in which boot.
\<close>

definition boot_recorded :: "'w host \<Rightarrow> 'w site \<Rightarrow> path \<Rightarrow> string \<Rightarrow> string \<Rightarrow> 'w \<Rightarrow> bool" where
  "boot_recorded h si out_dir release cmdline w \<longleftrightarrow>
     (\<exists>smoke variant threaded stages boot_id d. phase_open h si out_dir (phase_list smoke) (variant, threaded, stages) w \<and>
        boot_matches_text variant (PBool threaded) release cmdline = Inr False \<and>
        h_read_json h (state_path out_dir) w = Inr (PDict d) \<and> dict_get d ''pending_boot'' PNone =
          PDict [(''variant'', PStr variant), (''threaded'', PBool threaded), (''boot_id'', PStr boot_id)])"

text \<open>
  A world with a property \<open>good\<close> that every operation keeps, except that a command keeps it only where
  \<open>allowed\<close> admits the command.
\<close>

locale watched_world =
  fixes h :: "'w host" and si :: "'w site" and good :: "'w \<Rightarrow> bool" and allowed :: "string list \<Rightarrow> 'w \<Rightarrow> bool"
  assumes run: "good w \<Longrightarrow> allowed (rq_command rq) w \<Longrightarrow> good (snd (h_run h rq w))"
    and harmless_allowed: "harmless cmd \<Longrightarrow> allowed cmd w"
    and files: "good w \<Longrightarrow> good (snd (h_write_text h q t w))" "good w \<Longrightarrow> good (snd (h_write_json h q v w))"
      "good w \<Longrightarrow> good (snd (h_mkdir h q w))"
    and clock: "good w \<Longrightarrow> good (snd (h_monotonic h w))" "good w \<Longrightarrow> good (h_sleep h d w)"
    and effects: "good w \<Longrightarrow> good (snd (si_replace si q q' w))" "good w \<Longrightarrow> good (snd (si_copy si q q' w))"
      "good w \<Longrightarrow> good (snd (si_flock si q w))" "good w \<Longrightarrow> good (snd (si_mkdtemp si q w))"
      "good w \<Longrightarrow> good (snd (si_prepare si q cfg b x y w))"
begin

definition safe :: "('o \<times> 'w, 'a) py \<Rightarrow> bool" where
  "safe m \<longleftrightarrow> (\<forall>ob w. good w \<longrightarrow> wp m (\<lambda>_ s. good (snd s)) (\<lambda>_ s. good (snd s)) (ob, w))"

lemma safeD: "safe m \<Longrightarrow> good (snd s) \<Longrightarrow> wp m (\<lambda>_ s. good (snd s)) (\<lambda>_ s. good (snd s)) s"
  by (cases s) (simp add: safe_def)

lemma safe_bind: "safe m \<Longrightarrow> (\<And>a. safe (f a)) \<Longrightarrow> safe (py_bind m f)"
  unfolding safe_def [of "py_bind m f"] by (auto simp: wp_simps intro!: wp_mono [OF safeD] dest: safeD)

lemma safe_seq: "safe m \<Longrightarrow> safe n \<Longrightarrow> safe (py_seq m n)"
  by (simp add: py_seq_def safe_bind)

lemma safe_basic:
  "safe (py_return a)" "safe (py_raise e)" "safe (py_res r)" "safe (ask f)" "safe (ask_res g)"
  "safe (self_get k)" "safe (self_upd u)" "safe (do_read h q)" "safe (raise_if b m)"
  by (auto simp: safe_def wp_simps raise_if_def split: sum.splits)

lemma safe_if: "(b \<Longrightarrow> safe m) \<Longrightarrow> (\<not> b \<Longrightarrow> safe n) \<Longrightarrow> safe (if b then m else n)"
  by simp

lemma safe_when: "(b \<Longrightarrow> safe m) \<Longrightarrow> safe (py_when b m)"
  by (simp add: py_when_def safe_basic)

lemma safe_prod: "(\<And>x y. p = (x, y) \<Longrightarrow> safe (f x y)) \<Longrightarrow> safe (case p of (x, y) \<Rightarrow> f x y)"
  by (cases p) auto

lemma safe_for: "(\<And>x. x \<in> set xs \<Longrightarrow> safe (f x)) \<Longrightarrow> safe (py_for xs f)"
  by (induction xs) (auto intro: safe_basic safe_seq)

lemma safe_map: "(\<And>x. x \<in> set xs \<Longrightarrow> safe (f x)) \<Longrightarrow> safe (py_map xs f)"
  by (induction xs) (auto intro!: safe_basic safe_bind)

lemma safe_loop: "safe m \<Longrightarrow> safe (py_loop n m)"
  by (induction n) (auto intro!: safe_basic safe_bind split: option.split)

lemma safe_run: "harmless (rq_command rq) \<Longrightarrow> safe (do_run h rq)"
  using run [OF _ harmless_allowed] by (auto simp: safe_def wp_simps split: prod.splits sum.splits) (metis snd_conv)+

lemma safe_effect: "(\<And>w. good w \<Longrightarrow> good (snd (f w))) \<Longrightarrow> safe (do_effect f)"
  by (auto simp: safe_def wp_def do_effect_def split: prod.splits sum.splits) (metis snd_conv)+

lemma safe_host:
  "safe (do_write_text h q t)" "safe (do_write_json h q v)" "safe (do_mkdir h q)" "safe (do_monotonic h)" "safe (do_sleep h d)"
  using files clock by (auto simp: safe_def wp_simps split: prod.splits sum.splits) (metis snd_conv)+

lemmas safe_rules = safe_basic safe_bind safe_seq safe_if safe_when safe_prod safe_for safe_map safe_loop safe_host
  safe_effect [OF effects(1)] safe_effect [OF effects(2)] safe_effect [OF effects(3)] safe_effect [OF effects(4)]

lemma safe_checked: "harmless cmd \<Longrightarrow> safe (run_checked h cmd)"
  unfolding run_checked_def by (intro safe_rules safe_run) simp

lemma safe_call: "harmless cmd \<Longrightarrow> safe (call h cmd)"
  unfolding call_def by (intro safe_rules safe_checked)

lemma safe_script: "plain_args args \<Longrightarrow> safe (py_script h si name args)"
  unfolding py_script_def by (intro safe_call plain_args_harmless)

lemma safe_reads: "safe (load_json h q)" "safe (digest h si q)" "safe (ask_raise b m)" "safe (load_config_file h q)"
  unfolding load_json_def digest_def ask_raise_def load_config_file_def by (intro safe_rules)+

lemma safe_save: "safe (save h si q v)"
  unfolding save_def by (intro safe_rules)

lemma safe_save_state: "safe (save_state h si out_dir entries)"
  unfolding save_state_def by (intro safe_rules safe_save)

lemma safe_complete: "safe (complete h si out_dir v)"
  unfolding safe_def wp_complete by (simp split: sum.splits)

lemma safe_prepare: "safe (do_prepare si q cfg b x y)"
  using effects(5) by (auto simp: safe_def wp_def do_prepare_def split: prod.splits sum.splits) (metis snd_conv)+

lemma safe_verify_sources: "safe (verify_sources h si out_dir)"
  unfolding verify_sources_def by (intro safe_rules safe_reads)

lemma safe_check_wired: "safe (check_wired h si n)"
proof -
  have "safe (run_checked h [''ip'', ''route'', ''get'', peer])" for peer
    by (rule safe_checked) (simp add: harmless_def)
  then show ?thesis
    unfolding check_wired_def wired_round_def eth_up_def Let_def
    by (intro safe_rules) (auto intro!: safe_rules split: list.split)
qed

lemma safe_boot_matches: "safe (boot_matches h si v t)"
  unfolding boot_matches_def by (intro safe_rules)

lemma safe_restore_system: "safe (restore_system h out_dir)"
  unfolding restore_system_def
  by (intro safe_rules safe_reads safe_call) (auto intro!: safe_rules simp: harmless_def split: pyval.split)

lemma safe_check_interrupted: "safe (check_interrupted h si out_dir m state)"
  unfolding check_interrupted_def Let_def by (intro safe_rules safe_complete)

lemma safe_check_pending_boot: "safe (check_pending_boot h si boot_id)"
  unfolding check_pending_boot_def
  by (intro safe_rules) (auto intro!: safe_rules safe_boot_matches split: pyval.split)

lemma safe_boot_id: "safe (current_boot_id h)"
  unfolding current_boot_id_def by (intro safe_rules)

lemma safe_refresh: "safe (refresh_boot_config h si out_dir boot_id)"
  unfolding refresh_boot_config_def Let_def
  by (intro safe_rules safe_reads safe_save safe_prepare safe_script) (simp_all add: plain_args_def)

lemma safe_analyze: "safe (analyze h si source out archive pdf)"
proof -
  have tail: "safe (py_seq (py_script h si ''analyze.py'' ([''--input'', path_str source, ''--output'', path_str out] @ options))
      (py_when pdf (py_script h si ''render.py'' [path_str out])))"
    if "options \<in> {[], [''--archive''], [''--smoke'', ''--sections'', ''e1'', ''e2'', ''e3'', ''e4'']}" for options
    using that by (intro safe_rules safe_script) (auto simp: plain_args_def path_str_def)
  show ?thesis
    unfolding analyze_def safe_def load_json_def
    by (auto simp: wp_bind wp_return wp_ask wp_res split: sum.splits
        intro!: safeD tail [of "[]", simplified] tail [of "[''--archive'']", simplified]
          tail [of "[''--smoke'', ''--sections'', ''e1'', ''e2'', ''e3'', ''e4'']", simplified])
qed

lemma safe_iff: "safe m \<longleftrightarrow> (\<forall>ob w r s'. good w \<longrightarrow> m (ob, w) = (r, s') \<longrightarrow> good (snd s'))"
proof -
  have "wp m (\<lambda>_ s. good (snd s)) (\<lambda>_ s. good (snd s)) s \<longleftrightarrow> (\<forall>r s'. m s = (r, s') \<longrightarrow> good (snd s'))" for s
    by (cases "m s"; cases "fst (m s)") (auto simp: wp_def)
  then show ?thesis unfolding safe_def by blast
qed

lemma safe_finally:
  assumes "safe m" "safe n" shows "safe (py_finally m n)"
  unfolding safe_iff py_finally_def
proof (intro allI impI)
  fix ob w r s' assume w: "good w" and run: "(case m (ob, w) of (r, s') \<Rightarrow> case n s' of (Inl e, s'') \<Rightarrow> (Inl e, s'') | (Inr x, s'') \<Rightarrow> (r, s'')) = (r, s')"
  obtain r1 ob1 w1 where m: "m (ob, w) = (r1, ob1, w1)" by (metis surj_pair)
  obtain r2 s2 where n: "n (ob1, w1) = (r2, s2)" by (metis surj_pair)
  have "good w1" using assms(1) w m unfolding safe_iff by fastforce
  then have "good (snd s2)" using assms(2) n unfolding safe_iff by blast
  then show "good (snd s')" using run by (cases r2) (auto simp: m n)
qed

lemma safe_catch_base:
  assumes "safe m" "\<And>e. safe (f e)" shows "safe (py_catch_base m f)"
  unfolding safe_iff py_catch_base_def
proof (intro allI impI)
  fix ob w r s' assume w: "good w" and run: "(case m (ob, w) of (Inl e, s') \<Rightarrow> if exn_kind e = Diverged then (Inl e, s') else f e s'
      | (Inr a, s') \<Rightarrow> (Inr a, s')) = (r, s')"
  obtain r1 ob1 w1 where m: "m (ob, w) = (r1, ob1, w1)" by (metis surj_pair)
  have "good w1" using assms(1) w m unfolding safe_iff by fastforce
  then show "good (snd s')" using run assms(2) unfolding safe_iff by (cases s'; cases r1) (auto simp: m split: if_splits)
qed

lemma safe_failed: "safe (worker_failed h si out_dir e)"
  unfolding worker_failed_def
  by (intro safe_rules safe_save_state safe_finally safe_restore_system safe_call) (simp add: harmless_def SERVICE_def)

lemma safe_finish: "safe (worker_finish h si out_dir)"
  unfolding worker_finish_def Let_def
  by (intro safe_rules safe_save_state safe_analyze safe_reads safe_script safe_restore_system safe_call) (simp_all add: harmless_def plain_args_def SERVICE_def)

end

text \<open>A phase stays open while markers stay valid.\<close>

lemma phase_open_stable:
  assumes "\<And>s. stage_done h si out_dir s w \<Longrightarrow> stage_done h si out_dir s w'" "phase_open h si out_dir ps p w"
  shows "phase_open h si out_dir ps p w'"
proof -
  obtain earlier later where "ps = earlier @ p # later" "\<forall>(_, _, ss) \<in> set earlier. \<forall>s \<in> set ss. stage_done h si out_dir s w"
    using assms(2) unfolding phase_open_def by blast
  then show ?thesis using assms(1) unfolding phase_open_def by (intro exI [of _ earlier] exI [of _ later]) auto
qed

lemma campaign_hostD:
  assumes "campaign_host h si out_dir release cmdline"
  shows "si_release si w = release" "h_read_text h [''proc'', ''cmdline''] w = Inr cmdline"
    "h_write_json h (tmp_path (state_path out_dir)) v w = (Inr (), w1) \<Longrightarrow>
       si_replace si (tmp_path (state_path out_dir)) (state_path out_dir) w1 = (Inr (), w2) \<Longrightarrow>
       h_read_json h (state_path out_dir) w2 = Inr v"
    "stage_done h si out_dir s w \<Longrightarrow> own_script si (rq_command rq) \<Longrightarrow> stage_done h si out_dir s (snd (h_run h rq w))"
    "stage_done h si out_dir s w \<Longrightarrow> elsewhere out_dir q \<Longrightarrow> stage_done h si out_dir s (snd (h_write_json h q v w))"
    "stage_done h si out_dir s w \<Longrightarrow> elsewhere out_dir q \<Longrightarrow> elsewhere out_dir q' \<Longrightarrow> stage_done h si out_dir s (snd (si_replace si q q' w))"
    "stage_done h si out_dir s w \<Longrightarrow> elsewhere out_dir q \<Longrightarrow> stage_done h si out_dir s (snd (h_mkdir h q w))"
  using assms unfolding campaign_host_def by blast+

lemma wp_boot_matches:
  assumes "campaign_host h si out_dir release cmdline"
  shows "wp (boot_matches h si v t) Q E (ob, w) =
    (case boot_matches_text v t release cmdline of Inl e \<Rightarrow> E e (ob, w) | Inr b \<Rightarrow> Q b (ob, w))"
  by (simp add: boot_matches_def wp_simps campaign_hostD [OF assms])

text \<open>Operations that keep completion markers, as an invariant of the world.\<close>

lemma wp_save_state:
  assumes host: "campaign_host h si out_dir release cmdline"
    and fail: "\<And>e ob' w'. R w' \<Longrightarrow> E e (ob', w')"
    and ok: "\<And>w'. R w' \<Longrightarrow> h_read_json h (state_path out_dir) w' = Inr (PDict (dict_update ob entries)) \<Longrightarrow>
       Q () (dict_update ob entries, w')"
    and keep: "\<And>q v w. R w \<Longrightarrow> elsewhere out_dir q \<Longrightarrow> R (snd (h_write_json h q v w))"
      "\<And>q q' w. R w \<Longrightarrow> elsewhere out_dir q \<Longrightarrow> elsewhere out_dir q' \<Longrightarrow> R (snd (si_replace si q q' w))"
    and "R w"
  shows "wp (save_state h si out_dir entries) Q E (ob, w)"
proof -
  let ?q = "state_path out_dir" and ?v = "PDict (dict_update ob entries)"
  obtain r1 w1 where write1: "h_write_json h (tmp_path ?q) ?v w = (r1, w1)" by (metis surj_pair)
  obtain r2 w2 where repl: "si_replace si (tmp_path ?q) ?q w1 = (r2, w2)" by (metis surj_pair)
  have w1: "R w1" using keep(1) [OF \<open>R w\<close>, of "tmp_path ?q" ?v] by (simp add: write1)
  have w2: "R w2" using keep(2) [OF w1, of "tmp_path ?q" ?q] by (simp add: repl)
  show ?thesis
    unfolding save_state_def save_def
    using write1 repl fail [OF w1] fail [OF w2] ok [OF w2] campaign_hostD(3) [OF host, of ?v w w1 w2]
    by (auto simp: wp_simps split: sum.splits)
qed

text \<open>
  The steps of a stage up to the point where it is named active, for a property of the world that the
  operations in question keep.
\<close>

lemma wp_run_checked:
  assumes "\<And>e ob' w'. R w' \<Longrightarrow> E e (ob', w')" "\<And>c w'. R w' \<Longrightarrow> Q c (ob, w')" "\<And>rq. rq_command rq = cmd \<Longrightarrow> R (snd (h_run h rq w))"
  shows "wp (run_checked h cmd) Q E (ob, w)"
proof -
  have "R (snd (h_run h \<lparr>rq_command = cmd, rq_input = None, rq_timeout = None\<rparr> w))" by (rule assms(3)) simp
  then show ?thesis
    unfolding run_checked_def using assms(1,2) by (auto simp: wp_simps split: prod.splits sum.splits)
qed

lemma wp_call:
  assumes "\<And>e ob' w'. R w' \<Longrightarrow> E e (ob', w')" "\<And>w'. R w' \<Longrightarrow> Q () (ob, w')" "\<And>rq. rq_command rq = cmd \<Longrightarrow> R (snd (h_run h rq w))"
  shows "wp (call h cmd) Q E (ob, w)"
  unfolding call_def wp_seq by (rule wp_run_checked [where R = R]) (use assms in \<open>auto simp: wp_simps\<close>)

lemma stage_prologue:
  assumes fail: "\<And>e ob' w'. R w' \<Longrightarrow> E e (ob', w')" and rest: "\<And>w'. R w' \<Longrightarrow> wp k Q E (ob, w')"
    and keep: "\<And>rq w. R w \<Longrightarrow> harmless (rq_command rq) \<Longrightarrow> own_script si (rq_command rq) \<Longrightarrow> R (snd (h_run h rq w))"
      "\<And>v w. R w \<Longrightarrow> R (snd (h_write_json h (tmp_path q3) v w))" "\<And>w. R w \<Longrightarrow> R (snd (si_replace si (tmp_path q3) q3 w))"
      "\<And>w. R w \<Longrightarrow> R (snd (h_mkdir h q1 w))"
    and args: "plain_args args" and "R w"
  shows "wp (py_seq (py_script h si name args) (py_seq (do_mkdir h q1) (py_bind (load_json h q2) (\<lambda>v. py_seq (save h si q3 v) k)))) Q E (ob, w)"
  unfolding wp_seq py_script_def
proof (rule wp_call [where R = R])
  fix rq :: run_request assume "rq_command rq = [si_python si, path_str (si_here si @ path_parts name)] @ args"
  then show "R (snd (h_run h rq w))"
    using keep(1) [OF \<open>R w\<close>, of rq] plain_args_harmless [OF args] by (simp del: append.simps)
next
  fix w1 assume w1: "R w1"
  obtain r2 w2 where mk: "h_mkdir h q1 w1 = (r2, w2)" by (metis surj_pair)
  have w2: "R w2" using keep(4) [OF w1] by (simp add: mk)
  have "wp (py_seq (save h si q3 v) k) Q E (ob, w2)" for v
  proof -
    obtain r3 w3 where wr: "h_write_json h (tmp_path q3) v w2 = (r3, w3)" by (metis surj_pair)
    have w3: "R w3" using keep(2) [OF w2, of v] by (simp add: wr)
    obtain r4 w4 where rp: "si_replace si (tmp_path q3) q3 w3 = (r4, w4)" by (metis surj_pair)
    have w4: "R w4" using keep(3) [OF w3] by (simp add: rp)
    show ?thesis
      unfolding save_def using wr rp fail [OF w3] fail [OF w4] rest [OF w4] by (auto simp: wp_simps split: sum.splits)
  qed
  then show "wp (do_mkdir h q1) (\<lambda>_ s'. wp (py_bind (load_json h q2) (\<lambda>v. py_seq (save h si q3 v) k)) Q E s') E (ob, w1)"
    unfolding load_json_def using mk fail [OF w2] by (auto simp: wp_simps split: sum.splits)
qed (rule fail)

context watched_world
begin

lemma worker_stage_guarded:
  assumes host: "campaign_host h si out_dir release cmdline"
    and allow: "\<And>pre s w. stage_ready h si out_dir release cmdline s w \<Longrightarrow> allowed (pre @ [''run'', s]) w"
    and ready: "phase_open h si out_dir (phase_list smoke) (v, t, ss) w" "stage \<in> set ss"
      "boot_matches_text v (PBool t) release cmdline = Inr True" and "good w"
  shows "wp (worker_stage h si out_dir stage)
    (\<lambda>_ s. good (snd s) \<and> phase_open h si out_dir (phase_list smoke) (v, t, ss) (snd s) \<and> stage_done h si out_dir stage (snd s) \<and>
       (\<forall>s'. stage_done h si out_dir s' w \<longrightarrow> stage_done h si out_dir s' (snd s)))
    (\<lambda>_ s. good (snd s)) (state, w)"
proof -
  let ?Q = "\<lambda>_ s. good (snd s) \<and> phase_open h si out_dir (phase_list smoke) (v, t, ss) (snd s) \<and> stage_done h si out_dir stage (snd s) \<and>
       (\<forall>s'. stage_done h si out_dir s' w \<longrightarrow> stage_done h si out_dir s' (snd s))"
  let ?R = "\<lambda>w'. good w' \<and> (\<forall>s'. stage_done h si out_dir s' w \<longrightarrow> stage_done h si out_dir s' w')"
  let ?R' = "\<lambda>w'. ?R w' \<and> stage_done h si out_dir stage w'"
  have opn: "phase_open h si out_dir (phase_list smoke) (v, t, ss) w'" if "?R w'" for w'
    using phase_open_stable [OF _ ready(1)] that by blast
  note keep = run files(2,3) effects(1) campaign_hostD(4-7) [OF host]
  have final: "wp (save_state h si out_dir [(''active_stage'', PNone)])
      ?Q
      (\<lambda>_ s. good (snd s)) (ob, w')" if "?R' w'" for ob w'
    by (rule wp_save_state [OF host, where R = ?R']) (use that keep opn in auto)
  have run_cmd: "allowed ((pre @ pre') @ [''run'', stage]) w'" if "?R w'"
    "h_read_json h (state_path out_dir) w' = Inr (PDict (dict_update ob [(''active_stage'', PStr stage)]))" for pre pre' ob w'
    using opn [OF that(1)] ready(2,3) that(2) by (intro allow) (auto simp: stage_ready_def)
  have ran: "wp (py_seq (py_script h si ''reproduce.py'' (reproduce_arguments out_dir @ [''run'', stage]))
      (py_bind (complete h si out_dir (PStr stage)) (\<lambda>ok. py_seq (raise_if (\<not> ok) m) (save_state h si out_dir [(''active_stage'', PNone)]))))
      ?Q
      (\<lambda>_ s. good (snd s)) (dict_update ob [(''active_stage'', PStr stage)], w')"
    if w': "?R w'" "h_read_json h (state_path out_dir) w' = Inr (PDict (dict_update ob [(''active_stage'', PStr stage)]))" for ob w' m
    unfolding wp_seq py_script_def
  proof (rule wp_call [where R = ?R])
    show "?R (snd (h_run h rq w'))"
      if "rq_command rq = [si_python si, path_str (si_here si @ path_parts ''reproduce.py'')] @ reproduce_arguments out_dir @ [''run'', stage]" for rq
      using keep(1) [of w' rq] keep(5) w' run_cmd [OF w', of "[si_python si, path_str (si_here si @ path_parts ''reproduce.py'')]" "reproduce_arguments out_dir"]
      by (auto simp: that)
  next
    fix w2 assume w2: "?R w2"
    show "wp (py_bind (complete h si out_dir (PStr stage)) (\<lambda>ok. py_seq (raise_if (\<not> ok) m) (save_state h si out_dir [(''active_stage'', PNone)])))
      ?Q
      (\<lambda>_ s. good (snd s)) (dict_update ob [(''active_stage'', PStr stage)], w2)"
      unfolding wp_bind by (rule wp_complete_stage) (use w2 final in \<open>auto simp: wp_simps raise_if_def\<close>)
  qed auto
  have args: "plain_args (reproduce_arguments out_dir @ [''check'', stage])" by (simp add: plain_args_def)
  show ?thesis
    unfolding worker_stage_def
    apply (rule stage_prologue [where R = ?R, OF _ _ _ _ _ _ args])
    subgoal by simp
    subgoal for w' unfolding wp_seq [of "save_state h si out_dir [(''active_stage'', PStr stage)]"]
      by (rule wp_save_state [OF host, where R = ?R]) (use keep ran in auto)
    using keep \<open>good w\<close> harmless_allowed by auto
qed

lemma worker_stages_guarded:
  assumes host: "campaign_host h si out_dir release cmdline"
    and allow: "\<And>pre s w. stage_ready h si out_dir release cmdline s w \<Longrightarrow> allowed (pre @ [''run'', s]) w"
    and kernel_ok: "boot_matches_text v (PBool t) release cmdline = Inr True"
  shows "phase_open h si out_dir (phase_list smoke) (v, t, ss) w \<Longrightarrow> set stages \<subseteq> set ss \<Longrightarrow> good w \<Longrightarrow>
    wp (py_for stages (worker_stage h si out_dir))
      (\<lambda>_ s. good (snd s) \<and> (\<forall>x \<in> set stages. stage_done h si out_dir x (snd s)) \<and>
         (\<forall>s'. stage_done h si out_dir s' w \<longrightarrow> stage_done h si out_dir s' (snd s)))
      (\<lambda>_ s. good (snd s)) (state, w)"
proof (induction stages arbitrary: state w)
  case (Cons x xs)
  show ?case unfolding py_for.simps wp_seq
  proof (rule wp_step [OF worker_stage_guarded [OF host allow Cons.prems(1) _ kernel_ok Cons.prems(3)]])
    fix a and s :: "pydict \<times> 'w"
    assume s: "good (snd s) \<and> phase_open h si out_dir (phase_list smoke) (v, t, ss) (snd s) \<and> stage_done h si out_dir x (snd s) \<and>
       (\<forall>s'. stage_done h si out_dir s' w \<longrightarrow> stage_done h si out_dir s' (snd s))"
    obtain ob1 w1 where s1: "s = (ob1, w1)" by (cases s)
    have "wp (py_for xs (worker_stage h si out_dir))
        (\<lambda>_ s. good (snd s) \<and> (\<forall>x \<in> set xs. stage_done h si out_dir x (snd s)) \<and>
           (\<forall>s'. stage_done h si out_dir s' w1 \<longrightarrow> stage_done h si out_dir s' (snd s)))
        (\<lambda>_ s. good (snd s)) (ob1, w1)"
      by (rule Cons.IH) (use s s1 Cons.prems in auto)
    then show "wp (py_for xs (worker_stage h si out_dir))
        (\<lambda>_ s. good (snd s) \<and> (\<forall>x \<in> set (x # xs). stage_done h si out_dir x (snd s)) \<and>
           (\<forall>s'. stage_done h si out_dir s' w \<longrightarrow> stage_done h si out_dir s' (snd s)))
        (\<lambda>_ s. good (snd s)) s"
      unfolding s1 by (rule wp_step) (use s s1 in auto)
  qed (use Cons.prems in auto)
qed (simp add: wp_simps)

end

text \<open>The stages that are left to do, a measure of the rounds still to come.\<close>

definition stages_left :: "'w host \<Rightarrow> 'w site \<Rightarrow> path \<Rightarrow> 'w \<Rightarrow> nat" where
  "stages_left h si out_dir w = length (filter (\<lambda>s. \<not> stage_done h si out_dir s w) (concat (map (snd \<circ> snd) PHASES)))"

lemma phase_list_stages: "(v, t, ss) \<in> set (phase_list smoke) \<Longrightarrow> set ss \<subseteq> set (concat (map (snd \<circ> snd) PHASES))"
proof -
  assume "(v, t, ss) \<in> set (phase_list smoke)"
  then obtain ss0 where "(v, t, ss0) \<in> set PHASES" "set ss \<subseteq> set ss0"
    by (cases smoke) (auto simp: phase_list_def)
  moreover from this(1) have "set ss0 \<subseteq> set (concat (map (snd \<circ> snd) PHASES))" by force
  ultimately show ?thesis by blast
qed

lemma filter_less:
  assumes "\<And>x. Q x \<Longrightarrow> P x" "x \<in> set xs" "P x" "\<not> Q x"
  shows "length (filter Q xs) < length (filter P xs)"
proof -
  have "length (filter Q ys) \<le> length (filter P ys)" for ys using assms(1) by (induction ys) auto
  then show ?thesis using assms(2-4) by (induction xs) (auto simp: less_Suc_eq_le assms(1))
qed

lemma stages_left_decreases:
  assumes "phase_open h si out_dir (phase_list smoke) (v, t, ss) w" "\<exists>s \<in> set ss. \<not> stage_done h si out_dir s w"
    "\<forall>s. stage_done h si out_dir s w \<longrightarrow> stage_done h si out_dir s w'" "\<forall>s \<in> set ss. stage_done h si out_dir s w'"
  shows "stages_left h si out_dir w' < stages_left h si out_dir w"
proof -
  obtain s where s: "s \<in> set ss" "\<not> stage_done h si out_dir s w" using assms(2) by blast
  have "(v, t, ss) \<in> set (phase_list smoke)" using assms(1) by (auto simp: phase_open_def)
  then have "s \<in> set (concat (map (snd \<circ> snd) PHASES))" using phase_list_stages s(1) by blast
  then show ?thesis unfolding stages_left_def using assms(3,4) s by (intro filter_less) auto
qed

context watched_world
begin

lemma request_boot_guarded:
  assumes host: "campaign_host h si out_dir release cmdline"
    and allow: "\<And>w. boot_recorded h si out_dir release cmdline w \<Longrightarrow> allowed [''systemctl'', ''reboot''] w"
    and opn: "phase_open h si out_dir (phase_list smoke) (v, t, ss) w"
    and kernel_wrong: "boot_matches_text v (PBool t) release cmdline = Inr False" and "good w"
  shows "wp (request_boot h si out_dir boot_id v t)
    (\<lambda>_ s. good (snd s) \<and> dict_get (fst s) ''status'' PNone = PStr ''rebooting'' \<and> dict_get (fst s) ''pending_boot'' PNone =
        PDict [(''variant'', PStr v), (''threaded'', PBool t), (''boot_id'', PStr boot_id)])
    (\<lambda>_ s. good (snd s)) (state, w)"
proof -
  let ?R = "\<lambda>w'. good w' \<and> phase_open h si out_dir (phase_list smoke) (v, t, ss) w'"
  let ?e = "[(''status'', PStr ''rebooting''), (''pending_boot'', PDict
         [(''variant'', PStr v), (''threaded'', PBool t), (''boot_id'', PStr boot_id)])]"
  have variant: "v \<in> fst ` set VARIANTS"
  proof -
    have "map_of VARIANTS v \<noteq> None" using kernel_wrong by (auto simp: boot_matches_text_def split: option.splits)
    then show ?thesis by (simp add: map_of_eq_None_iff)
  qed
  have args: "harmless ([si_python si, x] @ [''select'', v, ''--apply''] @ (if t then [''--threadirqs''] else []))" for x
    using variant by (auto simp: harmless_def VARIANTS_def)
  have keep: "elsewhere out_dir q \<Longrightarrow> ?R (snd (h_write_json h q x w'))"
    "elsewhere out_dir q \<Longrightarrow> elsewhere out_dir q' \<Longrightarrow> ?R (snd (si_replace si q q' w'))"
    "harmless (rq_command rq) \<Longrightarrow> own_script si (rq_command rq) \<Longrightarrow> ?R (snd (h_run h rq w'))"
    if "?R w'" for q q' x w' rq
    using that files(2) effects(1) run harmless_allowed campaign_hostD(4-6) [OF host]
    by (auto intro: phase_open_stable [of h si out_dir w'])
  show ?thesis
    unfolding request_boot_def wp_seq py_script_def
  proof (rule wp_call [where R = ?R])
    fix w1 assume w1: "?R w1"
    show "wp (save_state h si out_dir ?e) (\<lambda>_ s'. wp (call h [''systemctl'', ''reboot''])
        (\<lambda>_ s. good (snd s) \<and> dict_get (fst s) ''status'' PNone = PStr ''rebooting'' \<and> dict_get (fst s) ''pending_boot'' PNone =
          PDict [(''variant'', PStr v), (''threaded'', PBool t), (''boot_id'', PStr boot_id)])
        (\<lambda>_ s. good (snd s)) s') (\<lambda>_ s. good (snd s)) (state, w1)"
    proof (rule wp_save_state [OF host, where R = ?R])
      fix w2 assume w2: "?R w2" and saved: "h_read_json h (state_path out_dir) w2 = Inr (PDict (dict_update state ?e))"
      have "boot_recorded h si out_dir release cmdline w2"
        unfolding boot_recorded_def using w2 saved kernel_wrong by (intro exI conjI) auto
      then show "wp (call h [''systemctl'', ''reboot''])
        (\<lambda>_ s. good (snd s) \<and> dict_get (fst s) ''status'' PNone = PStr ''rebooting'' \<and> dict_get (fst s) ''pending_boot'' PNone =
          PDict [(''variant'', PStr v), (''threaded'', PBool t), (''boot_id'', PStr boot_id)])
        (\<lambda>_ s. good (snd s)) (dict_update state ?e, w2)"
        by (intro wp_call [where R = good]) (use w2 run allow in auto)
    qed (use keep w1 in auto)
  qed (use keep args opn \<open>good w\<close> in auto)
qed

text \<open>One round: commands only where they are allowed, and progress.\<close>

lemma worker_round_guarded:
  assumes host: "campaign_host h si out_dir release cmdline"
    and allow: "\<And>pre s w. stage_ready h si out_dir release cmdline s w \<Longrightarrow> allowed (pre @ [''run'', s]) w"
      "\<And>w. boot_recorded h si out_dir release cmdline w \<Longrightarrow> allowed [''systemctl'', ''reboot''] w"
    and "good w"
  shows "wp (worker_round h si out_dir boot_id)
    (\<lambda>r s. good (snd s) \<and> (case r of
        None \<Rightarrow> stages_left h si out_dir (snd s) < stages_left h si out_dir w
      | Some False \<Rightarrow> \<exists>smoke. all_done h si out_dir (phase_list smoke) (snd s)
      | Some True \<Rightarrow> dict_get (fst s) ''status'' PNone = PStr ''rebooting'' \<and> (\<exists>v t. dict_get (fst s) ''pending_boot'' PNone =
          PDict [(''variant'', PStr v), (''threaded'', PBool t), (''boot_id'', PStr boot_id)])))
    (\<lambda>_ s. good (snd s)) (state, w)"
  unfolding worker_round_def wp_bind
proof (rule wp_next_phase)
  fix smoke v t ss
  let ?Q = "\<lambda>r s. good (snd s) \<and> (case r of
        None \<Rightarrow> stages_left h si out_dir (snd s) < stages_left h si out_dir w
      | Some False \<Rightarrow> \<exists>smoke. all_done h si out_dir (phase_list smoke) (snd s)
      | Some True \<Rightarrow> dict_get (fst s) ''status'' PNone = PStr ''rebooting'' \<and> (\<exists>v t. dict_get (fst s) ''pending_boot'' PNone =
          PDict [(''variant'', PStr v), (''threaded'', PBool t), (''boot_id'', PStr boot_id)]))"
  let ?todo = "filter (\<lambda>s. \<not> stage_done h si out_dir s w) ss"
  assume opn: "phase_open h si out_dir (phase_list smoke) (v, t, ss) w" and left: "\<exists>s \<in> set ss. \<not> stage_done h si out_dir s w"
  have stages: "wp (py_seq (py_for ?todo (worker_stage h si out_dir)) (py_return None)) ?Q (\<lambda>_ s. good (snd s)) (state, w)"
    if "boot_matches_text v (PBool t) release cmdline = Inr True"
    unfolding wp_seq
    by (rule wp_step [OF worker_stages_guarded [OF host allow(1) that opn _ \<open>good w\<close>]])
      (use stages_left_decreases [OF opn left] in \<open>auto simp: wp_simps\<close>)
  have boot: "wp (py_seq (request_boot h si out_dir boot_id v t) (py_return (Some True))) ?Q (\<lambda>_ s. good (snd s)) (state, w)"
    if "boot_matches_text v (PBool t) release cmdline = Inr False"
    unfolding wp_seq
    by (rule wp_step [OF request_boot_guarded [OF host allow(2) opn that \<open>good w\<close>]]) (auto simp: wp_simps)
  show "wp (case Some (v, t, ?todo) of None \<Rightarrow> py_return (Some False) | Some (variant, threaded, stages) \<Rightarrow>
        py_bind (boot_matches h si variant (PBool threaded)) (\<lambda>ok.
        if \<not> ok then py_seq (request_boot h si out_dir boot_id variant threaded) (py_return (Some True))
        else py_seq (py_for stages (worker_stage h si out_dir)) (py_return None))) ?Q (\<lambda>_ s. good (snd s)) (state, w)"
    using stages boot \<open>good w\<close>
    by (auto simp: wp_bind wp_boot_matches [OF host] split: sum.splits)
qed (use \<open>good w\<close> in \<open>auto simp: wp_simps\<close>)

text \<open>The whole worker.\<close>

lemma worker_guarded:
  assumes host: "campaign_host h si out_dir release cmdline"
    and allow: "\<And>pre s w. stage_ready h si out_dir release cmdline s w \<Longrightarrow> allowed (pre @ [''run'', s]) w"
      "\<And>w. boot_recorded h si out_dir release cmdline w \<Longrightarrow> allowed [''systemctl'', ''reboot''] w"
  shows "safe (worker h si fuel out_dir)"
proof -
  have round: "safe (worker_round h si out_dir boot_id)" for boot_id
    unfolding safe_def by (intro allI impI wp_mono [OF worker_round_guarded [OF host allow]]) auto
  have body: "safe (worker_body h si fuel out_dir)"
    unfolding worker_body_def
    by (intro safe_rules safe_verify_sources safe_check_wired safe_check_interrupted safe_boot_id safe_check_pending_boot
        safe_save_state safe_refresh safe_call round safe_finish) (simp add: harmless_def)
  show ?thesis
    unfolding worker_def require_pi_def Let_def
    by (intro safe_rules safe_reads safe_catch_base body safe_failed)
qed

end

subsection \<open>Refusals\<close>

text \<open>A campaign that must not go on: a stage was interrupted, or a boot that was asked for did not happen.\<close>

definition must_refuse :: "'w host \<Rightarrow> 'w site \<Rightarrow> path \<Rightarrow> string \<Rightarrow> string \<Rightarrow> string \<Rightarrow> pydict \<Rightarrow> bool" where
  "must_refuse h si out_dir release cmdline boot_id state \<longleftrightarrow>
     (\<exists>s. dict_get state ''active_stage'' PNone = PStr s \<and> s \<noteq> [] \<and> (\<forall>w. \<not> stage_done h si out_dir s w)) \<or>
     (\<exists>v t b. dict_get state ''pending_boot'' PNone = PDict [(''variant'', PStr v), (''threaded'', PBool t), (''boot_id'', PStr b)] \<and>
        (b = boot_id \<or> boot_matches_text v (PBool t) release cmdline \<noteq> Inr True))"

definition BOOT_ID :: path where
  "BOOT_ID = [''proc'', ''sys'', ''kernel'', ''random'', ''boot_id'']"

lemma preserves_effect [preserves_intros]: "preserves I (do_effect f)"
  by (auto simp: preserves_def wp_simps split: prod.splits sum.splits)

lemma preserves_case_list [preserves_intros]:
  "(xs = [] \<Longrightarrow> preserves I m) \<Longrightarrow> (\<And>y ys. xs = y # ys \<Longrightarrow> preserves I (f y ys)) \<Longrightarrow>
     preserves I (case xs of [] \<Rightarrow> m | y # ys \<Rightarrow> f y ys)"
  by (cases xs) auto

lemma preserves_checks [preserves_intros]:
  "preserves I (verify_sources h si out_dir)" "preserves I (check_wired h si n)" "preserves I (current_boot_id h)"
  unfolding verify_sources_def digest_def raise_if_def check_wired_def wired_round_def eth_up_def run_checked_def current_boot_id_def Let_def
  by (intro preserves_intros)+

context watched_world
begin

lemma safe_same:
  assumes "safe m" "\<And>I. preserves I m" "good w" "\<And>a w'. good w' \<Longrightarrow> Q a (state, w')" "\<And>e w'. good w' \<Longrightarrow> E e (state, w')"
  shows "wp m Q E (state, w)"
  by (rule wp_mono [OF wp_conj [OF safeD [OF assms(1)] preservesD [OF assms(2), of "\<lambda>ob. ob = state"]]])
    (use assms(3-5) in auto)

lemma pending_boot_refused:
  assumes host: "campaign_host h si out_dir release cmdline"
    and pending: "dict_get state ''pending_boot'' PNone = PDict [(''variant'', PStr v), (''threaded'', PBool t), (''boot_id'', PStr b)]"
      "b = boot_id \<or> boot_matches_text v (PBool t) release cmdline \<noteq> Inr True" and "good w"
  shows "wp (check_pending_boot h si boot_id) (\<lambda>_ _. False) (\<lambda>_ s. good (snd s)) (state, w)"
  using pending \<open>good w\<close>
  by (auto simp: check_pending_boot_def wp_simps wp_boot_matches [OF host] raise_if_def split: sum.splits)

lemma interrupted_or:
  assumes "(\<exists>s. dict_get state ''active_stage'' PNone = PStr s \<and> s \<noteq> [] \<and> (\<forall>w. \<not> stage_done h si out_dir s w)) \<or> Q () (ob, w)"
    "\<And>e. E e (ob, w)"
  shows "wp (check_interrupted h si out_dir m state) Q E (ob, w)"
  using assms(1)
proof
  assume "\<exists>s. dict_get state ''active_stage'' PNone = PStr s \<and> s \<noteq> [] \<and> (\<forall>w. \<not> stage_done h si out_dir s w)"
  then show ?thesis
    unfolding check_interrupted_def Let_def using assms(2) by (auto simp: wp_simps raise_if_def intro!: wp_complete_stage)
next
  assume "Q () (ob, w)"
  then show ?thesis
    unfolding check_interrupted_def Let_def using assms(2) by (auto simp: wp_simps wp_complete raise_if_def split: sum.splits)
qed

lemma body_refuses:
  assumes host: "campaign_host h si out_dir release cmdline" and boot: "\<forall>w. h_read_text h BOOT_ID w = Inr boot_text"
    and refuse: "must_refuse h si out_dir release cmdline (strip boot_text) state" and "good w"
  shows "wp (worker_body h si fuel out_dir) (\<lambda>_ _. False) (\<lambda>_ s. good (snd s)) (state, w)"
proof -
  have boot_id: "wp (current_boot_id h) Q E (state, w2) = Q (strip boot_text) (state, w2)" for Q E w2
    using boot by (simp add: current_boot_id_def wp_simps BOOT_ID_def)
  show ?thesis
    unfolding worker_body_def wp_seq wp_bind
    apply (rule safe_same [OF safe_verify_sources preserves_checks(1) \<open>good w\<close>])
     apply (rule safe_same [OF safe_check_wired preserves_checks(2)])
       apply assumption
      apply (unfold wp_self id_apply)
      apply (rule interrupted_or)
       apply (use refuse [unfolded must_refuse_def] in \<open>elim disjE\<close>)
        apply (erule disjI1)
       apply (rule disjI2, unfold boot_id, elim exE conjE)
       apply (rule wp_step [OF pending_boot_refused [OF host]])
          apply (auto elim: disjE)
    done
qed

lemma worker_refuses:
  assumes host: "campaign_host h si out_dir release cmdline" and boot: "\<forall>w. h_read_text h BOOT_ID w = Inr boot_text"
    and refuse: "must_refuse h si out_dir release cmdline (strip boot_text) state" and "good w"
    and recorded: "\<And>w1. h_mkdir h (out_dir @ [''private-tmp'']) w = (Inr (), w1) \<Longrightarrow> h_read_json h (state_path out_dir) w1 = Inr (PDict state)"
  shows "wp (worker h si fuel out_dir) (\<lambda>_ _. False) (\<lambda>_ s. good (snd s)) (ob, w)"
proof -
  have failed: "wp (worker_failed h si out_dir e) (\<lambda>_ _. False) (\<lambda>_ s. good (snd s)) (ob', w')" if "good w'" for e ob' w'
  proof -
    have "wp (worker_failed h si out_dir e) (\<lambda>_ _. False) (\<lambda>_ _. True) (ob', w')"
      unfolding worker_failed_def by (simp add: wp_bind wp_seq wp_raise wp_ask)
    then show ?thesis using wp_conj [OF _ safeD [OF safe_failed]] that by (fastforce elim: wp_mono)
  qed
  have body: "wp (py_catch_base (worker_body h si fuel out_dir) (worker_failed h si out_dir)) (\<lambda>_ _. False) (\<lambda>_ s. good (snd s)) (state, w')"
    if "good w'" for w'
    unfolding wp_catch_base by (rule wp_mono [OF body_refuses [OF host boot refuse that]]) (auto intro: failed)
  obtain r1 w1 where mk: "h_mkdir h (out_dir @ [''private-tmp'']) w = (r1, w1)" by (metis surj_pair)
  obtain r2 w2 where lk: "si_flock si (out_dir @ [''pipeline.lock'']) w1 = (r2, w2)" by (metis surj_pair)
  have good: "good w1" "good w2" using files(3) [OF \<open>good w\<close>, of "out_dir @ [''private-tmp'']"] effects(3) [of w1 "out_dir @ [''pipeline.lock'']"]
    by (simp_all add: mk lk)
  show ?thesis
    unfolding worker_def require_pi_def Let_def load_json_def ask_raise_def raise_if_def
    using mk lk good \<open>good w\<close> recorded [of w1] body [OF good(2)]
    by (auto simp: wp_simps of_host_def split: sum.splits)
qed

end

subsection \<open>Watched hosts\<close>

text \<open>
  A host whose world also has a flag, which falls when a command that is not harmless is run where the
  given condition does not hold.
\<close>

definition lift_effect :: "('w \<Rightarrow> 'a \<times> 'w) \<Rightarrow> 'w \<times> bool \<Rightarrow> 'a \<times> 'w \<times> bool" where
  "lift_effect f = (\<lambda>(w, ok). case f w of (r, w') \<Rightarrow> (r, w', ok))"

definition watched_host :: "(string list \<Rightarrow> 'w \<Rightarrow> bool) \<Rightarrow> 'w host \<Rightarrow> ('w \<times> bool) host" where
  "watched_host permitted h = \<lparr>
     h_read_text = (\<lambda>p s. h_read_text h p (fst s)), h_is_file = (\<lambda>p s. h_is_file h p (fst s)),
     h_is_dir = (\<lambda>p s. h_is_dir h p (fst s)), h_exists = (\<lambda>p s. h_exists h p (fst s)),
     h_entries = (\<lambda>p s. h_entries h p (fst s)), h_resolve = (\<lambda>p s. h_resolve h p (fst s)),
     h_run = (\<lambda>rq (w, ok). case h_run h rq w of (r, w') \<Rightarrow> (r, w', ok \<and> (harmless (rq_command rq) \<or> permitted (rq_command rq) w))),
     h_write_text = (\<lambda>p t. lift_effect (h_write_text h p t)), h_write_json = (\<lambda>p v. lift_effect (h_write_json h p v)),
     h_read_json = (\<lambda>p s. h_read_json h p (fst s)), h_mkdir = (\<lambda>p. lift_effect (h_mkdir h p)),
     h_getpid = h_getpid h \<circ> fst, h_geteuid = h_geteuid h \<circ> fst, h_which = (\<lambda>c. h_which h c \<circ> fst),
     h_writable = (\<lambda>p. h_writable h p \<circ> fst), h_is_linux = h_is_linux h \<circ> fst, h_affinity = (\<lambda>i. h_affinity h i \<circ> fst),
     h_sched = (\<lambda>i. h_sched h i \<circ> fst), h_monotonic = lift_effect (h_monotonic h),
     h_boottime_ns = lift_effect (h_boottime_ns h), h_sleep = (\<lambda>d (w, ok). (h_sleep h d w, ok))\<rparr>"

definition watched_site :: "'w site \<Rightarrow> ('w \<times> bool) site" where
  "watched_site si = \<lparr>
     si_python = si_python si, si_here = si_here si, si_release = si_release si \<circ> fst, si_machine = si_machine si \<circ> fst,
     si_sha256 = si_sha256 si, si_now = si_now si \<circ> fst, si_ssh_connection = si_ssh_connection si \<circ> fst,
     si_owner = si_owner si \<circ> fst, si_replace = (\<lambda>p q. lift_effect (si_replace si p q)),
     si_copy = (\<lambda>p q. lift_effect (si_copy si p q)), si_flock = (\<lambda>p. lift_effect (si_flock si p)),
     si_mkdtemp = (\<lambda>p. lift_effect (si_mkdtemp si p)), si_source_manifest = (\<lambda>p s. si_source_manifest si p (fst s)),
     si_provenance = (\<lambda>x. lift_effect (si_provenance si x)),
     si_prepare = (\<lambda>p cfg b x y. lift_effect (si_prepare si p cfg b x y))\<rparr>"

lemma lift_effect_flag [simp]: "snd (snd (lift_effect f s)) = snd s" "fst (snd (lift_effect f s)) = snd (f (fst s))"
  "fst (lift_effect f s) = fst (f (fst s))"
  by (simp_all add: lift_effect_def split: prod.splits)

lemma lift_effect_eq: "lift_effect f s = (r, s') \<longleftrightarrow> f (fst s) = (r, fst s') \<and> snd s' = snd s"
  by (cases s; cases s') (auto simp: lift_effect_def split: prod.splits)

interpretation watched: watched_world "watched_host permitted h" "watched_site si" snd "\<lambda>cmd s. harmless cmd \<or> permitted cmd (fst s)"
  for permitted h si
  by unfold_locales (auto simp: watched_host_def watched_site_def split: prod.splits)

lemma watched_complete:
  "fst (complete (watched_host permitted h) (watched_site si) out_dir v ((), s)) = fst (complete h si out_dir v ((), fst s))"
  unfolding complete_def load_json_def digest_def Let_def
  by (simp add: py_defs ask_def ask_res_def do_read_def watched_host_def watched_site_def split: sum.splits)

lemma watched_stage_done [simp]:
  "stage_done (watched_host permitted h) (watched_site si) out_dir s w = stage_done h si out_dir s (fst w)"
  by (simp add: stage_done_def watched_complete)

lemma watched_phase_open [simp]:
  "phase_open (watched_host permitted h) (watched_site si) out_dir ps p w = phase_open h si out_dir ps p (fst w)"
  by (simp add: phase_open_def)

lemma watched_campaign:
  assumes "campaign_host h si out_dir release cmdline"
  shows "campaign_host (watched_host permitted h) (watched_site si) out_dir release cmdline"
proof -
  have script: "own_script (watched_site si) cmd = own_script si cmd" for cmd
    by (simp add: own_script_def watched_site_def)
  have run: "fst (snd (h_run (watched_host permitted h) rq s)) = snd (h_run h rq (fst s))" for rq s
    by (simp add: watched_host_def split: prod.splits)
  have effects: "h_write_json (watched_host permitted h) = (\<lambda>q v. lift_effect (h_write_json h q v))"
    "si_replace (watched_site si) = (\<lambda>q q'. lift_effect (si_replace si q q'))"
    "h_mkdir (watched_host permitted h) = (\<lambda>q. lift_effect (h_mkdir h q))"
    "h_read_json (watched_host permitted h) q s = h_read_json h q (fst s)"
    "h_read_text (watched_host permitted h) q s = h_read_text h q (fst s)"
    "si_release (watched_site si) s = si_release si (fst s)" for q s
    by (simp_all add: watched_host_def watched_site_def)
  show ?thesis
    unfolding campaign_host_def
    using assms [unfolded campaign_host_def]
    by (auto simp: script run effects lift_effect_eq)
qed

subsection \<open>The rounds end\<close>

text \<open>A computation that does not run out of fuel.\<close>

definition ends :: "('s, 'a) py \<Rightarrow> bool" where
  "ends m \<longleftrightarrow> (\<forall>s. wp m (\<lambda>_ _. True) (\<lambda>e _. exn_kind e \<noteq> Diverged) s)"

lemma host_exn_ends [simp]: "exn_kind (host_exn e) \<noteq> Diverged"
  by (cases e) auto

lemma ends_bind: "ends m \<Longrightarrow> (\<And>a. ends (f a)) \<Longrightarrow> ends (py_bind m f)"
  unfolding ends_def by (auto simp: wp_simps elim: wp_mono)

lemma ends_seq: "ends m \<Longrightarrow> ends n \<Longrightarrow> ends (py_seq m n)"
  by (simp add: py_seq_def ends_bind)

lemma ends_for: "(\<And>x. ends (f x)) \<Longrightarrow> ends (py_for xs f)"
  by (induction xs) (auto intro: ends_seq simp: ends_def [of "py_return x" for x] wp_simps)

lemma ends_basic:
  "ends (py_return a)" "exn_kind e \<noteq> Diverged \<Longrightarrow> ends (py_raise e)" "ends (ask f)" "ends (self_get k)" "ends (self_upd u)"
  "ends (do_read h q)" "ends (do_run h rq)" "ends (do_mkdir h q)" "ends (do_write_json h q v)" "ends (do_effect g)" "ends (raise_if b m)"
  "ends (load_json h q)"
  by (auto simp: ends_def wp_simps raise_if_def load_json_def of_host_def split: prod.splits sum.splits)

lemma ends_res:
  "ends (py_res (py_get v k d))" "ends (py_res (boot_matches_text x t r c))"
  by (auto simp: ends_def wp_simps boot_matches_text_def split: sum.splits option.splits dest: py_get_error_kind)

lemma ends_if: "ends m \<Longrightarrow> ends n \<Longrightarrow> ends (if b then m else n)"
  by simp

lemmas ends_rules = ends_bind ends_seq ends_for ends_basic ends_res ends_if

lemma ends_call: "ends (run_checked h cmd)" "ends (call h cmd)" "ends (py_script h si name args)"
  unfolding py_script_def call_def run_checked_def by (intro ends_rules; simp)+

lemma ends_complete: "ends (complete h si out_dir v)"
  unfolding complete_def digest_def Let_def by (intro ends_rules) auto

lemma ends_pending: "ends (pending_stages h si out_dir ss)"
  by (induction ss) (auto intro!: ends_rules ends_complete)

lemma ends_next_phase: "ends (next_phase h si out_dir)"
proof -
  have "ends (first_pending h si out_dir ps)" for ps
    by (induction ps rule: first_pending.induct) (auto intro!: ends_rules ends_pending)
  then show ?thesis unfolding next_phase_def phases_def by (intro ends_rules)
qed

lemma ends_saves: "ends (save h si q v)" "ends (save_state h si out_dir entries)"
  unfolding save_state_def save_def by (intro ends_rules)+

lemma ends_worker_round: "ends (worker_round h si out_dir boot_id)"
  unfolding worker_round_def boot_matches_def request_boot_def worker_stage_def
  by (auto intro!: ends_rules ends_next_phase ends_call ends_saves ends_complete split: option.split)

interpretation unwatched: watched_world h si "\<lambda>_. True" "\<lambda>_ _. True" for h si
  by unfold_locales auto

lemma worker_loop_wp:
  assumes host: "campaign_host h si out_dir release cmdline" and fuel: "13 < fuel"
  shows "wp (py_loop fuel (worker_round h si out_dir boot_id))
    (\<lambda>b s. if b then dict_get (fst s) ''status'' PNone = PStr ''rebooting'' \<and> (\<exists>v t. dict_get (fst s) ''pending_boot'' PNone =
          PDict [(''variant'', PStr v), (''threaded'', PBool t), (''boot_id'', PStr boot_id)])
       else (\<exists>smoke. all_done h si out_dir (phase_list smoke) (snd s)))
    (\<lambda>e _. exn_kind e \<noteq> Diverged) s"
proof (rule py_loop_wp [where I = "\<lambda>_. True" and f = "\<lambda>s. stages_left h si out_dir (snd s)"])
  fix s :: "pydict \<times> 'a"
  obtain state w where s: "s = (state, w)" by (cases s)
  show "wp (worker_round h si out_dir boot_id)
     (\<lambda>r s'. case r of None \<Rightarrow> True \<and> stages_left h si out_dir (snd s') < stages_left h si out_dir (snd s)
       | Some b \<Rightarrow> if b then dict_get (fst s') ''status'' PNone = PStr ''rebooting'' \<and> (\<exists>v t. dict_get (fst s') ''pending_boot'' PNone =
          PDict [(''variant'', PStr v), (''threaded'', PBool t), (''boot_id'', PStr boot_id)])
       else (\<exists>smoke. all_done h si out_dir (phase_list smoke) (snd s'))) (\<lambda>e _. exn_kind e \<noteq> Diverged) s"
    unfolding s
    by (rule wp_mono [OF wp_conj [OF unwatched.worker_round_guarded [OF host _ _ TrueI] ends_worker_round [unfolded ends_def, rule_format]]])
      (auto split: option.splits bool.splits)
next
  have "length (concat (map (snd \<circ> snd) PHASES)) = 13" by (simp add: PHASES_def)
  then have "stages_left h si out_dir (snd s) \<le> 13"
    unfolding stages_left_def using length_filter_le [of _ "concat (map (snd \<circ> snd) PHASES)"] by metis
  then show "stages_left h si out_dir (snd s) < fuel" using fuel by simp
qed simp

subsection \<open>A small campaign\<close>

text \<open>
  A machine that keeps JSON files only: every script of the campaign succeeds, and the run of a stage
  leaves its completion marker.
\<close>

type_synonym demo_disk = "(path \<times> pyval) list"

definition demo_marker :: "string \<Rightarrow> pyval" where
  "demo_marker s = PDict [(''stage'', PStr s), (''adapter_sha256'', PStr ''x'')]"

definition demo_text :: "path \<Rightarrow> string" where
  "demo_text q = (if q = [''proc'', ''device-tree'', ''model''] then ''Raspberry Pi 5''
     else if q = [''sys'', ''class'', ''net'', ''eth0'', ''operstate''] then ''up''
     else if q = [''proc'', ''cmdline''] then ''root=a'' else if q = BOOT_ID then ''b1'' else ''x'')"

definition demo_run_script :: "path \<Rightarrow> run_request \<Rightarrow> demo_disk \<Rightarrow> (host_error + completed) \<times> demo_disk" where
  "demo_run_script out_dir rq w = (Inr \<lparr>returncode = 0, stdout = [], stderr = []\<rparr>,
     case rev (rq_command rq) of s # x # _ \<Rightarrow> if x = ''run'' then dict_set (completion_marker out_dir s) (demo_marker s) w else w | _ \<Rightarrow> w)"

definition demo_pipeline_host :: "path \<Rightarrow> demo_disk host" where
  "demo_pipeline_host out_dir = \<lparr>
     h_read_text = (\<lambda>q w. Inr (demo_text q)), h_is_file = (\<lambda>q w. True), h_is_dir = (\<lambda>q w. True),
     h_exists = (\<lambda>q w. map_of w q \<noteq> None \<or> q = [''sys'', ''class'', ''net'', ''eth0'', ''operstate'']), h_entries = (\<lambda>q w. []), h_resolve = (\<lambda>q w. q),
     h_run = demo_run_script out_dir, h_write_text = (\<lambda>q t w. (Inr (), w)),
     h_write_json = (\<lambda>q v w. (Inr (), dict_set q v w)),
     h_read_json = (\<lambda>q w. case map_of w q of None \<Rightarrow> Inl (HOSError (path_str q)) | Some v \<Rightarrow> Inr v),
     h_mkdir = (\<lambda>q w. (Inr (), w)), h_getpid = (\<lambda>w. 7), h_geteuid = (\<lambda>w. 0), h_which = (\<lambda>c w. True), h_writable = (\<lambda>q w. True),
     h_is_linux = (\<lambda>w. True), h_affinity = (\<lambda>i w. {}), h_sched = (\<lambda>i w. None), h_monotonic = (\<lambda>w. (0, w)),
     h_boottime_ns = (\<lambda>w. (0, w)), h_sleep = (\<lambda>d w. w)\<rparr>"

definition demo_site :: "demo_disk site" where
  "demo_site = \<lparr>si_python = ''python3'', si_here = [''repo'', ''reproduction''],
     si_release = (\<lambda>w. ''6.12.96-rpi5-rt-btf-uvc16+''), si_machine = (\<lambda>w. ''aarch64''), si_sha256 = id, si_now = (\<lambda>w. ''now''),
     si_ssh_connection = (\<lambda>w. []), si_owner = (\<lambda>w. (0, 0)),
     si_replace = (\<lambda>q q' w. case map_of w q of None \<Rightarrow> (Inl (HOSError (path_str q)), w) | Some v \<Rightarrow> (Inr (), dict_set q' v w)),
     si_copy = (\<lambda>q q' w. (Inr (), w)), si_flock = (\<lambda>q w. (Inr (), w)), si_mkdtemp = (\<lambda>q w. (Inr (q @ [''t'']), w)),
     si_source_manifest = (\<lambda>q w. Inr []), si_provenance = (\<lambda>s w. (Inr PNone, w)), si_prepare = (\<lambda>q cfg b x y w. (Inr (), w))\<rparr>"

lemma stage_done_iff:
  "stage_done h si out_dir s w \<longleftrightarrow> h_exists h (completion_marker out_dir s) w \<and>
     (\<exists>v r text. h_read_json h (completion_marker out_dir s) w = Inr v \<and> py_get v ''stage'' PNone = Inr r \<and> py_eq r (PStr s) \<and>
        h_read_text h (out_dir @ [''entrypoints'', s @ ''.sh'']) w = Inr text \<and>
        py_get v ''adapter_sha256'' PNone = Inr (PStr (si_sha256 si text)))"
proof (cases "h_read_json h (completion_marker out_dir s) w")
  case (Inr v)
  show ?thesis
    by (cases "py_get v ''stage'' PNone"; cases "py_get v ''adapter_sha256'' PNone"; cases "h_read_text h (out_dir @ [''entrypoints'', s @ ''.sh'']) w")
      (auto simp: stage_done_def complete_def Let_def load_json_def digest_def py_defs ask_def ask_res_def do_read_def py_str_def of_host_def Inr)
qed (auto simp: stage_done_def complete_def Let_def load_json_def py_defs ask_def ask_res_def py_str_def of_host_def)

lemma demo_stage_done:
  "stage_done (demo_pipeline_host out_dir) demo_site out_dir s w \<longleftrightarrow>
     (\<exists>v r. map_of w (completion_marker out_dir s) = Some v \<and> py_get v ''stage'' PNone = Inr r \<and> py_eq r (PStr s) \<and>
        py_get v ''adapter_sha256'' PNone = Inr (PStr ''x''))"
proof -
  have script: "demo_text (out_dir @ [''entrypoints'', f @ ''.sh'']) = ''x''" for f
    unfolding demo_text_def BOOT_ID_def by (cases out_dir rule: rev_cases) (auto simp: append_eq_Cons_conv)
  have marker: "h_exists (demo_pipeline_host out_dir) (completion_marker out_dir s) w \<longleftrightarrow> map_of w (completion_marker out_dir s) \<noteq> None"
    by (auto simp: demo_pipeline_host_def completion_marker_def append_eq_Cons_conv)
  show ?thesis
    unfolding stage_done_iff marker by (auto simp: demo_pipeline_host_def demo_site_def script split: option.splits)
qed

lemma demo_marker_elsewhere: "elsewhere out_dir q \<Longrightarrow> q \<noteq> completion_marker out_dir s"
  by (auto simp: elsewhere_def completion_marker_def)

lemma demo_campaign: "campaign_host (demo_pipeline_host out_dir) demo_site out_dir ''6.12.96-rpi5-rt-btf-uvc16+'' ''root=a''"
proof -
  have marker_inj: "completion_marker out_dir s = completion_marker out_dir s' \<longleftrightarrow> s = s'" for s s'
    by (simp add: completion_marker_def)
  have eq: "py_eq (PStr s) (PStr s)" for s by (simp add: py_eq.simps)
  have ran: "map_of (snd (h_run (demo_pipeline_host out_dir) rq w)) (completion_marker out_dir s) \<in>
      {map_of w (completion_marker out_dir s), Some (demo_marker s)}" for rq w s
    by (auto simp: demo_pipeline_host_def demo_run_script_def marker_inj split: list.splits)
  have run: "stage_done (demo_pipeline_host out_dir) demo_site out_dir s (snd (h_run (demo_pipeline_host out_dir) rq w))"
    if "stage_done (demo_pipeline_host out_dir) demo_site out_dir s w" for s rq w
    using ran [of rq w s] that eq [of s] unfolding demo_stage_done by (auto simp: demo_marker_def dict_get_def)
  have other: "stage_done (demo_pipeline_host out_dir) demo_site out_dir s (dict_set q v w)"
    if "stage_done (demo_pipeline_host out_dir) demo_site out_dir s w" "elsewhere out_dir q" for s q v w
    using that(1) demo_marker_elsewhere [OF that(2), of s] unfolding demo_stage_done by simp
  have fields: "h_write_json (demo_pipeline_host out_dir) q v w = (Inr (), dict_set q v w)"
    "h_mkdir (demo_pipeline_host out_dir) q w = (Inr (), w)"
    "si_replace demo_site q q' w = (case map_of w q of None \<Rightarrow> (Inl (HOSError (path_str q)), w) | Some v \<Rightarrow> (Inr (), dict_set q' v w))"
    "h_read_json (demo_pipeline_host out_dir) q w = (case map_of w q of None \<Rightarrow> Inl (HOSError (path_str q)) | Some v \<Rightarrow> Inr v)"
    "h_read_text (demo_pipeline_host out_dir) [''proc'', ''cmdline''] w = Inr ''root=a''" "si_release demo_site w = ''6.12.96-rpi5-rt-btf-uvc16+''" for q q' v w
    by (simp_all add: demo_pipeline_host_def demo_site_def demo_text_def)
  show ?thesis
    unfolding campaign_host_def fields using run other by (auto split: option.splits)
qed

subsection \<open>Claims\<close>

text \<open>The condition under which the worker may run a stage or reboot.\<close>

definition permitted_command :: "'w host \<Rightarrow> 'w site \<Rightarrow> path \<Rightarrow> string \<Rightarrow> string \<Rightarrow> string list \<Rightarrow> 'w \<Rightarrow> bool" where
  "permitted_command h si out_dir release cmdline cmd w \<longleftrightarrow>
     (\<forall>pre s. cmd = pre @ [''run'', s] \<longrightarrow> stage_ready h si out_dir release cmdline s w) \<and>
     (cmd = [''systemctl'', ''reboot''] \<longrightarrow> boot_recorded h si out_dir release cmdline w)"

lemma watched_guards:
  "stage_ready (watched_host permitted h) (watched_site si) out_dir release cmdline s w = stage_ready h si out_dir release cmdline s (fst w)"
  "boot_recorded (watched_host permitted h) (watched_site si) out_dir release cmdline w = boot_recorded h si out_dir release cmdline (fst w)"
  by (simp_all add: stage_ready_def boot_recorded_def) (simp_all add: watched_host_def)


definition demo_disk :: demo_disk where
  "demo_disk = [([''o'', ''pipeline.json''], PDict [(''repo'', PStr ''/repo''), (''pdf'', PBool False)])]"






text \<open>The kernel of a phase is the one that \<open>reproduce.py\<close> expects for each of its stages.\<close>

definition phase_fits :: "phase \<Rightarrow> bool" where
  "phase_fits = (\<lambda>(variant, threaded, stages). case map_of VARIANTS variant of None \<Rightarrow> False
     | Some v \<Rightarrow> list_all (\<lambda>s. case stage_kernel s of Inl _ \<Rightarrow> False
         | Inr (mode, release, threads) \<Rightarrow> release = vt_release v \<and> startswith mode ''rt-'' = startswith variant ''rt-'' \<and>
             (startswith mode ''rt-'' \<or> threads = threaded)) stages)"

lemma phases_fit: "list_all phase_fits PHASES"
  by code_simp

lemma phase_fits_kernel:
  assumes "phase_fits (v, t, ss)" "s \<in> set ss" "boot_matches_text v (PBool t) release cmdline = Inr True"
  shows "\<exists>mode. stage_kernel s = Inr mode \<and> kernel_errors mode release cmdline = []"
proof -
  have eq: "py_eq (PBool a) (PBool b) \<longleftrightarrow> a = b" for a b by (simp add: py_eq.simps)
  obtain x where x: "map_of VARIANTS v = Some x" using assms(1) by (auto simp: phase_fits_def split: option.splits)
  obtain a r b where k: "stage_kernel s = Inr (a, r, b)" using assms(1,2) x by (cases "stage_kernel s") (auto simp: phase_fits_def list_all_iff)
  have "r = vt_release x \<and> startswith a ''rt-'' = startswith v ''rt-'' \<and> (startswith a ''rt-'' \<or> b = t)"
    using assms(1,2) x k by (auto simp: phase_fits_def list_all_iff)
  then show ?thesis using assms(3) x k by (auto simp: boot_matches_text_def kernel_errors_def error_if_def eq)
qed

text \<open>
  C27. The plan of the campaign agrees with the preflight check of the stages: every stage occurs in exactly
  one phase, and when the pipeline takes the running kernel for the right one, the check of \<open>reproduce.py\<close>
  has nothing to say against the kernel or its interrupt threading.
\<close>

theorem plan_agrees_with_checks:
  assumes "(v, t, ss) \<in> set PHASES" "s \<in> set ss" "boot_matches_text v (PBool t) release cmdline = Inr True"
  shows "(\<exists>mode. stage_kernel s = Inr mode \<and> kernel_errors mode release cmdline = []) \<and>
    distinct (concat (map (snd \<circ> snd) PHASES)) \<and> set (concat (map (snd \<circ> snd) PHASES)) = fst ` set STAGES"
proof (intro conjI)
  have fits: "phase_fits (v, t, ss)" using assms(1) phases_fit by (simp add: list_all_iff)
  show "\<exists>mode. stage_kernel s = Inr mode \<and> kernel_errors mode release cmdline = []"
    using phase_fits_kernel [OF fits assms(2,3)] .
qed (auto simp: PHASES_def STAGES_def)

theorem plan_agrees_with_checks_witness:
  "\<exists>mode. stage_kernel ''e3'' = Inr mode \<and> kernel_errors mode ''6.12.96-rpi5-standard-btf-uvc16+'' ''root=a threadirqs'' = []"
proof -
  have "boot_matches_text ''standard-urb16'' (PBool True) ''6.12.96-rpi5-standard-btf-uvc16+'' ''root=a threadirqs'' = Inr True"
    by code_simp
  from plan_agrees_with_checks [OF _ _ this, of "[''ablation'', ''e3'', ''e4-calibrate'', ''e4-standard-threaded'']" "''e3''"]
  show ?thesis by (simp add: PHASES_def)
qed

end
