(* ===== verification/Bisect.thy ===== *)
theory Bisect
  imports Json "HOL-Library.Product_Lexorder"
begin

text \<open>
  The functions of the standard \<open>bisect\<close> module, which the trace parsers use to look up rows by time.
  They are the binary search of the module: its result is meaningful only on a sorted list, but it
  is defined on every list. The locale \<open>time_index\<close> states what the parsers rely on, a list of rows
  with the sorted list of their times beside it, and what a slice between two positions then holds.
\<close>

section \<open>Definitions\<close>

text \<open>The search goes right at an element that satisfies \<open>p\<close>.\<close>

function bisect_loop :: "('a \<Rightarrow> bool) \<Rightarrow> 'a list \<Rightarrow> nat \<Rightarrow> nat \<Rightarrow> nat" where
  "bisect_loop p a lo hi =
     (if lo < hi then
        let mid = (lo + hi) div 2 in
        if p (a ! mid) then bisect_loop p a (mid + 1) hi else bisect_loop p a lo mid
      else lo)"
  by pat_completeness auto
termination
  by (relation "measure (\<lambda>(p, a, lo, hi). hi - lo)") auto

declare bisect_loop.simps [simp del]

definition bisect_left :: "int list \<Rightarrow> int \<Rightarrow> nat" where
  "bisect_left a x = bisect_loop (\<lambda>y. y < x) a 0 (length a)"

definition bisect_right :: "int list \<Rightarrow> int \<Rightarrow> nat" where
  "bisect_right a x = bisect_loop (\<lambda>y. \<not> x < y) a 0 (length a)"

text \<open>\<open>a[i:j]\<close> for positions that are not negative.\<close>

definition list_slice :: "nat \<Rightarrow> nat \<Rightarrow> 'a list \<Rightarrow> 'a list" where
  "list_slice i j a = drop i (take j a)"

text \<open>\<open>max(xs, key=k, default=None)\<close> and \<open>min(xs, key=k, default=None)\<close>: the first extreme element.\<close>

definition max_key :: "('a \<Rightarrow> 'b :: linorder) \<Rightarrow> 'a list \<Rightarrow> 'a option" where
  "max_key k xs = (case xs of [] \<Rightarrow> None | y # ys \<Rightarrow> Some (foldl (\<lambda>m x. if k x > k m then x else m) y ys))"

definition min_key :: "('a \<Rightarrow> 'b :: linorder) \<Rightarrow> 'a list \<Rightarrow> 'a option" where
  "min_key k xs = (case xs of [] \<Rightarrow> None | y # ys \<Rightarrow> Some (foldl (\<lambda>m x. if k x < k m then x else m) y ys))"

text \<open>The rows under one key of a \<open>defaultdict(list)\<close> that is filled in a loop.\<close>

fun group_by :: "('a \<Rightarrow> 'k) \<Rightarrow> 'a list \<Rightarrow> ('k \<times> 'a list) list" where
  "group_by k [] = []"
| "group_by k (x # xs) = (k x, x # filter (\<lambda>y. k y = k x) xs) # filter (\<lambda>(k', _). k' \<noteq> k x) (group_by k xs)"

text \<open>\<open>int(row[name])\<close>\<close>

definition cell_int :: "pydict \<Rightarrow> string \<Rightarrow> int res" where
  "cell_int row name = res_bind (py_item (PDict row) name) py_intv"

definition cell_float :: "pydict \<Rightarrow> string \<Rightarrow> rat res" where
  "cell_float row name = res_bind (py_item (PDict row) name) py_floatv"

section \<open>Lemmas\<close>

lemma bisect_loop_bounds: "lo \<le> hi \<Longrightarrow> lo \<le> bisect_loop p a lo hi \<and> bisect_loop p a lo hi \<le> hi"
proof (induction p a lo hi rule: bisect_loop.induct)
  case (1 p a lo hi)
  show ?case
  proof (cases "lo < hi")
    case True
    let ?mid = "(lo + hi) div 2"
    have mid: "lo \<le> ?mid" "?mid < hi" using True by auto
    show ?thesis using 1 True mid by (subst (1 2) bisect_loop.simps) (auto simp: Let_def)
  next
    case False
    then show ?thesis using 1(3) by (subst (1 2) bisect_loop.simps) simp
  qed
qed

lemma bisect_loop_split:
  assumes "\<And>i j. i \<le> j \<Longrightarrow> j < length a \<Longrightarrow> p (a ! j) \<Longrightarrow> p (a ! i)"
    and "lo \<le> hi" "hi \<le> length a" "\<And>i. i < lo \<Longrightarrow> p (a ! i)" "\<And>i. hi \<le> i \<Longrightarrow> i < length a \<Longrightarrow> \<not> p (a ! i)"
  shows "(\<forall>i < bisect_loop p a lo hi. p (a ! i)) \<and> (\<forall>i. bisect_loop p a lo hi \<le> i \<longrightarrow> i < length a \<longrightarrow> \<not> p (a ! i))"
  using assms(2-)
proof (induction "hi - lo" arbitrary: lo hi rule: less_induct)
  case less
  show ?case
  proof (cases "lo < hi")
    case True
    let ?mid = "(lo + hi) div 2"
    have mid: "lo \<le> ?mid" "?mid < hi" using True by auto
    show ?thesis
    proof (cases "p (a ! ?mid)")
      case right: True
      have step: "bisect_loop p a lo hi = bisect_loop p a (?mid + 1) hi"
        using True right by (subst bisect_loop.simps) (simp add: Let_def)
      have below: "p (a ! i)" if "i < ?mid + 1" for i
        using assms(1) [of i ?mid] that right mid(2) less.prems(2) by simp
      show ?thesis unfolding step
        by (rule less.hyps) (use mid less.prems below in simp_all)
    next
      case left: False
      have step: "bisect_loop p a lo hi = bisect_loop p a lo ?mid"
        using True left by (subst bisect_loop.simps) (simp add: Let_def)
      have above: "\<not> p (a ! i)" if "?mid \<le> i" "i < length a" for i
        using assms(1) [of ?mid i] that left by blast
      show ?thesis unfolding step
        by (rule less.hyps) (use mid less.prems above in simp_all)
    qed
  next
    case False
    then have "bisect_loop p a lo hi = lo" by (subst bisect_loop.simps) simp
    then show ?thesis using False less.prems by auto
  qed
qed

lemma sorted_partition:
  assumes "sorted (map f rs)" "\<And>x y. x \<le> y \<Longrightarrow> p y \<Longrightarrow> p x"
  shows "filter (\<lambda>r. p (f r)) rs @ filter (\<lambda>r. \<not> p (f r)) rs = rs"
  using assms(1)
proof (induction rs)
  case (Cons r rs)
  show ?case
  proof (cases "p (f r)")
    case False
    then have none: "filter (\<lambda>r. p (f r)) rs = []" using Cons.prems assms(2) by (auto simp: filter_empty_conv)
    then show ?thesis using False Cons by simp
  qed (use Cons in simp)
qed simp

lemma bisect_loop_sorted:
  assumes "sorted a" "\<And>x y. x \<le> y \<Longrightarrow> p y \<Longrightarrow> p x"
  shows "bisect_loop p a 0 (length a) = length (filter p a)"
proof -
  let ?n = "bisect_loop p a 0 (length a)"
  have down: "p (a ! i)" if "i \<le> j" "j < length a" "p (a ! j)" for i j
    using assms(2) [OF sorted_nth_mono [OF assms(1) that(1,2)] that(3)] .
  have le: "?n \<le> length a" using bisect_loop_bounds [of 0 "length a" p a] by simp
  have split: "(\<forall>i < ?n. p (a ! i)) \<and> (\<forall>i. ?n \<le> i \<longrightarrow> i < length a \<longrightarrow> \<not> p (a ! i))"
    by (rule bisect_loop_split [where p = p and a = a]) (use down in simp_all)
  have "filter p (take ?n a) = take ?n a" using split le by (auto simp: filter_id_conv in_set_conv_nth)
  moreover have "filter p (drop ?n a) = []" using split by (auto simp: filter_empty_conv in_set_conv_nth)
  ultimately have "filter p a = take ?n a" by (metis append_take_drop_id append_Nil2 filter_append)
  then show ?thesis using le by simp
qed

lemma bisect_left_sorted: "sorted a \<Longrightarrow> bisect_left a x = length (filter (\<lambda>y. y < x) a)"
  unfolding bisect_left_def by (rule bisect_loop_sorted) auto

lemma bisect_right_sorted: "sorted a \<Longrightarrow> bisect_right a x = length (filter (\<lambda>y. y \<le> x) a)"
  using bisect_loop_sorted [of a "\<lambda>y. \<not> x < y"] by (simp add: bisect_right_def not_less)

text \<open>Rows with the sorted list of their times.\<close>

locale time_index =
  fixes time :: "'a \<Rightarrow> int" and rows :: "'a list" and times :: "int list"
  assumes times: "times = map time rows" and ordered: "sorted times"
begin

lemma cut:
  assumes "\<And>x y. x \<le> y \<Longrightarrow> p y \<Longrightarrow> p x"
  shows "take (length (filter p times)) rows = filter (\<lambda>r. p (time r)) rows"
    "drop (length (filter p times)) rows = filter (\<lambda>r. \<not> p (time r)) rows"
proof -
  have "length (filter p times) = length (filter (\<lambda>r. p (time r)) rows)" by (simp add: times filter_map comp_def)
  moreover have "filter (\<lambda>r. p (time r)) rows @ filter (\<lambda>r. \<not> p (time r)) rows = rows"
    by (rule sorted_partition) (use ordered times assms in auto)
  ultimately show "take (length (filter p times)) rows = filter (\<lambda>r. p (time r)) rows"
    "drop (length (filter p times)) rows = filter (\<lambda>r. \<not> p (time r)) rows" by (metis append_eq_conv_conj)+
qed

lemma take_left: "take (bisect_left times b) rows = filter (\<lambda>r. time r < b) rows"
  using cut(1) [of "\<lambda>y. y < b"] by (simp add: bisect_left_sorted [OF ordered])

lemma take_right: "take (bisect_right times b) rows = filter (\<lambda>r. time r \<le> b) rows"
  using cut(1) [of "\<lambda>y. y \<le> b"] by (simp add: bisect_right_sorted [OF ordered])

lemma drop_left: "drop (bisect_left times a) rows = filter (\<lambda>r. a \<le> time r) rows"
  using cut(2) [of "\<lambda>y. y < a"] by (simp add: bisect_left_sorted [OF ordered] not_less)

lemma drop_filter_below: "drop (bisect_left times a) (filter (\<lambda>r. time r \<le> b) rows) = filter (\<lambda>r. a \<le> time r \<and> time r \<le> b) rows"
  if "a \<le> b"
proof -
  let ?rs = "filter (\<lambda>r. time r \<le> b) rows"
  have "filter (\<lambda>y. y < a) times = filter (\<lambda>y. y < a) (map time ?rs)"
    using that by (simp add: times filter_map comp_def) (metis (no_types, lifting) filter_cong less_imp_le order_less_le_trans)
  then have n: "bisect_left times a = length (filter (\<lambda>r. time r < a) ?rs)"
    using ordered by (simp add: bisect_left_sorted times filter_map comp_def)
  have "sorted (map time ?rs)" using ordered unfolding times by (rule sorted_filter)
  from sorted_partition [OF this, of "\<lambda>y. y < a"]
  have "filter (\<lambda>r. time r < a) ?rs @ filter (\<lambda>r. \<not> time r < a) ?rs = ?rs" by auto
  then have "drop (bisect_left times a) ?rs = filter (\<lambda>r. \<not> time r < a) ?rs" unfolding n by (metis append_eq_conv_conj)
  then show ?thesis by (simp add: not_less conj_commute)
qed

text \<open>The slice between two bisections holds the rows of the closed time window.\<close>

lemma window: "a \<le> b \<Longrightarrow> list_slice (bisect_left times a) (bisect_right times b) rows = filter (\<lambda>r. a \<le> time r \<and> time r \<le> b) rows"
  by (simp add: list_slice_def take_right drop_filter_below)

text \<open>The last row that is not later than \<open>t\<close>.\<close>

lemma last_before:
  assumes "bisect_right times t \<noteq> 0"
  shows "rows ! (bisect_right times t - 1) = last (filter (\<lambda>r. time r \<le> t) rows)" "filter (\<lambda>r. time r \<le> t) rows \<noteq> []"
proof -
  have n: "bisect_right times t = length (filter (\<lambda>r. time r \<le> t) rows)"
    using ordered by (simp add: bisect_right_sorted times filter_map comp_def)
  then show "filter (\<lambda>r. time r \<le> t) rows \<noteq> []" using assms by auto
  then show "rows ! (bisect_right times t - 1) = last (filter (\<lambda>r. time r \<le> t) rows)"
    using n take_right [of t] by (metis One_nat_def diff_less last_conv_nth length_greater_0_conv lessI nth_take)
qed

end

interpretation sorted_rows: time_index k "sort_key k rs" "map k (sort_key k rs)" for k rs
  by unfold_locales simp_all

lemma max_key_in: "max_key k xs = Some x \<Longrightarrow> x \<in> set xs \<and> (\<forall>y \<in> set xs. k y \<le> k x)"
proof -
  have "foldl (\<lambda>m x. if k x > k m then x else m) y ys \<in> set (y # ys) \<and>
      (\<forall>z \<in> set (y # ys). k z \<le> k (foldl (\<lambda>m x. if k x > k m then x else m) y ys))" for y ys
    by (induction ys arbitrary: y) (auto, (meson le_less_trans not_le order.trans less_imp_le)+)
  then show "max_key k xs = Some x \<Longrightarrow> x \<in> set xs \<and> (\<forall>y \<in> set xs. k y \<le> k x)"
    by (cases xs) (auto simp: max_key_def)
qed

lemma min_key_in: "min_key k xs = Some x \<Longrightarrow> x \<in> set xs \<and> (\<forall>y \<in> set xs. k x \<le> k y)"
proof -
  have "foldl (\<lambda>m x. if k x < k m then x else m) y ys \<in> set (y # ys) \<and>
      (\<forall>z \<in> set (y # ys). k (foldl (\<lambda>m x. if k x < k m then x else m) y ys) \<le> k z)" for y ys
    by (induction ys arbitrary: y) (auto, (meson le_less_trans not_le order.trans less_imp_le)+)
  then show "min_key k xs = Some x \<Longrightarrow> x \<in> set xs \<and> (\<forall>y \<in> set xs. k x \<le> k y)"
    by (cases xs) (auto simp: min_key_def)
qed

lemma min_key_None [simp]: "min_key k xs = None \<longleftrightarrow> xs = []"
  by (cases xs) (auto simp: min_key_def)

lemma max_key_None [simp]: "max_key k xs = None \<longleftrightarrow> xs = []"
  by (cases xs) (auto simp: max_key_def)

lemma map_of_group_by: "map_of (group_by k xs) key = (if key \<in> k ` set xs then Some (filter (\<lambda>y. k y = key) xs) else None)"
proof (induction xs)
  case (Cons x xs)
  have "map_of (filter (\<lambda>(k', _). k' \<noteq> k x) g) key = (if key = k x then None else map_of g key)" for g :: "('b \<times> 'a list) list"
    by (induction g) auto
  then show ?case using Cons by (auto simp: filter_empty_conv)
qed simp

lemma dict_get_group_by: "dict_get (group_by k xs) key [] = filter (\<lambda>y. k y = key) xs"
  by (auto simp: dict_get_def map_of_group_by image_iff intro!: filter_False [symmetric])

end
