(* ===== verification/V4l2_Trace.thy ===== *)
theory V4l2_Trace
  imports Startup_Trace Statistics Csv Bisect "HOL-Library.Word"
begin

text \<open>
  \<open>tools/realsense_steady_bench/parse_v4l2_diagnostic_trace.py\<close>: the binary trace of the capture stages,
  its pairing into durations and the gaps in the sequence numbers of the video frames. Files are
  read through the host; the bytes of the trace come from the parameter \<open>read_bytes\<close>. The rows are
  records whose fields are the columns of the CSV files; writing those files is left out.
\<close>

section \<open>Definitions\<close>

type_synonym byte = "8 word"

text \<open>\<open>struct\<close> with the prefix \<open><\<close>: little-endian integers without padding.\<close>

definition le_unsigned :: "byte list \<Rightarrow> int" where
  "le_unsigned bs = horner_sum uint 256 bs"

definition le_signed :: "byte list \<Rightarrow> int" where
  "le_signed bs =
     (let v = le_unsigned bs; n = 8 * length bs in if 2 * v < 2 ^ n then v else v - 2 ^ n)"

definition HEADER_SIZE :: nat where "HEADER_SIZE = 48"
definition EVENT_SIZE :: nat where "EVENT_SIZE = 32"
definition HEADER_BYTES :: nat where "HEADER_BYTES = 4096"

definition MAGIC :: "byte list" where
  "MAGIC = map (of_nat \<circ> char_code) ''RSV4L2D''"

record trace_header =
  hd_magic :: "byte list"
  hd_version :: int
  hd_header_size :: int
  hd_event_size :: int
  hd_capacity :: int
  hd_count :: int
  hd_dropped :: int

text \<open>\<open><8sIIIIQQQ\<close>; the fourth integer is not used.\<close>

definition unpack_header :: "byte list \<Rightarrow> trace_header" where
  "unpack_header bs = \<lparr>hd_magic = take 8 bs, hd_version = le_unsigned (list_slice 8 12 bs),
     hd_header_size = le_unsigned (list_slice 12 16 bs), hd_event_size = le_unsigned (list_slice 16 20 bs),
     hd_capacity = le_unsigned (list_slice 24 32 bs), hd_count = le_unsigned (list_slice 32 40 bs),
     hd_dropped = le_unsigned (list_slice 40 48 bs)\<rparr>"

record raw_event =
  re_timestamp_ns :: int
  re_tid :: int
  re_cpu :: int
  re_stage_id :: int
  re_fd :: int
  re_result :: int
  re_sequence :: int

text \<open>\<open><QIHHiiII\<close>; the last integer is not used.\<close>

definition unpack_event :: "byte list \<Rightarrow> raw_event" where
  "unpack_event bs = \<lparr>re_timestamp_ns = le_unsigned (list_slice 0 8 bs), re_tid = le_unsigned (list_slice 8 12 bs),
     re_cpu = le_unsigned (list_slice 12 14 bs), re_stage_id = le_unsigned (list_slice 14 16 bs),
     re_fd = le_signed (list_slice 16 20 bs), re_result = le_signed (list_slice 20 24 bs),
     re_sequence = le_unsigned (list_slice 24 28 bs)\<rparr>"

function chunks :: "byte list \<Rightarrow> byte list list" where
  "chunks bs = (if bs = [] then [] else take EVENT_SIZE bs # chunks (drop EVENT_SIZE bs))"
  by pat_completeness auto
termination
  by (relation "measure length") (auto simp: EVENT_SIZE_def)

declare chunks.simps [simp del]

definition decode_trace :: "byte list \<Rightarrow> (trace_header \<times> int \<times> raw_event list) res" where
  "decode_trace bs =
     (let raw_header = take HEADER_BYTES bs; header = unpack_header raw_header in
      if length raw_header < HEADER_SIZE then value_error ''V4L2 diagnostic trace header is truncated''
      else if take 7 (hd_magic header) \<noteq> MAGIC \<or> hd_version header \<noteq> 1 then value_error ''unsupported V4L2 diagnostic trace''
      else if hd_header_size header \<noteq> int HEADER_BYTES \<or> hd_event_size header \<noteq> int EVENT_SIZE
      then value_error ''unexpected V4L2 diagnostic trace layout''
      else
        let stored_count = min (hd_count header) (hd_capacity header);
            raw_events = take (nat stored_count * EVENT_SIZE) (drop HEADER_BYTES bs) in
        if int (length raw_events) \<noteq> stored_count * int EVENT_SIZE
        then value_error ''V4L2 diagnostic trace event array is truncated''
        else Inr (header, stored_count, map unpack_event (chunks raw_events)))"

definition STAGE_NAMES :: "(int \<times> string) list" where
  "STAGE_NAMES =
     [(1, ''select_return''), (2, ''metadata_begin''), (3, ''metadata_end''), (4, ''video_dqbuf_begin''),
      (5, ''video_dqbuf_end''), (6, ''metadata_dqbuf_begin''), (7, ''metadata_dqbuf_end''), (8, ''callback_begin''),
      (9, ''callback_end''), (10, ''requeue_begin''), (11, ''requeue_end''), (12, ''sensor_timestamp_begin''),
      (13, ''sensor_timestamp_end''), (14, ''sensor_allocate_begin''), (15, ''sensor_allocate_end''),
      (16, ''sensor_copy_begin''), (17, ''sensor_copy_end''), (18, ''sensor_continue_begin''),
      (19, ''sensor_continue_end''), (20, ''sensor_invoke_begin''), (21, ''sensor_invoke_end''),
      (22, ''syncer_match_begin''), (23, ''syncer_match_end''), (24, ''syncer_emit_begin''),
      (25, ''syncer_emit_end''), (26, ''aggregator_enqueue_begin''), (27, ''aggregator_enqueue_end''),
      (28, ''pipeline_wait_begin''), (29, ''pipeline_wait_end''), (30, ''format_convert_begin''),
      (31, ''format_convert_end'')]"

definition removesuffix :: "string \<Rightarrow> string \<Rightarrow> string" where
  "removesuffix s suf = (if suf \<noteq> [] \<and> endswith s suf then take (length s - length suf) s else s)"

definition PAIRS :: "(string \<times> string) list" where
  "PAIRS = map (\<lambda>(_, stage). (stage, removesuffix stage ''_end'' @ ''_begin''))
     (filter (\<lambda>(_, stage). endswith stage ''_end'') STAGE_NAMES)"

subsection \<open>Statistics\<close>

definition v4l2_percentile :: "rat list \<Rightarrow> rat \<Rightarrow> rat res" where
  "v4l2_percentile values quantile =
     (let ordered = sort values in
      if ordered = [] then Inr 0
      else
        (let position = quantile * of_nat (length ordered - 1);
             low = rat_trunc position;
             high = min (low + 1) (int (length ordered) - 1)
         in
         res_bind (py_index ordered low) (\<lambda>a.
         res_bind (py_index ordered high) (\<lambda>b.
         Inr (a + (b - a) * (position - of_int low))))))"

record stage_distr =
  sd_n :: nat
  sd_min :: rat
  sd_mean :: rat
  sd_p50 :: rat
  sd_p90 :: rat
  sd_p99 :: rat
  sd_max :: rat

definition v4l2_distribution :: "rat list \<Rightarrow> stage_distr res" where
  "v4l2_distribution samples =
     (if samples = [] then Inr \<lparr>sd_n = 0, sd_min = 0, sd_mean = 0, sd_p50 = 0, sd_p90 = 0, sd_p99 = 0, sd_max = 0\<rparr>
      else
        res_bind (v4l2_percentile samples (50 / 100)) (\<lambda>p50.
        res_bind (v4l2_percentile samples (90 / 100)) (\<lambda>p90.
        res_bind (v4l2_percentile samples (99 / 100)) (\<lambda>p99.
        Inr \<lparr>sd_n = length samples, sd_min = foldl min (hd samples) (tl samples), sd_mean = fmean samples,
             sd_p50 = p50, sd_p90 = p90, sd_p99 = p99, sd_max = foldl max (hd samples) (tl samples)\<rparr>))))"

subsection \<open>The steady-state window and the activations\<close>

text \<open>The markers of the phases in the order of the file; unlike in the other parsers a line that is not JSON raises.\<close>

fun phase_markers :: "(string \<Rightarrow> pyval res) \<Rightarrow> string list \<Rightarrow> (string \<times> int) list res" where
  "phase_markers loads [] = Inr []"
| "phase_markers loads (line # ls) =
     (if strip line = [] then phase_markers loads ls
      else
        res_bind (loads line) (\<lambda>row.
        res_bind (py_get row ''event'' PNone) (\<lambda>event.
        if event \<noteq> PStr ''phase_marker'' then phase_markers loads ls
        else
          res_bind (py_get row ''name'' PNone) (\<lambda>name.
          res_bind (py_item row ''timestamp_ns'') (\<lambda>t.
          res_bind (py_intv t) (\<lambda>i.
          res_bind (phase_markers loads ls) (\<lambda>ms. Inr ((py_str name, i) # ms))))))))"

definition phase_window :: "'w host \<Rightarrow> (string \<Rightarrow> pyval res) \<Rightarrow> path \<Rightarrow> 'w \<Rightarrow> (int \<times> int) res" where
  "phase_window h loads p w =
     res_bind (of_host (h_read_text h p w)) (\<lambda>text.
     res_bind (phase_markers loads (split_on (CHR 0x0A) text)) (\<lambda>markers.
     case (map snd (filter (\<lambda>m. fst m = ''steady_state_begin'') markers), map snd (filter (\<lambda>m. fst m = ''steady_state_end'') markers)) of
       ([b], [e]) \<Rightarrow> if e \<le> b then value_error ''lifecycle must contain one valid steady-state window'' else Inr (b, e)
     | _ \<Rightarrow> value_error ''lifecycle must contain one valid steady-state window''))"

record act_entry =
  ae_activation :: int
  ae_release_ns :: int
  ae_completion_ns :: int

definition activation_entry :: "pydict \<Rightarrow> (int \<times> act_entry) res" where
  "activation_entry row =
     res_bind (cell_int row ''tid'') (\<lambda>tid.
     res_bind (cell_int row ''activation'') (\<lambda>a.
     res_bind (cell_int row ''release_ns'') (\<lambda>r.
     res_bind (cell_int row ''completion_ns'') (\<lambda>c.
     Inr (tid, \<lparr>ae_activation = a, ae_release_ns = r, ae_completion_ns = c\<rparr>)))))"

type_synonym activation_index = "(int \<times> int list \<times> act_entry list) list"

definition load_activations :: "'w host \<Rightarrow> path \<Rightarrow> 'w \<Rightarrow> activation_index res" where
  "load_activations h p w =
     (if \<not> h_is_file h p w then Inr []
      else
        res_bind (of_host (h_read_text h p w)) (\<lambda>text.
        res_bind (res_map activation_entry (dict_reader text)) (\<lambda>entries.
        Inr (map (\<lambda>(tid, rows). let sorted_rows = sort_key ae_release_ns (map snd rows) in
               (tid, map ae_release_ns sorted_rows, sorted_rows)) (group_by fst entries)))))"

definition activation_at :: "activation_index \<Rightarrow> int \<Rightarrow> int \<Rightarrow> int option" where
  "activation_at acts tid t =
     (case map_of acts tid of
        None \<Rightarrow> None
      | Some (releases, rows) \<Rightarrow>
          (let position = bisect_right releases t in
           if position \<noteq> 0 \<and> t \<le> ae_completion_ns (rows ! (position - 1)) then Some (ae_activation (rows ! (position - 1))) else None))"

subsection \<open>Events, durations and gaps\<close>

record v4l2_event =
  ve_timestamp_ns :: int
  ve_from_begin_ms :: rat
  ve_steady :: bool
  ve_tid :: int
  ve_cpu :: int
  ve_stage :: string
  ve_fd :: int
  ve_result :: int
  ve_sequence :: int
  ve_activation :: "int option"

definition stage_name :: "int \<Rightarrow> string" where
  "stage_name i = (case map_of STAGE_NAMES i of Some s \<Rightarrow> s | None \<Rightarrow> ''unknown_'' @ str_int i)"

definition event_row :: "int \<Rightarrow> int \<Rightarrow> activation_index \<Rightarrow> raw_event \<Rightarrow> v4l2_event" where
  "event_row steady_begin steady_end acts e =
     \<lparr>ve_timestamp_ns = re_timestamp_ns e, ve_from_begin_ms = ms_between steady_begin (re_timestamp_ns e),
      ve_steady = (steady_begin \<le> re_timestamp_ns e \<and> re_timestamp_ns e \<le> steady_end), ve_tid = re_tid e,
      ve_cpu = re_cpu e, ve_stage = stage_name (re_stage_id e), ve_fd = re_fd e, ve_result = re_result e,
      ve_sequence = re_sequence e, ve_activation = activation_at acts (re_tid e) (re_timestamp_ns e)\<rparr>"

record gap_row =
  gp_timestamp_ns :: int
  gp_from_begin_ms :: rat
  gp_tid :: int
  gp_cpu :: int
  gp_fd :: int
  gp_previous :: int
  gp_sequence :: int
  gp_delta :: int
  gp_missing :: int
  gp_out_of_order :: bool
  gp_activation :: "int option"

record duration_row =
  du_tid :: int
  du_cpu :: int
  du_fd :: int
  du_stage :: string
  du_begin_ns :: int
  du_end_ns :: int
  du_duration_ms :: rat
  du_sequence :: int
  du_steady :: bool
  du_activation :: "int option"

type_synonym stream = "int \<times> int"
type_synonym stage_key = "int \<times> int \<times> string"

record pairing =
  pg_previous :: "(stream \<times> int) list"
  pg_gaps :: "gap_row list"
  pg_frames :: "(stream \<times> nat) list"
  pg_stacks :: "(stage_key \<times> v4l2_event list) list"
  pg_durations :: "duration_row list"

definition pg_empty :: pairing where
  "pg_empty = \<lparr>pg_previous = [], pg_gaps = [], pg_frames = [], pg_stacks = [], pg_durations = []\<rparr>"

definition gap_of :: "v4l2_event \<Rightarrow> int \<Rightarrow> gap_row" where
  "gap_of e previous =
     \<lparr>gp_timestamp_ns = ve_timestamp_ns e, gp_from_begin_ms = ve_from_begin_ms e, gp_tid = ve_tid e, gp_cpu = ve_cpu e,
      gp_fd = ve_fd e, gp_previous = previous, gp_sequence = ve_sequence e, gp_delta = ve_sequence e - previous,
      gp_missing = max 0 (ve_sequence e - previous - 1), gp_out_of_order = (ve_sequence e \<le> previous),
      gp_activation = ve_activation e\<rparr>"

text \<open>The frame of a \<open>video_dqbuf_end\<close> in the steady state.\<close>

definition frame_step :: "v4l2_event \<Rightarrow> pairing \<Rightarrow> pairing" where
  "frame_step e pg =
     (if \<not> (ve_stage e = ''video_dqbuf_end'' \<and> ve_steady e) then pg
      else
        let key = (ve_tid e, ve_fd e) in
        pg\<lparr>pg_frames := dict_set key (dict_get (pg_frames pg) key 0 + 1) (pg_frames pg),
           pg_gaps := pg_gaps pg @ (case map_of (pg_previous pg) key of
               None \<Rightarrow> [] | Some previous \<Rightarrow> if ve_sequence e \<noteq> previous + 1 then [gap_of e previous] else []),
           pg_previous := dict_set key (ve_sequence e) (pg_previous pg)\<rparr>)"

definition duration_of :: "v4l2_event \<Rightarrow> v4l2_event \<Rightarrow> string \<Rightarrow> duration_row" where
  "duration_of b e begin_stage =
     \<lparr>du_tid = ve_tid e, du_cpu = ve_cpu e, du_fd = ve_fd e, du_stage = removesuffix begin_stage ''_begin'',
      du_begin_ns = ve_timestamp_ns b, du_end_ns = ve_timestamp_ns e,
      du_duration_ms = ms_between (ve_timestamp_ns b) (ve_timestamp_ns e), du_sequence = ve_sequence e,
      du_steady = (ve_steady b \<and> ve_steady e), du_activation = ve_activation e\<rparr>"

text \<open>A begin is pushed on the stack of its thread, file and stage; an end pops the last begin, if there is one.\<close>

definition stack_step :: "v4l2_event \<Rightarrow> pairing \<Rightarrow> pairing" where
  "stack_step e pg =
     (if endswith (ve_stage e) ''_begin''
      then pg\<lparr>pg_stacks := dict_append (ve_tid e, ve_fd e, ve_stage e) e (pg_stacks pg)\<rparr>
      else case map_of PAIRS (ve_stage e) of
        None \<Rightarrow> pg
      | Some begin_stage \<Rightarrow>
          (let key = (ve_tid e, ve_fd e, begin_stage); stack = dict_get (pg_stacks pg) key [] in
           if stack = [] then pg
           else pg\<lparr>pg_stacks := dict_set key (butlast stack) (pg_stacks pg),
                   pg_durations := pg_durations pg @ [duration_of (last stack) e begin_stage]\<rparr>))"

definition pair_step :: "v4l2_event \<Rightarrow> pairing \<Rightarrow> pairing" where
  "pair_step e pg = stack_step e (frame_step e pg)"

definition pair_events :: "v4l2_event list \<Rightarrow> pairing" where
  "pair_events es = fold pair_step es pg_empty"

record stream_row =
  st_tid :: int
  st_fd :: int
  st_frames :: nat
  st_discontinuities :: nat
  st_missing :: int

record v4l2_summary =
  vs_event_count :: int
  vs_stored_event_count :: int
  vs_dropped_event_count :: int
  vs_compact_output :: bool
  vs_steady_event_count :: nat
  vs_unmatched_begin_count :: nat
  vs_discontinuity_count :: nat
  vs_missing_frame_count :: int
  vs_streams :: "stream_row list"
  vs_stages_ms :: "(string \<times> stage_distr) list"
  vs_longest :: "duration_row option"

definition stream_gaps :: "stream \<Rightarrow> gap_row list \<Rightarrow> gap_row list" where
  "stream_gaps s gaps = filter (\<lambda>g. gp_tid g = fst s \<and> gp_fd g = snd s) gaps"

definition stream_rows :: "pairing \<Rightarrow> stream_row list" where
  "stream_rows pg = map (\<lambda>(s, n).
       \<lparr>st_tid = fst s, st_fd = snd s, st_frames = n, st_discontinuities = length (stream_gaps s (pg_gaps pg)),
        st_missing = sum_list (map gp_missing (stream_gaps s (pg_gaps pg)))\<rparr>)
     (sort_key fst (pg_frames pg))"

definition summarize_v4l2 :: "bool \<Rightarrow> trace_header \<Rightarrow> int \<Rightarrow> v4l2_event list \<Rightarrow> pairing \<Rightarrow> v4l2_summary res" where
  "summarize_v4l2 compact_output header stored es pg =
     (let steady = filter du_steady (pg_durations pg) in
      res_bind (res_map (\<lambda>stage. res_bind (v4l2_distribution (map du_duration_ms (filter (\<lambda>d. du_stage d = stage) steady))) (\<lambda>ds. Inr (stage, ds)))
        (sort (remdups (map du_stage steady)))) (\<lambda>stages.
      Inr \<lparr>vs_event_count = hd_count header, vs_stored_event_count = stored, vs_dropped_event_count = hd_dropped header,
           vs_compact_output = compact_output, vs_steady_event_count = length (filter ve_steady es),
           vs_unmatched_begin_count = sum_list (map (length \<circ> snd) (pg_stacks pg)),
           vs_discontinuity_count = length (pg_gaps pg), vs_missing_frame_count = sum_list (map gp_missing (pg_gaps pg)),
           vs_streams = stream_rows pg, vs_stages_ms = stages, vs_longest = max_key du_duration_ms steady\<rparr>))"

text \<open>\<open>parse_trace\<close>: the event rows, the durations, the gaps and the summary.\<close>

definition parse_v4l2_trace ::
  "'w host \<Rightarrow> (string \<Rightarrow> pyval res) \<Rightarrow> (path \<Rightarrow> 'w \<Rightarrow> host_error + byte list) \<Rightarrow> path \<Rightarrow> path \<Rightarrow> path \<Rightarrow> bool \<Rightarrow> 'w \<Rightarrow>
     (v4l2_event list \<times> pairing \<times> v4l2_summary) res" where
  "parse_v4l2_trace h loads read_bytes trace_path lifecycle_path out_dir compact_output w =
     res_bind (phase_window h loads lifecycle_path w) (\<lambda>(steady_begin, steady_end).
     res_bind (load_activations h (out_dir @ [''thread_steady_activations.csv'']) w) (\<lambda>acts.
     res_bind (of_host (read_bytes trace_path w)) (\<lambda>bytes.
     res_bind (decode_trace bytes) (\<lambda>(header, stored, raws).
     let es = sort_key (\<lambda>e. (ve_timestamp_ns e, ve_tid e)) (map (event_row steady_begin steady_end acts) raws);
         pg = pair_events es in
     res_bind (summarize_v4l2 compact_output header stored es pg) (\<lambda>summary. Inr (es, pg, summary))))))"

section \<open>Lemmas\<close>

subsection \<open>Bytes\<close>

text \<open>The layout the producer of the trace writes, as a reference for the decoder.\<close>

primrec le_bytes :: "nat \<Rightarrow> int \<Rightarrow> byte list" where
  "le_bytes 0 v = []"
| "le_bytes (Suc n) v = word_of_int v # le_bytes n (v div 256)"

lemma length_le_bytes [simp]: "length (le_bytes n v) = n"
  by (induction n arbitrary: v) auto

lemma le_unsigned_bytes: "le_unsigned (le_bytes n v) = v mod 256 ^ n"
proof (induction n arbitrary: v)
  case (Suc n)
  have "uint (word_of_int v :: byte) = v mod 256" by (simp add: uint_word_of_int)
  then show ?case using Suc [of "v div 256"] by (simp add: le_unsigned_def zmod_zmult2_eq)
qed (simp add: le_unsigned_def)

definition unsigned_fits :: "nat \<Rightarrow> int \<Rightarrow> bool" where
  "unsigned_fits n v \<longleftrightarrow> 0 \<le> v \<and> v < 256 ^ n"

definition signed_fits :: "nat \<Rightarrow> int \<Rightarrow> bool" where
  "signed_fits n v \<longleftrightarrow> - (256 ^ n) \<le> 2 * v \<and> 2 * v < 256 ^ n"

lemma le_unsigned_id: "unsigned_fits n v \<Longrightarrow> le_unsigned (le_bytes n v) = v"
  by (simp add: le_unsigned_bytes unsigned_fits_def)

lemma le_signed_id:
  assumes "signed_fits n v"
  shows "le_signed (le_bytes n v) = v"
proof -
  have p: "(2 :: int) ^ (8 * n) = 256 ^ n" by (simp add: power_mult)
  show ?thesis
  proof (cases "0 \<le> v")
    case True
    then have "v mod 256 ^ n = v" using assms by (simp add: signed_fits_def)
    then show ?thesis using assms by (simp add: le_signed_def le_unsigned_bytes signed_fits_def p)
  next
    case False
    have "(v + 256 ^ n) mod 256 ^ n = v + 256 ^ n" using assms False by (intro mod_pos_pos_trivial) (simp_all add: signed_fits_def)
    then have "v mod 256 ^ n = v + 256 ^ n" by simp
    then show ?thesis using assms False by (simp add: le_signed_def le_unsigned_bytes signed_fits_def p)
  qed
qed

definition pack_event :: "raw_event \<Rightarrow> byte list" where
  "pack_event e = le_bytes 8 (re_timestamp_ns e) @ le_bytes 4 (re_tid e) @ le_bytes 2 (re_cpu e) @ le_bytes 2 (re_stage_id e) @
     le_bytes 4 (re_fd e) @ le_bytes 4 (re_result e) @ le_bytes 4 (re_sequence e) @ le_bytes 4 0"

definition event_fits :: "raw_event \<Rightarrow> bool" where
  "event_fits e \<longleftrightarrow> unsigned_fits 8 (re_timestamp_ns e) \<and> unsigned_fits 4 (re_tid e) \<and> unsigned_fits 2 (re_cpu e) \<and>
     unsigned_fits 2 (re_stage_id e) \<and> signed_fits 4 (re_fd e) \<and> signed_fits 4 (re_result e) \<and> unsigned_fits 4 (re_sequence e)"

lemma length_pack_event [simp]: "length (pack_event e) = 32"
  by (simp add: pack_event_def)

lemma slice_first: "length xs = n \<Longrightarrow> list_slice 0 n (xs @ ys) = xs"
  by (simp add: list_slice_def)

lemma slice_skip: "length xs \<le> i \<Longrightarrow> list_slice i j (xs @ ys) = list_slice (i - length xs) (j - length xs) ys"
  by (cases "length xs \<le> j") (simp_all add: list_slice_def)

lemma slice_Cons: "0 < i \<Longrightarrow> list_slice i j (x # xs) = list_slice (i - 1) (j - 1) xs"
  using slice_skip [of "[x]" i j xs] by simp

lemma slice_all: "length xs = n \<Longrightarrow> list_slice 0 n xs = xs"
  by (simp add: list_slice_def)

lemma unpack_pack_event: "event_fits e \<Longrightarrow> unpack_event (pack_event e) = e"
  by (simp add: unpack_event_def pack_event_def slice_skip slice_first event_fits_def le_unsigned_id le_signed_id)

lemma chunks_pack: "chunks (concat (map pack_event es)) = map pack_event es"
proof (induction es)
  case (Cons e es)
  then show ?case by (subst chunks.simps) (auto simp: EVENT_SIZE_def dest: arg_cong [of _ _ length])
qed (simp add: chunks.simps)

lemma length_concat_pack [simp]: "length (concat (map pack_event es)) = 32 * length es"
  by (induction es) auto

definition encode_header :: "int \<Rightarrow> int \<Rightarrow> int \<Rightarrow> byte list" where
  "encode_header capacity num dropped = MAGIC @ [0] @ le_bytes 4 1 @ le_bytes 4 4096 @ le_bytes 4 32 @ le_bytes 4 0 @
     le_bytes 8 capacity @ le_bytes 8 num @ le_bytes 8 dropped"

definition encode_trace :: "int \<Rightarrow> int \<Rightarrow> int \<Rightarrow> raw_event list \<Rightarrow> byte list" where
  "encode_trace capacity num dropped es =
     encode_header capacity num dropped @ replicate 4048 0 @ concat (map pack_event es)"

lemma length_MAGIC [simp]: "length MAGIC = 7"
  by (simp add: MAGIC_def)

lemma length_encode_header [simp]: "length (encode_header c n d) = 48"
  by (simp add: encode_header_def)

lemma unpack_encode_header:
  assumes "unsigned_fits 8 capacity" "unsigned_fits 8 num" "unsigned_fits 8 dropped"
  shows "unpack_header (encode_header capacity num dropped @ rest) =
    \<lparr>hd_magic = MAGIC @ [0], hd_version = 1, hd_header_size = 4096, hd_event_size = 32,
     hd_capacity = capacity, hd_count = num, hd_dropped = dropped\<rparr>"
proof -
  have "unsigned_fits 4 1" "unsigned_fits 4 4096" "unsigned_fits 4 32" by (simp_all add: unsigned_fits_def)
  then show ?thesis using assms
    by (simp add: unpack_header_def encode_header_def slice_skip slice_Cons slice_first le_unsigned_id)
qed

lemma decode_header:
  assumes "unsigned_fits 8 capacity" "unsigned_fits 8 num" "unsigned_fits 8 dropped"
    and "bs = encode_header capacity num dropped @ rest"
  shows "decode_trace bs =
    (let raw_events = take (nat (min num capacity) * 32) (drop 4096 bs) in
     if int (length raw_events) \<noteq> min num capacity * 32 then value_error ''V4L2 diagnostic trace event array is truncated''
     else Inr (\<lparr>hd_magic = MAGIC @ [0], hd_version = 1, hd_header_size = 4096, hd_event_size = 32,
       hd_capacity = capacity, hd_count = num, hd_dropped = dropped\<rparr>, min num capacity, map unpack_event (chunks raw_events)))"
proof -
  have t: "take 4096 bs = encode_header capacity num dropped @ take 4048 rest" unfolding assms(4) by simp
  show ?thesis
    unfolding decode_trace_def HEADER_BYTES_def Let_def t unpack_encode_header [OF assms(1-3)]
    using assms(1,2) by (simp add: HEADER_SIZE_def EVENT_SIZE_def unsigned_fits_def)
qed

lemma decode_encoded:
  assumes "unsigned_fits 8 capacity" "unsigned_fits 8 num" "unsigned_fits 8 dropped"
    and "int (length es) = min num capacity" "\<forall>e \<in> set es. event_fits e"
  shows "decode_trace (encode_trace capacity num dropped es @ rest) =
    Inr (\<lparr>hd_magic = MAGIC @ [0], hd_version = 1, hd_header_size = 4096, hd_event_size = 32,
       hd_capacity = capacity, hd_count = num, hd_dropped = dropped\<rparr>, min num capacity, es)"
proof -
  let ?bs = "encode_trace capacity num dropped es @ rest"
  have n: "nat (min num capacity) = length es" using assms(4) by (metis nat_int)
  have d: "take (length es * 32) (drop 4096 ?bs) = concat (map pack_event es)" by (simp add: encode_trace_def)
  have "map unpack_event (map pack_event es) = es" using assms(5) by (simp add: map_idI unpack_pack_event)
  then have u: "map unpack_event (chunks (concat (map pack_event es))) = es" by (simp only: chunks_pack)
  have e: "?bs = encode_header capacity num dropped @ (replicate 4048 0 @ concat (map pack_event es) @ rest)" by (simp add: encode_trace_def)
  show ?thesis
    unfolding decode_header [OF assms(1-3) e] Let_def n d u using assms(4) by simp
qed

lemma decode_truncated:
  assumes "unsigned_fits 8 capacity" "unsigned_fits 8 num" "unsigned_fits 8 dropped"
    and "int (length es) = min num capacity" "k < length (encode_trace capacity num dropped es)" "es \<noteq> []"
  shows "\<exists>m. decode_trace (take k (encode_trace capacity num dropped es)) = value_error m"
proof (cases "k < 48")
  case True
  then have "length (take HEADER_BYTES (take k (encode_trace capacity num dropped es))) < HEADER_SIZE"
    by (simp add: HEADER_SIZE_def HEADER_BYTES_def)
  then show ?thesis unfolding decode_trace_def Let_def by (simp only: if_True) blast
next
  case False
  let ?bs = "take k (encode_trace capacity num dropped es)"
  have e: "?bs = encode_header capacity num dropped @ take (k - 48) (replicate 4048 0 @ concat (map pack_event es))"
    using False by (simp add: encode_trace_def)
  have "length ?bs - 4096 \<le> k - 4096" by simp
  moreover have "k - 4096 < length es * 32" using assms(5,6) by (cases es) (auto simp: encode_trace_def)
  ultimately have "length ?bs - 4096 < length es * 32" by linarith
  then have "int (length (take (nat (min num capacity) * 32) (drop 4096 ?bs))) < int (length es) * 32" by simp
  then have "int (length (take (nat (min num capacity) * 32) (drop 4096 ?bs))) \<noteq> min num capacity * 32"
    unfolding assms(4) by simp
  then show ?thesis unfolding decode_header [OF assms(1-3) e] Let_def by simp
qed

subsection \<open>Frames and gaps\<close>

text \<open>The sequence numbers of the frames of one stream, and the gaps between neighbours.\<close>

definition is_frame :: "stream \<Rightarrow> v4l2_event \<Rightarrow> bool" where
  "is_frame s e \<longleftrightarrow> ve_stage e = ''video_dqbuf_end'' \<and> ve_steady e \<and> (ve_tid e, ve_fd e) = s"

definition frame_sequences :: "stream \<Rightarrow> v4l2_event list \<Rightarrow> int list" where
  "frame_sequences s es = map ve_sequence (filter (is_frame s) es)"

definition neighbours :: "int list \<Rightarrow> (int \<times> int) list" where
  "neighbours xs = zip xs (tl xs)"

lemma neighbours_snoc: "neighbours (xs @ [x]) = neighbours xs @ (if xs = [] then [] else [(last xs, x)])"
proof (induction xs)
  case (Cons y ys)
  then show ?case by (cases ys) (auto simp: neighbours_def)
qed (simp add: neighbours_def)

lemma stack_step_frames [simp]:
  "pg_frames (stack_step e pg) = pg_frames pg" "pg_gaps (stack_step e pg) = pg_gaps pg" "pg_previous (stack_step e pg) = pg_previous pg"
  by (auto simp: stack_step_def Let_def split: option.splits)

lemma frame_step_stacks [simp]:
  "pg_stacks (frame_step e pg) = pg_stacks pg" "pg_durations (frame_step e pg) = pg_durations pg"
  by (auto simp: frame_step_def Let_def)

lemma pair_events_snoc: "pair_events (es @ [e]) = pair_step e (pair_events es)"
  by (simp add: pair_events_def)

lemma frames_counted: "dict_get (pg_frames (pair_events es)) s 0 = length (frame_sequences s es)"
proof (induction es rule: rev_induct)
  case (snoc e es)
  then show ?case
    by (auto simp: pair_events_snoc pair_step_def frame_step_def Let_def frame_sequences_def is_frame_def dict_get_def)
qed (simp add: pair_events_def pg_empty_def frame_sequences_def dict_get_def)

lemma previous_is_last:
  "map_of (pg_previous (pair_events es)) s = (if frame_sequences s es = [] then None else Some (last (frame_sequences s es)))"
proof (induction es rule: rev_induct)
  case (snoc e es)
  then show ?case
    by (auto simp: pair_events_snoc pair_step_def frame_step_def Let_def frame_sequences_def is_frame_def)
qed (simp add: pair_events_def pg_empty_def frame_sequences_def)

lemma gaps_of_stream:
  "map (\<lambda>g. (gp_previous g, gp_sequence g)) (stream_gaps s (pg_gaps (pair_events es))) =
     filter (\<lambda>(a, b). b \<noteq> a + 1) (neighbours (frame_sequences s es))"
proof (induction es rule: rev_induct)
  case (snoc e es)
  show ?case
  proof (cases "is_frame s e")
    case True
    have seqs: "frame_sequences s (es @ [e]) = frame_sequences s es @ [ve_sequence e]" using True by (simp add: frame_sequences_def)
    have s: "(ve_tid e, ve_fd e) = s" "ve_stage e = ''video_dqbuf_end''" "ve_steady e" using True by (auto simp: is_frame_def)
    have "stream_gaps s [gap_of e p] = [gap_of e p]" for p using s by (auto simp: stream_gaps_def gap_of_def)
    then have "map (\<lambda>g. (gp_previous g, gp_sequence g)) (stream_gaps s (pg_gaps (pair_events (es @ [e])))) =
        map (\<lambda>g. (gp_previous g, gp_sequence g)) (stream_gaps s (pg_gaps (pair_events es))) @
          (if frame_sequences s es = [] \<or> ve_sequence e = last (frame_sequences s es) + 1 then [] else [(last (frame_sequences s es), ve_sequence e)])"
      using previous_is_last [of es s] s
      by (auto simp: pair_events_snoc pair_step_def frame_step_def Let_def stream_gaps_def gap_of_def)
    then show ?thesis using snoc by (simp add: seqs neighbours_snoc)
  next
    case False
    have "frame_sequences s (es @ [e]) = frame_sequences s es" using False by (simp add: frame_sequences_def)
    moreover have "stream_gaps s (pg_gaps (pair_events (es @ [e]))) = stream_gaps s (pg_gaps (pair_events es))"
      using False by (auto simp: pair_events_snoc pair_step_def frame_step_def Let_def stream_gaps_def is_frame_def gap_of_def split: option.splits)
    ultimately show ?thesis using snoc by simp
  qed
qed (simp add: pair_events_def pg_empty_def frame_sequences_def neighbours_def stream_gaps_def)

lemma gap_missing: "g \<in> set (pg_gaps (pair_events es)) \<Longrightarrow> gp_missing g = max 0 (gp_sequence g - gp_previous g - 1)"
proof (induction es rule: rev_induct)
  case (snoc e es)
  then show ?case by (auto simp: pair_events_snoc pair_step_def frame_step_def Let_def gap_of_def split: if_splits option.splits)
qed (simp add: pair_events_def pg_empty_def)

lemma sum_list_filter_zero: "(\<And>x. \<not> p x \<Longrightarrow> f x = 0) \<Longrightarrow> sum_list (map f (filter p xs)) = sum_list (map f xs)"
  for f :: "'a \<Rightarrow> int"
  by (induction xs) auto

lemma missing_of_stream:
  "sum_list (map gp_missing (stream_gaps s (pg_gaps (pair_events es)))) =
     (\<Sum>(a, b) \<leftarrow> neighbours (frame_sequences s es). max 0 (b - a - 1))"
proof -
  let ?gs = "stream_gaps s (pg_gaps (pair_events es))"
  let ?m = "\<lambda>(a, b). max 0 (b - a - 1 :: int)"
  have "map gp_missing ?gs = map ?m (map (\<lambda>g. (gp_previous g, gp_sequence g)) ?gs)"
    using gap_missing [of _ es] by (auto simp: stream_gaps_def)
  also have "\<dots> = map ?m (filter (\<lambda>(a, b). b \<noteq> a + 1) (neighbours (frame_sequences s es)))"
    by (simp only: gaps_of_stream)
  finally have "sum_list (map gp_missing ?gs) = sum_list (map ?m (filter (\<lambda>(a, b). b \<noteq> a + 1) (neighbours (frame_sequences s es))))"
    by simp
  also have "\<dots> = sum_list (map ?m (neighbours (frame_sequences s es)))"
    by (rule sum_list_filter_zero) auto
  finally show ?thesis .
qed

lemma missing_telescopes:
  "sorted_wrt (<) xs \<Longrightarrow> xs \<noteq> [] \<Longrightarrow> (\<Sum>(a, b) \<leftarrow> neighbours xs. max 0 (b - a - 1)) + int (length xs) = last xs - hd xs + 1"
proof (induction xs rule: rev_induct)
  case (snoc x xs)
  show ?case
  proof (cases "xs = []")
    case False
    have "last xs < x" using snoc.prems(1) False by (auto simp: sorted_wrt_append)
    then show ?thesis using snoc False by (simp add: neighbours_snoc sorted_wrt_append)
  qed (simp add: neighbours_def)
qed simp

subsection \<open>Pairing\<close>

abbreviation is_begin :: "v4l2_event \<Rightarrow> bool" where
  "is_begin e \<equiv> endswith (ve_stage e) ''_begin''"

definition open_begins :: "pairing \<Rightarrow> nat" where
  "open_begins pg = sum_list (map (length \<circ> snd) (pg_stacks pg))"

lemma stack_sum: "sum_list (map (length \<circ> snd) (dict_set k v d)) + length (dict_get d k []) = sum_list (map (length \<circ> snd) d) + length v"
  by (induction d) (auto simp: dict_get_def)

lemma begins_accounted:
  "length (filter is_begin es) = length (pg_durations (pair_events es)) + open_begins (pair_events es)"
proof (induction es rule: rev_induct)
  case (snoc e es)
  let ?pg = "pair_events es"
  show ?case
  proof (cases "is_begin e")
    case True
    have "open_begins (pair_step e ?pg) = open_begins ?pg + 1"
      using True stack_sum [of "(ve_tid e, ve_fd e, ve_stage e)" "dict_get (pg_stacks ?pg) (ve_tid e, ve_fd e, ve_stage e) [] @ [e]" "pg_stacks ?pg"]
      by (simp add: open_begins_def pair_step_def stack_step_def dict_append_def)
    moreover have "pg_durations (pair_step e ?pg) = pg_durations ?pg" using True by (simp add: pair_step_def stack_step_def)
    ultimately show ?thesis using snoc True by (simp add: pair_events_snoc)
  next
    case False
    have "length (pg_durations (pair_step e ?pg)) + open_begins (pair_step e ?pg) = length (pg_durations ?pg) + open_begins ?pg"
    proof (cases "map_of PAIRS (ve_stage e)")
      case (Some b)
      let ?k = "(ve_tid e, ve_fd e, b)"
      let ?st = "dict_get (pg_stacks ?pg) ?k []"
      show ?thesis
      proof (cases "?st = []")
        case nonempty: False
        obtain st x where st: "?st = st @ [x]" using nonempty by (cases ?st rule: rev_cases) auto
        then show ?thesis using False Some stack_sum [of ?k st "pg_stacks ?pg"]
          by (simp add: open_begins_def pair_step_def stack_step_def Let_def)
      qed (use False Some in \<open>simp add: open_begins_def pair_step_def stack_step_def Let_def\<close>)
    qed (use False in \<open>simp add: open_begins_def pair_step_def stack_step_def\<close>)
    then show ?thesis using snoc False by (simp add: pair_events_snoc)
  qed
qed (simp add: pair_events_def pg_empty_def open_begins_def)

text \<open>What the stack of a key holds: begins of that thread, file and stage that occurred before.\<close>

definition stacks_ok :: "v4l2_event list \<Rightarrow> pairing \<Rightarrow> bool" where
  "stacks_ok es pg \<longleftrightarrow> (\<forall>tid fd stage b. b \<in> set (dict_get (pg_stacks pg) (tid, fd, stage) []) \<longrightarrow>
     b \<in> set es \<and> ve_tid b = tid \<and> ve_fd b = fd \<and> ve_stage b = stage)"

lemma stacks_ok: "stacks_ok es (pair_events es)"
proof (induction es rule: rev_induct)
  case (snoc e es)
  then show ?case
    unfolding pair_events_snoc pair_step_def stack_step_def stacks_ok_def
    by (auto simp: Let_def dict_append_def dict_get_set split: option.splits if_splits dest: in_set_butlastD)
qed (simp add: stacks_ok_def pair_events_def pg_empty_def dict_get_def)

lemma PAIRS_stage: "map_of PAIRS stage = Some b \<Longrightarrow> \<exists>base. stage = base @ ''_end'' \<and> b = base @ ''_begin'' \<and> removesuffix b ''_begin'' = base"
proof -
  have "list_all (\<lambda>(s, b). s = removesuffix b ''_begin'' @ ''_end'' \<and> b = removesuffix b ''_begin'' @ ''_begin'') PAIRS" by code_simp
  moreover assume "map_of PAIRS stage = Some b"
  ultimately have "stage = removesuffix b ''_begin'' @ ''_end'' \<and> b = removesuffix b ''_begin'' @ ''_begin''"
    by (auto simp: list_all_iff dest: map_of_SomeD)
  then show ?thesis by (intro exI [of _ "removesuffix b ''_begin''"]) simp
qed

definition duration_ok :: "v4l2_event list \<Rightarrow> duration_row \<Rightarrow> bool" where
  "duration_ok es d \<longleftrightarrow> (\<exists>b \<in> set es. \<exists>e \<in> set es. ve_stage b = du_stage d @ ''_begin'' \<and> ve_stage e = du_stage d @ ''_end'' \<and>
     ve_tid b = du_tid d \<and> ve_tid e = du_tid d \<and> ve_fd b = du_fd d \<and> ve_fd e = du_fd d \<and>
     du_begin_ns d = ve_timestamp_ns b \<and> du_end_ns d = ve_timestamp_ns e \<and> du_begin_ns d \<le> du_end_ns d \<and>
     du_duration_ms d = ms_between (du_begin_ns d) (du_end_ns d) \<and> (du_steady d \<longleftrightarrow> ve_steady b \<and> ve_steady e))"

lemma duration_ok_mono: "duration_ok es d \<Longrightarrow> duration_ok (es @ fs) d"
  unfolding duration_ok_def by fastforce

lemma durations_ok:
  assumes "sorted (map ve_timestamp_ns es)"
  shows "list_all (duration_ok es) (pg_durations (pair_events es))"
  using assms
proof (induction es rule: rev_induct)
  case (snoc e es)
  let ?pg = "pair_events es"
  have old: "list_all (duration_ok (es @ [e])) (pg_durations ?pg)"
    using snoc by (auto simp: sorted_append list_all_iff intro: duration_ok_mono)
  have new: "duration_ok (es @ [e]) (duration_of (last st) e b)"
    if pair: "map_of PAIRS (ve_stage e) = Some b" "st = dict_get (pg_stacks ?pg) (ve_tid e, ve_fd e, b) []" "st \<noteq> []" for b st
  proof -
    obtain base where base: "ve_stage e = base @ ''_end''" "b = base @ ''_begin''" "removesuffix b ''_begin'' = base"
      using PAIRS_stage [OF pair(1)] by blast
    have stage: "removesuffix (base @ ''_begin'') ''_begin'' = base" using base by simp
    have "last st \<in> set es" "ve_tid (last st) = ve_tid e" "ve_fd (last st) = ve_fd e" "ve_stage (last st) = b"
      using stacks_ok [of es] last_in_set [OF pair(3)] unfolding stacks_ok_def pair(2) by blast+
    moreover from this have "ve_timestamp_ns (last st) \<le> ve_timestamp_ns e" using snoc.prems by (simp add: sorted_append)
    ultimately show ?thesis unfolding duration_ok_def
      by (intro bexI [of _ "last st"] bexI [of _ e]) (simp_all add: duration_of_def base(1,2) stage)
  qed
  show ?case
    unfolding pair_events_snoc pair_step_def stack_step_def
    using old new by (auto simp: Let_def split: option.splits)
qed (simp add: pair_events_def pg_empty_def)

text \<open>The durations of a stream depend on the events of that stream only, however the streams interleave.\<close>

definition own :: "stream \<Rightarrow> v4l2_event \<Rightarrow> bool" where
  "own s e \<longleftrightarrow> (ve_tid e, ve_fd e) = s"

lemma streams_independent:
  "filter (\<lambda>d. (du_tid d, du_fd d) = s) (pg_durations (pair_events es)) = pg_durations (pair_events (filter (own s) es)) \<and>
   (\<forall>stage. dict_get (pg_stacks (pair_events es)) (fst s, snd s, stage) [] = dict_get (pg_stacks (pair_events (filter (own s) es))) (fst s, snd s, stage) [])"
proof (induction es rule: rev_induct)
  case (snoc e es)
  show ?case
  proof (cases "own s e")
    case True
    then have s: "ve_tid e = fst s" "ve_fd e = snd s" by (auto simp: own_def)
    have f: "filter (own s) (es @ [e]) = filter (own s) es @ [e]" using True by simp
    show ?thesis unfolding f pair_events_snoc pair_step_def stack_step_def using snoc s
      by (auto simp: Let_def dict_append_def dict_get_set duration_of_def split: option.splits)
  next
    case False
    then have s: "(ve_tid e, ve_fd e) \<noteq> s" by (auto simp: own_def)
    have f: "filter (own s) (es @ [e]) = filter (own s) es" using False by simp
    show ?thesis unfolding f pair_events_snoc pair_step_def stack_step_def using snoc s
      by (auto simp: Let_def dict_append_def dict_get_set duration_of_def split: option.splits)
  qed
qed (simp add: pair_events_def pg_empty_def dict_get_def)

interpretation v4l2: percentile_estimator v4l2_percentile
proof
  fix xs :: "rat list" and q :: rat
  assume "xs \<noteq> []" "0 \<le> q" "q \<le> 1"
  then show "v4l2_percentile xs q = Inr (quantile_of xs q)"
    using percentile_strict_interpolates [of xs q] by (simp add: v4l2_percentile_def percentile_strict_def Let_def)
qed

subsection \<open>Claims\<close>


definition demo_raw :: raw_event where
  "demo_raw = \<lparr>re_timestamp_ns = 5000000, re_tid = 42, re_cpu = 3, re_stage_id = 5, re_fd = -1, re_result = 0, re_sequence = 7\<rparr>"


text \<open>
  C31. The pairing of begin and end events. Every begin event ends up in a duration or is counted as
  unmatched; every duration joins a begin and a later end of one thread, one file and one stage; and the
  durations of a stream are those of its own events, however the events of several threads interleave.
\<close>

theorem v4l2_pairing:
  assumes "sorted (map ve_timestamp_ns es)"
  shows "length (filter (\<lambda>e. endswith (ve_stage e) ''_begin'') es) =
      length (pg_durations (pair_events es)) + sum_list (map (length \<circ> snd) (pg_stacks (pair_events es))) \<and>
    list_all (duration_ok es) (pg_durations (pair_events es)) \<and>
    filter (\<lambda>d. (du_tid d, du_fd d) = s) (pg_durations (pair_events es)) = pg_durations (pair_events (filter (own s) es))"
  using begins_accounted [of es] durations_ok [OF assms] streams_independent [of s es] by (simp add: open_begins_def)

definition demo_event :: "int \<Rightarrow> int \<Rightarrow> string \<Rightarrow> int \<Rightarrow> v4l2_event" where
  "demo_event t tid stage seq = \<lparr>ve_timestamp_ns = t, ve_from_begin_ms = 0, ve_steady = True, ve_tid = tid, ve_cpu = 0,
     ve_stage = stage, ve_fd = 4, ve_result = 0, ve_sequence = seq, ve_activation = None\<rparr>"

definition demo_events :: "v4l2_event list" where
  "demo_events = [demo_event 10 1 ''video_dqbuf_begin'' 0, demo_event 11 2 ''video_dqbuf_begin'' 0,
     demo_event 12 1 ''video_dqbuf_end'' 5, demo_event 13 2 ''video_dqbuf_end'' 9, demo_event 14 2 ''callback_begin'' 0,
     demo_event 15 1 ''video_dqbuf_end'' 8]"

theorem v4l2_pairing_witness:
  "map (\<lambda>d. (du_tid d, du_begin_ns d, du_end_ns d)) (pg_durations (pair_events demo_events)) = [(1, 10, 12), (2, 11, 13)] \<and>
   list_all (duration_ok demo_events) (pg_durations (pair_events demo_events)) \<and>
   pg_durations (pair_events (filter (own (2, 4)) demo_events)) = filter (\<lambda>d. (du_tid d, du_fd d) = (2, 4)) (pg_durations (pair_events demo_events))"
proof -
  have "sorted (map ve_timestamp_ns demo_events)" by (simp add: demo_events_def demo_event_def)
  moreover have "map (\<lambda>d. (du_tid d, du_begin_ns d, du_end_ns d)) (pg_durations (pair_events demo_events)) = [(1, 10, 12), (2, 11, 13)]"
    by code_simp
  ultimately show ?thesis using v4l2_pairing [of demo_events "(2, 4)"] by simp
qed

text \<open>
  C32. The lost frames of a stream. The summary counts every frame of the stream; it reports a
  discontinuity exactly for the neighbouring frames whose sequence numbers are not consecutive; and
  when the sequence numbers increase, frames and missing frames together fill the range from the
  first to the last one.
\<close>

theorem v4l2_gaps_account:
  assumes "frame_sequences s es = seqs"
  shows "dict_get (pg_frames (pair_events es)) s 0 = length seqs \<and>
    map (\<lambda>g. (gp_previous g, gp_sequence g)) (stream_gaps s (pg_gaps (pair_events es))) = filter (\<lambda>(a, b). b \<noteq> a + 1) (zip seqs (tl seqs)) \<and>
    (sorted_wrt (<) seqs \<and> seqs \<noteq> [] \<longrightarrow>
       int (length seqs) + sum_list (map gp_missing (stream_gaps s (pg_gaps (pair_events es)))) = last seqs - hd seqs + 1)"
  using frames_counted [of es s] gaps_of_stream [of s es] missing_of_stream [of s es] missing_telescopes [of seqs] assms
  by (auto simp: neighbours_def)

theorem v4l2_gaps_account_witness:
  "dict_get (pg_frames (pair_events demo_events)) (1, 4) 0 = 2 \<and>
   2 + sum_list (map gp_missing (stream_gaps (1, 4) (pg_gaps (pair_events demo_events)))) = 8 - 5 + 1"
proof -
  have "frame_sequences (1, 4) demo_events = [5, 8]" by (simp add: frame_sequences_def is_frame_def demo_events_def demo_event_def)
  from v4l2_gaps_account [OF this] show ?thesis by simp
qed

end
