(* ===== verification/Trace_Line.thy ===== *)
theory Trace_Line
  imports V4l2_Trace
begin

unbundle bit_operations_syntax

text \<open>
  The lines of a \<open>trace-cmd report\<close>, as \<open>parse_overrun_kernel_trace.py\<close> and
  \<open>parse_freshness_kernel_trace.py\<close> read them. A regular expression is the list of its matches in the order
  in which the backtracking matcher of \<open>re\<close> tries them, each with the rest of the text; the first
  one is the match. Character classes are those of ASCII texts.
\<close>

section \<open>Definitions\<close>

type_synonym 'a rx = "string \<Rightarrow> ('a \<times> string) list"

definition rx_return :: "'a \<Rightarrow> 'a rx" where
  "rx_return a s = [(a, s)]"

definition rx_bind :: "'a rx \<Rightarrow> ('a \<Rightarrow> 'b rx) \<Rightarrow> 'b rx" where
  "rx_bind r f s = concat (map (\<lambda>(a, rest). f a rest) (r s))"

definition rx_lit :: "string \<Rightarrow> unit rx" where
  "rx_lit text s = (if startswith s text then [((), drop (length text) s)] else [])"

definition rx_class :: "(char \<Rightarrow> bool) \<Rightarrow> unit rx" where
  "rx_class p s = (case s of c # cs \<Rightarrow> if p c then [((), cs)] else [] | [] \<Rightarrow> [])"

text \<open>\<open>p*\<close> with at least \<open>least\<close> repetitions takes as much as it can; \<open>p*?\<close> takes as little as it can.\<close>

definition rx_many :: "nat \<Rightarrow> (char \<Rightarrow> bool) \<Rightarrow> string rx" where
  "rx_many least p s = map (\<lambda>n. (take n s, drop n s)) (rev [least..<Suc (length (takeWhile p s))])"

definition rx_lazy :: "(char \<Rightarrow> bool) \<Rightarrow> string rx" where
  "rx_lazy p s = map (\<lambda>n. (take n s, drop n s)) [0..<Suc (length (takeWhile p s))]"

definition rx_opt :: "string rx \<Rightarrow> string rx" where
  "rx_opt r s = r s @ [([], s)]"

definition rx_first :: "('a \<times> string) list \<Rightarrow> 'a option" where
  "rx_first ms = (case ms of (a, _) # _ \<Rightarrow> Some a | [] \<Rightarrow> None)"

text \<open>\<open>re.search\<close>: the expression is told whether it stands at the beginning of the text.\<close>

fun rx_search :: "(bool \<Rightarrow> 'a rx) \<Rightarrow> bool \<Rightarrow> string \<Rightarrow> 'a option" where
  "rx_search r first s =
     (case rx_first (r first s) of
        Some a \<Rightarrow> Some a
      | None \<Rightarrow> (case s of [] \<Rightarrow> None | _ # cs \<Rightarrow> rx_search r False cs))"

definition not_newline :: "char \<Rightarrow> bool" where
  "not_newline c \<longleftrightarrow> c \<noteq> CHR 0x0A"

definition word_char :: "char \<Rightarrow> bool" where
  "word_char c \<longleftrightarrow> is_digit c \<or> CHR ''A'' \<le> c \<and> c \<le> CHR ''Z'' \<or> CHR ''a'' \<le> c \<and> c \<le> CHR ''z'' \<or> c = CHR ''_''"

definition hex_digit :: "char \<Rightarrow> bool" where
  "hex_digit c \<longleftrightarrow> is_digit c \<or> CHR ''A'' \<le> c \<and> c \<le> CHR ''F'' \<or> CHR ''a'' \<le> c \<and> c \<le> CHR ''f''"

subsection \<open>A line of the report\<close>

record trace_line =
  tl_task :: string
  tl_pid :: string
  tl_cpu :: string
  tl_seconds :: string
  tl_event :: string
  tl_fields :: string

definition rx_event :: "string rx" where
  "rx_event =
     rx_bind (rx_many 1 (\<lambda>c. word_char c \<or> c = CHR ''-'')) (\<lambda>a.
     rx_bind (rx_opt (rx_bind (rx_lit '':'') (\<lambda>_. rx_bind (rx_many 1 (\<lambda>c. word_char c \<or> c = CHR ''-'')) (\<lambda>b. rx_return ('':'' @ b))))) (\<lambda>b.
     rx_return (a @ b)))"

definition rx_seconds :: "string rx" where
  "rx_seconds =
     rx_bind (rx_many 1 is_digit) (\<lambda>a. rx_bind (rx_lit ''.'') (\<lambda>_. rx_bind (rx_many 1 is_digit) (\<lambda>b. rx_return (a @ ''.'' @ b))))"

definition rx_line :: "trace_line rx" where
  "rx_line =
     rx_bind (rx_many 0 is_ws) (\<lambda>_.
     rx_bind (rx_many 1 not_newline) (\<lambda>task.
     rx_bind (rx_lit ''-'') (\<lambda>_.
     rx_bind (rx_many 1 is_digit) (\<lambda>pid.
     rx_bind (rx_many 1 is_ws) (\<lambda>_.
     rx_bind (rx_lit ''['') (\<lambda>_.
     rx_bind (rx_many 1 is_digit) (\<lambda>cpu.
     rx_bind (rx_lit '']'') (\<lambda>_.
     rx_bind (rx_lazy not_newline) (\<lambda>_.
     rx_bind (rx_class is_ws) (\<lambda>_.
     rx_bind rx_seconds (\<lambda>seconds.
     rx_bind (rx_lit '':'') (\<lambda>_.
     rx_bind (rx_many 1 is_ws) (\<lambda>_.
     rx_bind rx_event (\<lambda>event.
     rx_bind (rx_lit '':'') (\<lambda>_.
     rx_bind (rx_many 0 is_ws) (\<lambda>_.
     rx_bind (rx_many 0 not_newline) (\<lambda>rest.
     \<lambda>s. if s = [] \<or> s = [CHR 0x0A]
         then [(\<lparr>tl_task = task, tl_pid = pid, tl_cpu = cpu, tl_seconds = seconds, tl_event = event, tl_fields = rest\<rparr>, s)]
         else [])))))))))))))))))"

definition match_line :: "string \<Rightarrow> trace_line option" where
  "match_line line = rx_first (rx_line line)"

text \<open>\<open>round(float(seconds) * 1_000_000_000)\<close>\<close>

definition line_time :: "trace_line \<Rightarrow> int res" where
  "line_time l = res_bind (py_float (tl_seconds l)) (\<lambda>r. Inr (py_round (r * 1000000000)))"

text \<open>\<open>event.rsplit(':', 1)[-1]\<close>\<close>

definition short_event :: "string \<Rightarrow> string" where
  "short_event event = last (split_on (CHR '':'') event)"

subsection \<open>Integer fields\<close>

text \<open>\<open>int(text, 0)\<close>: the prefix gives the base; a decimal number has no leading zero.\<close>

definition digit_of :: "char \<Rightarrow> nat" where
  "digit_of c = (if is_digit c then digit_val c else char_code (lower_char c) - 87)"

definition in_base :: "nat \<Rightarrow> string \<Rightarrow> nat" where
  "in_base b s = foldl (\<lambda>n c. n * b + digit_of c) 0 s"

definition py_int0 :: "string \<Rightarrow> int res" where
  "py_int0 text =
     (let neg = startswith text ''-''; body = (if neg then tl text else text); rest = drop 2 body;
          bad = value_error (''invalid literal for int() with base 0: '' @ py_repr text);
          result = (\<lambda>n. Inr (if neg then - int n else int n)) in
      if startswith body ''0x'' then (if rest \<noteq> [] \<and> list_all hex_digit rest then result (in_base 16 rest) else bad)
      else if startswith body ''0b'' \<or> startswith body ''0B'' then
        (if rest \<noteq> [] \<and> list_all (\<lambda>c. c = CHR ''0'' \<or> c = CHR ''1'') rest then result (in_base 2 rest) else bad)
      else if body = [] \<or> \<not> list_all is_digit body then bad
      else if hd body = CHR ''0'' \<and> \<not> list_all (\<lambda>c. c = CHR ''0'') body then bad
      else result (in_base 10 body))"

definition rx_int :: "string rx" where
  "rx_int =
     rx_bind (rx_opt (rx_bind (rx_lit ''-'') (\<lambda>_. rx_return ''-''))) (\<lambda>a.
     rx_bind (rx_opt (rx_bind (rx_lit ''0x'') (\<lambda>_. rx_return ''0x''))) (\<lambda>b.
     rx_bind (rx_many 1 hex_digit) (\<lambda>c. rx_return (a @ b @ c))))"

text \<open>\<open>(?:^|[sep])name\<close>; the beginning of the text is tried first.\<close>

definition rx_named :: "(char \<Rightarrow> bool) \<Rightarrow> string \<Rightarrow> bool \<Rightarrow> unit rx" where
  "rx_named sep name first s = (if first then rx_lit name s else []) @ rx_bind (rx_class sep) (\<lambda>_. rx_lit name) s"

text \<open>\<open>field_int\<close> of the overrun parser: \<open>(?:^|\s)name=(-?(?:0x)?[0-9a-fA-F]+)\<close>\<close>

definition field_int :: "string \<Rightarrow> string \<Rightarrow> int \<Rightarrow> int res" where
  "field_int text name fallback =
     (case rx_search (\<lambda>first. rx_bind (rx_named is_ws (name @ ''='') first) (\<lambda>_. rx_int)) True text of
        None \<Rightarrow> Inr fallback
      | Some digits \<Rightarrow> py_int0 digits)"

text \<open>\<open>field_int\<close> of the freshness parser also takes commas before the name and blanks around the sign.\<close>

definition sep_char :: "char \<Rightarrow> bool" where
  "sep_char c \<longleftrightarrow> is_ws c \<or> c = CHR '',''"

definition rx_assigned :: "string \<Rightarrow> bool \<Rightarrow> unit rx" where
  "rx_assigned name first =
     rx_bind (rx_named sep_char name first) (\<lambda>_.
     rx_bind (rx_many 0 is_ws) (\<lambda>_.
     rx_bind (rx_lit ''='') (\<lambda>_.
     rx_bind (rx_many 0 is_ws) (\<lambda>_. rx_return ()))))"

definition spaced_field_int :: "string \<Rightarrow> string \<Rightarrow> int \<Rightarrow> int res" where
  "spaced_field_int text name fallback =
     (case rx_search (\<lambda>first. rx_bind (rx_assigned name first) (\<lambda>_. rx_int)) True text of
        None \<Rightarrow> Inr fallback
      | Some digits \<Rightarrow> py_int0 digits)"

text \<open>\<open>(?:^|[\s,])type\s*=\s*VIDEO_CAPTURE(?:[\s,]|$)\<close>\<close>

definition is_video_capture :: "string \<Rightarrow> bool" where
  "is_video_capture text =
     (rx_search (\<lambda>first. rx_bind (rx_assigned ''type'' first) (\<lambda>_. rx_bind (rx_lit ''VIDEO_CAPTURE'') (\<lambda>_.
        \<lambda>s. (if s = [] \<or> s = [CHR 0x0A] \<or> sep_char (hd s) then [((), s)] else [])))) True text \<noteq> None)"

declare rx_search.simps [simp del]

end
