(* ===== verification/Overrun_Trace.thy ===== *)
theory Overrun_Trace
  imports Trace_Line
begin

text \<open>
  \<open>tools/realsense_steady_bench/parse_overrun_kernel_trace.py\<close>: interrupts and Deadline throttling, correlated
  with the activations of the application threads. The output of \<open>trace-cmd report\<close> is the parameter
  \<open>report\<close>. JSON texts inside CSV cells are kept as data, and writing the files is left out; so is the
  \<open>OverflowError\<close> of \<open>array('q')\<close> for timestamps beyond 64 bits.
\<close>

section \<open>Definitions\<close>

definition overlap_ns :: "int \<Rightarrow> int \<Rightarrow> int \<Rightarrow> int \<Rightarrow> int" where
  "overlap_ns left_begin left_end right_begin right_end = max 0 (min left_end right_end - max left_begin right_begin)"

definition load_csv :: "'w host \<Rightarrow> path \<Rightarrow> 'w \<Rightarrow> pydict list res" where
  "load_csv h p w =
     (if \<not> h_is_file h p w then Inr []
      else res_bind (of_host (h_read_text h p w)) (\<lambda>text. Inr (dict_reader text)))"

text \<open>\<open>topology_xhci_irq_ids\<close>: the set of identifiers, here a list.\<close>

fun xhci_ids :: "pyval list \<Rightarrow> int list res" where
  "xhci_ids [] = Inr []"
| "xhci_ids (PDict d # vs) =
     (if py_contains ''xhci-hcd'' (py_str (dict_get d ''description'' (PStr []))) \<and> map_of d ''irq'' \<noteq> None
      then res_bind (py_intv (dict_get d ''irq'' PNone)) (\<lambda>i. res_bind (xhci_ids vs) (\<lambda>ids. Inr (i # ids)))
      else xhci_ids vs)"
| "xhci_ids (_ # vs) = xhci_ids vs"

definition topology_xhci_irq_ids :: "pyval \<Rightarrow> int list res" where
  "topology_xhci_irq_ids topology =
     res_bind (py_get topology ''parsed_interrupts'' (PList [])) (\<lambda>parsed.
     case (case parsed of PDict d \<Rightarrow> dict_get d ''lines'' (PList []) | v \<Rightarrow> v) of
       PList vs \<Rightarrow> xhci_ids vs
     | _ \<Rightarrow> Inr [])"

subsection \<open>The events of the kernel\<close>

record kernel_row =
  kr_timestamp_ns :: int
  kr_from_begin_ms :: rat
  kr_steady :: bool
  kr_context_tid :: int
  kr_task :: string
  kr_cpu :: int
  kr_event :: string
  kr_fields :: string

definition kernel_row_of :: "int \<Rightarrow> int \<Rightarrow> trace_line \<Rightarrow> kernel_row res" where
  "kernel_row_of steady_begin steady_end l =
     res_bind (line_time l) (\<lambda>t.
     Inr \<lparr>kr_timestamp_ns = t, kr_from_begin_ms = ms_between steady_begin t,
          kr_steady = (steady_begin \<le> t \<and> t \<le> steady_end), kr_context_tid = int (dec_nat (tl_pid l)),
          kr_task = strip (tl_task l), kr_cpu = int (dec_nat (tl_cpu l)), kr_event = tl_event l, kr_fields = tl_fields l\<rparr>)"

datatype irq_kind = Hardirq | Softirq

record interrupt =
  ir_kind :: irq_kind
  ir_identifier :: int
  ir_cpu :: int
  ir_context_tid :: int
  ir_begin_ns :: int
  ir_end_ns :: int
  ir_duration_ms :: rat
  ir_steady :: bool

record throttle =
  th_row :: kernel_row
  th_runtime_ns :: int
  th_flags :: int
  th_overrun :: bool

record scan =
  sc_events :: nat
  sc_stacks :: "((int \<times> irq_kind) \<times> (kernel_row \<times> int) list) list"
  sc_interrupts :: "interrupt list"
  sc_app_interrupts :: "interrupt list"
  sc_xhci :: "(int \<times> int) list"
  sc_throttles :: "throttle list"
  sc_signals :: "(kernel_row \<times> int) list"

definition sc_empty :: scan where
  "sc_empty = \<lparr>sc_events = 0, sc_stacks = [], sc_interrupts = [], sc_app_interrupts = [], sc_xhci = [], sc_throttles = [], sc_signals = []\<rparr>"

definition event_kind :: "string \<Rightarrow> irq_kind" where
  "event_kind event = (if startswith event ''irq_handler'' then Hardirq else Softirq)"

definition interrupt_of :: "kernel_row \<times> int \<Rightarrow> kernel_row \<Rightarrow> irq_kind \<Rightarrow> interrupt" where
  "interrupt_of b row kind =
     \<lparr>ir_kind = kind, ir_identifier = snd b, ir_cpu = kr_cpu row, ir_context_tid = kr_context_tid (fst b),
      ir_begin_ns = kr_timestamp_ns (fst b), ir_end_ns = kr_timestamp_ns row,
      ir_duration_ms = ms_between (kr_timestamp_ns (fst b)) (kr_timestamp_ns row), ir_steady = (kr_steady (fst b) \<and> kr_steady row)\<rparr>"

text \<open>The exit of an interrupt takes the last entry of its CPU and kind from the stack, if there is one.\<close>

definition irq_exit :: "int list \<Rightarrow> int list \<Rightarrow> kernel_row \<Rightarrow> irq_kind \<Rightarrow> scan \<Rightarrow> scan" where
  "irq_exit app_tids xhci row kind sc =
     (let key = (kr_cpu row, kind); stack = dict_get (sc_stacks sc) key [] in
      if stack = [] then sc
      else
        let i = interrupt_of (last stack) row kind in
        sc\<lparr>sc_stacks := dict_set key (butlast stack) (sc_stacks sc),
           sc_interrupts := sc_interrupts sc @ [i],
           sc_app_interrupts := sc_app_interrupts sc @ (if ir_context_tid i \<in> set app_tids then [i] else []),
           sc_xhci := sc_xhci sc @ (if kind = Hardirq \<and> ir_identifier i \<in> set xhci then [(ir_begin_ns i, ir_end_ns i - ir_begin_ns i)] else [])\<rparr>)"

definition scan_row :: "int list \<Rightarrow> int list \<Rightarrow> kernel_row \<Rightarrow> scan \<Rightarrow> scan res" where
  "scan_row app_tids xhci row sc =
     (let event = short_event (kr_event row); kind = event_kind event in
      if event = ''irq_handler_entry'' \<or> event = ''softirq_entry'' then
        res_bind (field_int (kr_fields row) (if kind = Hardirq then ''irq'' else ''vec'') 0) (\<lambda>identifier.
        Inr (sc\<lparr>sc_stacks := dict_append (kr_cpu row, kind) (row, identifier) (sc_stacks sc)\<rparr>))
      else if event = ''irq_handler_exit'' \<or> event = ''softirq_exit'' then Inr (irq_exit app_tids xhci row kind sc)
      else if event = ''dl_runtime_exhausted'' then
        res_bind (field_int (kr_fields row) ''flags'' 0) (\<lambda>flags.
        res_bind (field_int (kr_fields row) ''runtime'' 0) (\<lambda>runtime.
        Inr (sc\<lparr>sc_throttles := sc_throttles sc @
               [\<lparr>th_row = row, th_runtime_ns = runtime, th_flags = flags, th_overrun = (flags AND 8 \<noteq> 0)\<rparr>]\<rparr>)))
      else if event = ''signal_generate'' \<or> event = ''signal_deliver'' then
        res_bind (field_int (kr_fields row) ''sig'' 0) (\<lambda>sig. Inr (sc\<lparr>sc_signals := sc_signals sc @ [(row, sig)]\<rparr>))
      else Inr sc)"

fun scan_lines :: "int \<Rightarrow> int \<Rightarrow> int list \<Rightarrow> int list \<Rightarrow> string list \<Rightarrow> scan \<Rightarrow> scan res" where
  "scan_lines steady_begin steady_end app_tids xhci [] sc = Inr sc"
| "scan_lines steady_begin steady_end app_tids xhci (line # ls) sc =
     (case match_line line of
        None \<Rightarrow> scan_lines steady_begin steady_end app_tids xhci ls sc
      | Some l \<Rightarrow>
          res_bind (kernel_row_of steady_begin steady_end l) (\<lambda>row.
          res_bind (scan_row app_tids xhci row (sc\<lparr>sc_events := sc_events sc + 1\<rparr>)) (\<lambda>sc'.
          scan_lines steady_begin steady_end app_tids xhci ls sc')))"

text \<open>\<open>trace_report_lines\<close>: the lines, and after them the error if the command failed.\<close>

definition scan_report :: "int \<Rightarrow> int \<Rightarrow> int list \<Rightarrow> int list \<Rightarrow> host_error + completed \<Rightarrow> scan res" where
  "scan_report steady_begin steady_end app_tids xhci report =
     res_bind (of_host report) (\<lambda>c.
     res_bind (scan_lines steady_begin steady_end app_tids xhci (split_on (CHR 0x0A) (stdout c)) sc_empty) (\<lambda>sc.
     if returncode c \<noteq> 0 then Inl (Exn CalledProcessError (''Command returned non-zero exit status '' @ str_int (returncode c)))
     else Inr sc))"

subsection \<open>Interrupt time of the activations\<close>

definition interrupts_by_tid :: "interrupt list \<Rightarrow> (int \<times> interrupt list) list" where
  "interrupts_by_tid rows = map (\<lambda>(tid, rs). (tid, sort_key ir_begin_ns rs)) (group_by ir_context_tid rows)"

text \<open>The interrupts that may overlap an activation: from the last one that began before it.\<close>

definition candidates :: "interrupt list \<Rightarrow> int \<Rightarrow> int \<Rightarrow> interrupt list" where
  "candidates rows b e =
     (let begins = map ir_begin_ns rows in list_slice (bisect_left begins b - 1) (bisect_left begins e) rows)"

definition interrupt_time :: "irq_kind \<Rightarrow> int \<Rightarrow> int \<Rightarrow> interrupt list \<Rightarrow> int" where
  "interrupt_time kind b e rows =
     (\<Sum>i \<leftarrow> filter (\<lambda>i. ir_kind i = kind) rows. overlap_ns b e (ir_begin_ns i) (ir_end_ns i))"

record corrected =
  co_activation :: pydict
  co_tid :: int
  co_release_ns :: int
  co_completion_ns :: int
  co_residency_ms :: rat
  co_hardirq_ms :: rat
  co_softirq_ms :: rat
  co_task_ms :: rat

definition ns_to_ms :: "int \<Rightarrow> rat" where
  "ns_to_ms n = of_int n / 1000000"

definition correct_activation :: "(int \<times> interrupt list) list \<Rightarrow> pydict \<Rightarrow> corrected res" where
  "correct_activation by_tid activation =
     res_bind (cell_int activation ''tid'') (\<lambda>tid.
     res_bind (cell_int activation ''release_ns'') (\<lambda>b.
     res_bind (cell_int activation ''completion_ns'') (\<lambda>e.
     res_bind (cell_float activation ''execution_ms'') (\<lambda>residency.
     let rows = candidates (dict_get by_tid tid []) b e;
         hardirq_ns = interrupt_time Hardirq b e rows; softirq_ns = interrupt_time Softirq b e rows in
     Inr \<lparr>co_activation = activation, co_tid = tid, co_release_ns = b, co_completion_ns = e, co_residency_ms = residency,
          co_hardirq_ms = ns_to_ms hardirq_ns, co_softirq_ms = ns_to_ms softirq_ns,
          co_task_ms = max 0 (residency - ns_to_ms (hardirq_ns + softirq_ns))\<rparr>))))"

subsection \<open>Interrupts around an instant\<close>

record xhci_window =
  xw_radius_ms :: int
  xw_interval_count :: int
  xw_service_ms :: rat
  xw_maximum_service_ms :: rat

definition xhci_window_at :: "(int \<times> int) list \<Rightarrow> int \<Rightarrow> int \<Rightarrow> xhci_window" where
  "xhci_window_at xhci t radius_ms =
     (let radius_ns = radius_ms * 1000000; begins = map fst xhci;
          first = bisect_left begins (t - radius_ns); past_last = bisect_right begins (t + radius_ns);
          durations = list_slice first past_last (map snd xhci) in
      \<lparr>xw_radius_ms = radius_ms, xw_interval_count = int past_last - int first, xw_service_ms = ns_to_ms (sum_list durations),
       xw_maximum_service_ms = ns_to_ms (max_default durations 0)\<rparr>)"

definition xhci_windows :: "(int \<times> int) list \<Rightarrow> int \<Rightarrow> xhci_window list" where
  "xhci_windows xhci t = map (xhci_window_at xhci t) [1, 10, 100, 1000]"

subsection \<open>Correlation of a throttle\<close>

record stage_detail =
  dt_stage :: pyval
  dt_begin_ns :: int
  dt_end_ns :: int
  dt_duration_ms :: rat
  dt_fd :: int
  dt_sequence :: int

definition stage_detail_of :: "pydict \<Rightarrow> stage_detail res" where
  "stage_detail_of row =
     res_bind (py_item (PDict row) ''stage'') (\<lambda>stage.
     res_bind (cell_int row ''begin_ns'') (\<lambda>b.
     res_bind (cell_int row ''end_ns'') (\<lambda>e.
     res_bind (cell_float row ''duration_ms'') (\<lambda>d.
     res_bind (cell_int row ''fd'') (\<lambda>fd.
     res_bind (cell_int row ''sequence'') (\<lambda>s.
     Inr \<lparr>dt_stage = stage, dt_begin_ns = b, dt_end_ns = e, dt_duration_ms = d, dt_fd = fd, dt_sequence = s\<rparr>))))))"

record near_gap =
  ng_delta_ms :: rat
  ng_tid :: int
  ng_fd :: int
  ng_previous :: int
  ng_sequence :: int
  ng_missing :: int

definition near_gap_of :: "int \<Rightarrow> pydict \<Rightarrow> near_gap res" where
  "near_gap_of t row =
     res_bind (cell_int row ''timestamp_ns'') (\<lambda>g.
     res_bind (cell_int row ''tid'') (\<lambda>tid.
     res_bind (cell_int row ''fd'') (\<lambda>fd.
     res_bind (cell_int row ''previous_sequence'') (\<lambda>p.
     res_bind (cell_int row ''sequence'') (\<lambda>s.
     res_bind (cell_int row ''missing_frames'') (\<lambda>m.
     Inr \<lparr>ng_delta_ms = ns_to_ms (g - t), ng_tid = tid, ng_fd = fd, ng_previous = p, ng_sequence = s, ng_missing = m\<rparr>))))))"

text \<open>Rows of a CSV file grouped by thread and sorted by time.\<close>

definition timed_rows :: "string \<Rightarrow> pydict list \<Rightarrow> (int \<times> pydict) list res" where
  "timed_rows time_name rows =
     res_bind (res_map (\<lambda>row. cell_int row time_name) rows) (\<lambda>times. Inr (sort_key fst (zip times rows)))"

definition keyed_rows :: "string \<Rightarrow> pydict list \<Rightarrow> (int \<times> (int \<times> pydict) list) list res" where
  "keyed_rows time_name rows =
     res_bind (res_map (\<lambda>row. cell_int row ''tid'') rows) (\<lambda>tids.
     res_map (\<lambda>(tid, rs). res_bind (timed_rows time_name (map snd rs)) (\<lambda>ts. Inr (tid, ts))) (group_by fst (zip tids rows)))"

definition covering_activation :: "corrected list \<Rightarrow> int \<Rightarrow> corrected option" where
  "covering_activation rows t =
     (let position = bisect_right (map co_release_ns rows) t in
      if position \<noteq> 0 \<and> t \<le> co_completion_ns (rows ! (position - 1)) then Some (rows ! (position - 1)) else None)"

fun active_stages :: "int \<Rightarrow> pydict list \<Rightarrow> stage_detail list res" where
  "active_stages t [] = Inr []"
| "active_stages t (row # rows) =
     res_bind (cell_int row ''end_ns'') (\<lambda>e.
     res_bind (if t \<le> e then res_bind (stage_detail_of row) (\<lambda>d. Inr [d]) else Inr []) (\<lambda>ds.
     res_bind (active_stages t rows) (\<lambda>rest. Inr (ds @ rest))))"

text \<open>The time of each stage within an activation, and the last stage that ended before the throttle.\<close>

fun stage_totals ::
  "int \<Rightarrow> int \<Rightarrow> int \<Rightarrow> pydict list \<Rightarrow> (string \<times> rat) list \<Rightarrow> stage_detail option \<Rightarrow> ((string \<times> rat) list \<times> stage_detail option) res" where
  "stage_totals b e t [] acc previous = Inr (acc, previous)"
| "stage_totals b e t (row # rows) acc previous =
     res_bind (cell_int row ''begin_ns'') (\<lambda>db.
     res_bind (cell_int row ''end_ns'') (\<lambda>de.
     res_bind (if overlap_ns b e db de \<noteq> 0
        then res_bind (py_item (PDict row) ''stage'') (\<lambda>stage. let k = py_str stage in
               Inr (dict_set k (dict_get acc k 0 + ns_to_ms (overlap_ns b e db de)) acc))
        else Inr acc) (\<lambda>acc'.
     res_bind (if b \<le> de \<and> de \<le> t \<and> (case previous of None \<Rightarrow> True | Some p \<Rightarrow> dt_end_ns p < de)
        then res_bind (stage_detail_of row) (\<lambda>d. Inr (Some d)) else Inr previous) (\<lambda>previous'.
     stage_totals b e t rows acc' previous'))))"

record correlation =
  cr_throttle :: throttle
  cr_activation :: "corrected option"
  cr_active_stages :: "stage_detail list"
  cr_stage_totals :: "(string \<times> rat) list"
  cr_last_stage :: "stage_detail option"
  cr_gaps :: "near_gap list"
  cr_xhci :: "xhci_window list"

definition wanted_throttle :: "int list \<Rightarrow> throttle \<Rightarrow> bool" where
  "wanted_throttle app_tids th \<longleftrightarrow> kr_context_tid (th_row th) \<in> set app_tids \<and> th_overrun th \<and> kr_steady (th_row th)"

definition correlate ::
  "(int \<times> corrected list) list \<Rightarrow> (int \<times> (int \<times> pydict) list) list \<Rightarrow> (int \<times> pydict) list \<Rightarrow> (int \<times> int) list \<Rightarrow> throttle \<Rightarrow> correlation res" where
  "correlate by_tid diagnostics gaps xhci th =
     (let t = kr_timestamp_ns (th_row th); tid = kr_context_tid (th_row th);
          act = covering_activation (dict_get by_tid tid []) t;
          rows = dict_get diagnostics tid []; begins = map fst rows in
      res_bind (active_stages t (rev (map snd (take (bisect_right begins t) rows)))) (\<lambda>active.
      res_bind (res_map (near_gap_of t) (map snd (list_slice (bisect_left (map fst gaps) (t - 2000000000)) (bisect_right (map fst gaps) (t + 2000000000)) gaps))) (\<lambda>near.
      res_bind (case act of None \<Rightarrow> Inr ([], None)
         | Some a \<Rightarrow> stage_totals (co_release_ns a) (co_completion_ns a) t (map snd (take (bisect_right begins (co_completion_ns a)) rows)) [] None) (\<lambda>(stages, previous).
      Inr \<lparr>cr_throttle = th, cr_activation = act, cr_active_stages = sort_key dt_begin_ns active,
           cr_stage_totals = sort_key fst stages, cr_last_stage = previous, cr_gaps = near, cr_xhci = xhci_windows xhci t\<rparr>))))"

record overrun_summary =
  os_kernel_event_count :: nat
  os_interrupt_interval_count :: nat
  os_throttle_count :: nat
  os_application_count :: nat
  os_steady_count :: nat
  os_steady_tids :: "int list"
  os_gate_passed :: bool
  os_correlations :: "correlation list"
  os_sigxcpu_count :: nat
  os_post_steady_count :: nat
  os_largest_residency :: "corrected option"
  os_largest_task :: "corrected option"
  os_largest_task_xhci :: "xhci_window list"
  os_xhci_irq_ids :: "int list"

definition summarize_overruns :: "int \<Rightarrow> int list \<Rightarrow> int list \<Rightarrow> scan \<Rightarrow> corrected list \<Rightarrow> correlation list \<Rightarrow> overrun_summary" where
  "summarize_overruns steady_end app_tids xhci sc rows correlations =
     (let application = filter (\<lambda>th. kr_context_tid (th_row th) \<in> set app_tids \<and> th_overrun th) (sc_throttles sc);
          steady = filter (\<lambda>th. kr_steady (th_row th)) application;
          largest = max_key co_task_ms rows in
      \<lparr>os_kernel_event_count = sc_events sc, os_interrupt_interval_count = length (sc_interrupts sc),
       os_throttle_count = length (sc_throttles sc), os_application_count = length application,
       os_steady_count = length steady, os_steady_tids = sort (remdups (map (\<lambda>th. kr_context_tid (th_row th)) steady)),
       os_gate_passed = (steady = []), os_correlations = correlations,
       os_sigxcpu_count = length (filter (\<lambda>(row, sig). kr_steady row \<and> sig = 24) (sc_signals sc)),
       os_post_steady_count = length (filter (\<lambda>th. steady_end < kr_timestamp_ns (th_row th)) application),
       os_largest_residency = max_key co_residency_ms rows, os_largest_task = largest,
       os_largest_task_xhci = (case largest of None \<Rightarrow> [] | Some a \<Rightarrow> xhci_windows (sc_xhci sc) (co_completion_ns a)),
       os_xhci_irq_ids = sort (remdups xhci)\<rparr>)"

definition parse_overrun_trace ::
  "'w host \<Rightarrow> (string \<Rightarrow> pyval res) \<Rightarrow> (path \<Rightarrow> 'w \<Rightarrow> host_error + completed) \<Rightarrow> path \<Rightarrow> path \<Rightarrow> path \<Rightarrow> path \<Rightarrow> 'w \<Rightarrow>
     (scan \<times> corrected list \<times> overrun_summary) res" where
  "parse_overrun_trace h loads report trace_path lifecycle_path activation_path out_dir w =
     res_bind (phase_window h loads lifecycle_path w) (\<lambda>(steady_begin, steady_end).
     res_bind (of_host (h_read_text h activation_path w)) (\<lambda>text.
     let activations = dict_reader text; topology = out_dir @ [''topology_before.json''] in
     res_bind (res_map (\<lambda>row. cell_int row ''tid'') activations) (\<lambda>app_tids.
     res_bind (if h_is_file h topology w
        then res_bind (of_host (h_read_json h topology w)) topology_xhci_irq_ids else Inr []) (\<lambda>xhci.
     res_bind (scan_report steady_begin steady_end app_tids xhci (report trace_path w)) (\<lambda>sc.
     res_bind (res_map (correct_activation (interrupts_by_tid (sc_app_interrupts sc))) activations) (\<lambda>rows.
     let by_tid = map (\<lambda>(tid, rs). (tid, sort_key co_release_ns rs)) (group_by co_tid rows) in
     res_bind (load_csv h (out_dir @ [''v4l2_diagnostic_durations.csv'']) w) (\<lambda>durations.
     res_bind (keyed_rows ''begin_ns'' durations) (\<lambda>diagnostics.
     res_bind (load_csv h (out_dir @ [''v4l2_sequence_gaps.csv'']) w) (\<lambda>gap_rows.
     res_bind (timed_rows ''timestamp_ns'' gap_rows) (\<lambda>gaps.
     res_bind (res_map (correlate by_tid diagnostics gaps (sc_xhci sc)) (filter (wanted_throttle app_tids) (sc_throttles sc))) (\<lambda>correlations.
     Inr (sc, rows, summarize_overruns steady_end app_tids xhci sc rows correlations))))))))))))"

section \<open>Lemmas\<close>

subsection \<open>Interrupts of an activation\<close>

lemma overlap_nonneg [simp]: "0 \<le> overlap_ns a b c d"
  by (simp add: overlap_ns_def)

lemma interrupt_time_append: "interrupt_time k b e (xs @ ys) = interrupt_time k b e xs + interrupt_time k b e ys"
  by (simp add: interrupt_time_def)

lemma interrupt_time_nonneg [simp]: "0 \<le> interrupt_time k b e rows"
  by (auto simp: interrupt_time_def intro!: sum_list_nonneg)

lemma interrupt_time_zero: "(\<And>i. i \<in> set rows \<Longrightarrow> overlap_ns b e (ir_begin_ns i) (ir_end_ns i) = 0) \<Longrightarrow> interrupt_time k b e rows = 0"
  by (induction rows) (auto simp: interrupt_time_def)

lemma interrupt_time_sort: "interrupt_time k b e (sort_key f rows) = interrupt_time k b e rows"
proof -
  let ?g = "\<lambda>i. overlap_ns b e (ir_begin_ns i) (ir_end_ns i)"
  have "sum_list (map ?g (filter (\<lambda>i. ir_kind i = k) xs)) = sum_mset (image_mset ?g (filter_mset (\<lambda>i. ir_kind i = k) (mset xs)))" for xs
    by (simp flip: sum_mset_sum_list)
  from this [of "sort_key f rows"] this [of rows] show ?thesis unfolding interrupt_time_def by simp
qed

lemma slice_split:
  assumes "i \<le> j"
  shows "rows = take i rows @ list_slice i j rows @ drop j rows"
proof -
  have "take i rows @ drop i (take j rows) = take j rows" using assms by (metis append_take_drop_id min.absorb1 take_take)
  then show ?thesis by (metis append_assoc append_take_drop_id list_slice_def)
qed

text \<open>Interrupts that do not overlap one another, in the order of their beginnings.\<close>

definition one_at_a_time :: "interrupt list \<Rightarrow> bool" where
  "one_at_a_time rows \<longleftrightarrow> sorted_wrt (\<lambda>i j. ir_end_ns i \<le> ir_begin_ns j) (sort_key ir_begin_ns rows) \<and> (\<forall>i \<in> set rows. ir_begin_ns i \<le> ir_end_ns i)"

lemma candidates_split:
  assumes "sorted (map ir_begin_ns rows)" "b \<le> e"
  shows "rows = take (bisect_left (map ir_begin_ns rows) b - 1) rows @ candidates rows b e @ drop (bisect_left (map ir_begin_ns rows) e) rows"
proof -
  have "length (filter (\<lambda>y. y < b) ys) \<le> length (filter (\<lambda>y. y < e) ys)" for ys :: "int list"
    using assms(2) by (induction ys) auto
  then have "bisect_left (map ir_begin_ns rows) b - 1 \<le> bisect_left (map ir_begin_ns rows) e"
    using assms(1) by (metis bisect_left_sorted diff_le_self order.trans)
  from slice_split [OF this, of rows] show ?thesis by (simp add: candidates_def Let_def)
qed

lemma candidates_time:
  assumes "sorted (map ir_begin_ns rows)" "b \<le> e"
  shows "interrupt_time k b e rows = interrupt_time k b e (take (bisect_left (map ir_begin_ns rows) b - 1) rows) +
      interrupt_time k b e (candidates rows b e) + interrupt_time k b e (drop (bisect_left (map ir_begin_ns rows) e) rows)"
proof -
  have "interrupt_time k b e rows = interrupt_time k b e (take (bisect_left (map ir_begin_ns rows) b - 1) rows @
      candidates rows b e @ drop (bisect_left (map ir_begin_ns rows) e) rows)"
    using candidates_split [OF assms] by (rule arg_cong)
  then show ?thesis by (simp add: interrupt_time_append)
qed

lemma later_interrupts:
  assumes "sorted (map ir_begin_ns rows)"
  shows "interrupt_time k b e (drop (bisect_left (map ir_begin_ns rows) e) rows) = 0"
proof (rule interrupt_time_zero)
  fix i
  assume "i \<in> set (drop (bisect_left (map ir_begin_ns rows) e) rows)"
  moreover have "drop (bisect_left (map ir_begin_ns rows) e) rows = filter (\<lambda>r. e \<le> ir_begin_ns r) rows"
    using sorted_rows.drop_left [of ir_begin_ns rows e] assms by (simp add: sort_key_id_if_sorted)
  ultimately have "e \<le> ir_begin_ns i" by simp
  then show "overlap_ns b e (ir_begin_ns i) (ir_end_ns i) = 0" by (auto simp: overlap_ns_def min_def max_def)
qed

lemma earlier_interrupts:
  assumes "sorted_wrt (\<lambda>i j. ir_end_ns i \<le> ir_begin_ns j) rows" "sorted (map ir_begin_ns rows)"
  shows "interrupt_time k b e (take (bisect_left (map ir_begin_ns rows) b - 1) rows) = 0"
proof (rule interrupt_time_zero)
  let ?n = "bisect_left (map ir_begin_ns rows) b"
  fix i
  assume "i \<in> set (take (?n - 1) rows)"
  then obtain m where m: "m < ?n - 1" "m < length rows" "i = rows ! m" by (auto simp: in_set_conv_nth)
  have below: "take ?n rows = filter (\<lambda>r. ir_begin_ns r < b) rows"
    using sorted_rows.take_left [of ir_begin_ns rows b] assms(2) by (simp add: sort_key_id_if_sorted)
  have n: "?n \<le> length rows" using assms(2) length_filter_le [of _ "map ir_begin_ns rows"] by (simp add: bisect_left_sorted)
  have "rows ! (?n - 1) \<in> set (take ?n rows)" using m n by (auto simp: in_set_conv_nth intro!: exI [of _ "?n - 1"])
  then have "ir_begin_ns (rows ! (?n - 1)) < b" unfolding below by simp
  moreover have "ir_end_ns i \<le> ir_begin_ns (rows ! (?n - 1))"
    using assms(1) m n by (auto simp: sorted_wrt_iff_nth_less)
  ultimately show "overlap_ns b e (ir_begin_ns i) (ir_end_ns i) = 0" by (simp add: overlap_ns_def)
qed

lemma own_interrupts: "dict_get (interrupts_by_tid rows) tid [] = sort_key ir_begin_ns (filter (\<lambda>i. ir_context_tid i = tid) rows)"
proof -
  have "dict_get (map (\<lambda>(k, rs). (k, f rs)) d) k (f []) = f (dict_get d k [])" for f :: "interrupt list \<Rightarrow> interrupt list" and d and k :: int
    by (induction d) (auto simp: dict_get_def)
  from this [of "sort_key ir_begin_ns" "group_by ir_context_tid rows" tid] show ?thesis
    by (simp add: interrupts_by_tid_def dict_get_group_by)
qed

lemma candidates_bounds:
  assumes "b \<le> e"
  shows "interrupt_time k b e (candidates (sort_key ir_begin_ns rows) b e) \<le> interrupt_time k b e rows"
    and "one_at_a_time rows \<Longrightarrow> interrupt_time k b e (candidates (sort_key ir_begin_ns rows) b e) = interrupt_time k b e rows"
proof -
  have sorted: "sorted (map ir_begin_ns (sort_key ir_begin_ns rows))" by simp
  note time = candidates_time [OF sorted assms, of k, unfolded interrupt_time_sort]
  show "interrupt_time k b e (candidates (sort_key ir_begin_ns rows) b e) \<le> interrupt_time k b e rows"
    using time interrupt_time_nonneg [of k b e] by (smt (verit))
  show "interrupt_time k b e (candidates (sort_key ir_begin_ns rows) b e) = interrupt_time k b e rows" if "one_at_a_time rows"
    using time later_interrupts [OF sorted] earlier_interrupts [OF _ sorted] that by (simp add: one_at_a_time_def)
qed

lemma correct_activation_cases:
  assumes "correct_activation by_tid activation = Inr c"
  shows "co_hardirq_ms c = ns_to_ms (interrupt_time Hardirq (co_release_ns c) (co_completion_ns c) (candidates (dict_get by_tid (co_tid c) []) (co_release_ns c) (co_completion_ns c)))"
    and "co_softirq_ms c = ns_to_ms (interrupt_time Softirq (co_release_ns c) (co_completion_ns c) (candidates (dict_get by_tid (co_tid c) []) (co_release_ns c) (co_completion_ns c)))"
    and "co_task_ms c = max 0 (co_residency_ms c - (co_hardirq_ms c + co_softirq_ms c))"
  using assms by (auto simp: correct_activation_def res_bind_Inr_iff Let_def ns_to_ms_def add_divide_distrib)

lemma ns_to_ms_mono: "a \<le> b \<Longrightarrow> ns_to_ms a \<le> ns_to_ms b"
  by (simp add: ns_to_ms_def divide_right_mono)

lemma ns_to_ms_nonneg: "0 \<le> a \<Longrightarrow> 0 \<le> ns_to_ms a"
  using ns_to_ms_mono [of 0 a] by (simp add: ns_to_ms_def)

subsection \<open>Interrupts around an instant\<close>

lemma window_slice:
  assumes "sorted (map fst xhci)" "a \<le> b"
  shows "list_slice (bisect_left (map fst xhci) a) (bisect_right (map fst xhci) b) (map snd xhci) = map snd (filter (\<lambda>x. a \<le> fst x \<and> fst x \<le> b) xhci)"
    and "int (bisect_right (map fst xhci) b) - int (bisect_left (map fst xhci) a) = int (length (filter (\<lambda>x. a \<le> fst x \<and> fst x \<le> b) xhci))"
proof -
  have w: "list_slice (bisect_left (map fst xhci) a) (bisect_right (map fst xhci) b) xhci = filter (\<lambda>x. a \<le> fst x \<and> fst x \<le> b) xhci"
    using sorted_rows.window [OF assms(2), of fst xhci] assms(1) by (simp add: sort_key_id_if_sorted)
  then show "list_slice (bisect_left (map fst xhci) a) (bisect_right (map fst xhci) b) (map snd xhci) = map snd (filter (\<lambda>x. a \<le> fst x \<and> fst x \<le> b) xhci)"
    by (simp add: list_slice_def take_map drop_map)
  have "length (filter (\<lambda>y. y < a) ys) + length (filter (\<lambda>y. a \<le> y \<and> y \<le> b) ys) = length (filter (\<lambda>y. y \<le> b) ys)" for ys :: "int list"
    using assms(2) by (induction ys) auto
  from this [of "map fst xhci"] show "int (bisect_right (map fst xhci) b) - int (bisect_left (map fst xhci) a) = int (length (filter (\<lambda>x. a \<le> fst x \<and> fst x \<le> b) xhci))"
    using assms(1) by (simp add: bisect_left_sorted bisect_right_sorted filter_map comp_def)
qed

subsection \<open>Claims\<close>


definition demo_activation :: pydict where
  "demo_activation = [(''tid'', PStr ''7''), (''release_ns'', PStr ''50''), (''completion_ns'', PStr ''150''), (''execution_ms'', PStr ''0.1'')]"

definition demo_interrupt :: "irq_kind \<Rightarrow> int \<Rightarrow> int \<Rightarrow> interrupt" where
  "demo_interrupt k b e = \<lparr>ir_kind = k, ir_identifier = 1, ir_cpu = 0, ir_context_tid = 7, ir_begin_ns = b, ir_end_ns = e, ir_duration_ms = 0, ir_steady = True\<rparr>"

definition demo_interrupts :: "interrupt list" where
  "demo_interrupts = [demo_interrupt Softirq 10 20, demo_interrupt Hardirq 40 60, demo_interrupt Softirq 100 110]"


definition nested_report :: "string list" where
  "nested_report =
     [''cam-7 [000] 0.000000000: softirq_entry: vec=3'', ''cam-7 [000] 0.000000010: irq_handler_entry: irq=9'',
      ''cam-7 [000] 0.000000020: irq_handler_exit: irq=9'', ''cam-7 [000] 0.000000100: softirq_exit: vec=3'']"


text \<open>
  The window of xHCI interrupts around an instant: when the interrupts were recorded in the order
  of their beginnings, the interval count and the service time of each radius are those of the
  interrupts that began within the radius.
\<close>

lemma xhci_windows_exact:
  assumes "sorted (map fst xhci)" "win \<in> set (xhci_windows xhci t)"
    and "near = filter (\<lambda>x. t - xw_radius_ms win * 1000000 \<le> fst x \<and> fst x \<le> t + xw_radius_ms win * 1000000) xhci"
  shows "xw_interval_count win = int (length near) \<and> xw_service_ms win = ns_to_ms (sum_list (map snd near))"
proof -
  obtain r where r: "r \<in> {1, 10, 100, 1000}" and win: "xw_radius_ms win = r"
    "xw_interval_count win = int (bisect_right (map fst xhci) (t + r * 1000000)) - int (bisect_left (map fst xhci) (t - r * 1000000))"
    "xw_service_ms win = ns_to_ms (sum_list (list_slice (bisect_left (map fst xhci) (t - r * 1000000)) (bisect_right (map fst xhci) (t + r * 1000000)) (map snd xhci)))"
  proof -
    from assms(2) obtain r where "r \<in> {1, 10, 100, 1000}" "win = xhci_window_at xhci t r" unfolding xhci_windows_def set_map by auto
    with that show thesis by (simp add: xhci_window_at_def Let_def)
  qed
  have "t - r * 1000000 \<le> t + r * 1000000" using r by auto
  from window_slice [OF assms(1) this] show ?thesis by (simp add: win assms(3))
qed

text \<open>
  Interrupts are recorded when they end. Two of them on different CPUs can end in the opposite order of
  their beginnings, and the window then counts an interrupt that began 5 ms away as one within 1 ms.
\<close>

definition irq_row :: "int \<Rightarrow> int \<Rightarrow> string \<Rightarrow> kernel_row" where
  "irq_row t cpu event = \<lparr>kr_timestamp_ns = t, kr_from_begin_ms = 0, kr_steady = True, kr_context_tid = 1, kr_task = ''a'', kr_cpu = cpu,
     kr_event = event, kr_fields = ''irq=9''\<rparr>"

definition crossing_scan :: "scan res" where
  "crossing_scan =
     res_bind (scan_row [] [9] (irq_row 10000000 0 ''irq_handler_entry'') sc_empty) (\<lambda>s1.
     res_bind (scan_row [] [9] (irq_row 15000000 1 ''irq_handler_entry'') s1) (\<lambda>s2.
     res_bind (scan_row [] [9] (irq_row 16000000 1 ''irq_handler_exit'') s2) (\<lambda>s3.
     scan_row [] [9] (irq_row 17000000 0 ''irq_handler_exit'') s3)))"

lemma xhci_windows_unsorted:
  "\<exists>sc. crossing_scan = Inr sc \<and> sc_xhci sc = [(15000000, 1000000), (10000000, 7000000)] \<and>
     xw_interval_count (xhci_window_at (sc_xhci sc) 10000000 1) = 2"
proof -
  have "case crossing_scan of Inl _ \<Rightarrow> False
     | Inr sc \<Rightarrow> sc_xhci sc = [(15000000, 1000000), (10000000, 7000000)] \<and> xw_interval_count (xhci_window_at (sc_xhci sc) 10000000 1) = 2"
    by code_simp
  then show ?thesis by (auto split: sum.splits)
qed

end
