(* ===== verification/Freshness_Trace.thy ===== *)
theory Freshness_Trace
  imports Overrun_Trace
begin

text \<open>
  \<open>tools/realsense_steady_bench/parse_freshness_kernel_trace.py\<close>: where a gap in the sequence numbers of the
  frames arises, between the USB controller and the library. A row of the trace is a record with
  the columns that all rows share and the integer columns of its event by name. The output of
  \<open>trace-cmd report\<close> is the parameter \<open>report\<close>; the CSV and JSON files are left out.
\<close>

section \<open>Definitions\<close>

record fresh_row =
  fr_timestamp_ns :: int
  fr_from_begin_ms :: rat
  fr_steady :: bool
  fr_event :: string
  fr_task :: string
  fr_context_tid :: int
  fr_cpu :: int
  fr_fields :: string
  fr_ints :: "(string \<times> int) list"
  fr_cause :: string

record fresh_scan =
  fs_dqbuf :: "fresh_row list"
  fs_ready :: "fresh_row list"
  fs_validations :: "fresh_row list"
  fs_errors :: "fresh_row list"
  fs_no_buffer :: "fresh_row list"
  fs_xhci :: "fresh_row list"
  fs_vb2 :: "fresh_row list"
  fs_counts :: "(string \<times> nat) list"

definition fs_empty :: fresh_scan where
  "fs_empty = \<lparr>fs_dqbuf = [], fs_ready = [], fs_validations = [], fs_errors = [], fs_no_buffer = [], fs_xhci = [], fs_vb2 = [], fs_counts = []\<rparr>"

definition base_row :: "int \<Rightarrow> int \<Rightarrow> trace_line \<Rightarrow> fresh_row res" where
  "base_row steady_begin steady_end l =
     res_bind (line_time l) (\<lambda>t.
     Inr \<lparr>fr_timestamp_ns = t, fr_from_begin_ms = ms_between steady_begin t, fr_steady = (steady_begin \<le> t \<and> t \<le> steady_end),
          fr_event = short_event (tl_event l), fr_task = strip (tl_task l), fr_context_tid = int (dec_nat (tl_pid l)),
          fr_cpu = int (dec_nat (tl_cpu l)), fr_fields = tl_fields l, fr_ints = [], fr_cause = []\<rparr>)"

text \<open>The columns of an event: the name of the column, the name of the field and its default.\<close>

definition int_columns :: "string \<Rightarrow> (string \<times> string \<times> int) list \<Rightarrow> (string \<times> int) list res" where
  "int_columns text cols = res_map (\<lambda>(column, name, fallback). res_bind (spaced_field_int text name fallback) (\<lambda>v. Inr (column, v))) cols"

definition with_columns :: "fresh_row \<Rightarrow> (string \<times> string \<times> int) list \<Rightarrow> fresh_row res" where
  "with_columns row cols = res_bind (int_columns (fr_fields row) cols) (\<lambda>vs. Inr (row\<lparr>fr_ints := vs\<rparr>))"

definition same :: "string \<Rightarrow> string \<times> string \<times> int" where
  "same name = (name, name, 0)"

text \<open>The cause of a frame that fails its validation.\<close>

definition validation_cause :: "int \<Rightarrow> int \<Rightarrow> int \<Rightarrow> int \<Rightarrow> int \<Rightarrow> string" where
  "validation_cause prior_error bytesused expected header_errors invalid_headers =
     (if bytesused > expected then ''uvc_frame_overflow''
      else if prior_error \<noteq> 0 \<and> header_errors \<noteq> 0 then ''uvc_payload_error_flag''
      else if prior_error \<noteq> 0 \<and> bytesused < expected then ''uvc_iso_packet_error''
      else if invalid_headers \<noteq> 0 then ''uvc_invalid_payload_header''
      else if bytesused < expected then ''uvc_short_frame''
      else ''uvc_preexisting_buffer_error'')"

text \<open>A validation event gives a row only for a frame with an error.\<close>

definition validation_row :: "fresh_row \<Rightarrow> fresh_row list res" where
  "validation_row row =
     (let text = fr_fields row in
      res_bind (spaced_field_int text ''prior_error'' 0) (\<lambda>prior_error.
      res_bind (spaced_field_int text ''bytesused'' 0) (\<lambda>bytesused.
      res_bind (spaced_field_int text ''expected'' 0) (\<lambda>expected.
      res_bind (spaced_field_int text ''frame_header_errors'' 0) (\<lambda>header_errors.
      res_bind (spaced_field_int text ''frame_invalid_headers'' 0) (\<lambda>invalid_headers.
      if prior_error = 0 \<and> bytesused = expected then Inr []
      else
        res_bind (spaced_field_int text ''buf'' 0) (\<lambda>buf.
        res_bind (spaced_field_int text ''sequence'' 0) (\<lambda>sequence.
        Inr [row\<lparr>fr_ints := [(''buf'', buf), (''sequence'', sequence), (''prior_error'', prior_error), (''bytesused'', bytesused),
               (''expected'', expected), (''frame_invalid_headers'', invalid_headers), (''frame_header_errors'', header_errors)],
             fr_cause := validation_cause prior_error bytesused expected header_errors invalid_headers\<rparr>]))))))))"

definition fresh_step :: "fresh_row \<Rightarrow> fresh_scan \<Rightarrow> fresh_scan res" where
  "fresh_step row fs0 =
     (let event = fr_event row; fs = fs0\<lparr>fs_counts := dict_set event (dict_get (fs_counts fs0) event 0 + 1) (fs_counts fs0)\<rparr> in
      if event = ''v4l2_dqbuf'' \<and> is_video_capture (fr_fields row) then
        res_bind (with_columns row [(''minor'', ''minor'', -1), same ''sequence'']) (\<lambda>r. Inr (fs\<lparr>fs_dqbuf := fs_dqbuf fs @ [r]\<rparr>))
      else if event = ''uvc_frame_ready'' then
        res_bind (with_columns row (map same [''queue'', ''sequence'', ''state'', ''error'', ''bytesused''])) (\<lambda>r. Inr (fs\<lparr>fs_ready := fs_ready fs @ [r]\<rparr>))
      else if event = ''uvc_buffer_error'' then
        res_bind (with_columns row (map same [''sequence'', ''state'', ''error'', ''bytesused''])) (\<lambda>r. Inr (fs\<lparr>fs_errors := fs_errors fs @ [r]\<rparr>))
      else if event = ''uvc_frame_validation'' then
        res_bind (validation_row row) (\<lambda>rs. Inr (fs\<lparr>fs_validations := fs_validations fs @ rs\<rparr>))
      else if event = ''uvc_no_video_buffer'' then
        res_bind (with_columns row [same ''ret'']) (\<lambda>r. Inr (fs\<lparr>fs_no_buffer := fs_no_buffer fs @ [r]\<rparr>))
      else if event = ''xhci_urb_giveback'' then
        res_bind (with_columns row [same ''status'', same ''actual'', same ''length'', same ''epnum'', (''slot_id'', ''slot'', 0)]) (\<lambda>r.
          Inr (fs\<lparr>fs_xhci := fs_xhci fs @ [r]\<rparr>))
      else if event = ''vb2_buf_done'' \<or> event = ''vb2_dqbuf'' \<or> event = ''vb2_qbuf'' then
        res_bind (with_columns row [(''queued'', ''queued'', -1), (''owned_by_drv'', ''owned_by_drv'', -1), (''index'', ''index'', -1), same ''bytesused'']) (\<lambda>r.
          Inr (fs\<lparr>fs_vb2 := fs_vb2 fs @ [r]\<rparr>))
      else Inr fs)"

fun fresh_lines :: "int \<Rightarrow> int \<Rightarrow> string list \<Rightarrow> fresh_scan \<Rightarrow> fresh_scan res" where
  "fresh_lines steady_begin steady_end [] fs = Inr fs"
| "fresh_lines steady_begin steady_end (line # ls) fs =
     (case match_line line of
        None \<Rightarrow> fresh_lines steady_begin steady_end ls fs
      | Some l \<Rightarrow>
          res_bind (base_row steady_begin steady_end l) (\<lambda>row.
          res_bind (fresh_step row fs) (\<lambda>fs'. fresh_lines steady_begin steady_end ls fs')))"

definition by_time :: "fresh_row list \<Rightarrow> fresh_row list" where
  "by_time rows = sort_key fr_timestamp_ns rows"

definition fresh_report :: "int \<Rightarrow> int \<Rightarrow> host_error + completed \<Rightarrow> fresh_scan res" where
  "fresh_report steady_begin steady_end report =
     res_bind (of_host report) (\<lambda>c.
     res_bind (fresh_lines steady_begin steady_end (split_on (CHR 0x0A) (stdout c)) fs_empty) (\<lambda>fs.
     if returncode c \<noteq> 0 then Inl (Exn CalledProcessError (''Command returned non-zero exit status '' @ str_int (returncode c)))
     else Inr \<lparr>fs_dqbuf = by_time (fs_dqbuf fs), fs_ready = by_time (fs_ready fs), fs_validations = by_time (fs_validations fs),
               fs_errors = by_time (fs_errors fs), fs_no_buffer = by_time (fs_no_buffer fs), fs_xhci = by_time (fs_xhci fs),
               fs_vb2 = by_time (fs_vb2 fs), fs_counts = fs_counts fs\<rparr>))"

subsection \<open>Gaps and lookups\<close>

record gap_event =
  ge_row :: fresh_row
  ge_previous :: int
  ge_delta :: int
  ge_missing :: int
  ge_out_of_order :: bool

definition column :: "fresh_row \<Rightarrow> string \<Rightarrow> int \<Rightarrow> int" where
  "column row name fallback = dict_get (fr_ints row) name fallback"

definition gap_event_of :: "fresh_row \<Rightarrow> int \<Rightarrow> gap_event" where
  "gap_event_of row previous =
     (let sequence = column row ''sequence'' 0 in
      \<lparr>ge_row = row, ge_previous = previous, ge_delta = sequence - previous, ge_missing = max 0 (sequence - previous - 1),
       ge_out_of_order = (sequence \<le> previous)\<rparr>)"

fun discontinuities :: "string \<Rightarrow> (int \<times> int) list \<Rightarrow> fresh_row list \<Rightarrow> gap_event list" where
  "discontinuities key_name previous [] = []"
| "discontinuities key_name previous (row # rows) =
     (let key = column row key_name 0; sequence = column row ''sequence'' 0;
          gap = (case map_of previous key of None \<Rightarrow> [] | Some p \<Rightarrow> if sequence \<noteq> p + 1 then [gap_event_of row p] else []) in
      gap @ discontinuities key_name (dict_set key sequence previous) rows)"

text \<open>\<open>nearest\<close>; \<open>seq\<close> reads the sequence number of a row.\<close>

definition nearest :: "('a \<Rightarrow> int) \<Rightarrow> ('a \<Rightarrow> int) \<Rightarrow> 'a list \<Rightarrow> int list \<Rightarrow> int \<Rightarrow> int \<Rightarrow> int option \<Rightarrow> 'a option" where
  "nearest time seq rows stamps t radius wanted =
     (let near = list_slice (bisect_left stamps (t - radius)) (bisect_right stamps (t + radius)) rows;
          exact = (case wanted of None \<Rightarrow> [] | Some s \<Rightarrow> filter (\<lambda>r. seq r = s) near) in
      min_key (\<lambda>r. \<bar>time r - t\<bar>) (if exact \<noteq> [] then exact else near))"

abbreviation ge_time :: "gap_event \<Rightarrow> int" where
  "ge_time g \<equiv> fr_timestamp_ns (ge_row g)"

abbreviation sequence_of :: "fresh_row \<Rightarrow> int" where
  "sequence_of r \<equiv> column r ''sequence'' (-1)"

definition nearest_row :: "fresh_row list \<Rightarrow> int \<Rightarrow> int \<Rightarrow> int option \<Rightarrow> fresh_row option" where
  "nearest_row rows = nearest fr_timestamp_ns sequence_of rows (map fr_timestamp_ns rows)"

definition nearest_gap :: "gap_event list \<Rightarrow> int \<Rightarrow> int \<Rightarrow> int option \<Rightarrow> gap_event option" where
  "nearest_gap gaps = nearest ge_time (\<lambda>g. sequence_of (ge_row g)) gaps (map ge_time gaps)"

subsection \<open>The classification of a gap\<close>

record gap_correlation =
  gc_raw :: pydict
  gc_timestamp_ns :: int
  gc_classification :: string
  gc_kernel :: "gap_event option"
  gc_uvc :: "gap_event option"
  gc_validation :: "fresh_row option"
  gc_uvc_error :: "fresh_row option"
  gc_empty :: "fresh_row option"
  gc_xhci :: "fresh_row option"
  gc_vb2 :: "fresh_row option"

definition classify_gap :: "fresh_row option \<Rightarrow> fresh_row option \<Rightarrow> fresh_row option \<Rightarrow> fresh_row option \<Rightarrow> gap_event option \<Rightarrow> gap_event option \<Rightarrow> string" where
  "classify_gap validation uvc_error no_buf xhci uvc kern =
     (case validation of Some v \<Rightarrow> fr_cause v
      | None \<Rightarrow>
        if uvc_error \<noteq> None then ''uvc_corrupted_buffer''
        else if no_buf \<noteq> None then ''uvc_buffer_starvation''
        else if xhci \<noteq> None then ''xhci_urb_error''
        else if uvc \<noteq> None then ''uvc_or_usb_before_frame_ready''
        else if kern \<noteq> None then ''between_uvc_ready_and_v4l2_dqbuf''
        else ''between_kernel_dqbuf_and_librealsense'')"

text \<open>The column \<open>..._delta_ms\<close> of an event of the correlation.\<close>

definition gap_delta :: "gap_correlation \<Rightarrow> fresh_row option \<Rightarrow> rat option" where
  "gap_delta gc event = map_option (\<lambda>r. ns_to_ms (fr_timestamp_ns r - gc_timestamp_ns gc)) event"

definition correlate_gap :: "fresh_scan \<Rightarrow> gap_event list \<Rightarrow> gap_event list \<Rightarrow> pydict \<Rightarrow> gap_correlation res" where
  "correlate_gap fs kernel_gaps uvc_gaps raw =
     res_bind (cell_int raw ''timestamp_ns'') (\<lambda>t.
     res_bind (cell_int raw ''sequence'') (\<lambda>sequence.
     res_bind (cell_int raw ''previous_sequence'') (\<lambda>previous.
     let kern = nearest_gap kernel_gaps t 20000000 (Some sequence);
         uvc = nearest_gap uvc_gaps t 20000000 (Some sequence);
         validation = nearest_row (fs_validations fs) t 100000000 (Some (previous + 1));
         uvc_error = nearest_row (fs_errors fs) t 50000000 None;
         no_buf = nearest_row (fs_no_buffer fs) t 50000000 None;
         xhci = nearest_row (fs_xhci fs) t 50000000 None;
         vb2 = nearest_row (fs_vb2 fs) t 20000000 None in
     Inr \<lparr>gc_raw = raw, gc_timestamp_ns = t, gc_classification = classify_gap validation uvc_error no_buf xhci uvc kern,
          gc_kernel = kern, gc_uvc = uvc, gc_validation = validation, gc_uvc_error = uvc_error, gc_empty = no_buf,
          gc_xhci = xhci, gc_vb2 = vb2\<rparr>)))"

text \<open>\<open>Counter\<close> of a list of names, and its items in the order of the names.\<close>

definition tally :: "string list \<Rightarrow> (string \<times> nat) list" where
  "tally names = map (\<lambda>n. (n, count_list names n)) (sort (remdups names))"

text \<open>\<open>sparse_event\<close>: the columns of the CSV files of events.\<close>

definition sparse_event :: "fresh_row \<Rightarrow> pydict" where
  "sparse_event row =
     [(''timestamp_ns'', PInt (fr_timestamp_ns row)), (''delta_ms'', PFloat 0), (''event'', PStr (fr_event row)), (''cpu'', PInt (fr_cpu row)),
      (''context_tid'', PInt (fr_context_tid row)), (''sequence'', PInt (column row ''sequence'' 0)), (''minor'', PInt (column row ''minor'' (-1)))] @
     map (\<lambda>n. (n, PInt (column row n 0))) [''queue'', ''error'', ''prior_error'', ''bytesused'', ''expected'', ''frame_invalid_headers'', ''frame_header_errors''] @
     [(''validation_cause'', PStr (fr_cause row)), (''queued'', PInt (column row ''queued'' (-1))),
      (''owned_by_drv'', PInt (column row ''owned_by_drv'' (-1))), (''fields'', PStr (fr_fields row))]"

text \<open>The rows of \<open>kernel_freshness_exception_events.csv\<close>.\<close>

definition exception_events :: "fresh_scan \<Rightarrow> pydict list" where
  "exception_events fs = map sparse_event (by_time (fs_validations fs @ fs_errors fs @ fs_no_buffer fs @ fs_xhci fs))"

record freshness_summary =
  fm_event_counts :: "(string \<times> nat) list"
  fm_kernel_gap_count :: nat
  fm_kernel_missing :: int
  fm_uvc_gap_count :: nat
  fm_uvc_missing :: int
  fm_corrupted_buffers :: nat
  fm_validations :: nat
  fm_cause_counts :: "(string \<times> nat) list"
  fm_no_buffers :: nat
  fm_xhci_errors :: nat
  fm_raw_gaps :: nat
  fm_correlated :: nat
  fm_classification_counts :: "(string \<times> nat) list"
  fm_correlations :: "gap_correlation list"

definition summarize_freshness :: "fresh_scan \<Rightarrow> gap_event list \<Rightarrow> gap_event list \<Rightarrow> nat \<Rightarrow> gap_correlation list \<Rightarrow> freshness_summary" where
  "summarize_freshness fs kernel_gaps uvc_gaps raw_count correlations =
     \<lparr>fm_event_counts = sort_key fst (fs_counts fs), fm_kernel_gap_count = length kernel_gaps,
      fm_kernel_missing = sum_list (map ge_missing kernel_gaps), fm_uvc_gap_count = length uvc_gaps,
      fm_uvc_missing = sum_list (map ge_missing uvc_gaps), fm_corrupted_buffers = length (fs_errors fs),
      fm_validations = length (fs_validations fs), fm_cause_counts = tally (map fr_cause (fs_validations fs)),
      fm_no_buffers = length (fs_no_buffer fs), fm_xhci_errors = length (fs_xhci fs), fm_raw_gaps = raw_count,
      fm_correlated = length correlations, fm_classification_counts = tally (map gc_classification correlations),
      fm_correlations = correlations\<rparr>"

definition parse_freshness_trace ::
  "'w host \<Rightarrow> (string \<Rightarrow> pyval res) \<Rightarrow> (path \<Rightarrow> 'w \<Rightarrow> host_error + completed) \<Rightarrow> path \<Rightarrow> path \<Rightarrow> path \<Rightarrow> 'w \<Rightarrow>
     (fresh_scan \<times> freshness_summary) res" where
  "parse_freshness_trace h loads report trace_path lifecycle_path out_dir w =
     res_bind (phase_window h loads lifecycle_path w) (\<lambda>(steady_begin, steady_end).
     res_bind (fresh_report steady_begin steady_end (report trace_path w)) (\<lambda>fs.
     let kernel_gaps = discontinuities ''minor'' [] (filter fr_steady (fs_dqbuf fs));
         uvc_gaps = discontinuities ''queue'' [] (filter fr_steady (fs_ready fs)) in
     res_bind (load_csv h (out_dir @ [''v4l2_sequence_gaps.csv'']) w) (\<lambda>raw_rows.
     res_bind (timed_rows ''timestamp_ns'' raw_rows) (\<lambda>raw_gaps.
     res_bind (res_map (correlate_gap fs kernel_gaps uvc_gaps) (map snd raw_gaps)) (\<lambda>correlations.
     Inr (fs, summarize_freshness fs kernel_gaps uvc_gaps (length raw_gaps) correlations))))))"

section \<open>Lookups by time\<close>

text \<open>The candidates of a lookup: the rows of the closed window, and those of the wanted sequence number when there are any.\<close>

definition near_rows :: "('a \<Rightarrow> int) \<Rightarrow> 'a list \<Rightarrow> int \<Rightarrow> int \<Rightarrow> 'a list" where
  "near_rows time rows t radius = filter (\<lambda>r. \<bar>time r - t\<bar> \<le> radius) rows"

definition wanted_rows :: "('a \<Rightarrow> int) \<Rightarrow> int option \<Rightarrow> 'a list \<Rightarrow> 'a list" where
  "wanted_rows seq wanted rows = (case wanted of None \<Rightarrow> [] | Some s \<Rightarrow> filter (\<lambda>r. seq r = s) rows)"

definition lookup_rows :: "('a \<Rightarrow> int) \<Rightarrow> int option \<Rightarrow> 'a list \<Rightarrow> 'a list" where
  "lookup_rows seq wanted rows = (if wanted_rows seq wanted rows \<noteq> [] then wanted_rows seq wanted rows else rows)"

lemma lookup_rows_Nil [simp]: "lookup_rows seq wanted rows = [] \<longleftrightarrow> rows = []"
  by (auto simp: lookup_rows_def wanted_rows_def split: option.splits)

context time_index
begin

lemma window_near: "0 \<le> radius \<Longrightarrow> list_slice (bisect_left times (t - radius)) (bisect_right times (t + radius)) rows = near_rows time rows t radius"
  by (subst window) (auto simp: near_rows_def abs_le_iff intro!: filter_cong)

lemma nearest_lookup: "0 \<le> radius \<Longrightarrow>
  nearest time seq rows times t radius wanted = min_key (\<lambda>r. \<bar>time r - t\<bar>) (lookup_rows seq wanted (near_rows time rows t radius))"
  by (simp add: nearest_def window_near lookup_rows_def wanted_rows_def Let_def cong: option.case_cong)

end

lemma time_indexI: "sorted (map k rs) \<Longrightarrow> time_index k rs (map k rs)"
  by unfold_locales simp_all

text \<open>
  The lookup by two bisections: on rows in the order of time, it gives a row exactly when there is
  one within the radius. The row is within the radius, it has the wanted sequence number if any row within
  the radius has it, and no other such row is nearer in time.
\<close>

lemma nearest_spec:
  assumes "sorted (map time rows)" "0 \<le> radius"
    and "near = near_rows time rows t radius"
  shows "case nearest time seq rows (map time rows) t radius wanted of
      None \<Rightarrow> near = []
    | Some r \<Rightarrow> r \<in> set near \<and> (wanted_rows seq wanted near = [] \<or> r \<in> set (wanted_rows seq wanted near)) \<and>
        (\<forall>x \<in> set (if wanted_rows seq wanted near = [] then near else wanted_rows seq wanted near). \<bar>time r - t\<bar> \<le> \<bar>time x - t\<bar>)"
proof -
  have eq: "nearest time seq rows (map time rows) t radius wanted = min_key (\<lambda>r. \<bar>time r - t\<bar>) (lookup_rows seq wanted near)"
    using time_index.nearest_lookup [OF time_indexI [OF assms(1)] assms(2)] assms(3) by simp
  have sub: "set (wanted_rows seq wanted near) \<subseteq> set near" by (auto simp: wanted_rows_def split: option.splits)
  show ?thesis
  proof (cases "min_key (\<lambda>r. \<bar>time r - t\<bar>) (lookup_rows seq wanted near)")
    case None
    then have "near = []" by simp
    then show ?thesis unfolding eq None by simp
  next
    case (Some r)
    from min_key_in [OF this] show ?thesis unfolding eq Some using sub by (auto simp: lookup_rows_def split: if_splits)
  qed
qed

section \<open>The classification of a gap\<close>

text \<open>The reference: the causes in the order of their priority, each with the presence of an event within its radius.\<close>

definition seen :: "('a \<Rightarrow> int) \<Rightarrow> 'a list \<Rightarrow> int \<Rightarrow> int \<Rightarrow> bool" where
  "seen time rows t radius = list_ex (\<lambda>r. \<bar>time r - t\<bar> \<le> radius) rows"

definition cause_table :: "fresh_scan \<Rightarrow> gap_event list \<Rightarrow> gap_event list \<Rightarrow> int \<Rightarrow> (bool \<times> string) list" where
  "cause_table fs kernel_gaps uvc_gaps t =
     [(seen fr_timestamp_ns (fs_errors fs) t 50000000, ''uvc_corrupted_buffer''),
      (seen fr_timestamp_ns (fs_no_buffer fs) t 50000000, ''uvc_buffer_starvation''),
      (seen fr_timestamp_ns (fs_xhci fs) t 50000000, ''xhci_urb_error''),
      (seen ge_time uvc_gaps t 20000000, ''uvc_or_usb_before_frame_ready''),
      (seen ge_time kernel_gaps t 20000000, ''between_uvc_ready_and_v4l2_dqbuf''),
      (True, ''between_kernel_dqbuf_and_librealsense'')]"

definition first_cause :: "(bool \<times> string) list \<Rightarrow> string" where
  "first_cause table = snd (hd (filter fst table))"

lemma nearest_None: "sorted (map time rows) \<Longrightarrow> 0 \<le> radius \<Longrightarrow>
  nearest time seq rows (map time rows) t radius wanted = None \<longleftrightarrow> \<not> seen time rows t radius"
  by (subst time_index.nearest_lookup [OF time_indexI])
    (auto simp: seen_def near_rows_def list_ex_iff filter_empty_conv)

lemma discontinuities_rows: "\<exists>ps. map ge_row (discontinuities k previous rows) = nths rows ps"
proof (induction rows arbitrary: previous)
  case (Cons row rows)
  obtain ps where ps: "map ge_row (discontinuities k (dict_set (column row k 0) (column row ''sequence'' 0) previous) rows) = nths rows ps"
    using Cons by blast
  have skip: "nths (row # rows) (Suc ` ps) = nths rows ps" and keep: "nths (row # rows) (insert 0 (Suc ` ps)) = row # nths rows ps"
    by (auto simp: nths_Cons image_iff)
  show ?case
  proof (cases "map_of previous (column row k 0)")
    case None
    then show ?thesis using skip ps by (auto simp: Let_def intro!: exI [of _ "Suc ` ps"])
  next
    case (Some p)
    then have "map ge_row (discontinuities k previous (row # rows)) = nths (row # rows) (if column row ''sequence'' 0 = p + 1 then Suc ` ps else insert 0 (Suc ` ps))"
      using skip keep ps by (simp add: Let_def gap_event_of_def)
    then show ?thesis by blast
  qed
qed (auto intro: exI [of _ "{}"])

lemma discontinuities_sorted:
  assumes "sorted (map fr_timestamp_ns rows)"
  shows "sorted (map ge_time (discontinuities k previous rows))"
proof -
  obtain ps where "map ge_row (discontinuities k previous rows) = nths rows ps" using discontinuities_rows by blast
  then have "map ge_time (discontinuities k previous rows) = nths (map fr_timestamp_ns rows) ps"
    by (metis (no_types, lifting) List.map.compositionality comp_apply map_eq_conv nths_map)
  then show ?thesis using sorted_nths [OF assms] by simp
qed

definition fs_sorted :: "fresh_scan \<Rightarrow> bool" where
  "fs_sorted fs = list_all (\<lambda>rows. sorted (map fr_timestamp_ns rows))
     [fs_dqbuf fs, fs_ready fs, fs_validations fs, fs_errors fs, fs_no_buffer fs, fs_xhci fs, fs_vb2 fs]"

lemma fresh_report_sorted: "fresh_report b e report = Inr fs \<Longrightarrow> fs_sorted fs"
  by (auto simp: fresh_report_def res_bind_def fs_sorted_def by_time_def split: sum.splits if_splits)

lemma correlate_gap_cases:
  assumes "correlate_gap fs kernel_gaps uvc_gaps raw = Inr gc"
  obtains sequence previous where
    "gc_validation gc = nearest_row (fs_validations fs) (gc_timestamp_ns gc) 100000000 (Some (previous + 1))"
    "gc_uvc_error gc = nearest_row (fs_errors fs) (gc_timestamp_ns gc) 50000000 None"
    "gc_empty gc = nearest_row (fs_no_buffer fs) (gc_timestamp_ns gc) 50000000 None"
    "gc_xhci gc = nearest_row (fs_xhci fs) (gc_timestamp_ns gc) 50000000 None"
    "gc_uvc gc = nearest_gap uvc_gaps (gc_timestamp_ns gc) 20000000 (Some sequence)"
    "gc_kernel gc = nearest_gap kernel_gaps (gc_timestamp_ns gc) 20000000 (Some sequence)"
    "gc_classification gc = classify_gap (gc_validation gc) (gc_uvc_error gc) (gc_empty gc) (gc_xhci gc) (gc_uvc gc) (gc_kernel gc)"
  using assms by (auto simp: correlate_gap_def res_bind_def Let_def split: sum.splits)

text \<open>
  C35. The classification of a gap that the library saw: for the rows of a trace report, a failed
  validation within 100 ms gives its cause; otherwise the cause is the first of the
  priority table with an event within its radius, and a gap without any
  event lies between the kernel and the library.
\<close>

theorem gap_classified:
  assumes "fresh_report steady_begin steady_end report = Inr fs"
    and "kernel_gaps = discontinuities ''minor'' [] (filter fr_steady (fs_dqbuf fs))"
    and "uvc_gaps = discontinuities ''queue'' [] (filter fr_steady (fs_ready fs))"
    and "correlate_gap fs kernel_gaps uvc_gaps raw = Inr gc"
  shows "gc_classification gc =
    (case gc_validation gc of Some v \<Rightarrow> fr_cause v | None \<Rightarrow> first_cause (cause_table fs kernel_gaps uvc_gaps (gc_timestamp_ns gc))) \<and>
    (gc_validation gc \<noteq> None \<longleftrightarrow> seen fr_timestamp_ns (fs_validations fs) (gc_timestamp_ns gc) 100000000)"
proof -
  have fs: "fs_sorted fs" using assms(1) by (rule fresh_report_sorted)
  have rows: "sorted (map fr_timestamp_ns (fs_validations fs))" "sorted (map fr_timestamp_ns (fs_errors fs))"
    "sorted (map fr_timestamp_ns (fs_no_buffer fs))" "sorted (map fr_timestamp_ns (fs_xhci fs))"
    and gaps: "sorted (map ge_time kernel_gaps)" "sorted (map ge_time uvc_gaps)"
    using fs by (auto simp: fs_sorted_def assms(2,3) intro!: discontinuities_sorted sorted_filter)
  show ?thesis
    using assms(4)
  proof (rule correlate_gap_cases)
    fix sequence previous
    assume gc: "gc_validation gc = nearest_row (fs_validations fs) (gc_timestamp_ns gc) 100000000 (Some (previous + 1))"
      "gc_uvc_error gc = nearest_row (fs_errors fs) (gc_timestamp_ns gc) 50000000 None"
      "gc_empty gc = nearest_row (fs_no_buffer fs) (gc_timestamp_ns gc) 50000000 None"
      "gc_xhci gc = nearest_row (fs_xhci fs) (gc_timestamp_ns gc) 50000000 None"
      "gc_uvc gc = nearest_gap uvc_gaps (gc_timestamp_ns gc) 20000000 (Some sequence)"
      "gc_kernel gc = nearest_gap kernel_gaps (gc_timestamp_ns gc) 20000000 (Some sequence)"
      and cl: "gc_classification gc = classify_gap (gc_validation gc) (gc_uvc_error gc) (gc_empty gc) (gc_xhci gc) (gc_uvc gc) (gc_kernel gc)"
    have none: "gc_validation gc = None \<longleftrightarrow> \<not> seen fr_timestamp_ns (fs_validations fs) (gc_timestamp_ns gc) 100000000"
      "gc_uvc_error gc = None \<longleftrightarrow> \<not> seen fr_timestamp_ns (fs_errors fs) (gc_timestamp_ns gc) 50000000"
      "gc_empty gc = None \<longleftrightarrow> \<not> seen fr_timestamp_ns (fs_no_buffer fs) (gc_timestamp_ns gc) 50000000"
      "gc_xhci gc = None \<longleftrightarrow> \<not> seen fr_timestamp_ns (fs_xhci fs) (gc_timestamp_ns gc) 50000000"
      "gc_uvc gc = None \<longleftrightarrow> \<not> seen ge_time uvc_gaps (gc_timestamp_ns gc) 20000000"
      "gc_kernel gc = None \<longleftrightarrow> \<not> seen ge_time kernel_gaps (gc_timestamp_ns gc) 20000000"
      by (simp_all add: gc nearest_row_def nearest_gap_def nearest_None rows gaps del: map_map)
    show ?thesis unfolding cl classify_gap_def none
      by (cases "gc_validation gc") (use none in \<open>auto simp: first_cause_def cause_table_def\<close>)
  qed
qed

definition gap_report :: "host_error + completed" where
  "gap_report = Inr \<lparr>returncode = 0, stdout = ''cam-7 [000] 0.000000900: uvc_frame_validation: sequence=6 prior_error=1 bytesused=10 expected=20'', stderr = []\<rparr>"

definition raw_gap :: pydict where
  "raw_gap = [(''timestamp_ns'', PInt 1000), (''sequence'', PInt 7), (''previous_sequence'', PInt 5)]"

theorem gap_classified_witness:
  "\<exists>fs gc. fresh_report 0 5000 gap_report = Inr fs \<and> correlate_gap fs [] [] raw_gap = Inr gc \<and>
     gc_validation gc \<noteq> None \<and> gc_classification gc = ''uvc_iso_packet_error''"
proof -
  have "case fresh_report 0 5000 gap_report of Inl _ \<Rightarrow> False | Inr fs \<Rightarrow>
      fs_dqbuf fs = [] \<and> fs_ready fs = [] \<and> map fr_cause (fs_validations fs) = [''uvc_iso_packet_error''] \<and>
      (case correlate_gap fs [] [] raw_gap of Inl _ \<Rightarrow> False | Inr gc \<Rightarrow> gc_timestamp_ns gc = 1000 \<and> map_option fr_cause (gc_validation gc) = Some ''uvc_iso_packet_error'')"
    by code_simp
  then obtain fs gc where fs: "fresh_report 0 5000 gap_report = Inr fs" "fs_dqbuf fs = []" "fs_ready fs = []"
    and gc: "correlate_gap fs [] [] raw_gap = Inr gc" "map_option fr_cause (gc_validation gc) = Some ''uvc_iso_packet_error''"
    by (auto split: sum.splits)
  from gap_classified [OF fs(1) _ _ gc(1)] fs gc show ?thesis by auto
qed

text \<open>
  The recorder that the steady benchmark runs (\<open>record_freshness_kernel_trace.sh\<close>) enables the event \<open>vb2_v4l2_dqbuf\<close>. The
  parser knows only \<open>v4l2_dqbuf\<close>: it counts the recorded event and drops it, so that on such a trace there is no gap of the
  kernel and no sequence gap is ever placed between the driver and the dequeue.
\<close>

lemma recorded_dequeue_ignored:
  "fr_event row = ''vb2_v4l2_dqbuf'' \<Longrightarrow>
     fresh_step row fs = Inr (fs\<lparr>fs_counts := dict_set ''vb2_v4l2_dqbuf'' (dict_get (fs_counts fs) ''vb2_v4l2_dqbuf'' 0 + 1) (fs_counts fs)\<rparr>)"
  by (simp add: fresh_step_def Let_def)

lemma no_dequeue_no_kernel_gap:
  assumes "fs_dqbuf fs = []"
    and "correlate_gap fs (discontinuities ''minor'' [] (filter fr_steady (fs_dqbuf fs))) uvc_gaps raw = Inr gc"
  shows "gc_kernel gc = None"
proof -
  have "discontinuities ''minor'' [] (filter fr_steady (fs_dqbuf fs)) = []" by (simp add: assms(1))
  then show ?thesis using assms(2)
    by (auto simp: correlate_gap_def res_bind_Inr_iff Let_def nearest_gap_def nearest_def list_slice_def min_key_def)
qed

end
