(* ===== verification/Memory_Cleanup.thy ===== *)
theory Memory_Cleanup
  imports Noise_Workloads
begin

text \<open>
  \<open>tools/realsense_bench_common/memory.py\<close>: the hook that drops the caches of the file system before a run and
  leaves a record of it, and the columns of the results that are read from this record. The
  hook has no state of its own; its world is that of the host.
\<close>

section \<open>Definitions\<close>

definition DROP_CACHES_PATH :: path where
  "DROP_CACHES_PATH = [''proc'', ''sys'', ''vm'', ''drop_caches'']"

definition MEMINFO_PATH :: path where
  "MEMINFO_PATH = [''proc'', ''meminfo'']"

definition MEMINFO_FIELDS :: "string list" where
  "MEMINFO_FIELDS = [''MemTotal'', ''MemFree'', ''MemAvailable'', ''Buffers'', ''Cached'', ''SReclaimable'', ''Shmem'', ''SwapCached'']"

definition MEMORY_CLEANUP_FILENAME :: string where
  "MEMORY_CLEANUP_FILENAME = ''memory_cleanup_before_run.json''"

text \<open>The loop over the lines of \<open>/proc/meminfo\<close>.\<close>

fun meminfo_lines :: "string list \<Rightarrow> pydict \<Rightarrow> pydict res" where
  "meminfo_lines [] vs = Inr vs"
| "meminfo_lines (line # ls) vs =
     (let key = takeWhile (\<lambda>c. c \<noteq> CHR '':'') line; remainder = drop (length key + 1) line in
      if CHR '':'' \<notin> set line \<or> key \<notin> set MEMINFO_FIELDS then meminfo_lines ls vs
      else case split_ws remainder of
             [] \<Rightarrow> meminfo_lines ls vs
           | f # _ \<Rightarrow> res_bind (py_int f) (\<lambda>n. meminfo_lines ls (dict_set key (PInt n) vs)))"

definition read_meminfo_kib :: "'w host \<Rightarrow> 'w \<Rightarrow> pydict res" where
  "read_meminfo_kib h w = res_bind (of_host (h_read_text h MEMINFO_PATH w)) (\<lambda>text. meminfo_lines (splitlines text) [])"

definition drop_caches_validate :: "'w host \<Rightarrow> bool \<Rightarrow> 'w \<Rightarrow> unit res" where
  "drop_caches_validate h use_sudo w =
     (if \<not> h_is_linux h w then Inl (Exn RuntimeError ''per-run cache dropping is supported only on Linux'')
      else if \<not> h_is_file h DROP_CACHES_PATH w
      then Inl (Exn RuntimeError (''Linux drop-caches control is missing: '' @ path_str DROP_CACHES_PATH))
      else if \<not> h_which h ''sync'' w then Inl (Exn RuntimeError ''sync is required for per-run cache dropping'')
      else if \<not> h_which h ''tee'' w then Inl (Exn RuntimeError ''tee is required for per-run cache dropping'')
      else if use_sudo then
        (if \<not> h_which h ''sudo'' w then Inl (Exn RuntimeError ''sudo is required for per-run cache dropping'') else Inr ())
      else if h_geteuid h w \<noteq> 0 \<and> \<not> h_writable h DROP_CACHES_PATH w
      then Inl (Exn RuntimeError ''dropping caches requires root; run the campaign with sudo enabled'')
      else Inr ())"

definition drop_command :: "'w host \<Rightarrow> bool \<Rightarrow> 'w \<Rightarrow> string list" where
  "drop_command h use_sudo w =
     (let command = [''tee'', path_str DROP_CACHES_PATH] in
      if use_sudo \<and> h_geteuid h w \<noteq> 0 then [''sudo'', ''--non-interactive''] @ command else command)"

definition cleanup_run :: "'w host \<Rightarrow> string list \<Rightarrow> string option \<Rightarrow> ('o \<times> 'w, completed) py" where
  "cleanup_run h command input_text =
     py_bind (do_run h \<lparr>rq_command = command, rq_input = input_text, rq_timeout = None\<rparr>) (\<lambda>c.
     if returncode c \<noteq> 0 then
       let detail = (if strip (stderr c) \<noteq> [] then strip (stderr c) else strip (stdout c)) in
       py_raise (Exn RuntimeError (py_join '' '' command @ '' exited with '' @ str_int (returncode c) @ (if detail \<noteq> [] then '': '' @ detail else [])))
     else py_return c)"

text \<open>The metadata when the hook begins; the body of the \<open>try\<close> statement; and its \<open>finally\<close> clause.\<close>

definition cleanup_metadata :: "string list \<Rightarrow> pydict \<Rightarrow> int \<Rightarrow> pydict" where
  "cleanup_metadata command before_kib start_ns =
     [(''schema_version'', PInt 1), (''enabled'', PBool True), (''success'', PBool False),
      (''operation'', PStr ''sync_and_drop_linux_filesystem_caches''), (''drop_caches_value'', PInt 3),
      (''scope'', PStr ''page_cache_dentries_inodes''), (''anonymous_memory_cleared'', PBool False),
      (''commands'', PList [PList [PStr ''sync''], PList (map PStr command)]),
      (''meminfo_before_kib'', PDict before_kib), (''start_boottime_ns'', PInt start_ns)]"

definition cleanup_body :: "'w host \<Rightarrow> string list \<Rightarrow> ('o \<times> 'w, unit) py" where
  "cleanup_body h command =
     py_seq (cleanup_run h [''sync''] None) (py_seq (cleanup_run h command (Some [CHR ''3'', CHR 0x0A])) py_skip)"

definition cleanup_finally :: "'w host \<Rightarrow> path \<Rightarrow> int \<Rightarrow> pydict \<Rightarrow> ('o \<times> 'w, unit) py" where
  "cleanup_finally h output_path start_ns metadata =
     py_bind (do_boottime_ns h) (\<lambda>end_ns.
     py_bind (ask_res (read_meminfo_kib h)) (\<lambda>after_kib.
     do_write_json h output_path (PDict (dict_update metadata
       [(''end_boottime_ns'', PInt end_ns), (''duration_ms'', PFloat (of_int (end_ns - start_ns) / 1000000)),
        (''meminfo_after_kib'', PDict after_kib)]))))"

text \<open>The \<open>try\<close> statement: the record is written on every path, then a failure goes on.\<close>

definition cleanup_try :: "'w host \<Rightarrow> path \<Rightarrow> string list \<Rightarrow> int \<Rightarrow> pydict \<Rightarrow> ('o \<times> 'w, unit) py" where
  "cleanup_try h output_path command start_ns metadata =
     (\<lambda>s. case cleanup_body h command s of
            (Inr _, s') \<Rightarrow> cleanup_finally h output_path start_ns (dict_set ''success'' (PBool True) metadata) s'
          | (Inl e, s') \<Rightarrow>
              py_seq (cleanup_finally h output_path start_ns
                 (if catchable e then dict_set ''error'' (PStr (exn_text e)) metadata else metadata)) (py_raise e) s')"

definition drop_caches_call :: "'w host \<Rightarrow> bool \<Rightarrow> path \<Rightarrow> ('o \<times> 'w, unit) py" where
  "drop_caches_call h use_sudo record_dir =
     py_seq (do_mkdir h record_dir)
    (py_bind (ask (drop_command h use_sudo)) (\<lambda>command.
     py_bind (ask_res (read_meminfo_kib h)) (\<lambda>before_kib.
     py_bind (do_boottime_ns h) (\<lambda>start_ns.
     cleanup_try h (record_dir @ [MEMORY_CLEANUP_FILENAME]) command start_ns (cleanup_metadata command before_kib start_ns)))))"

definition memory_cleanup_result_fields :: "'w host \<Rightarrow> path \<Rightarrow> bool \<Rightarrow> 'w \<Rightarrow> pydict res" where
  "memory_cleanup_result_fields h record_dir configured w =
     (let path = record_dir @ [MEMORY_CLEANUP_FILENAME] in
      res_bind (if h_is_file h path w then of_host (h_read_json h path w) else Inr (PDict [])) (\<lambda>metadata.
      res_bind (py_get metadata ''meminfo_before_kib'' (PDict [])) (\<lambda>before_kib.
      res_bind (py_get metadata ''meminfo_after_kib'' (PDict [])) (\<lambda>after_kib.
      res_bind (py_get metadata ''success'' (PStr [])) (\<lambda>success.
      res_bind (py_get metadata ''duration_ms'' (PStr [])) (\<lambda>duration.
      res_bind (res_map (\<lambda>(name, v, k). res_bind (py_get v k (PStr [])) (\<lambda>x. Inr (name, x)))
        [(''memory_available_before_kib'', before_kib, ''MemAvailable''), (''memory_available_after_kib'', after_kib, ''MemAvailable''),
         (''memory_cached_before_kib'', before_kib, ''Cached''), (''memory_cached_after_kib'', after_kib, ''Cached''),
         (''memory_sreclaimable_before_kib'', before_kib, ''SReclaimable''), (''memory_sreclaimable_after_kib'', after_kib, ''SReclaimable'')]) (\<lambda>columns.
      Inr ([(''memory_cleanup_enabled'', PBool configured), (''memory_cleanup_recorded'', PBool (truthy metadata)),
            (''memory_cleanup_success'', success), (''memory_cleanup_duration_ms'', duration)] @ columns))))))))"

section \<open>Lemmas\<close>

text \<open>A JSON document that was written is the one that is read back.\<close>

definition json_files :: "'w host \<Rightarrow> bool" where
  "json_files h \<longleftrightarrow> (\<forall>p v w w'. h_write_json h p v w = (Inr (), w') \<longrightarrow> h_is_file h p w' \<and> h_read_json h p w' = Inr v)"

lemma cleanup_finally_record:
  assumes "json_files h" "cleanup_finally h path start_ns metadata s = (Inr (), ob', w')"
  shows "\<exists>after_kib. h_is_file h path w' \<and> (\<exists>end_ns. h_read_json h path w' = Inr (PDict (dict_update metadata
      [(''end_boottime_ns'', PInt end_ns), (''duration_ms'', PFloat (of_int (end_ns - start_ns) / 1000000)), (''meminfo_after_kib'', PDict after_kib)])))"
proof (cases s)
  case (Pair ob w)
  show ?thesis using assms(2) assms(1) unfolding Pair json_files_def cleanup_finally_def
    by (fastforce simp: py_bind_def do_boottime_ns_def ask_res_def do_write_json_def of_host_def split: prod.splits sum.splits)
qed

text \<open>The columns that are read from a record of the hook.\<close>

lemma record_columns:
  assumes "h_is_file h (d @ [MEMORY_CLEANUP_FILENAME]) w" "h_read_json h (d @ [MEMORY_CLEANUP_FILENAME]) w = Inr (PDict m)"
    and "dict_get m ''success'' (PStr []) = PBool b" "dict_get m ''meminfo_before_kib'' (PDict []) = PDict x" "dict_get m ''meminfo_after_kib'' (PDict []) = PDict y"
    and "m \<noteq> []"
  shows "\<exists>f. memory_cleanup_result_fields h d configured w = Inr f \<and> dict_get f ''memory_cleanup_recorded'' PNone = PBool True \<and>
    dict_get f ''memory_cleanup_success'' PNone = PBool b"
  using assms by (simp add: memory_cleanup_result_fields_def Let_def of_host_def dict_get_def)

text \<open>A host on which the record can be made: the memory information is readable and files can be written.\<close>

definition recordable :: "'w host \<Rightarrow> bool" where
  "recordable h \<longleftrightarrow> json_files h \<and> (\<forall>w. \<exists>t. read_meminfo_kib h w = Inr t) \<and>
     (\<forall>p v w. \<exists>w'. h_write_json h p v w = (Inr (), w')) \<and> (\<forall>p w. \<exists>w'. h_mkdir h p w = (Inr (), w'))"

lemma cleanup_finally_returns:
  assumes "recordable h"
  shows "\<exists>s'. cleanup_finally h path start_ns metadata s = (Inr (), s')"
proof (cases s)
  case (Pair ob w)
  obtain end_ns w1 where t: "h_boottime_ns h w = (end_ns, w1)" by fastforce
  obtain k where k: "read_meminfo_kib h w1 = Inr k" using assms unfolding recordable_def by blast
  let ?doc = "PDict (dict_update metadata [(''end_boottime_ns'', PInt end_ns), (''duration_ms'', PFloat (of_int (end_ns - start_ns) / 1000000)), (''meminfo_after_kib'', PDict k)])"
  obtain w2 where "h_write_json h path ?doc w1 = (Inr (), w2)" using assms unfolding recordable_def by blast
  then show ?thesis by (simp add: Pair cleanup_finally_def py_bind_def do_boottime_ns_def ask_res_def do_write_json_def of_host_def t k del: dict_update_Cons)
qed

text \<open>The record of the metadata of a run with the verdict \<open>b\<close>.\<close>

lemma finally_columns:
  assumes "recordable h" "cleanup_finally h (d @ [MEMORY_CLEANUP_FILENAME]) start_ns m s = (Inr (), ob', w')"
    and "dict_get m ''success'' (PStr []) = PBool b" "dict_get m ''meminfo_before_kib'' (PDict []) = PDict x"
  shows "\<exists>f. memory_cleanup_result_fields h d configured w' = Inr f \<and> dict_get f ''memory_cleanup_recorded'' PNone = PBool True \<and>
    dict_get f ''memory_cleanup_success'' PNone = PBool b"
proof -
  have "json_files h" using assms(1) by (simp add: recordable_def)
  from cleanup_finally_record [OF this assms(2)] obtain k end_ns where found: "h_is_file h (d @ [MEMORY_CLEANUP_FILENAME]) w'"
    and doc: "h_read_json h (d @ [MEMORY_CLEANUP_FILENAME]) w' = Inr (PDict (dict_update m
      [(''end_boottime_ns'', PInt end_ns), (''duration_ms'', PFloat (of_int (end_ns - start_ns) / 1000000)), (''meminfo_after_kib'', PDict k)]))" by blast
  have "dict_update m [(''end_boottime_ns'', PInt end_ns), (''duration_ms'', PFloat (of_int (end_ns - start_ns) / 1000000)), (''meminfo_after_kib'', PDict k)] \<noteq> []"
    using fst_set_dict_set by (metis dict_update_Cons dict_update_Nil empty_iff fst_set_dict_set image_empty insert_iff list.set(1))
  then show ?thesis by (intro record_columns [OF found doc]) (use assms(3,4) in simp_all)
qed


definition cleanup_host :: "sim host" where
  "cleanup_host = sim_host\<lparr>h_is_file := (\<lambda>p w. map_of (sim_json w) p \<noteq> None), h_read_text := (\<lambda>p w. Inr ''MemAvailable: 5 kB'')\<rparr>"

lemma cleanup_host_recordable: "recordable cleanup_host"
proof -
  have "meminfo_lines (splitlines ''MemAvailable: 5 kB'') [] = Inr [(''MemAvailable'', PInt 5)]" by code_simp
  then show ?thesis by (simp add: recordable_def json_files_def cleanup_host_def sim_host_def read_meminfo_kib_def of_host_def)
qed


end
