(* ===== verification/Steady_Results.thy ===== *)
theory Steady_Results
  imports Memory_Cleanup Trace_Line Attempts
begin

text \<open>
  \<open>tools/realsense_steady_bench/steady_results.py\<close> and \<open>tools/realsense_bench_common/artifacts.py\<close>: the row of results of a
  steady-state run, assembled from the files that the run and its attempts left behind. A row is a
  dictionary in the order of its columns. \<open>json.dumps\<close> is the parameter \<open>dumps\<close>.
\<close>

section \<open>Definitions\<close>

subsection \<open>The selected attempt\<close>

record selected_run =
  sr_run_dir :: path
  sr_attempt :: int
  sr_data_dir :: path
  sr_layout :: string

definition json_or_empty :: "'w host \<Rightarrow> path \<Rightarrow> 'w \<Rightarrow> pyval res" where
  "json_or_empty h p w = (if h_is_file h p w then of_host (h_read_json h p w) else Inr (PDict []))"

definition selected_attempt_number :: "'w host \<Rightarrow> path \<Rightarrow> 'w \<Rightarrow> int res" where
  "selected_attempt_number h run_dir w =
     (let selected_path = run_dir @ [''selected_attempt.txt'']; attempts_path = run_dir @ [''attempts.json''] in
      if h_is_file h selected_path w then
        res_bind (of_host (h_read_text h selected_path w)) (\<lambda>text.
        case py_int (strip text) of
          Inl e \<Rightarrow> value_error (''Invalid selected attempt in '' @ path_str selected_path)
        | Inr attempt \<Rightarrow>
            if attempt < 1 then value_error (''Selected attempt must be positive: '' @ path_str selected_path) else Inr attempt)
      else if h_is_file h attempts_path w then
        res_bind (of_host (h_read_json h attempts_path w)) (\<lambda>attempts.
        case attempts of
          PList (a # as) \<Rightarrow> res_bind (py_get (last (a # as)) ''attempt'' (PInt (int (length (a # as))))) py_intv
        | _ \<Rightarrow> Inr 1)
      else Inr 1)"

definition resolve_selected_attempt :: "'w host \<Rightarrow> path \<Rightarrow> 'w \<Rightarrow> selected_run res" where
  "resolve_selected_attempt h p w =
     (let run_dir = h_resolve h p w in
      res_bind (selected_attempt_number h run_dir w) (\<lambda>attempt.
      let attempt_dir = run_dir @ [''attempt-'' @ str_int attempt] in
      if h_is_dir h attempt_dir w
      then Inr \<lparr>sr_run_dir = run_dir, sr_attempt = attempt, sr_data_dir = attempt_dir, sr_layout = ''attempt-directory''\<rparr>
      else Inr \<lparr>sr_run_dir = run_dir, sr_attempt = attempt, sr_data_dir = run_dir, sr_layout = ''legacy-promoted-root''\<rparr>))"

subsection \<open>Columns\<close>

definition CAMERA_SCALAR_RESULT_KEYS :: "string list" where
  "CAMERA_SCALAR_RESULT_KEYS =
     [''serial'', ''physical_port'', ''usb_type'', ''start_call_ms'', ''stop_call_ms'', ''warmup_deliveries'',
      ''warmup_health_deliveries'', ''warmup_observed_frames'', ''warmup_duplicate_frames'', ''warmup_sequence_gaps'',
      ''warmup_out_of_order_frames'', ''deliveries'', ''frames'', ''drops'', ''timeouts'', ''pre_measurement_timeouts'',
      ''measurement_timeouts'', ''observed_frames'', ''unique_frames'', ''duplicate_frames'', ''sequence_gaps'',
      ''nonadvancing_frames'', ''out_of_order_frames'', ''fully_fresh_framesets'', ''partially_stale_framesets'', ''stale_framesets'']"

definition CAMERA_INTERARRIVAL_RESULT_KEYS :: "string list" where
  "CAMERA_INTERARRIVAL_RESULT_KEYS = [''max'', ''mean'', ''min'', ''n'', ''p50'', ''p90'', ''p99'', ''p999'', ''stddev'']"

definition CAMERA_STORAGE_RESULT_KEYS :: "string list" where
  "CAMERA_STORAGE_RESULT_KEYS = [''allocated_event_capacity'', ''delivery_capacity'', ''event_capacity'', ''stream_sample_capacity'']"

fun flatten :: "(pyval \<Rightarrow> string) \<Rightarrow> string \<Rightarrow> pyval \<Rightarrow> pydict \<Rightarrow> pydict"
and flatten_items :: "(pyval \<Rightarrow> string) \<Rightarrow> string \<Rightarrow> pydict \<Rightarrow> pydict \<Rightarrow> pydict" where
  "flatten dumps pre (PDict d) out = flatten_items dumps pre d out"
| "flatten dumps pre (PList vs) out = dict_set pre (PStr (dumps (PList vs))) out"
| "flatten dumps pre v out = dict_set pre v out"
| "flatten_items dumps pre [] out = out"
| "flatten_items dumps pre ((key, child) # d) out =
     flatten_items dumps pre d (flatten dumps (if pre \<noteq> [] then pre @ ''_'' @ key else key) child out)"

definition get2 :: "pyval \<Rightarrow> string \<Rightarrow> string \<Rightarrow> pyval \<Rightarrow> pyval res" where
  "get2 v outer inner fallback = res_bind (py_get v outer (PDict [])) (\<lambda>u. py_get u inner fallback)"

definition line_total :: "pyval \<Rightarrow> (string \<times> int) res" where
  "line_total line =
     res_bind (py_get line ''irq'' (PStr [])) (\<lambda>irq.
     res_bind (py_get line ''description'' (PStr [])) (\<lambda>description.
     res_bind (py_get line ''counts'' (PList [])) (\<lambda>numbers.
     res_bind (py_iter numbers) (\<lambda>ns.
     res_bind (res_map py_intv ns) (\<lambda>ints.
     Inr (py_str irq @ '':'' @ py_str description, sum_list ints))))))"

definition interrupt_totals :: "'w host \<Rightarrow> path \<Rightarrow> 'w \<Rightarrow> (string \<times> int) list res" where
  "interrupt_totals h p w =
     (if \<not> h_is_file h p w then Inr []
      else
        res_bind (of_host (h_read_json h p w)) (\<lambda>v.
        res_bind (get2 v ''parsed_interrupts'' ''lines'' (PList [])) (\<lambda>lines.
        res_bind (py_iter lines) (\<lambda>ls.
        res_bind (res_map line_total ls) (\<lambda>totals'. Inr (dict_update [] totals'))))))"

subsection \<open>Noise\<close>

text \<open>\<open>text.strip(' |')\<close>\<close>

definition strip_bars :: "string \<Rightarrow> string" where
  "strip_bars s = (let bar = (\<lambda>c. c = CHR '' '' \<or> c = CHR ''|'') in rev (dropWhile bar (rev (dropWhile bar s))))"

definition noise_columns :: "(pyval \<Rightarrow> string) \<Rightarrow> noise_artifacts \<Rightarrow> pydict \<Rightarrow> pydict res" where
  "noise_columns dumps a result =
     (let pre = na_prefix a in
      res_bind (py_get (na_ready a) ''ready'' (PBool False)) (\<lambda>ready.
      res_bind (py_get (na_process a) ''returncode'' (PStr [])) (\<lambda>code.
      res_bind (py_get (na_process a) ''forced_kill'' (PBool False)) (\<lambda>forced.
      let r1 = dict_update result [(pre @ ''_ready'', PBool (truthy ready)), (pre @ ''_process_returncode'', code), (pre @ ''_forced_kill'', forced)];
          r2 = (if truthy (na_summary a) then flatten dumps pre (na_summary a) r1 else r1);
          r3 = dict_set (pre @ ''_valid'') (PBool (na_valid a)) (dict_update r2 (na_extra a)) in
      if na_valid a then Inr r3
      else Inr (dict_set ''error'' (PStr (strip_bars (py_str (dict_get r3 ''error'' (PStr [])) @ '' | '' @ na_error a)))
             (dict_set ''success'' (PBool False) r3))))))"

fun noise_rows :: "(pyval \<Rightarrow> string) \<Rightarrow> noise_artifacts list \<Rightarrow> pydict \<Rightarrow> pydict res" where
  "noise_rows dumps [] result = Inr result"
| "noise_rows dumps (a # as) result = res_bind (noise_columns dumps a result) (noise_rows dumps as)"

definition run_modes :: "pydict \<Rightarrow> modes res" where
  "run_modes run_variables =
     res_map (\<lambda>wl. res_bind (py_item (PDict run_variables) (noise_prefix wl)) (\<lambda>v. Inr (noise_prefix wl, py_str v))) WORKLOADS"

definition add_noise_results ::
  "(pyval \<Rightarrow> string) \<Rightarrow> 'w host \<Rightarrow> 'w procs \<Rightarrow> noise_config \<Rightarrow> pydict \<Rightarrow> path \<Rightarrow> pydict \<Rightarrow> (noise_obj \<times> 'w, pydict) py" where
  "add_noise_results dumps h p cfg run_variables record_dir result =
     py_bind (py_res (run_modes run_variables)) (\<lambda>modes.
     py_bind (suite_artifacts h p cfg modes record_dir) (\<lambda>as.
     py_res (noise_rows dumps as result)))"

subsection \<open>Cameras\<close>

definition camera_by_index :: "pyval \<Rightarrow> (int \<times> pyval) res" where
  "camera_by_index camera =
     res_bind (py_get camera ''index'' (PInt 0)) (\<lambda>v. res_bind (py_intv v) (\<lambda>i. Inr (i, camera)))"

definition camera_slot :: "(int \<times> pyval) list \<Rightarrow> nat \<Rightarrow> pydict res" where
  "camera_slot cameras_by_index index =
     (let camera = dict_get cameras_by_index (int index) (PDict []); pre = ''camera_'' @ str_nat index in
      res_bind (res_map (\<lambda>key. res_bind (py_get camera key (PStr [])) (\<lambda>v. Inr (pre @ ''_'' @ key, v))) CAMERA_SCALAR_RESULT_KEYS) (\<lambda>scalars.
      res_bind (py_get camera ''delivery_interarrival_ms'' (PDict [])) (\<lambda>interarrival.
      res_bind (res_map (\<lambda>key. res_bind (py_get interarrival key (PStr [])) (\<lambda>v. Inr (pre @ ''_interarrival_ms_'' @ key, v))) CAMERA_INTERARRIVAL_RESULT_KEYS) (\<lambda>ia.
      res_bind (py_get camera ''storage'' (PDict [])) (\<lambda>storage.
      res_bind (res_map (\<lambda>key. res_bind (py_get storage key (PStr [])) (\<lambda>v. Inr (pre @ ''_storage_'' @ key, v))) CAMERA_STORAGE_RESULT_KEYS) (\<lambda>st.
      Inr (scalars @ ia @ st)))))))"

definition add_camera_results :: "pydict \<Rightarrow> pydict \<Rightarrow> int \<Rightarrow> pydict res" where
  "add_camera_results result data slots =
     res_bind (py_iter (dict_get data ''cameras'' (PList []))) (\<lambda>cameras.
     res_bind (res_map camera_by_index cameras) (\<lambda>pairs.
     let cameras_by_index = dict_update [] pairs;
         unexpected = sort (filter (\<lambda>i. \<not> (0 \<le> i \<and> i < slots)) (map fst cameras_by_index)) in
     if unexpected \<noteq> [] then value_error (''camera result index exceeds the configured CSV schema: '' @ py_join '', '' (map str_int unexpected))
     else res_bind (res_map (camera_slot cameras_by_index) [0..<nat slots]) (\<lambda>rows. Inr (dict_update result (concat rows)))))"

subsection \<open>Trace, kernel log and reset\<close>

definition add_trace_results :: "'w host \<Rightarrow> path \<Rightarrow> 'w \<Rightarrow> pydict \<Rightarrow> pydict res" where
  "add_trace_results h record_dir w result =
     (let p = record_dir @ [''thread_steady_summary.json''] in
      if h_is_file h p w then
        res_bind (of_host (h_read_json h p w)) (\<lambda>v.
        res_bind (py_get v ''thread_count'' (PInt 0)) (\<lambda>threads.
        res_bind (py_get v ''activation_count'' (PInt 0)) (\<lambda>activations.
        Inr (dict_update result [(''traced_thread_count'', threads), (''traced_activation_count'', activations)]))))
      else Inr (dict_update result [(''traced_thread_count'', PInt 0), (''traced_activation_count'', PInt 0)]))"

text \<open>\<open>re.findall\<close> for an expression that matches no empty text.\<close>

function rx_findall :: "'a rx \<Rightarrow> string \<Rightarrow> 'a list" where
  "rx_findall r s =
     (case r s of
        (a, rest) # _ \<Rightarrow> if length rest < length s then a # rx_findall r rest else []
      | [] \<Rightarrow> (case s of [] \<Rightarrow> [] | _ # cs \<Rightarrow> rx_findall r cs))"
  by pat_completeness auto
termination
  by (relation "measure (\<lambda>(r, s). length s)") auto

declare rx_findall.simps [simp del]

definition rx_resubmit :: "(string \<times> string) rx" where
  "rx_resubmit =
     rx_bind (rx_lit ''uvcvideo'') (\<lambda>_.
     rx_bind (rx_many 1 is_ws) (\<lambda>_.
     rx_bind (rx_many 1 (\<lambda>c. \<not> is_ws c)) (\<lambda>interface.
     rx_bind (rx_lit '':'') (\<lambda>_.
     rx_bind (rx_many 1 is_ws) (\<lambda>_.
     rx_bind (rx_lit ''Failed to resubmit video URB'') (\<lambda>_.
     rx_bind (rx_many 1 is_ws) (\<lambda>_.
     rx_bind (rx_lit ''('') (\<lambda>_.
     rx_bind (rx_opt (rx_bind (rx_lit ''-'') (\<lambda>_. rx_return ''-''))) (\<lambda>sign.
     rx_bind (rx_many 1 is_digit) (\<lambda>digits.
     rx_bind (rx_lit '')'') (\<lambda>_. rx_return (interface, sign @ digits))))))))))))"

definition sorted_set :: "string list \<Rightarrow> string" where
  "sorted_set xs = py_join '','' (sort (remdups xs))"

definition irq_deltas :: "(string \<times> int) list \<Rightarrow> (string \<times> int) list \<Rightarrow> pydict" where
  "irq_deltas before_totals after_totals =
     map (\<lambda>k. (k, PInt (dict_get after_totals k 0 - dict_get before_totals k 0))) (sort (remdups (map fst before_totals @ map fst after_totals)))"

definition add_kernel_results :: "(pyval \<Rightarrow> string) \<Rightarrow> 'w host \<Rightarrow> path \<Rightarrow> 'w \<Rightarrow> pydict \<Rightarrow> pydict res" where
  "add_kernel_results dumps h record_dir w result =
     (let p = record_dir @ [''kernel_log.txt''] in
      res_bind (if h_is_file h p w then of_host (h_read_text h p w) else Inr []) (\<lambda>kernel_text.
      let uvc_matches = rx_findall rx_resubmit kernel_text in
      res_bind (interrupt_totals h (record_dir @ [''topology_before.json'']) w) (\<lambda>before_totals.
      res_bind (interrupt_totals h (record_dir @ [''topology_after.json'']) w) (\<lambda>after_totals.
      Inr (dict_update result
        [(''kernel_log_captured'', PBool (h_is_file h p w)), (''uvc_resubmit_errors'', PInt (int (length uvc_matches))),
         (''uvc_resubmit_interfaces'', PStr (sorted_set (map fst uvc_matches))),
         (''uvc_resubmit_error_codes'', PStr (sorted_set (map snd uvc_matches))),
         (''irq_delta_json'', PStr (dumps (PDict (irq_deltas before_totals after_totals))))])))))"

definition add_pre_run_reset_results :: "'w host \<Rightarrow> path \<Rightarrow> 'w \<Rightarrow> pydict \<Rightarrow> pydict res" where
  "add_pre_run_reset_results h record_dir w result =
     res_bind (json_or_empty h (record_dir @ [''pre_run_reset.json'']) w) (\<lambda>v.
     res_bind (py_get v ''attempted'' (PBool False)) (\<lambda>attempted.
     res_bind (py_get v ''success'' (PStr [])) (\<lambda>success.
     res_bind (py_get v ''camera_count'' (PInt 0)) (\<lambda>cameras.
     res_bind (py_get v ''duration_ms'' (PFloat 0)) (\<lambda>duration.
     res_bind (py_get v ''error'' (PStr [])) (\<lambda>err.
     Inr (dict_update result
       [(''pre_run_reset_attempted'', PBool (truthy attempted)), (''pre_run_reset_success'', success),
        (''pre_run_reset_camera_count'', cameras), (''pre_run_reset_duration_ms'', duration), (''pre_run_reset_error'', err)])))))))"

subsection \<open>The row\<close>

record results_request =
  rr_record_dir :: path
  rr_case :: pydict
  rr_run_variables :: pydict
  rr_backend :: string
  rr_policies :: "(string \<times> string) list"
  rr_drop_caches :: bool
  rr_isolation :: pydict
  rr_slots :: int

definition noise_mode_columns :: "pydict \<Rightarrow> string \<Rightarrow> (string \<times> pyval res) list" where
  "noise_mode_columns vars key =
     [(key @ ''_mode'', py_item (PDict vars) key),
      (key @ ''_enabled'', res_bind (py_item (PDict vars) key) (\<lambda>v. Inr (PBool (\<not> py_eq v (PStr ''none'')))))]"

definition aggregate_columns :: "pyval \<Rightarrow> (string \<times> pyval res) list" where
  "aggregate_columns aggregate =
     map (\<lambda>k. (k, py_get aggregate k (PInt 0))) [''deliveries'', ''frames'', ''drops'', ''timeouts'', ''pre_measurement_timeouts'', ''measurement_timeouts''] @
     [(''observed_frames'', res_bind (py_get aggregate ''frames'' (PInt 0)) (py_get aggregate ''observed_frames'')),
      (''unique_frames'', res_bind (py_get aggregate ''frames'' (PInt 0)) (py_get aggregate ''unique_frames'')),
      (''duplicate_frames'', py_get aggregate ''duplicate_frames'' (PInt 0)),
      (''sequence_gaps'', res_bind (py_get aggregate ''drops'' (PInt 0)) (py_get aggregate ''sequence_gaps''))] @
     map (\<lambda>k. (k, py_get aggregate k (PInt 0))) [''nonadvancing_frames'', ''out_of_order_frames'', ''fully_fresh_framesets'', ''partially_stale_framesets'', ''stale_framesets'']"

text \<open>The columns that a later step may overwrite with what the run reports.\<close>

definition transition_defaults :: pydict where
  "transition_defaults =
     [(''transition_noise_gate_enabled'', PBool False), (''transition_warmup_ready_boottime_ns'', PInt 0),
      (''transition_measurement_gate_open_boottime_ns'', PInt 0), (''transition_warmup_to_gate_ms'', PFloat 0),
      (''deadline_assignments'', PStr ''[]''), (''deadline_live_threads'', PInt 0), (''deadline_overrun_signals'', PInt 0),
      (''deadline_partial_profile'', PBool False), (''deadline_profile_entries'', PInt 0), (''deadline_profile_path'', PStr []),
      (''deadline_unassigned_live_threads'', PInt 0), (''rate_monotonic_assignments'', PStr ''[]''),
      (''rate_monotonic_highest_priority'', PInt 0), (''rate_monotonic_live_threads'', PInt 0),
      (''rate_monotonic_lowest_priority'', PInt 0), (''rate_monotonic_policy'', PStr []), (''rate_monotonic_priority_levels'', PInt 0),
      (''rate_monotonic_profile_entries'', PInt 0), (''rate_monotonic_profile_path'', PStr [])]"

definition hardware_sync_defaults :: pydict where
  "hardware_sync_defaults =
     [(''hardware_sync_enabled'', PBool False), (''hardware_sync_master_serial'', PStr []), (''hardware_sync_slave_serials'', PStr ''[]''),
      (''hardware_sync_all_applied'', PBool False), (''hardware_sync_all_restored'', PBool False), (''hardware_sync_assignments'', PStr ''[]'')]"

definition requested_policy :: "results_request \<Rightarrow> pyval res" where
  "requested_policy rq =
     res_bind (py_item (PDict (rr_run_variables rq)) ''policy'') (\<lambda>v.
     case map_of (rr_policies rq) (py_str v) of None \<Rightarrow> Inl (Exn KeyError (py_str v)) | Some name \<Rightarrow> Inr (PStr name))"

definition row_columns :: "results_request \<Rightarrow> pydict \<Rightarrow> pyval \<Rightarrow> selected_run \<Rightarrow> (string \<times> pyval res) list" where
  "row_columns rq data aggregate selected =
     (let d = PDict data; vars = rr_run_variables rq; given = map (\<lambda>(k, v). (k, Inr v)) in
      [(''success'', py_get d ''success'' (PBool False)), (''error'', py_get d ''error'' (PStr ''summary file missing'')),
       (''backend'', Inr (PStr (rr_backend rq))), (''policy_requested'', requested_policy rq),
       (''process_launch_policy_effective'', get2 d ''scheduler'' ''policy'' (PStr [])),
       (''main_thread_policy_effective'', res_bind (get2 d ''scheduler'' ''policy'' (PStr [])) (get2 d ''scheduler'' ''main_thread_policy'')),
       (''steady_worker_policy_effective'', get2 d ''scheduler'' ''steady_worker_policy'' (PStr [])),
       (''deadline_profile_applied'', Inr (PBool (dict_get data ''deadline'' PNone \<noteq> PNone))),
       (''rate_monotonic_profile_applied'', Inr (PBool (dict_get data ''rate_monotonic'' PNone \<noteq> PNone)))] @
      given hardware_sync_defaults @
      noise_mode_columns vars ''cpu_noise'' @ noise_mode_columns vars ''memory_noise'' @
      noise_mode_columns vars ''gpu_noise'' @ noise_mode_columns vars ''usb_storage_noise'' @
      [(''camera_count'', get2 d ''run'' ''camera_count'' (PInt 0)), (''fixed_event_storage'', get2 d ''run'' ''fixed_event_storage'' (PBool False))] @
      aggregate_columns aggregate @
      [(''freshness_analysis_ms'', get2 d ''postprocess'' ''freshness_analysis_ms'' (PFloat 0)),
       (''measurement_mode'', res_bind (get2 d ''run'' ''measurement_mode'' (PStr ''deliveries'')) (get2 d ''measurement'' ''mode'')),
       (''measurement_requested_duration_ms'', get2 d ''measurement'' ''requested_duration_ms'' (PInt 0)),
       (''measurement_duration_ms'', get2 d ''measurement'' ''duration_ms'' (PInt 0))] @
      given transition_defaults @
      [(''record_data_dir'', Inr (PStr (path_str (rr_record_dir rq)))), (''selected_attempt_data_dir'', Inr (PStr (path_str (sr_data_dir selected)))),
       (''artifact_layout'', Inr (PStr (sr_layout selected)))])"

text \<open>A dictionary display: its values in order.\<close>

definition dict_display :: "(string \<times> pyval res) list \<Rightarrow> pydict res" where
  "dict_display cols = res_map (\<lambda>(k, r). res_bind r (\<lambda>v. Inr (k, v))) cols"

definition base_result :: "'w host \<Rightarrow> results_request \<Rightarrow> pydict \<Rightarrow> pyval \<Rightarrow> selected_run \<Rightarrow> 'w \<Rightarrow> pydict res" where
  "base_result h rq data aggregate selected w =
     res_bind (memory_cleanup_result_fields h (sr_data_dir selected) (rr_drop_caches rq) w) (\<lambda>memory.
     res_bind (common_attempt_result_fields data) (\<lambda>attempts.
     res_bind (dict_display (row_columns rq data aggregate selected)) (\<lambda>columns.
     Inr (dict_update [] (memory @ attempts @ columns)))))"

definition add_details :: "(pyval \<Rightarrow> string) \<Rightarrow> results_request \<Rightarrow> pydict \<Rightarrow> pyval \<Rightarrow> pydict \<Rightarrow> pydict res" where
  "add_details dumps rq data aggregate result =
     (let given = (\<lambda>name r. if dict_get data name PNone \<noteq> PNone then flatten dumps name (dict_get data name PNone) r else r) in
      res_bind (py_get aggregate ''delivery_interarrival_ms'' (PDict [])) (\<lambda>interarrival.
      res_bind (py_get aggregate ''wait_ms'' (PDict [])) (\<lambda>waits.
      Inr (flatten dumps ''hardware_sync'' (dict_get data ''hardware_sync'' (PDict []))
            (given ''rate_monotonic'' (given ''deadline''
              (flatten dumps ''transition'' (dict_get data ''transition'' (PDict []))
                (flatten dumps ''wait_ms'' waits
                  (flatten dumps ''delivery_interarrival_ms'' interarrival
                    (flatten dumps ''physical'' (dict_get (rr_case rq) ''physical'' (PDict []))
                      (flatten dumps ''workload'' (dict_get (rr_case rq) ''workload'' (PDict []))
                        (flatten dumps ''cpu_isolation'' (PDict (rr_isolation rq)) result))))))))))))"

definition finish_result ::
  "(pyval \<Rightarrow> string) \<Rightarrow> 'w host \<Rightarrow> results_request \<Rightarrow> pydict \<Rightarrow> pyval \<Rightarrow> selected_run \<Rightarrow> pydict \<Rightarrow> 'w \<Rightarrow> pydict res" where
  "finish_result dumps h rq data aggregate selected result w =
     res_bind (add_details dumps rq data aggregate result) (\<lambda>r1.
     res_bind (add_camera_results r1 data (rr_slots rq)) (\<lambda>r2.
     res_bind (add_trace_results h (sr_data_dir selected) w r2) (\<lambda>r3.
     res_bind (add_kernel_results dumps h (sr_data_dir selected) w r3) (\<lambda>r4.
     add_pre_run_reset_results h (rr_record_dir rq) w r4))))"

definition parse_steady_results ::
  "(pyval \<Rightarrow> string) \<Rightarrow> 'w host \<Rightarrow> 'w procs \<Rightarrow> noise_config \<Rightarrow> results_request \<Rightarrow> (noise_obj \<times> 'w, pydict) py" where
  "parse_steady_results dumps h p cfg rq =
     (if rr_slots rq < 1 then py_raise (Exn ValueError ''camera_result_slots must be at least one'')
      else
        py_bind (ask_res (json_or_empty h (rr_record_dir rq @ [''steady_summary.json'']))) (\<lambda>v.
        py_bind (ask_res (resolve_selected_attempt h (rr_record_dir rq))) (\<lambda>selected.
        case v of
          PDict data \<Rightarrow>
            let aggregate = dict_get data ''aggregate'' (PDict []) in
            py_bind (ask_res (base_result h rq data aggregate selected)) (\<lambda>r0.
            py_bind (add_noise_results dumps h p cfg (rr_run_variables rq) (sr_data_dir selected) r0) (\<lambda>r1.
            ask_res (finish_result dumps h rq data aggregate selected r1)))
        | _ \<Rightarrow> py_raise (Exn AttributeError ''get''))))"

section \<open>Lemmas\<close>

subsection \<open>Steps that extend a row\<close>

text \<open>
  \<open>extends K r r'\<close>: \<open>r'\<close> comes from \<open>r\<close> by assignments to keys in \<open>K\<close>. The other columns keep their values
  and their order, and new columns are added at the end.
\<close>

definition extends :: "(string \<Rightarrow> bool) \<Rightarrow> pydict \<Rightarrow> pydict \<Rightarrow> bool" where
  "extends K r r' \<longleftrightarrow> (\<forall>k. \<not> K k \<longrightarrow> map_of r' k = map_of r k) \<and>
     (\<exists>ks. map fst r' = map fst r @ ks \<and> list_all K ks \<and> (distinct (map fst r) \<longrightarrow> distinct (map fst r')))"

named_theorems extends_intros \<open>structural rules for rows that grow\<close>

lemma extends_refl [extends_intros]: "extends K r r"
  by (simp add: extends_def)

lemma extends_trans: "extends K r r' \<Longrightarrow> extends K r' r'' \<Longrightarrow> extends K r r''"
  unfolding extends_def by fastforce

lemma extends_mono: "extends K r r' \<Longrightarrow> (\<And>k. K k \<Longrightarrow> K' k) \<Longrightarrow> extends K' r r'"
  unfolding extends_def list_all_iff by blast

lemma extends_set: "K k \<Longrightarrow> extends K r (dict_set k v r)"
  unfolding extends_def by (auto simp: update_keys)

lemma extends_set_after [extends_intros]: "K k \<Longrightarrow> extends K r r' \<Longrightarrow> extends K r (dict_set k v r')"
  by (rule extends_trans [OF _ extends_set])

lemma extends_update_after [extends_intros]: "list_all (K \<circ> fst) e \<Longrightarrow> extends K r r' \<Longrightarrow> extends K r (dict_update r' e)"
proof (induction e arbitrary: r')
  case (Cons a e)
  then have "extends K r (dict_set (fst a) (snd a) r')" by (auto intro: extends_set_after)
  then show ?case using Cons by (cases a) auto
qed simp

lemma extends_if [extends_intros]: "(b \<Longrightarrow> extends K r r1) \<Longrightarrow> (\<not> b \<Longrightarrow> extends K r r2) \<Longrightarrow> extends K r (if b then r1 else r2)"
  by simp

lemma extends_value: "extends K r r' \<Longrightarrow> \<not> K k \<Longrightarrow> map_of r' k = map_of r k"
  by (simp add: extends_def)

lemma extends_get: "extends K r r' \<Longrightarrow> \<not> K k \<Longrightarrow> dict_get r' k v = dict_get r k v"
  by (simp add: dict_get_def extends_value)

lemma extends_keys:
  assumes "extends K r r'"
  shows "prefix (map fst r) (map fst r')" "distinct (map fst r) \<Longrightarrow> distinct (map fst r')"
  using assms by (auto simp: extends_def)

lemma extends_filter: "extends K r r' \<Longrightarrow> (\<And>k. K k \<Longrightarrow> \<not> P k) \<Longrightarrow> filter P (map fst r') = filter P (map fst r)"
  unfolding extends_def list_all_iff by (auto simp: filter_empty_conv)

lemma extends_flatten_aux:
  "pre \<noteq> [] \<Longrightarrow> (\<And>k. prefix pre k \<Longrightarrow> K k) \<Longrightarrow> extends K out (flatten dumps pre v out)"
  "pre \<noteq> [] \<Longrightarrow> (\<And>k. prefix pre k \<Longrightarrow> K k) \<Longrightarrow> extends K out (flatten_items dumps pre d out)"
proof (induction dumps pre v out and dumps pre d out rule: flatten_flatten_items.induct)
  case (5 dumps pre key child d out)
  have sub: "K k" if "prefix (pre @ ''_'' @ key) k" for k
    using 5(4) [OF append_prefixD [OF that]] .
  have "extends K out (flatten dumps (pre @ ''_'' @ key) child out)" using 5(1,3) sub by auto
  moreover have "extends K (flatten dumps (pre @ ''_'' @ key) child out) (flatten_items dumps pre d (flatten dumps (pre @ ''_'' @ key) child out))"
    using 5(2-4) by simp
  ultimately show ?case using 5(3) by (simp add: extends_trans)
qed (auto intro: extends_set extends_refl)

lemma extends_flatten [extends_intros]:
  "pre \<noteq> [] \<Longrightarrow> (\<And>k. prefix pre k \<Longrightarrow> K k) \<Longrightarrow> extends K r r' \<Longrightarrow> extends K r (flatten dumps pre v r')"
  using extends_trans extends_flatten_aux(1) by blast

text \<open>Fresh columns are appended.\<close>

lemma dict_set_fresh: "k \<notin> fst ` set r \<Longrightarrow> dict_set k v r = r @ [(k, v)]"
  by (induction r) auto

lemma dict_update_fresh:
  "distinct (map fst e) \<Longrightarrow> fst ` set e \<inter> fst ` set r = {} \<Longrightarrow> dict_update r e = r @ e"
proof (induction e arbitrary: r)
  case (Cons a e)
  obtain k v where a: "a = (k, v)" by (cases a)
  have "dict_set k v r = r @ [(k, v)]" using Cons.prems a by (intro dict_set_fresh) auto
  then show ?case using Cons a by auto
qed simp

subsection \<open>The columns of a row\<close>

definition MEMORY_KEYS :: "string list" where
  "MEMORY_KEYS = [''memory_cleanup_enabled'', ''memory_cleanup_recorded'', ''memory_cleanup_success'', ''memory_cleanup_duration_ms'',
     ''memory_available_before_kib'', ''memory_available_after_kib'', ''memory_cached_before_kib'', ''memory_cached_after_kib'',
     ''memory_sreclaimable_before_kib'', ''memory_sreclaimable_after_kib'']"

definition ATTEMPT_KEYS :: "string list" where
  "ATTEMPT_KEYS = [''attempt_count'', ''failed_attempt_count'', ''initial_attempt_success'', ''eventual_success'', ''selected_attempt'',
     ''recovery_attempted'', ''recovery_count'', ''recovery_method'', ''recovery_success'', ''recovery_error'']"

definition ROW_KEYS :: "string list" where
  "ROW_KEYS =
     [''success'', ''error'', ''backend'', ''policy_requested'', ''process_launch_policy_effective'', ''main_thread_policy_effective'',
      ''steady_worker_policy_effective'', ''deadline_profile_applied'', ''rate_monotonic_profile_applied''] @
     map fst hardware_sync_defaults @
     [''cpu_noise_mode'', ''cpu_noise_enabled'', ''memory_noise_mode'', ''memory_noise_enabled'', ''gpu_noise_mode'', ''gpu_noise_enabled'',
      ''usb_storage_noise_mode'', ''usb_storage_noise_enabled'', ''camera_count'', ''fixed_event_storage'',
      ''deliveries'', ''frames'', ''drops'', ''timeouts'', ''pre_measurement_timeouts'', ''measurement_timeouts'', ''observed_frames'',
      ''unique_frames'', ''duplicate_frames'', ''sequence_gaps'', ''nonadvancing_frames'', ''out_of_order_frames'', ''fully_fresh_framesets'',
      ''partially_stale_framesets'', ''stale_framesets'', ''freshness_analysis_ms'', ''measurement_mode'',
      ''measurement_requested_duration_ms'', ''measurement_duration_ms''] @
     map fst transition_defaults @ [''record_data_dir'', ''selected_attempt_data_dir'', ''artifact_layout'']"

definition RESULT_KEYS :: "string list" where
  "RESULT_KEYS = MEMORY_KEYS @ ATTEMPT_KEYS @ ROW_KEYS"

definition camera_key :: "nat \<Rightarrow> string \<Rightarrow> string" where
  "camera_key i key = ''camera_'' @ str_nat i @ ''_'' @ key"

definition CAMERA_KEYS :: "string list" where
  "CAMERA_KEYS = CAMERA_SCALAR_RESULT_KEYS @ map (\<lambda>k. ''interarrival_ms_'' @ k) CAMERA_INTERARRIVAL_RESULT_KEYS @
     map (\<lambda>k. ''storage_'' @ k) CAMERA_STORAGE_RESULT_KEYS"

definition camera_columns :: "nat \<Rightarrow> string list" where
  "camera_columns slots = concat (map (\<lambda>i. map (camera_key i) CAMERA_KEYS) [0..<slots])"

lemma RESULT_KEYS_distinct: "distinct RESULT_KEYS"
  by code_simp

lemma RESULT_KEYS_camera: "filter (prefix ''camera_'') RESULT_KEYS = [''camera_count'']"
  by code_simp

lemma CAMERA_KEYS_distinct: "distinct CAMERA_KEYS"
  by code_simp

lemma dict_display_keys: "dict_display cols = Inr d \<Longrightarrow> map fst d = map fst cols"
  unfolding dict_display_def by (erule res_map_projection) (auto simp: res_bind_def split: sum.splits)

lemma dict_display_value:
  "dict_display cols = Inr d \<Longrightarrow> map_of cols k = Some (Inr v) \<Longrightarrow> map_of d k = Some v"
  by (induction cols arbitrary: d) (auto simp: dict_display_def res_bind_def split: sum.splits if_splits)

lemma row_columns_keys: "map fst (row_columns rq data aggregate selected) = ROW_KEYS"
  by (simp add: row_columns_def ROW_KEYS_def Let_def noise_mode_columns_def aggregate_columns_def comp_def split_def)

lemma memory_fields_keys: "memory_cleanup_result_fields h p c w = Inr f \<Longrightarrow> map fst f = MEMORY_KEYS"
  by (auto simp: memory_cleanup_result_fields_def MEMORY_KEYS_def res_bind_def Let_def split: sum.splits)

lemma attempt_fields_keys: "common_attempt_result_fields data = Inr f \<Longrightarrow> map fst f = ATTEMPT_KEYS"
  by (auto simp: common_attempt_result_fields_def ATTEMPT_KEYS_def res_bind_def Let_def split: sum.splits)

lemma base_result_row:
  assumes "base_result h rq data aggregate selected w = Inr r"
  shows "map fst r = RESULT_KEYS" "map_of r ''success'' = Some (dict_get data ''success'' (PBool False))"
proof -
  obtain m a c where parts: "memory_cleanup_result_fields h (sr_data_dir selected) (rr_drop_caches rq) w = Inr m"
    "common_attempt_result_fields data = Inr a" "dict_display (row_columns rq data aggregate selected) = Inr c"
    and r: "r = dict_update [] (m @ a @ c)"
    using assms by (auto simp: base_result_def res_bind_def split: sum.splits)
  have keys: "map fst m = MEMORY_KEYS" "map fst a = ATTEMPT_KEYS" "map fst c = ROW_KEYS"
    using parts memory_fields_keys attempt_fields_keys dict_display_keys row_columns_keys by metis+
  have "distinct (map fst (m @ a @ c))" using RESULT_KEYS_distinct unfolding RESULT_KEYS_def map_append keys .
  then have all: "r = m @ a @ c" unfolding r by (subst dict_update_fresh) simp_all
  then show "map fst r = RESULT_KEYS" by (simp add: RESULT_KEYS_def keys)
  have "map_of (row_columns rq data aggregate selected) ''success'' = Some (Inr (dict_get data ''success'' (PBool False)))"
    by (simp add: row_columns_def Let_def)
  then have "map_of c ''success'' = Some (dict_get data ''success'' (PBool False))" by (rule dict_display_value [OF parts(3)])
  moreover have "map_of m ''success'' = None" "map_of a ''success'' = None"
    unfolding map_of_eq_None_iff using keys by (simp_all add: MEMORY_KEYS_def ATTEMPT_KEYS_def flip: set_map)
  ultimately show "map_of r ''success'' = Some (dict_get data ''success'' (PBool False))" by (simp add: all map_add_def)
qed

subsection \<open>Camera columns\<close>

lemma camera_key_inj: "camera_key i k = camera_key j l \<longleftrightarrow> i = j \<and> k = l"
proof -
  have "takeWhile is_digit (str_nat i @ ''_'' @ k) = str_nat i" for i k
    using str_nat_digits [of i] by (simp add: takeWhile_append2 list_all_iff is_digit_def char_code_def)
  then show ?thesis unfolding camera_key_def by (metis append_same_eq same_append_eq str_nat_inj)
qed

lemma camera_columns_distinct: "distinct (camera_columns n)"
proof (induction n)
  case (Suc n)
  have "camera_columns (Suc n) = camera_columns n @ map (camera_key n) CAMERA_KEYS" by (simp add: camera_columns_def)
  moreover have "camera_key n k \<notin> set (camera_columns n)" for k by (auto simp: camera_columns_def camera_key_inj)
  moreover have "distinct (map (camera_key n) CAMERA_KEYS)" by (simp add: distinct_map CAMERA_KEYS_distinct inj_on_def camera_key_inj)
  ultimately show ?case using Suc by auto
qed (simp add: camera_columns_def)

lemma res_map_keys:
  "res_map (\<lambda>key. res_bind (f key) (\<lambda>v. Inr (g key, v))) ks = Inr d \<Longrightarrow> map fst d = map g ks"
  by (erule res_map_projection) (auto simp: res_bind_def split: sum.splits)

lemma camera_slot_keys: "camera_slot cs i = Inr d \<Longrightarrow> map fst d = map (camera_key i) CAMERA_KEYS"
  by (auto simp: camera_slot_def Let_def CAMERA_KEYS_def camera_key_def comp_def res_bind_Inr_iff dest!: res_map_keys)

lemma camera_columns_camera: "filter (prefix ''camera_'') (camera_columns n) = camera_columns n"
  by (auto simp: filter_id_conv camera_columns_def camera_key_def)

lemma add_camera_update:
  assumes "add_camera_results r data slots = Inr r'"
  obtains e where "r' = dict_update r e" "map fst e = camera_columns (nat slots)" "fst ` set e = set (camera_columns (nat slots))"
proof -
  obtain cs rows where rows: "res_map (camera_slot cs) [0..<nat slots] = Inr rows" and r': "r' = dict_update r (concat rows)"
    using assms by (auto simp: add_camera_results_def Let_def res_bind_Inr_iff split: if_splits)
  have "map (map fst) rows = map (\<lambda>i. map (camera_key i) CAMERA_KEYS) [0..<nat slots]"
    using rows by (rule res_map_projection) (rule camera_slot_keys)
  then have keys: "map fst (concat rows) = camera_columns (nat slots)" by (simp add: camera_columns_def map_concat)
  then have "fst ` set (concat rows) = set (camera_columns (nat slots))" by (metis set_map)
  with that r' keys show thesis by blast
qed

lemma add_camera_keys:
  assumes "add_camera_results r data slots = Inr r'" "set (map fst r) \<inter> set (camera_columns (nat slots)) = {}"
  shows "map fst r' = map fst r @ camera_columns (nat slots)"
proof -
  obtain e where e: "r' = dict_update r e" "map fst e = camera_columns (nat slots)" "fst ` set e = set (camera_columns (nat slots))"
    using assms(1) by (rule add_camera_update)
  have "dict_update r e = r @ e" by (rule dict_update_fresh) (use assms(2) e camera_columns_distinct in auto)
  then show ?thesis by (simp add: e)
qed

lemma add_camera_success:
  assumes "add_camera_results r data slots = Inr r'"
  shows "map_of r' ''success'' = map_of r ''success''"
proof -
  obtain e where e: "r' = dict_update r e" "fst ` set e = set (camera_columns (nat slots))"
    using assms by (rule add_camera_update)
  then show ?thesis by (simp add: map_of_dict_update_other camera_columns_def camera_key_def image_iff)
qed

text \<open>Whether the camera columns can be made does not depend on the row.\<close>

lemma add_camera_returns: "add_camera_results r data slots = Inr x \<Longrightarrow> \<exists>r''. add_camera_results r' data slots = Inr r''"
  by (auto simp: add_camera_results_def Let_def res_bind_Inr_iff split: if_splits)

subsection \<open>Noise columns\<close>

definition noise_shaped :: "noise_artifacts \<Rightarrow> bool" where
  "noise_shaped a \<longleftrightarrow> na_prefix a \<in> range noise_prefix \<and> set (map fst (na_extra a)) \<subseteq> {''gpu_noise_model_param_sha256''}"

definition detail_key :: "string \<Rightarrow> bool" where
  "detail_key k \<longleftrightarrow> k \<noteq> ''success'' \<and> k \<noteq> ''error'' \<and> \<not> prefix ''camera_'' k"

lemma detail_key_prefix:
  "prefix pre k \<Longrightarrow> pre \<noteq> [] \<Longrightarrow> hd pre \<notin> {CHR ''s'', CHR ''e'', CHR ''c''} \<Longrightarrow> detail_key k"
  "prefix ''cpu_'' k \<Longrightarrow> detail_key k"
  by (auto simp: detail_key_def prefix_def) (cases pre; auto)+

lemma detail_prefixes: "prefix ''cpu_isolation'' k \<Longrightarrow> detail_key k"
  by (auto simp: detail_key_def prefix_def)

lemma detail_key_noise: "prefix (noise_prefix wl) k \<Longrightarrow> detail_key k"
  by (cases wl) (auto intro: detail_key_prefix simp: prefix_def)

lemma workload_artifacts_shaped:
  "workload_artifacts h p cfg wl mode d s = (Inr a, s') \<Longrightarrow> noise_shaped a"
proof -
  assume run: "workload_artifacts h p cfg wl mode d s = (Inr a, s')"
  have gpu: "''gpu_noise'' \<in> range noise_prefix" by (rule image_eqI [of _ _ GpuNoise]) simp_all
  have "wp (workload_artifacts h p cfg wl mode d) (\<lambda>a _. noise_shaped a) (\<lambda>_ _. True) s"
    unfolding workload_artifacts_def
    by (auto simp: wp_def py_defs noise_shaped_def gpu split: prod.splits sum.splits)
  from wp_returns [OF run this] show "noise_shaped a" .
qed

lemma py_map_all:
  assumes "py_map xs f s = (Inr ys, s')" "\<And>x y s s'. f x s = (Inr y, s') \<Longrightarrow> P y"
  shows "list_all P ys"
  using assms(1) by (induction xs arbitrary: s ys s')
    (auto simp: py_bind_def py_return_def split: prod.splits sum.splits intro: assms(2))

lemma suite_artifacts_shaped: "suite_artifacts h p cfg modes d s = (Inr as, s') \<Longrightarrow> list_all noise_shaped as"
  unfolding suite_artifacts_def
  by (erule py_map_all) (auto simp: py_defs split: prod.splits sum.splits intro: workload_artifacts_shaped)

text \<open>The columns of a workload, and its verdict on the run.\<close>

lemma noise_columns_result:
  assumes "noise_columns dumps a r = Inr r'" "noise_shaped a"
  shows "extends (\<lambda>k. \<not> prefix ''camera_'' k) r r'"
    "map_of r' ''success'' = (if na_valid a then map_of r ''success'' else Some (PBool False))"
proof -
  obtain r3 where r3: "extends detail_key r r3"
    and r': "r' = r3 \<and> na_valid a \<or> \<not> na_valid a \<and> (\<exists>v. r' = dict_set ''error'' v (dict_set ''success'' (PBool False) r3))"
  proof -
    obtain wl where wl: "na_prefix a = noise_prefix wl" using assms(2) by (auto simp: noise_shaped_def)
    have own: "detail_key (noise_prefix wl @ k)" for k by (rule detail_key_noise [of wl]) simp
    have extra: "list_all (detail_key \<circ> fst) (na_extra a)"
      using assms(2) by (auto simp: noise_shaped_def list_all_iff detail_key_def)
    have nonempty: "noise_prefix wl \<noteq> []" by (cases wl) auto
    obtain r1 r2 r3 ready code forced where
      r1: "r1 = dict_update r [(noise_prefix wl @ ''_ready'', ready), (noise_prefix wl @ ''_process_returncode'', code), (noise_prefix wl @ ''_forced_kill'', forced)]"
      and r2: "r2 = (if truthy (na_summary a) then flatten dumps (noise_prefix wl) (na_summary a) r1 else r1)"
      and r3: "r3 = dict_set (noise_prefix wl @ ''_valid'') (PBool (na_valid a)) (dict_update r2 (na_extra a))"
      and r': "r' = (if na_valid a then r3
        else dict_set ''error'' (PStr (strip_bars (py_str (dict_get r3 ''error'' (PStr [])) @ '' | '' @ na_error a))) (dict_set ''success'' (PBool False) r3))"
      using assms(1) by (simp add: noise_columns_def res_bind_Inr_iff Let_def wl split del: if_split) (metis (no_types, lifting) sum.inject(2))
    have "extends detail_key r r1" unfolding r1 by (rule extends_update_after) (simp_all add: own extends_refl)
    then have "extends detail_key r r2" unfolding r2 by (auto intro!: extends_flatten [OF nonempty] intro: detail_key_noise)
    then have "extends detail_key r r3" unfolding r3 by (intro extends_set_after extends_update_after own extra)
    then show thesis by (rule that) (use r' in auto)
  qed
  have wide: "extends (\<lambda>k. \<not> prefix ''camera_'' k) r r3" using r3 by (rule extends_mono) (simp add: detail_key_def)
  then show "extends (\<lambda>k. \<not> prefix ''camera_'' k) r r'" using r' by (auto intro!: extends_set_after)
  have "map_of r3 ''success'' = map_of r ''success''" using r3 by (rule extends_value) (simp add: detail_key_def)
  then show "map_of r' ''success'' = (if na_valid a then map_of r ''success'' else Some (PBool False))" using r' by auto
qed

lemma noise_rows_result:
  assumes "noise_rows dumps as r = Inr r'" "list_all noise_shaped as"
  shows "extends (\<lambda>k. \<not> prefix ''camera_'' k) r r' \<and>
    map_of r' ''success'' = (if list_all na_valid as then map_of r ''success'' else Some (PBool False))"
  using assms
proof (induction as arbitrary: r)
  case (Cons a as)
  then obtain r1 where r1: "noise_columns dumps a r = Inr r1" and rest: "noise_rows dumps as r1 = Inr r'"
    by (auto simp: res_bind_Inr_iff)
  note first = noise_columns_result [OF r1]
  from Cons.IH [OF rest] Cons.prems(2) first show ?case by (auto intro: extends_trans)
qed (simp add: extends_refl)

lemma add_noise_result:
  assumes "add_noise_results dumps h p cfg vars d r s = (Inr r', s')"
  obtains modes as where "run_modes vars = Inr modes" "suite_artifacts h p cfg modes d s = (Inr as, s')"
    "extends (\<lambda>k. \<not> prefix ''camera_'' k) r r'"
    "map_of r' ''success'' = (if list_all na_valid as then map_of r ''success'' else Some (PBool False))"
proof -
  obtain modes as where run: "run_modes vars = Inr modes" "suite_artifacts h p cfg modes d s = (Inr as, s')" "noise_rows dumps as r = Inr r'"
    using assms by (auto simp: add_noise_results_def py_bind_def py_res_def split: prod.splits sum.splits)
  from noise_rows_result [OF run(3) suite_artifacts_shaped [OF run(2)]] that run show thesis by blast
qed

subsection \<open>The other steps\<close>

lemma add_details_extends: "add_details dumps rq data aggregate r = Inr r' \<Longrightarrow> extends detail_key r r'"
  by (auto simp: add_details_def Let_def res_bind_Inr_iff simp del: flatten.simps intro!: extends_intros intro: detail_key_prefix detail_prefixes)

lemma add_trace_extends: "add_trace_results h d w r = Inr r' \<Longrightarrow> extends detail_key r r'"
  by (auto simp: add_trace_results_def Let_def res_bind_Inr_iff detail_key_def prefix_def simp del: dict_update_Cons intro!: extends_intros split: if_splits)

lemma add_kernel_extends: "add_kernel_results dumps h d w r = Inr r' \<Longrightarrow> extends detail_key r r'"
  by (auto simp: add_kernel_results_def Let_def res_bind_Inr_iff detail_key_def prefix_def simp del: dict_update_Cons intro!: extends_intros)

lemma add_reset_extends: "add_pre_run_reset_results h d w r = Inr r' \<Longrightarrow> extends detail_key r r'"
  by (auto simp: add_pre_run_reset_results_def Let_def res_bind_Inr_iff detail_key_def prefix_def simp del: dict_update_Cons intro!: extends_intros)

text \<open>The steps after the noise: they leave the verdict alone and add the camera columns once.\<close>

lemma finish_result_row:
  assumes "finish_result dumps h rq data aggregate selected r w = Inr row" "filter (prefix ''camera_'') (map fst r) = [''camera_count'']"
    and "distinct (map fst r)"
  shows "prefix (map fst r) (map fst row)" "distinct (map fst row)" "map_of row ''success'' = map_of r ''success''"
    "filter (prefix ''camera_'') (map fst row) = ''camera_count'' # camera_columns (nat (rr_slots rq))"
proof -
  obtain r1 r2 r3 r4 where steps: "add_details dumps rq data aggregate r = Inr r1" "add_camera_results r1 data (rr_slots rq) = Inr r2"
    "add_trace_results h (sr_data_dir selected) w r2 = Inr r3" "add_kernel_results dumps h (sr_data_dir selected) w r3 = Inr r4"
    "add_pre_run_reset_results h (rr_record_dir rq) w r4 = Inr row"
    using assms(1) by (auto simp: finish_result_def res_bind_Inr_iff)
  note first = add_details_extends [OF steps(1)]
  have last: "extends detail_key r2 row"
    using add_trace_extends [OF steps(3)] add_kernel_extends [OF steps(4)] add_reset_extends [OF steps(5)] by (blast intro: extends_trans)
  have no_camera: "detail_key k \<Longrightarrow> \<not> prefix ''camera_'' k" for k by (simp add: detail_key_def)
  note f1 = extends_filter [OF first no_camera]
  have count: "''camera_count'' \<notin> set (camera_columns (nat (rr_slots rq)))"
  proof
    assume "''camera_count'' \<in> set (camera_columns (nat (rr_slots rq)))"
    then obtain i k where "''camera_count'' = camera_key i k" by (auto simp: camera_columns_def)
    then have "''count'' = str_nat i @ ''_'' @ k" by (simp add: camera_key_def)
    then have "hd (str_nat i) = CHR ''c''" by (metis hd_append2 list.sel(1) str_nat_nonempty)
    then have "CHR ''c'' \<in> set (str_nat i)" by (metis hd_in_set str_nat_nonempty)
    then show False using str_nat_no_char [of "CHR ''c''" i] by (simp add: is_digit_def char_code_def)
  qed
  have only: "set (filter (prefix ''camera_'') (map fst r1)) = {''camera_count''}" using f1 assms(2) by simp
  have fresh: "set (map fst r1) \<inter> set (camera_columns (nat (rr_slots rq))) = {}"
  proof (rule ccontr)
    assume "set (map fst r1) \<inter> set (camera_columns (nat (rr_slots rq))) \<noteq> {}"
    then obtain k where k: "k \<in> set (map fst r1)" "k \<in> set (camera_columns (nat (rr_slots rq)))" by blast
    from k(2) have "prefix ''camera_'' k" by (auto simp: camera_columns_def camera_key_def)
    then have "k \<in> set (filter (prefix ''camera_'') (map fst r1))" using k(1) by simp
    then have "k = ''camera_count''" unfolding only by simp
    then show False using k(2) count by simp
  qed
  note r2 = add_camera_keys [OF steps(2) fresh]
  show "filter (prefix ''camera_'') (map fst row) = ''camera_count'' # camera_columns (nat (rr_slots rq))"
    using extends_filter [OF last no_camera] f1 assms(2) by (simp add: r2 camera_columns_camera)
  show "prefix (map fst r) (map fst row)"
    using extends_keys(1) [OF first] extends_keys(1) [OF last] r2 by (metis prefix_order.trans prefixI)
  have "distinct (map fst r2)" using extends_keys(2) [OF first] assms(3) fresh camera_columns_distinct unfolding r2 by auto
  then show "distinct (map fst row)" by (rule extends_keys(2) [OF last])
  have "map_of r2 ''success'' = map_of r1 ''success''"
    using steps(2) by (rule add_camera_success)
  then show "map_of row ''success'' = map_of r ''success''"
    using extends_value [OF first, of "''success''"] extends_value [OF last, of "''success''"] by (simp add: detail_key_def)
qed

lemma py_bind_Inr: "py_bind m f s = (Inr b, s') \<longleftrightarrow> (\<exists>a s1. m s = (Inr a, s1) \<and> f a s1 = (Inr b, s'))"
  by (auto simp: py_bind_def split: prod.splits sum.splits)

lemma ask_res_Inr: "ask_res f (ob, w) = (Inr a, s') \<longleftrightarrow> f w = Inr a \<and> s' = (ob, w)"
  by (auto simp: ask_res_def)

lemma parse_results_cases:
  assumes "parse_steady_results dumps h p cfg rq (ob, w) = (Inr row, ob', w')"
  obtains data selected r0 r1 s1 where
    "json_or_empty h (rr_record_dir rq @ [''steady_summary.json'']) w = Inr (PDict data)"
    "resolve_selected_attempt h (rr_record_dir rq) w = Inr selected"
    "base_result h rq data (dict_get data ''aggregate'' (PDict [])) selected w = Inr r0"
    "add_noise_results dumps h p cfg (rr_run_variables rq) (sr_data_dir selected) r0 (ob, w) = (Inr r1, s1)"
    "finish_result dumps h rq data (dict_get data ''aggregate'' (PDict [])) selected r1 (snd s1) = Inr row"
proof -
  have slots: "\<not> rr_slots rq < 1" using assms by (auto simp: parse_steady_results_def py_raise_def)
  obtain v selected where v: "json_or_empty h (rr_record_dir rq @ [''steady_summary.json'']) w = Inr v"
    and selected: "resolve_selected_attempt h (rr_record_dir rq) w = Inr selected"
    using assms slots by (auto simp: parse_steady_results_def py_bind_Inr ask_res_Inr)
  obtain data where data: "v = PDict data"
    using assms slots v selected by (cases v) (auto simp: parse_steady_results_def py_bind_Inr ask_res_Inr py_raise_def)
  let ?agg = "dict_get data ''aggregate'' (PDict [])"
  obtain r0 r1 s1 where steps: "base_result h rq data ?agg selected w = Inr r0"
    "add_noise_results dumps h p cfg (rr_run_variables rq) (sr_data_dir selected) r0 (ob, w) = (Inr r1, s1)"
    "ask_res (finish_result dumps h rq data ?agg selected r1) s1 = (Inr row, ob', w')"
    using assms slots v selected by (auto simp: parse_steady_results_def py_bind_Inr ask_res_Inr Let_def data)
  have "finish_result dumps h rq data ?agg selected r1 (snd s1) = Inr row" using steps(3) by (cases s1) (simp add: ask_res_Inr)
  then show thesis using that v selected steps(1,2) unfolding data by blast
qed

text \<open>
  C37. The columns of the result rows. Benchkit takes the header of the CSV file from the first row. Every row
  begins with the same columns in the same order, whatever the run left behind; it has the
  columns of every configured camera slot, in order and once, and no other camera column than their number; and
  no column occurs twice.
\<close>

theorem steady_row_schema:
  assumes "parse_steady_results dumps h p cfg rq (ob, w) = (Inr row, ob', w')"
  shows "prefix RESULT_KEYS (map fst row) \<and> distinct (map fst row) \<and>
    filter (prefix ''camera_'') (map fst row) = ''camera_count'' # camera_columns (nat (rr_slots rq))"
  using assms
proof (rule parse_results_cases)
  fix data selected r0 r1 s1
  assume r0: "base_result h rq data (dict_get data ''aggregate'' (PDict [])) selected w = Inr r0"
    and noise: "add_noise_results dumps h p cfg (rr_run_variables rq) (sr_data_dir selected) r0 (ob, w) = (Inr r1, s1)"
    and fin: "finish_result dumps h rq data (dict_get data ''aggregate'' (PDict [])) selected r1 (snd s1) = Inr row"
  have keys: "map fst r0 = RESULT_KEYS" using r0 by (rule base_result_row)
  have step: "extends (\<lambda>k. \<not> prefix ''camera_'' k) r0 r1" using noise by (rule add_noise_result)
  have "filter (prefix ''camera_'') (map fst r1) = [''camera_count'']"
    using extends_filter [OF step] by (simp add: keys RESULT_KEYS_camera)
  note row = finish_result_row [OF fin this extends_keys(2) [OF step]]
  from row extends_keys(1) [OF step] show ?thesis
    by (auto simp: keys RESULT_KEYS_distinct intro: prefix_order.trans)
qed

text \<open>
  C36. The verdict of a row: a run counts as a success exactly when its summary says so and every workload that
  was to disturb it ran as configured. A missing summary counts as a failure.
\<close>

theorem steady_row_success:
  assumes "parse_steady_results dumps h p cfg rq (ob, w) = (Inr row, ob', w')"
  shows "\<exists>data modes selected as s'.
    json_or_empty h (rr_record_dir rq @ [''steady_summary.json'']) w = Inr (PDict data) \<and>
    resolve_selected_attempt h (rr_record_dir rq) w = Inr selected \<and> run_modes (rr_run_variables rq) = Inr modes \<and>
    suite_artifacts h p cfg modes (sr_data_dir selected) (ob, w) = (Inr as, s') \<and>
    (truthy (dict_get row ''success'' PNone) \<longleftrightarrow> truthy (dict_get data ''success'' (PBool False)) \<and> list_all na_valid as)"
  using assms
proof (rule parse_results_cases)
  fix data selected r0 r1 s1
  assume data: "json_or_empty h (rr_record_dir rq @ [''steady_summary.json'']) w = Inr (PDict data)"
    and selected: "resolve_selected_attempt h (rr_record_dir rq) w = Inr selected"
    and r0: "base_result h rq data (dict_get data ''aggregate'' (PDict [])) selected w = Inr r0"
    and noise: "add_noise_results dumps h p cfg (rr_run_variables rq) (sr_data_dir selected) r0 (ob, w) = (Inr r1, s1)"
    and fin: "finish_result dumps h rq data (dict_get data ''aggregate'' (PDict [])) selected r1 (snd s1) = Inr row"
  note base = base_result_row [OF r0]
  from noise obtain modes as where modes: "run_modes (rr_run_variables rq) = Inr modes"
    and as: "suite_artifacts h p cfg modes (sr_data_dir selected) (ob, w) = (Inr as, s1)"
    and step: "extends (\<lambda>k. \<not> prefix ''camera_'' k) r0 r1"
    and verdict: "map_of r1 ''success'' = (if list_all na_valid as then map_of r0 ''success'' else Some (PBool False))"
    by (rule add_noise_result)
  have "filter (prefix ''camera_'') (map fst r1) = [''camera_count'']"
    using extends_filter [OF step] by (simp add: base(1) RESULT_KEYS_camera)
  from finish_result_row(3) [OF fin this] extends_keys(2) [OF step]
  have "map_of row ''success'' = map_of r1 ''success''" by (simp add: base(1) RESULT_KEYS_distinct)
  then have "truthy (dict_get row ''success'' PNone) \<longleftrightarrow> truthy (dict_get data ''success'' (PBool False)) \<and> list_all na_valid as"
    by (simp add: dict_get_def verdict base(2))
  with data selected modes as show ?thesis by blast
qed

lemma noise_rows_returns:
  "list_all (\<lambda>a. (\<exists>d. na_ready a = PDict d) \<and> (\<exists>d. na_process a = PDict d)) as \<Longrightarrow> \<exists>r'. noise_rows dumps as r = Inr r'"
proof (induction as arbitrary: r)
  case (Cons a as)
  then have "\<exists>r1. noise_columns dumps a r = Inr r1" by (cases "na_valid a") (auto simp: noise_columns_def Let_def)
  with Cons show ?case by auto
qed simp

definition demo_request :: results_request where
  "demo_request = \<lparr>rr_record_dir = [''r''], rr_case = [(''workload'', PDict [(''name'', PStr ''a'')])],
     rr_run_variables = [(''policy'', PStr ''other''), (''cpu_noise'', PStr ''busy_loop''), (''memory_noise'', PStr ''none''),
       (''usb_storage_noise'', PStr ''none''), (''gpu_noise'', PStr ''none'')],
     rr_backend = ''rsusb'', rr_policies = [(''other'', ''SCHED_OTHER'')], rr_drop_caches = False, rr_isolation = [], rr_slots = 1\<rparr>"

definition demo_summary :: pydict where
  "demo_summary = [(''success'', PBool True), (''cameras'', PList [PDict [(''index'', PInt 0), (''serial'', PStr ''b'')]])]"

definition demo_run :: sim where
  "demo_run = sim_empty\<lparr>sim_files := [([''r'', ''steady_summary.json''], [])], sim_json := [([''r'', ''steady_summary.json''], PDict demo_summary)]\<rparr>"

definition demo_selected :: selected_run where
  "demo_selected = \<lparr>sr_run_dir = [''r''], sr_attempt = 1, sr_data_dir = [''r''], sr_layout = ''legacy-promoted-root''\<rparr>"

definition demo_modes :: modes where
  "demo_modes = [(''cpu_noise'', ''busy_loop''), (''memory_noise'', ''none''), (''usb_storage_noise'', ''none''), (''gpu_noise'', ''none'')]"

lemma demo_artifacts:
  "\<exists>as ob'. suite_artifacts sim_host sim_procs noise_demo_config demo_modes [''r''] (noise_init, demo_run) = (Inr as, ob', demo_run) \<and>
     map na_valid as = [False, True, True, True] \<and> map na_ready as = replicate 4 (PDict []) \<and> map na_process as = replicate 4 (PDict [])"
proof -
  have "case suite_artifacts sim_host sim_procs noise_demo_config demo_modes [''r''] (noise_init, demo_run) of (Inl _, _) \<Rightarrow> False
    | (Inr as, ob, w) \<Rightarrow> w = demo_run \<and> map na_valid as = [False, True, True, True] \<and>
        map na_ready as = replicate 4 (PDict []) \<and> map na_process as = replicate 4 (PDict [])"
    by code_simp
  then show ?thesis by (auto split: prod.splits sum.splits)
qed

lemma demo_base: "\<exists>r. base_result sim_host demo_request demo_summary (PDict []) demo_selected demo_run = Inr r"
proof -
  have "case base_result sim_host demo_request demo_summary (PDict []) demo_selected demo_run of Inl _ \<Rightarrow> False | Inr _ \<Rightarrow> True" by code_simp
  then show ?thesis by (auto split: sum.splits)
qed

lemma demo_finish: "\<exists>row. finish_result dumps sim_host demo_request demo_summary (PDict []) demo_selected r demo_run = Inr row"
proof -
  have "case add_camera_results [] demo_summary (rr_slots demo_request) of Inl _ \<Rightarrow> False | Inr _ \<Rightarrow> True" by code_simp
  then obtain x where x: "add_camera_results [] demo_summary (rr_slots demo_request) = Inr x" by (auto split: sum.splits)
  obtain r1 where r1: "add_details dumps demo_request demo_summary (PDict []) r = Inr r1" by (simp add: add_details_def Let_def)
  obtain r2 where r2: "add_camera_results r1 demo_summary (rr_slots demo_request) = Inr r2" using add_camera_returns [OF x] by blast
  show ?thesis unfolding finish_result_def r1 r2 res_bind_simps
    by (simp add: add_trace_results_def add_kernel_results_def add_pre_run_reset_results_def json_or_empty_def
        interrupt_totals_def demo_selected_def demo_request_def demo_run_def sim_host_def Let_def)
qed

lemma demo_row:
  "\<exists>row ob'. parse_steady_results dumps sim_host sim_procs noise_demo_config demo_request (noise_init, demo_run) = (Inr row, ob', demo_run)"
proof -
  obtain r0 where r0: "base_result sim_host demo_request demo_summary (PDict []) demo_selected demo_run = Inr r0" using demo_base by blast
  obtain as ob' where as: "suite_artifacts sim_host sim_procs noise_demo_config demo_modes [''r''] (noise_init, demo_run) = (Inr as, ob', demo_run)"
    and docs: "map na_ready as = replicate 4 (PDict [])" "map na_process as = replicate 4 (PDict [])" using demo_artifacts by blast
  have "\<exists>r1. noise_rows dumps as r0 = Inr r1"
  proof (rule noise_rows_returns, unfold list_all_iff, intro ballI conjI)
    fix a assume "a \<in> set as"
    then have "na_ready a \<in> set (map na_ready as)" "na_process a \<in> set (map na_process as)" by auto
    then show "\<exists>d. na_ready a = PDict d" "\<exists>d. na_process a = PDict d" unfolding docs by auto
  qed
  then obtain r1 where r1: "noise_rows dumps as r0 = Inr r1" by blast
  obtain row where row: "finish_result dumps sim_host demo_request demo_summary (PDict []) demo_selected r1 demo_run = Inr row" using demo_finish by blast
  have v: "json_or_empty sim_host [''r'', ''steady_summary.json''] demo_run = Inr (PDict demo_summary)" by code_simp
  have sel: "resolve_selected_attempt sim_host [''r''] demo_run = Inr demo_selected" by code_simp
  have modes: "run_modes (rr_run_variables demo_request) = Inr demo_modes" by code_simp
  have req: "rr_slots demo_request = 1" "rr_record_dir demo_request = [''r'']" "sr_data_dir demo_selected = [''r'']"
    by (simp_all add: demo_request_def demo_selected_def)
  have agg: "dict_get demo_summary ''aggregate'' (PDict []) = PDict []" by (simp add: demo_summary_def dict_get_def)
  show ?thesis
    by (simp add: parse_steady_results_def py_bind_def py_res_def ask_res_def req v sel agg r0 add_noise_results_def modes as r1 row Let_def)
qed

theorem steady_row_schema_witness:
  "\<exists>row ob' w'. parse_steady_results (\<lambda>_. ''[]'') sim_host sim_procs noise_demo_config demo_request (noise_init, demo_run) = (Inr row, ob', w') \<and>
     prefix RESULT_KEYS (map fst row) \<and> filter (prefix ''camera_'') (map fst row) = ''camera_count'' # camera_columns 1"
proof -
  obtain row ob' where run: "parse_steady_results (\<lambda>_. ''[]'') sim_host sim_procs noise_demo_config demo_request (noise_init, demo_run) = (Inr row, ob', demo_run)"
    using demo_row by blast
  have "nat (rr_slots demo_request) = 1" by (simp add: demo_request_def)
  with steady_row_schema [OF run] run show ?thesis by auto
qed

theorem steady_row_success_witness:
  "\<exists>row ob' w'. parse_steady_results (\<lambda>_. ''[]'') sim_host sim_procs noise_demo_config demo_request (noise_init, demo_run) = (Inr row, ob', w') \<and>
     \<not> truthy (dict_get row ''success'' PNone)"
proof -
  obtain row ob' where run: "parse_steady_results (\<lambda>_. ''[]'') sim_host sim_procs noise_demo_config demo_request (noise_init, demo_run) = (Inr row, ob', demo_run)"
    using demo_row by blast
  have facts: "run_modes (rr_run_variables demo_request) = Inr demo_modes" "resolve_selected_attempt sim_host (rr_record_dir demo_request) demo_run = Inr demo_selected"
    "sr_data_dir demo_selected = [''r'']" by code_simp+
  obtain as ob'' where as: "suite_artifacts sim_host sim_procs noise_demo_config demo_modes [''r''] (noise_init, demo_run) = (Inr as, ob'', demo_run)"
    "map na_valid as = [False, True, True, True]" using demo_artifacts by (elim exE conjE) (rule that)
  have "\<not> list_all na_valid as" using as(2) by (auto simp: list_all_iff map_eq_Cons_conv)
  with steady_row_success [OF run] facts as(1) run show ?thesis by auto
qed

end
