(* ===== verification/Camera_Load.thy ===== *)
theory Camera_Load
  imports Noise_Workloads
begin

text \<open>
  \<open>tools/realsense_timerlat_bench/timerlat_workload.py\<close>: the camera probe that runs as a load while Timerlat samples
  the machine. The object keeps the handle of the child process; \<open>json.loads\<close> of a line of the life-cycle file is the
  parameter \<open>loads\<close>. The paths that the object holds before \<open>start\<close> are \<open>None\<close>.
\<close>

section \<open>Definitions\<close>

text \<open>The scan of the life-cycle file for a phase marker.\<close>

fun marker_in :: "(string \<Rightarrow> pyval res) \<Rightarrow> string \<Rightarrow> string list \<Rightarrow> bool res" where
  "marker_in loads marker [] = Inr False"
| "marker_in loads marker (line # ls) =
     (case loads line of
        Inl e \<Rightarrow> if exn_kind e = JSONDecodeError then marker_in loads marker ls else Inl e
      | Inr event \<Rightarrow>
          res_bind (py_get event ''event'' PNone) (\<lambda>kind.
          res_bind (py_get event ''name'' PNone) (\<lambda>name.
          if py_eq kind (PStr ''phase_marker'') \<and> py_eq name (PStr marker) then Inr True else marker_in loads marker ls)))"

definition phase_marker_seen :: "'w host \<Rightarrow> (string \<Rightarrow> pyval res) \<Rightarrow> path \<Rightarrow> string \<Rightarrow> 'w \<Rightarrow> bool res" where
  "phase_marker_seen h loads p marker w =
     (if \<not> h_is_file h p w then Inr False
      else case h_read_text h p w of
             Inl (HOSError m) \<Rightarrow> Inr False
           | Inl e \<Rightarrow> Inl (host_exn e)
           | Inr text \<Rightarrow> marker_in loads marker (splitlines text))"

record load_settings =
  lc_probe :: path
  lc_repo_root :: path
  lc_serials :: "string list"
  lc_duration_seconds :: int
  lc_warmup_seconds :: int
  lc_guard_seconds :: int

record load_obj =
  lo_process :: "nat option"
  lo_command :: "string list"
  lo_summary_path :: "path option"
  lo_lifecycle_path :: "path option"
  lo_started_ns :: int
  lo_ready_ns :: int

definition load_init :: load_obj where
  "load_init = \<lparr>lo_process = None, lo_command = [], lo_summary_path = None, lo_lifecycle_path = None, lo_started_ns = 0, lo_ready_ns = 0\<rparr>"

definition load_running :: "'w procs \<Rightarrow> (load_obj \<times> 'w, bool) py" where
  "load_running p =
     py_bind (self_get lo_process) (\<lambda>process.
     case process of None \<Rightarrow> py_return False | Some pid \<Rightarrow> py_bind (do_poll p pid) (\<lambda>r. py_return (r = None)))"

definition load_frames :: "load_settings \<Rightarrow> int \<Rightarrow> int" where
  "load_frames cfg fps = (lc_duration_seconds cfg + lc_warmup_seconds cfg + lc_guard_seconds cfg) * fps"

text \<open>The options of the command that are read from the camera of the case.\<close>

definition camera_option :: "pyval \<Rightarrow> string \<times> string \<Rightarrow> string list res" where
  "camera_option camera = (\<lambda>(option, key). res_bind (py_item camera key) (\<lambda>v. Inr [option, py_str v]))"

definition load_arguments :: "load_settings \<Rightarrow> pyval \<Rightarrow> int \<Rightarrow> path \<Rightarrow> path \<Rightarrow> string list res" where
  "load_arguments cfg camera fps summary_path events_path =
     res_bind (res_map (camera_option camera) [(''--camera-count'', ''count''), (''--stream-mode'', ''stream_mode'')]) (\<lambda>first.
     res_bind (py_get camera ''delivery'' (PStr ''wait'')) (\<lambda>delivery.
     res_bind (res_map (camera_option camera)
       [(''--warmup-frames'', ''warmup_frames''), (''--frame-timeout-ms'', ''frame_timeout_ms''), (''--startup-timeout-ms'', ''startup_timeout_ms'')]) (\<lambda>second.
     res_bind (res_map (camera_option camera)
       [(''--depth-width'', ''depth_width''), (''--depth-height'', ''depth_height''), (''--color-width'', ''color_width''), (''--color-height'', ''color_height'')]) (\<lambda>third.
     Inr ([''chrt'', ''--other'', ''0'', path_str (lc_probe cfg)] @ concat (map (\<lambda>s. [''--serial'', s]) (lc_serials cfg)) @ concat first @
       [''--delivery'', py_str delivery, ''--frames'', str_int (load_frames cfg fps)] @ concat second @ [''--fps'', str_int fps] @ concat third @
       [''--summary-output'', path_str summary_path, ''--events-output'', path_str events_path])))))"

definition load_build_command :: "load_settings \<Rightarrow> pydict \<Rightarrow> path \<Rightarrow> (load_obj \<times> 'w, string list) py" where
  "load_build_command cfg case_doc record_dir =
     py_bind (py_res (py_item (PDict case_doc) ''camera'')) (\<lambda>camera.
     py_bind (py_res (res_bind (py_item camera ''fps'') py_intv)) (\<lambda>fps.
     let summary_path = record_dir @ [''camera_summary.json''] in
     py_seq (self_upd (\<lambda>ob. ob\<lparr>lo_summary_path := Some summary_path, lo_lifecycle_path := Some (record_dir @ [''camera_lifecycle.jsonl''])\<rparr>))
       (py_res (load_arguments cfg camera fps summary_path (record_dir @ [''camera_frame_events.csv''])))))"

definition load_launch :: "'w host \<Rightarrow> 'w procs \<Rightarrow> path \<Rightarrow> string list \<Rightarrow> (load_obj \<times> 'w, unit) py" where
  "load_launch h p record_dir command =
     py_seq (self_upd (\<lambda>ob. ob\<lparr>lo_command := command\<rparr>))
    (py_seq (do_write_text h (record_dir @ [''camera_stdout.txt'']) [])
    (py_seq (do_write_text h (record_dir @ [''camera_stderr.txt'']) [])
    (py_bind (do_boottime_ns h) (\<lambda>t.
     py_seq (self_upd (\<lambda>ob. ob\<lparr>lo_started_ns := t\<rparr>))
    (py_bind (do_spawn p command [(''RS_THREAD_TRACE_FILE'', path_str (record_dir @ [''camera_lifecycle.jsonl'']))]) (\<lambda>pid.
     self_upd (\<lambda>ob. ob\<lparr>lo_process := Some pid\<rparr>)))))))"

definition load_start :: "'w host \<Rightarrow> 'w procs \<Rightarrow> load_settings \<Rightarrow> pydict \<Rightarrow> path \<Rightarrow> (load_obj \<times> 'w, unit) py" where
  "load_start h p cfg case_doc record_dir =
     py_bind (self_get lo_process) (\<lambda>process.
     if process \<noteq> None then py_raise (Exn RuntimeError ''Camera load is already active'')
     else py_bind (load_build_command cfg case_doc record_dir) (load_launch h p record_dir))"

text \<open>What \<open>wait_until_steady\<close> answers.\<close>

datatype readiness =
    LoadReady int int "string list"
  | LoadExited int "string list"
  | LoadTimedOut "int option" "string list"

text \<open>One round of the wait: \<open>Some None\<close> is the end of the loop at the deadline.\<close>

definition steady_round :: "'w host \<Rightarrow> 'w procs \<Rightarrow> (string \<Rightarrow> pyval res) \<Rightarrow> nat \<Rightarrow> path \<Rightarrow> rat \<Rightarrow> (load_obj \<times> 'w, readiness option option) py" where
  "steady_round h p loads pid lifecycle_path deadline =
     py_bind (do_monotonic h) (\<lambda>t.
     if \<not> t < deadline then py_return (Some None)
     else
       py_bind (ask_res (phase_marker_seen h loads lifecycle_path ''steady_state_begin'')) (\<lambda>seen.
       if seen then
         py_bind (do_boottime_ns h) (\<lambda>ready.
         py_seq (self_upd (\<lambda>ob. ob\<lparr>lo_ready_ns := ready\<rparr>))
           (py_bind (self_get (\<lambda>ob. LoadReady (lo_started_ns ob) (lo_ready_ns ob) (lo_command ob))) (\<lambda>r. py_return (Some (Some r)))))
       else
         py_bind (do_poll p pid) (\<lambda>polled.
         case polled of
           Some rc \<Rightarrow> py_bind (self_get lo_command) (\<lambda>command. py_return (Some (Some (LoadExited rc command))))
         | None \<Rightarrow> py_seq (do_sleep h (5 / 100)) (py_return None))))"

definition steady_fuel :: "rat \<Rightarrow> nat" where
  "steady_fuel timeout = Suc (quanta_left (5 / 100) timeout)"

definition wait_until_steady :: "'w host \<Rightarrow> 'w procs \<Rightarrow> (string \<Rightarrow> pyval res) \<Rightarrow> rat \<Rightarrow> (load_obj \<times> 'w, readiness) py" where
  "wait_until_steady h p loads timeout =
     py_bind (self_get (\<lambda>ob. (lo_process ob, lo_lifecycle_path ob))) (\<lambda>handles.
     case handles of
       (Some pid, Some lifecycle_path) \<Rightarrow>
         py_bind (do_monotonic h) (\<lambda>t.
         py_bind (py_loop (steady_fuel timeout) (steady_round h p loads pid lifecycle_path (t + timeout))) (\<lambda>r.
         case r of
           Some answer \<Rightarrow> py_return answer
         | None \<Rightarrow>
             py_bind (do_poll p pid) (\<lambda>polled.
             py_bind (self_get lo_command) (\<lambda>command. py_return (LoadTimedOut polled command)))))
     | _ \<Rightarrow> py_raise (Exn RuntimeError ''Camera load was not started''))"

definition read_summary :: "'w host \<Rightarrow> (load_obj \<times> 'w, pyval) py" where
  "read_summary h =
     py_bind (self_get lo_summary_path) (\<lambda>summary_path.
     case summary_path of
       None \<Rightarrow> py_return (PDict [])
     | Some q \<Rightarrow>
         py_bind (ask (h_is_file h q)) (\<lambda>found.
         if \<not> found then py_return (PDict [])
         else py_except [OSError, JSONDecodeError] (ask_res (\<lambda>w. of_host (h_read_json h q w))) (\<lambda>_. py_return (PDict []))))"

record load_end =
  le_returncode :: int
  le_terminated :: bool
  le_forced_kill :: bool
  le_started_ns :: int
  le_ready_ns :: int
  le_ended_ns :: int
  le_command :: "string list"

text \<open>The waits of \<open>finish\<close>: the exit code, and whether the process had to be terminated or killed.\<close>

definition end_process :: "'w procs \<Rightarrow> nat \<Rightarrow> rat \<Rightarrow> (load_obj \<times> 'w, int \<times> bool \<times> bool) py" where
  "end_process p pid timeout =
     py_except [TimeoutExpired]
       (py_bind (do_wait p pid timeout) (\<lambda>rc. py_return (rc, False, False)))
       (\<lambda>_. py_seq (do_signal (p_terminate p pid))
         (py_except [TimeoutExpired]
           (py_bind (do_wait p pid 5) (\<lambda>rc. py_return (rc, True, False)))
           (\<lambda>_. py_seq (do_signal (p_kill p pid)) (py_bind (do_wait p pid 5) (\<lambda>rc. py_return (rc, True, True))))))"

text \<open>The report of the end, after which the handle is dropped.\<close>

definition load_report :: "'w host \<Rightarrow> int \<times> bool \<times> bool \<Rightarrow> (load_obj \<times> 'w, load_end option) py" where
  "load_report h = (\<lambda>(rc, terminated, forced).
     py_bind (do_boottime_ns h) (\<lambda>t.
     py_bind (self_get (\<lambda>ob. \<lparr>le_returncode = rc, le_terminated = terminated, le_forced_kill = forced, le_started_ns = lo_started_ns ob,
         le_ready_ns = lo_ready_ns ob, le_ended_ns = t, le_command = lo_command ob\<rparr>)) (\<lambda>result.
     py_seq (self_upd (\<lambda>ob. ob\<lparr>lo_process := None\<rparr>)) (py_return (Some result)))))"

text \<open>\<open>None\<close> is the answer that nothing was started.\<close>

definition load_finish :: "'w host \<Rightarrow> 'w procs \<Rightarrow> rat \<Rightarrow> (load_obj \<times> 'w, load_end option) py" where
  "load_finish h p timeout =
     py_bind (self_get lo_process) (\<lambda>process.
     case process of
       None \<Rightarrow> py_return None
     | Some pid \<Rightarrow> py_bind (end_process p pid timeout) (load_report h))"

definition load_stop :: "'w host \<Rightarrow> 'w procs \<Rightarrow> (load_obj \<times> 'w, load_end option) py" where
  "load_stop h p = load_finish h p 0"

section \<open>Lemmas\<close>

text \<open>The laws of the suite for processes, and of the second clock: reading it takes no time back and starts nothing.\<close>

definition load_host :: "'w host \<Rightarrow> 'w procs \<Rightarrow> ('w \<Rightarrow> rat) \<Rightarrow> ('w \<Rightarrow> nat set) \<Rightarrow> bool" where
  "load_host h p now running \<longleftrightarrow> process_host h p now running \<and>
     (\<forall>w. running (snd (h_boottime_ns h w)) \<subseteq> running w \<and> now w \<le> now (snd (h_boottime_ns h w)))"

lemma load_hostD:
  assumes "load_host h p now running"
  shows "process_host h p now running" "h_boottime_ns h w = (t, w') \<Longrightarrow> running w' \<subseteq> running w \<and> now w \<le> now w'"
  using assms unfolding load_host_def by (auto, (metis snd_conv subsetD)+)

text \<open>Every process beyond those of \<open>R\<close> has its handle in the object.\<close>

definition owned :: "('w \<Rightarrow> nat set) \<Rightarrow> nat set \<Rightarrow> load_obj \<times> 'w \<Rightarrow> bool" where
  "owned running R s \<longleftrightarrow> running (snd s) \<subseteq> R \<union> set_option (lo_process (fst s))"

lemma owned_less: "owned running R (ob, w) \<Longrightarrow> running w' \<subseteq> running w \<Longrightarrow> lo_process ob' = lo_process ob \<Longrightarrow> owned running R (ob', w')"
  by (auto simp: owned_def)

abbreviation keeps_owned :: "('w \<Rightarrow> nat set) \<Rightarrow> (load_obj \<times> 'w, 'a) py \<Rightarrow> bool" where
  "keeps_owned running m \<equiv> \<forall>R s. owned running R s \<longrightarrow> wp m (\<lambda>_. owned running R) (\<lambda>_. owned running R) s"

lemma owned_spawned:
  "owned running R (ob, w) \<Longrightarrow> lo_process ob = None \<Longrightarrow> running w' \<subseteq> insert pid (running w) \<Longrightarrow> owned running R (ob\<lparr>lo_process := Some pid\<rparr>, w')"
  by (auto simp: owned_def)

lemma build_command_wp:
  assumes "owned running R (ob, w)" "lo_process ob = None"
  shows "wp (load_build_command cfg case_doc d) (\<lambda>_ s. owned running R s \<and> lo_process (fst s) = None) (\<lambda>_. owned running R) (ob, w)"
  using assms by (auto simp: load_build_command_def wp_simps owned_def Let_def split: sum.splits)

lemma load_launch_wp:
  assumes "load_host h p now running" "owned running R s" "lo_process (fst s) = None"
  shows "wp (load_launch h p d command) (\<lambda>_. owned running R) (\<lambda>_. owned running R) s"
proof (cases s)
  case (Pair ob w)
  note ph = load_hostD(1) [OF assms(1)]
  show ?thesis using assms(2,3) unfolding Pair load_launch_def
    by (auto simp: wp_simps owned_def split: prod.splits sum.splits
      dest!: process_hostD(5) [OF ph] load_hostD(2) [OF assms(1)] process_host_procs(1,2) [OF ph]) blast+
qed

lemma load_start_owned: "load_host h p now running \<Longrightarrow> keeps_owned running (load_start h p cfg case_doc d)"
proof (intro allI impI)
  fix R s assume lh: "load_host h p now running" and own: "owned running R s"
  obtain ob w where s: "s = (ob, w)" by (cases s)
  show "wp (load_start h p cfg case_doc d) (\<lambda>_. owned running R) (\<lambda>_. owned running R) s"
  proof (cases "lo_process ob")
    case (Some pid)
    then show ?thesis using own by (simp add: s load_start_def wp_simps)
  next
    case None
    have "wp (load_build_command cfg case_doc d) (\<lambda>command. wp (load_launch h p d command) (\<lambda>_. owned running R) (\<lambda>_. owned running R)) (\<lambda>_. owned running R) (ob, w)"
      by (rule wp_step [OF build_command_wp]) (use own None s load_launch_wp [OF lh] in auto)
    then show ?thesis using None by (simp add: s load_start_def wp_simps)
  qed
qed

subsection \<open>The wait\<close>

text \<open>The marker scan raises only for a line that is not an object, when \<open>loads\<close> raises only decoding errors.\<close>

definition decoder :: "(string \<Rightarrow> pyval res) \<Rightarrow> bool" where
  "decoder loads \<longleftrightarrow> (\<forall>line e. loads line = Inl e \<longrightarrow> exn_kind e = JSONDecodeError)"

lemma marker_in_error: "decoder loads \<Longrightarrow> marker_in loads marker ls = Inl e \<Longrightarrow> exn_kind e = AttributeError"
  by (induction ls) (auto simp: decoder_def res_bind_Inl_iff split: sum.splits if_splits dest: py_get_error_kind)

text \<open>What a round promises: \<open>w0\<close> is the world at the beginning of the wait.\<close>

definition answered :: "'w host \<Rightarrow> (string \<Rightarrow> pyval res) \<Rightarrow> nat \<Rightarrow> path \<Rightarrow> ('w \<Rightarrow> rat) \<Rightarrow> ('w \<Rightarrow> nat set) \<Rightarrow> rat \<Rightarrow> readiness option \<Rightarrow> 'w \<Rightarrow> bool" where
  "answered h loads pid q now running deadline r w \<longleftrightarrow>
     (case r of
        None \<Rightarrow> deadline \<le> now w
      | Some (LoadReady _ _ _) \<Rightarrow> (\<exists>w1. phase_marker_seen h loads q ''steady_state_begin'' w1 = Inr True)
      | Some (LoadExited _ _) \<Rightarrow> pid \<notin> running w
      | Some (LoadTimedOut _ _) \<Rightarrow> False)"

definition text_readable :: "'w host \<Rightarrow> bool" where
  "text_readable h \<longleftrightarrow> (\<forall>q w e. h_read_text h q w = Inl e \<longrightarrow> (\<exists>m. e = HOSError m))"

lemma phase_marker_error:
  "text_readable h \<Longrightarrow> decoder loads \<Longrightarrow> phase_marker_seen h loads q marker w = Inl e \<Longrightarrow> exn_kind e = AttributeError"
  by (auto simp: phase_marker_seen_def text_readable_def split: if_splits sum.splits host_error.splits dest: marker_in_error)

lemma steady_round_wp:
  assumes lh: "load_host h p now running" and "text_readable h" "decoder loads" "owned running R s"
  shows "wp (steady_round h p loads pid q deadline)
     (\<lambda>r s'. owned running R s' \<and> (case r of
        None \<Rightarrow> quanta_left (5 / 100) (deadline - now (snd s')) < quanta_left (5 / 100) (deadline - now (snd s))
      | Some a \<Rightarrow> answered h loads pid q now running deadline a (snd s')))
     (\<lambda>e s'. exn_kind e = AttributeError \<and> owned running R s') s"
proof -
  obtain ob w where s: "s = (ob, w)" by (cases s)
  note ph = load_hostD(1) [OF lh]
  note clock = process_hostD(1) [OF ph]
  obtain t w1 where t: "h_monotonic h w = (t, w1)" by fastforce
  have t1: "t = now w" "now w \<le> now w1" using advancing_clockD(1) [OF clock t] by auto
  have own: "owned running R (ob, w1)" using assms(4) process_hostD(2) [OF ph t] by (auto simp: s intro: owned_less)
  show ?thesis
  proof (cases "t < deadline")
    case False
    then show ?thesis using own t1 by (simp add: s steady_round_def wp_simps t answered_def)
  next
    case more: True
    obtain r w2 where poll: "p_poll p pid w1 = (r, w2)" by fastforce
    obtain b w3 where boot: "h_boottime_ns h w1 = (b, w3)" by fastforce
    show ?thesis
    proof (cases "phase_marker_seen h loads q ''steady_state_begin'' w1")
      case (Inl e)
      then show ?thesis using more own phase_marker_error [OF assms(2,3) Inl] by (simp add: s steady_round_def wp_simps t)
    next
      case (Inr seen)
      show ?thesis
      proof (cases seen)
        case True
        then have "\<exists>w1. phase_marker_seen h loads q ''steady_state_begin'' w1 = Inr True" using Inr by auto
        moreover have "owned running R (ob\<lparr>lo_ready_ns := b\<rparr>, w3)" using own load_hostD(2) [OF lh boot] by (auto intro: owned_less)
        ultimately show ?thesis using more True Inr by (simp add: s steady_round_def wp_simps t boot answered_def)
      next
        case False
        show ?thesis
        proof (cases r)
          case (Some rc)
          then have gone: "running w2 \<subseteq> running w1 - {pid}" using process_host_procs(4) [OF ph] poll by blast
          then have "owned running R (ob, w2)" using own by (auto intro: owned_less)
          then show ?thesis using more False Inr gone by (auto simp: s steady_round_def wp_simps t poll Some answered_def)
        next
          case None
          have p2: "now w1 \<le> now w2" "running w2 \<subseteq> running w1" using process_host_procs(3) [OF ph] poll None by auto
          let ?w = "h_sleep h (5 / 100) w2"
          have "now w + 5 / 100 \<le> now ?w" using advancing_clockD(2) [OF clock, of w2 "5 / 100"] t1 p2 by linarith
          then have "quanta_left (5 / 100) (deadline - now ?w) < quanta_left (5 / 100) (deadline - now w)"
            using more t1 by (intro quanta_left_decreases) auto
          moreover have "owned running R (ob, ?w)" using own p2 process_hostD(3) [OF ph, of "5 / 100" w2] by (auto intro: owned_less)
          ultimately show ?thesis using more False Inr by (simp add: s steady_round_def wp_simps t poll None)
        qed
      qed
    qed
  qed
qed

lemma poll_law:
  assumes "process_host h p now running" "p_poll p pid w = (x, w')"
  shows "now w \<le> now w' \<and> running w' \<subseteq> running w"
  using assms(1) [unfolded process_host_def, THEN conjunct2, THEN conjunct2, THEN conjunct2, THEN conjunct1, rule_format, OF assms(2)] by auto

lemma steady_loop_wp:
  assumes lh: "load_host h p now running" and "text_readable h" "decoder loads" "owned running R s"
    and "deadline - now (snd s) \<le> timeout"
  shows "wp (py_loop (steady_fuel timeout) (steady_round h p loads pid q deadline))
     (\<lambda>a s'. owned running R s' \<and> answered h loads pid q now running deadline a (snd s'))
     (\<lambda>e s'. exn_kind e = AttributeError \<and> owned running R s') s"
proof (rule py_loop_wp [where I = "owned running R" and f = "\<lambda>s. quanta_left (5 / 100) (deadline - now (snd s))"])
  show "wp (steady_round h p loads pid q deadline)
      (\<lambda>r s'. case r of None \<Rightarrow> owned running R s' \<and> quanta_left (5 / 100) (deadline - now (snd s')) < quanta_left (5 / 100) (deadline - now (snd s))
        | Some a \<Rightarrow> owned running R s' \<and> answered h loads pid q now running deadline a (snd s'))
      (\<lambda>e s'. exn_kind e = AttributeError \<and> owned running R s') s" if "owned running R s" for s
    by (rule wp_step [OF steady_round_wp [OF lh assms(2,3) that]]) (auto split: option.splits)
  show "quanta_left (5 / 100) (deadline - now (snd s)) < steady_fuel timeout"
    using assms(5) by (simp add: steady_fuel_def quanta_left_def less_Suc_eq_le nat_mono ceiling_mono)
qed (rule assms(4))

lemma wait_until_steady_wp:
  assumes lh: "load_host h p now running" and "text_readable h" "decoder loads" "owned running R (ob, w)"
    and "lo_process ob = Some pid" "lo_lifecycle_path ob = Some q"
  shows "wp (wait_until_steady h p loads timeout)
     (\<lambda>a s'. owned running R s' \<and> (case a of LoadTimedOut _ _ \<Rightarrow> now w + timeout \<le> now (snd s')
        | _ \<Rightarrow> answered h loads pid q now running (now w + timeout) (Some a) (snd s')))
     (\<lambda>e s'. exn_kind e = AttributeError \<and> owned running R s') (ob, w)"
proof -
  note ph = load_hostD(1) [OF lh]
  obtain t w1 where t: "h_monotonic h w = (t, w1)" by fastforce
  have t1: "t = now w" "now w \<le> now w1" using advancing_clockD(1) [OF process_hostD(1) [OF ph] t] by auto
  have own: "owned running R (ob, w1)" using assms(4) process_hostD(2) [OF ph t] by (auto intro: owned_less)
  have poll: "owned running R (ob', w3) \<and> now w2 \<le> now w3" if "owned running R (ob', w2)" "p_poll p pid w2 = (x, w3)" for ob' w2 w3 x
    using that(1) poll_law [OF ph that(2)] by (auto intro: owned_less)
  let ?Q = "\<lambda>a s'. owned running R s' \<and> (case a of LoadTimedOut _ _ \<Rightarrow> now w + timeout \<le> now (snd s')
        | _ \<Rightarrow> answered h loads pid q now running (now w + timeout) (Some a) (snd s'))"
  have "wp (py_loop (steady_fuel timeout) (steady_round h p loads pid q (t + timeout)))
     (\<lambda>r s'. wp (case r of Some answer \<Rightarrow> py_return answer
         | None \<Rightarrow> py_bind (do_poll p pid) (\<lambda>polled. py_bind (self_get lo_command) (\<lambda>command. py_return (LoadTimedOut polled command)))) ?Q
         (\<lambda>e s'. exn_kind e = AttributeError \<and> owned running R s') s')
     (\<lambda>e s'. exn_kind e = AttributeError \<and> owned running R s') (ob, w1)"
  proof (rule wp_step [OF steady_loop_wp [OF lh assms(2,3) own]])
    show "t + timeout - now (snd (ob, w1)) \<le> timeout" using t1 by simp
  next
    fix r s' assume a: "owned running R s' \<and> answered h loads pid q now running (t + timeout) r (snd s')"
    obtain ob2 w2 where s': "s' = (ob2, w2)" by (cases s')
    show "wp (case r of Some answer \<Rightarrow> py_return answer
         | None \<Rightarrow> py_bind (do_poll p pid) (\<lambda>polled. py_bind (self_get lo_command) (\<lambda>command. py_return (LoadTimedOut polled command)))) ?Q
         (\<lambda>e s'. exn_kind e = AttributeError \<and> owned running R s') s'"
    proof (cases r)
      case None
      then show ?thesis using a poll [of ob2 w2] t1 by (fastforce simp: s' wp_simps answered_def split: prod.splits)
    next
      case (Some x)
      then show ?thesis using a t1 by (cases x) (auto simp: wp_simps answered_def)
    qed
  qed
  then show ?thesis by (simp add: wait_until_steady_def wp_simps assms(5,6) t)
qed

subsection \<open>The end\<close>

lemma end_process_wp:
  assumes "load_host h p now running"
  shows "wp (end_process p pid timeout) (\<lambda>_ s. fst s = ob \<and> running (snd s) \<subseteq> running w - {pid}) (\<lambda>_ _. False) (ob, w)"
proof -
  note ph = load_hostD(1) [OF assms]
  obtain r1 w1 where r1: "p_wait p pid timeout w = (r1, w1)" by fastforce
  obtain r2 w2 where r2: "p_wait p pid 5 (p_terminate p pid w1) = (r2, w2)" by fastforce
  obtain rc w3 where r3: "p_wait p pid 5 (p_kill p pid w2) = (Inr rc, w3)" using process_host_procs(7) [OF ph] by blast
  have k: "running w3 \<subseteq> running w2 - {pid}" using process_host_procs(5) [OF ph r3] process_hostD(8) [OF ph, of pid w2] by blast
  show ?thesis
  proof (cases r1)
    case (Inr c)
    then show ?thesis using process_host_procs(5) [OF ph] r1 by (simp add: end_process_def wp_simps)
  next
    case (Inl e)
    then obtain m where e: "e = HTimeout m" and w1: "running w1 \<subseteq> running w" using process_host_procs(6) [OF ph] r1 by blast
    have t: "running (p_terminate p pid w1) \<subseteq> running w" using process_hostD(7) [OF ph, of pid w1] w1 by blast
    show ?thesis
    proof (cases r2)
      case (Inr c)
      then have "running w2 \<subseteq> running w - {pid}" using process_host_procs(5) [OF ph, of pid 5 "p_terminate p pid w1"] r2 t by blast
      then show ?thesis using Inr e Inl by (simp add: end_process_def wp_simps r1 r2)
    next
      case (Inl e2)
      then obtain m2 where e2: "e2 = HTimeout m2" and "running w2 \<subseteq> running w" using process_host_procs(6) [OF ph, of pid 5 "p_terminate p pid w1"] r2 t by blast
      then have "running w3 \<subseteq> running w - {pid}" using k by blast
      then show ?thesis using Inl e e2 \<open>r1 = Inl e\<close> by (simp add: end_process_def wp_simps r1 r2 r3)
    qed
  qed
qed

lemma load_finish_wp:
  assumes lh: "load_host h p now running" and "owned running R s"
  shows "wp (load_finish h p timeout) (\<lambda>_ s'. lo_process (fst s') = None \<and> running (snd s') \<subseteq> R) (\<lambda>_ _. False) s"
proof -
  obtain ob w where s: "s = (ob, w)" by (cases s)
  show ?thesis
  proof (cases "lo_process ob")
    case None
    then show ?thesis using assms(2) by (simp add: s load_finish_def wp_simps owned_def)
  next
    case (Some pid)
    let ?Q = "\<lambda>_ s'. lo_process (fst s') = None \<and> running (snd s') \<subseteq> R"
    have "wp (end_process p pid timeout) (\<lambda>a s'. wp (load_report h a) ?Q (\<lambda>_ _. False) s') (\<lambda>_ _. False) (ob, w)"
    proof (rule wp_step [OF end_process_wp [OF lh]])
      fix a :: "int \<times> bool \<times> bool" and s' assume gone: "fst s' = ob \<and> running (snd s') \<subseteq> running w - {pid}"
      obtain rc terminated forced where a: "a = (rc, terminated, forced)" by (cases a)
      obtain w1 where s': "s' = (ob, w1)" using gone by (cases s') auto
      obtain t w2 where t: "h_boottime_ns h w1 = (t, w2)" by fastforce
      have "running w2 \<subseteq> R" using gone assms(2) Some load_hostD(2) [OF lh t] by (auto simp: s s' owned_def)
      then show "wp (load_report h a) ?Q (\<lambda>_ _. False) s'" by (simp add: load_report_def a s' wp_simps t)
    qed
    then show ?thesis using Some by (simp add: s load_finish_def wp_bind wp_self)
  qed
qed

subsection \<open>Sequences of operations\<close>

text \<open>What a benchmark can do with the object, in any order; it goes on after an exception.\<close>

datatype load_op =
    OpStart pydict path
  | OpWait rat
  | OpPoll
  | OpSummary
  | OpFinish rat

fun load_step :: "'w host \<Rightarrow> 'w procs \<Rightarrow> (string \<Rightarrow> pyval res) \<Rightarrow> load_settings \<Rightarrow> load_op \<Rightarrow> load_obj \<times> 'w \<Rightarrow> load_obj \<times> 'w" where
  "load_step h p loads cfg (OpStart c d) s = snd (load_start h p cfg c d s)"
| "load_step h p loads cfg (OpWait t) s = snd (wait_until_steady h p loads t s)"
| "load_step h p loads cfg OpPoll s = snd (load_running p s)"
| "load_step h p loads cfg OpSummary s = snd (read_summary h s)"
| "load_step h p loads cfg (OpFinish t) s = snd (load_finish h p t s)"

lemma wp_snd: "wp m (\<lambda>_. P) (\<lambda>_. P) s \<Longrightarrow> P (snd (m s))"
  by (auto simp: wp_def split: prod.splits sum.splits)

lemma load_step_owned:
  assumes lh: "load_host h p now running" and "text_readable h" "decoder loads" "owned running R s"
  shows "owned running R (load_step h p loads cfg op s)"
proof -
  obtain ob w where s: "s = (ob, w)" by (cases s)
  show ?thesis
  proof (cases op)
    case (OpStart c d)
    then show ?thesis using wp_snd load_start_owned [OF lh] assms(4) by fastforce
  next
    case (OpWait t)
    show ?thesis
    proof (cases "lo_process ob \<noteq> None \<and> lo_lifecycle_path ob \<noteq> None")
      case True
      then obtain pid q where "lo_process ob = Some pid" "lo_lifecycle_path ob = Some q" by auto
      from wait_until_steady_wp [OF lh assms(2,3) assms(4) [unfolded s] this]
      have "wp (wait_until_steady h p loads t) (\<lambda>_. owned running R) (\<lambda>_. owned running R) s" unfolding s by (rule wp_mono) auto
      then show ?thesis using OpWait wp_snd by fastforce
    next
      case False
      then have "snd (wait_until_steady h p loads t s) = s"
        by (auto simp: wait_until_steady_def s py_bind_def self_get_def py_raise_def split: option.splits)
      then show ?thesis using OpWait assms(4) by simp
    qed
  next
    case OpPoll
    have polled: "owned running R (ob, w')" if "p_poll p pid w = (x, w')" for pid x w'
      using assms(4) poll_law [OF load_hostD(1) [OF lh] that] unfolding s by (auto intro: owned_less)
    then show ?thesis using OpPoll assms(4)
      by (auto simp: s load_running_def py_bind_def self_get_def do_poll_def py_return_def Let_def split: option.splits prod.splits)
  next
    case OpSummary
    then show ?thesis using assms(4)
      by (auto simp: s read_summary_def py_bind_def self_get_def ask_def ask_res_def py_except_def py_return_def split: option.splits sum.splits)
  next
    case (OpFinish t)
    have "wp (load_finish h p t) (\<lambda>_. owned running R) (\<lambda>_. owned running R) s"
      by (rule wp_mono [OF load_finish_wp [OF lh assms(4)]]) (auto simp: owned_def)
    then show ?thesis using OpFinish wp_snd by fastforce
  qed
qed



section \<open>A machine\<close>

lemma sim_load_host: "load_host sim_host sim_procs sim_now sim_running"
  using sim_process_host by (simp add: load_host_def sim_host_def)

lemma sim_text_readable: "text_readable sim_host"
  by (auto simp: text_readable_def sim_host_def split: option.splits)

definition demo_load_config :: load_settings where
  "demo_load_config = \<lparr>lc_probe = [''probe''], lc_repo_root = [], lc_serials = [''a''], lc_duration_seconds = 2, lc_warmup_seconds = 1, lc_guard_seconds = 1\<rparr>"

definition demo_load_case :: pydict where
  "demo_load_case = [(''camera'', PDict ([(''fps'', PInt 6), (''stream_mode'', PStr ''depth'')] @
     map (\<lambda>k. (k, PInt 1)) [''count'', ''warmup_frames'', ''frame_timeout_ms'', ''startup_timeout_ms'', ''depth_width'', ''depth_height'', ''color_width'', ''color_height'']))]"

definition demo_load_decoder :: "string \<Rightarrow> pyval res" where
  "demo_load_decoder line = (if line = ''m'' then Inr (PDict [(''event'', PStr ''phase_marker''), (''name'', PStr ''steady_state_begin'')])
     else Inl (Exn JSONDecodeError line))"

lemma demo_load_decoder_ok: "decoder demo_load_decoder"
  by (simp add: decoder_def demo_load_decoder_def)

definition demo_load_world :: sim where
  "demo_load_world = sim_empty\<lparr>sim_files := [([''r'', ''camera_lifecycle.jsonl''], ''x'' @ [CHR 0x0A] @ ''m'')]\<rparr>"

definition demo_load_ops :: "load_op list" where
  "demo_load_ops = [OpStart demo_load_case [''r''], OpWait 1, OpPoll, OpStart demo_load_case [''r'']]"


definition demo_load_obj :: load_obj where
  "demo_load_obj = load_init\<lparr>lo_process := Some 0, lo_lifecycle_path := Some [''r'', ''camera_lifecycle.jsonl'']\<rparr>"


end
