(* ===== verification/Spec2Isabelle.thy ===== *)
theory Spec2Isabelle
  imports System_Controls Recovery Deadline_Profile Timerlat_Parser Noise_Transition Calibration Pipeline V4l2_Trace Freshness_Trace Steady_Results Camera_Load
begin

text \<open>
  \<^bold>\<open>Verification of rs-camera.\<close>

  rs-camera measures Intel RealSense cameras on a Raspberry Pi 5. Python programs under \<open>src/tools\<close>
  configure the machine (CPU isolation, CPU frequency, USB binding), start C++ probes with and without
  interference workloads, retry and recover failed attempts, and turn the traces of a run into tables;
  \<open>src/reproduction\<close> runs all experiments of a paper across several kernels and reboots. This
  development models the Python programs that carry this logic and proves what makes them correct.

  \<^bold>\<open>How programs are modelled.\<close> \<open>Prelude\<close>: exceptions are values (\<open>'a res\<close>, with the class of the
  Python exception), effectful code is a state-and-exception function \<open>('s, 'a) py\<close> with a weakest
  precondition \<open>wp\<close>, and \<open>while\<close> loops are \<open>py_loop\<close> with fuel, whose exhaustion is the exception
  \<open>Diverged\<close> that no handler catches; strings are char lists, Python integers are \<open>int\<close> or \<open>nat\<close>, floats
  are exact rationals (rounding is not modelled), dictionaries are association lists in insertion
  order. \<open>Json\<close>: Python values and the operations \<open>get\<close>, \<open>[]\<close>, \<open>int\<close>, \<open>float\<close>, \<open>==\<close> on them. \<open>Host\<close>: the
  operating system as a record of operations on an abstract world (files, child processes, clocks);
  every program is parametric in it. \<open>Host_Sim\<close>: a small executable machine on which witnesses run.
  \<open>Csv\<close>, \<open>Bisect\<close>, \<open>Statistics\<close>, \<open>Trace_Line\<close>: the parts of the standard modules \<open>csv\<close>, \<open>bisect\<close>,
  \<open>statistics\<close> and \<open>re\<close> that the programs use. \<open>json.loads\<close>, third-party packages and child
  processes are parameters.

  \<^bold>\<open>Controlling the machine\<close> (\<open>src/tools/realsense_bench_common\<close>).
  \<^item> \<open>Cpu_List\<close>, \<open>Cpu_Isolation\<close>: \<open>cpu_isolation.py\<close>; the object of the class is a record. A failed preparation is
    rolled back, a restore undoes what was done and reports what it could not undo, CPU lists print and parse.
  \<^item> \<open>Devices\<close>: \<open>realsense_devices.py\<close>.
  \<^item> \<open>System_Controls\<close>: \<open>system_controls.py\<close>; clean-up runs every restoration whatever fails, a reachable
    object restores the machine, the CPU lock ends (21 polls of the 2-second deadline).
  \<^item> \<open>Attempts\<close>, \<open>Attempt_Adapters\<close>: \<open>attempts.py\<close>, \<open>results.py\<close>, \<open>steady_attempts.py\<close>: the retry loop
    refines a history of decisions; the locale \<open>attempt_adapter\<close> is interpreted for each classifier.
  \<^item> \<open>Recovery\<close>: \<open>recovery.py\<close>: every camera is reset once; polling for a device ends (one round per
    time quantum of the deadline).
  \<^item> \<open>Memory_Cleanup\<close>: \<open>memory.py\<close>: the hook that drops the caches fails or succeeds with its commands, and its record
    tells which.

  \<^bold>\<open>Workloads and calibration.\<close>
  \<^item> \<open>Noise_Workloads\<close>: \<open>noise_workloads.py\<close>: a start is all or nothing, processes are accounted for (fuel: one
    round per 10 ms of the ready timeout).
  \<^item> \<open>Noise_Transition\<close>: \<open>noise_transition.py\<close> as a step relation of the coordinator thread, the main
    thread and the environment; the gate opens only when the noise is ready, and \<open>finish\<close> returns.
  \<^item> \<open>Camera_Load\<close>: \<open>timerlat_workload.py\<close>: whatever is done with the object, \<open>stop\<close> ends the probe; the wait for its
    steady state ends (fuel: one round per 50 ms of the timeout).
  \<^item> \<open>Calibration\<close>: \<open>calibrate_startup_timings.py\<close>: a recommendation rests on validated trials.

  \<^bold>\<open>Reading traces.\<close>
  \<^item> \<open>Startup_Trace\<close>, \<open>Steady_Trace\<close>: \<open>parse_startup_trace.py\<close>, \<open>parse_steady_trace.py\<close>: scheduler
    intervals tile the window, thread records are consistent, response times decompose, coverage is bounded.
  \<^item> \<open>Deadline_Profile\<close>: \<open>generate_deadline_profile.py\<close>: a row leaves the margin over every observation.
  \<^item> \<open>Timerlat_Parser\<close>: \<open>timerlat_parser.py\<close>: quantiles are nearest ranks.
  \<^item> \<open>V4l2_Trace\<close>: \<open>parse_v4l2_diagnostic_trace.py\<close>: the binary format decodes back, events pair up, gaps
    account for the sequence numbers.
  \<^item> \<open>Overrun_Trace\<close>: \<open>parse_overrun_kernel_trace.py\<close>: interrupts are attributed to activations; where that
    attribution is exact, and where it is not.
  \<^item> \<open>Freshness_Trace\<close>: \<open>parse_freshness_kernel_trace.py\<close>: lookups in time windows and the classification of a gap.
  \<^item> \<open>Steady_Results\<close>: \<open>steady_results.py\<close>, \<open>artifacts.py\<close>: the row of a run; every row begins with the same
    columns and has those of every camera slot, and a run with invalid noise is not a success.
  \<^item> \<open>Statistics\<close>: the percentile functions of five programs; they agree (locale \<open>percentile_estimator\<close>).

  \<^bold>\<open>The reproduction\<close> (\<open>src/reproduction\<close>).
  \<^item> \<open>Kernel_Select\<close>: \<open>setup/kernel.py\<close>: the boot configuration it writes.
  \<^item> \<open>Reproduce\<close>: \<open>reproduce.py\<close>: the camera configuration, the preflight check and the run of a stage.
  \<^item> \<open>Pipeline\<close>: \<open>pipeline.py\<close>: the worker that runs the stages across reboots. The locale \<open>watched_world\<close>
    states that every operation keeps a property of the world unless a command is not admitted; it is
    interpreted on a machine that watches its commands. Stages run only in the right order, on the right kernel and
    recorded as active; a broken campaign is refused; the loop ends (14 rounds: one more than there are stages).

  \<^bold>\<open>Not modelled.\<close> Argument parsing, console output and the text of CSV and JSON reports; the
  campaign front ends (\<open>run_*_campaign.py\<close>, \<open>steady_benchmark.py\<close> and the rest of \<open>timerlat_benchmark.py\<close>), which
  assemble command lines for the benchkit package; the offline analyses that fit and plot numbers
  (\<open>analyze_*.py\<close>, \<open>summarize_*.py\<close>, \<open>build_startup_model.py\<close>, the scripts below
  \<open>reproduction/e*\<close>), whose results depend on floating-point rounding; \<open>reproduce.prepare\<close>, which edits shell
  scripts; the C and C++ probes and the shell scripts.
\<close>

end
